(* ===== verification/Prelude.thy ===== *)
theory Prelude imports Complex_Main "HOL-Library.Word" begin

text \<open>
  Shared vocabulary of the development: the result type of code that may throw, the two
  sequencing combinators every component is written with, decimal printing of numbers in
  error messages, byte strings and their little-endian integers, and slices of buffers.

  An exception of the JavaScript code is a value of \<open>js_error\<close>: \<open>Error m\<close> for
  \<open>throw new Error(m)\<close>, \<open>TypeError\<close> for the read of a property of \<open>null\<close> or \<open>undefined\<close>.
\<close>

section \<open>Results\<close>

datatype js_error = Error string | TypeError

type_synonym 'a result = "js_error + 'a"

abbreviation throw :: "string \<Rightarrow> 'a result" where
  "throw m \<equiv> Inl (Error m)"

named_theorems result_simps \<open>characterisations of successful and failing results\<close>

fun and_then :: "'e + 'a \<Rightarrow> ('a \<Rightarrow> 'e + 'b) \<Rightarrow> 'e + 'b" where
  "and_then (Inl e) f = Inl e"
| "and_then (Inr x) f = f x"

definition guard :: "bool \<Rightarrow> string \<Rightarrow> unit result" where
  "guard c m = (if c then Inr () else throw m)"

fun for_each :: "('a \<Rightarrow> unit result) \<Rightarrow> 'a list \<Rightarrow> unit result" where
  "for_each f [] = Inr ()"
| "for_each f (x # xs) = and_then (f x) (\<lambda>_. for_each f xs)"

fun map_result :: "('a \<Rightarrow> 'b result) \<Rightarrow> 'a list \<Rightarrow> 'b list result" where
  "map_result f [] = Inr []"
| "map_result f (x # xs) =
     and_then (f x) (\<lambda>y. and_then (map_result f xs) (\<lambda>ys. Inr (y # ys)))"

lemma and_then_eq_Inr [result_simps]:
  "and_then m f = Inr y \<longleftrightarrow> (\<exists>x. m = Inr x \<and> f x = Inr y)"
  by (cases m) auto

lemma and_then_eq_Inl [result_simps]:
  "and_then m f = Inl e \<longleftrightarrow> m = Inl e \<or> (\<exists>x. m = Inr x \<and> f x = Inl e)"
  by (cases m) auto

lemma guard_eq_Inr [result_simps]: "guard c m = Inr u \<longleftrightarrow> c"
  by (simp add: guard_def)

lemma guard_eq_Inl [result_simps]: "guard c m = Inl e \<longleftrightarrow> \<not> c \<and> e = Error m"
  by (auto simp: guard_def)

lemma guard_True [simp]: "guard True m = Inr ()"
  by (simp add: guard_def)

lemma guard_False [simp]: "guard False m = throw m"
  by (simp add: guard_def)

lemma for_each_eq_Inr [result_simps]:
  "for_each f xs = Inr u \<longleftrightarrow> (\<forall>x\<in>set xs. f x = Inr ())"
  by (induction xs) (auto simp: and_then_eq_Inr)

lemma for_each_cong [fundef_cong]:
  "xs = ys \<Longrightarrow> (\<And>x. x \<in> set ys \<Longrightarrow> f x = g x) \<Longrightarrow> for_each f xs = for_each g ys"
  by (induction ys arbitrary: xs) auto

lemma map_result_eq_Inr [result_simps]:
  "map_result f xs = Inr ys \<longleftrightarrow> list_all2 (\<lambda>x y. f x = Inr y) xs ys"
proof (induction xs arbitrary: ys)
  case Nil
  then show ?case by auto
next
  case (Cons x xs)
  then show ?case by (cases ys) (auto simp: and_then_eq_Inr)
qed

lemma result_cases [case_names Throws Returns]:
  obtains e where "(m :: 'a result) = Inl e" | x where "m = Inr x"
  by (cases m) auto

text \<open>Whether a computation returned, read as a boolean.\<close>

fun returns :: "'a result \<Rightarrow> bool" where
  "returns (Inl e) = False"
| "returns (Inr x) = True"

lemma returns_iff [result_simps]: "returns m \<longleftrightarrow> (\<exists>x. m = Inr x)"
  by (cases m) auto

section \<open>Effects\<close>

text \<open>A call with effects takes a state and returns a result with the next state; an exception
  keeps the effects that came before it.\<close>

type_synonym ('a, 's) effect = "'s \<Rightarrow> 'a result \<times> 's"

definition then_do :: "('a, 's) effect \<Rightarrow> ('a \<Rightarrow> ('b, 's) effect) \<Rightarrow> ('b, 's) effect" where
  "then_do m f s = (case m s of (Inl e, s') \<Rightarrow> (Inl e, s') | (Inr x, s') \<Rightarrow> f x s')"

definition give :: "'a \<Rightarrow> ('a, 's) effect" where
  "give x s = (Inr x, s)"

definition fail :: "string \<Rightarrow> ('a, 's) effect" where
  "fail m s = (throw m, s)"

definition lift_result :: "'a result \<Rightarrow> ('a, 's) effect" where
  "lift_result r s = (r, s)"

lemma then_do_simps [simp]:
  "m s = (Inl e, s') \<Longrightarrow> then_do m f s = (Inl e, s')"
  "m s = (Inr x, s') \<Longrightarrow> then_do m f s = f x s'"
  by (simp_all add: then_do_def)

lemma effect_simps [simp]:
  "give x s = (Inr x, s)" "fail m s = (throw m, s)" "lift_result r s = (r, s)"
  by (simp_all add: give_def fail_def lift_result_def)

lemma then_do_eq_Inr:
  "then_do m f s = (Inr y, s') \<longleftrightarrow> (\<exists>x s1. m s = (Inr x, s1) \<and> f x s1 = (Inr y, s'))"
  by (auto simp: then_do_def split: prod.splits sum.splits)

lemma then_do_cases:
  assumes "then_do m f s = (r, s')"
  obtains (throws) e where "m s = (Inl e, s')" "r = Inl e"
    | (returns) x s1 where "m s = (Inr x, s1)" "f x s1 = (r, s')"
  using assms by (auto simp: then_do_def split: prod.splits sum.splits)

text \<open>A property of the state that a call keeps, whether it returns or throws.\<close>

definition keeps :: "('s \<Rightarrow> bool) \<Rightarrow> ('a, 's) effect \<Rightarrow> bool" where
  "keeps P m \<longleftrightarrow> (\<forall>s r s'. P s \<longrightarrow> m s = (r, s') \<longrightarrow> P s')"

named_theorems keeps_intros \<open>calls that keep a property\<close>

lemma keepsI: "(\<And>s r s'. P s \<Longrightarrow> m s = (r, s') \<Longrightarrow> P s') \<Longrightarrow> keeps P m"
  by (auto simp: keeps_def)

lemma keepsD: "keeps P m \<Longrightarrow> P s \<Longrightarrow> m s = (r, s') \<Longrightarrow> P s'"
  by (auto simp: keeps_def)

lemma keeps_then_do [keeps_intros]:
  "keeps P m \<Longrightarrow> (\<And>x. keeps P (f x)) \<Longrightarrow> keeps P (then_do m f)"
  by (rule keepsI) (erule then_do_cases; blast dest: keepsD)

lemma keeps_give [keeps_intros]: "keeps P (give x)"
  by (simp add: keeps_def)

lemma keeps_fail [keeps_intros]: "keeps P (fail m)"
  by (simp add: keeps_def)

lemma keeps_lift_result [keeps_intros]: "keeps P (lift_result r)"
  by (simp add: keeps_def)

lemma keeps_if [keeps_intros]: "keeps P m \<Longrightarrow> keeps P n \<Longrightarrow> keeps P (if b then m else n)"
  by simp

lemma keeps_option [keeps_intros]:
  "keeps P m \<Longrightarrow> (\<And>x. keeps P (f x)) \<Longrightarrow> keeps P (case v of None \<Rightarrow> m | Some x \<Rightarrow> f x)"
  by (simp split: option.split)

section \<open>Invariants of a step relation\<close>

text \<open>What every step keeps, every run keeps.\<close>

locale step_invariant =
  fixes step :: "'s \<Rightarrow> 's \<Rightarrow> bool" and holds :: "'s \<Rightarrow> bool"
  assumes preserved: "step s s' \<Longrightarrow> holds s \<Longrightarrow> holds s'"
begin

lemma run: "step\<^sup>*\<^sup>* s s' \<Longrightarrow> holds s \<Longrightarrow> holds s'"
  by (induction rule: rtranclp_induct) (auto intro: preserved)

lemma run_between: "step\<^sup>*\<^sup>* s t \<Longrightarrow> step\<^sup>*\<^sup>* t u \<Longrightarrow> holds s \<Longrightarrow> holds t \<and> holds u"
  using run by blast

end

section \<open>Decimal printing\<close>

definition digit_char :: "nat \<Rightarrow> char" where
  "digit_char d = char_of (48 + d)"

function show_nat :: "nat \<Rightarrow> string" where
  "show_nat n =
     (if n < 10 then [digit_char n] else show_nat (n div 10) @ [digit_char (n mod 10)])"
  by pat_completeness auto
termination
  by (relation "measure id") auto

declare show_nat.simps [simp del]

lemma show_nat_nonempty [simp]: "show_nat n \<noteq> []"
  by (subst show_nat.simps) simp

lemma show_nat_chars: "c \<in> set (show_nat n) \<Longrightarrow> 48 \<le> (of_char c :: nat) \<and> (of_char c :: nat) \<le> 57"
proof (induction n rule: show_nat.induct)
  case (1 n)
  have digit: "48 \<le> (of_char (digit_char d) :: nat) \<and> (of_char (digit_char d) :: nat) \<le> 57"
    if "d < 10" for d
    using that by (simp add: digit_char_def)
  show ?case
  proof (cases "n < 10")
    case True
    with 1 digit show ?thesis by (simp add: show_nat.simps [of n])
  next
    case False
    with 1 digit [of "n mod 10"] show ?thesis by (auto simp: show_nat.simps [of n])
  qed
qed

definition show_int :: "int \<Rightarrow> string" where
  "show_int i = (if i < 0 then ''-'' @ show_nat (nat (- i)) else show_nat (nat i))"

section \<open>Safe integers\<close>

text \<open>\<open>Number.isSafeInteger\<close> bounds an integer by \<open>2^53 - 1\<close> in absolute value.\<close>

definition MAX_SAFE_INTEGER :: int where
  "MAX_SAFE_INTEGER = 9007199254740991"

definition safe_int :: "int \<Rightarrow> bool" where
  "safe_int i \<longleftrightarrow> \<bar>i\<bar> \<le> MAX_SAFE_INTEGER"

definition safe_nat :: "int \<Rightarrow> bool" where
  "safe_nat i \<longleftrightarrow> safe_int i \<and> 0 \<le> i"

lemma safe_nat_bounds [result_simps]: "safe_nat i \<longleftrightarrow> 0 \<le> i \<and> i \<le> 9007199254740991"
  by (auto simp: safe_nat_def safe_int_def MAX_SAFE_INTEGER_def)

section \<open>Bytes\<close>

type_synonym byte = "8 word"
type_synonym bytes = "byte list"

text \<open>\<open>Buffer.subarray(a, b)\<close>: the bytes from \<open>a\<close> up to, not including, \<open>b\<close>, clamped to the
  buffer.\<close>

definition subarray :: "'a list \<Rightarrow> nat \<Rightarrow> nat \<Rightarrow> 'a list" where
  "subarray xs a b = take (b - a) (drop a xs)"

text \<open>\<open>Buffer.equals\<close>.\<close>

definition buffer_equals :: "bytes \<Rightarrow> bytes \<Rightarrow> bool" where
  "buffer_equals a b \<longleftrightarrow> a = b"

lemma length_subarray [simp]: "length (subarray xs a b) = min (b - a) (length xs - a)"
  by (simp add: subarray_def)

lemma subarray_full [simp]: "subarray xs 0 (length xs) = xs"
  by (simp add: subarray_def)

lemma subarray_all [simp]: "length xs = n \<Longrightarrow> subarray xs 0 n = xs"
  by (simp add: subarray_def)

lemma subarray_append_subarray:
  "a \<le> b \<Longrightarrow> b \<le> c \<Longrightarrow> subarray xs a b @ subarray xs b c = subarray xs a c"
proof -
  assume "a \<le> b" "b \<le> c"
  then have "subarray xs b c = take (c - b) (drop (b - a) (drop a xs))"
    by (simp add: subarray_def)
  moreover from \<open>a \<le> b\<close> \<open>b \<le> c\<close> have "c - a = (b - a) + (c - b)" by simp
  ultimately show ?thesis by (simp add: subarray_def take_add)
qed

lemma nth_subarray:
  "a + i < b \<Longrightarrow> b \<le> length xs \<Longrightarrow> subarray xs a b ! i = xs ! (a + i)"
  by (simp add: subarray_def)

subsection \<open>Little-endian integers\<close>

fun le_bytes :: "nat \<Rightarrow> nat \<Rightarrow> bytes" where
  "le_bytes 0 v = []"
| "le_bytes (Suc n) v = word_of_nat (v mod 256) # le_bytes n (v div 256)"

fun le_value :: "bytes \<Rightarrow> nat" where
  "le_value [] = 0"
| "le_value (b # bs) = unat b + 256 * le_value bs"

lemma length_le_bytes [simp]: "length (le_bytes n v) = n"
  by (induction n arbitrary: v) auto

lemma unat_byte_mod [simp]: "unat (word_of_nat (v mod 256) :: byte) = v mod 256"
  by (simp add: unat_of_nat)

lemma le_value_le_bytes: "le_value (le_bytes n v) = v mod 256 ^ n"
proof (induction n arbitrary: v)
  case 0
  then show ?case by simp
next
  case (Suc n)
  have "le_value (le_bytes (Suc n) v) = v mod 256 + 256 * (v div 256 mod 256 ^ n)"
    by (simp add: Suc.IH)
  also have "\<dots> = v mod (256 * 256 ^ n)"
    by (simp add: mod_mult2_eq)
  finally show ?case by simp
qed

lemma le_value_le_bytes_id [simp]: "v < 256 ^ n \<Longrightarrow> le_value (le_bytes n v) = v"
  by (simp add: le_value_le_bytes)

lemma byte_less_256: "unat (b :: byte) < 256"
  using unsigned_less [of b, where 'a = nat] by simp

lemma le_value_less: "le_value bs < 256 ^ length bs"
proof (induction bs)
  case Nil
  then show ?case by simp
next
  case (Cons b bs)
  then have "256 * Suc (le_value bs) \<le> 256 * 256 ^ length bs"
    by (intro mult_le_mono2) (simp add: Suc_le_eq)
  with byte_less_256 [of b] show ?case by simp
qed

lemma le_bytes_le_value: "le_bytes (length bs) (le_value bs) = bs"
proof (induction bs)
  case Nil
  then show ?case by simp
next
  case (Cons b bs)
  with byte_less_256 [of b] show ?case by simp
qed

section \<open>Lists\<close>

lemma take_Suc_snoc: "i < length xs \<Longrightarrow> take (Suc i) xs = take i xs @ [xs ! i]"
  by (rule take_Suc_conv_app_nth)

lemma set_update_subset: "set (xs[i := x]) \<subseteq> insert x (set xs)"
  by (rule set_update_subset_insert)

fun index_from :: "nat \<Rightarrow> 'a list \<Rightarrow> (nat \<times> 'a) list" where
  "index_from i [] = []"
| "index_from i (x # xs) = (i, x) # index_from (Suc i) xs"

lemma index_from_elem [termination_simp]: "(j, x) \<in> set (index_from i xs) \<Longrightarrow> x \<in> set xs"
  by (induction xs arbitrary: i) auto

lemma snd_index_from [simp]: "snd ` set (index_from i xs) = set xs"
  by (induction xs arbitrary: i) auto

lemma length_index_from [simp]: "length (index_from i xs) = length xs"
  by (induction xs arbitrary: i) auto

end
