(* ===== verification/Js_Values.thy ===== *)
theory Js_Values imports Prelude "HOL-Library.Char_ord" "HOL-Library.List_Lexorder" begin

text \<open>
  The JavaScript values that the validators of the repository receive from \<open>JSON.parse\<close> or
  from callers, with the operators the code applies to them: \<open>v?.k\<close>, \<open>v.k\<close>, \<open>v ?? d\<close>,
  object spread, property assignment, truthiness and \<open>Number.isInteger\<close>.

  A finite number is a rational (the code compares and adds numbers but never relies on the
  rounding of a sum); \<open>NaN\<close> and the infinities are the single value \<open>JNonFinite\<close>, which
  every numeric check of the code refuses before any arithmetic.  An object is the list of its
  own properties in insertion order; the code never gives an object an integer-like key.
\<close>

section \<open>Values\<close>

datatype js =
    Undefined
  | JNull
  | JBool bool
  | JNum rat
  | JNonFinite
  | JStr string
  | JArr "js list"
  | JObj "(string \<times> js) list"

lemma size_js_elem [termination_simp]: "v \<in> set vs \<Longrightarrow> size v < Suc (size_list size vs)"
  by (induction vs) auto

lemma size_js_field [termination_simp]:
  "(k, v) \<in> set kvs \<Longrightarrow>
   size v < Suc (size_list (size_prod (\<lambda>_. 0) size) kvs)"
  by (induction kvs) auto

definition is_integer :: "js \<Rightarrow> bool" where
  "is_integer v = (case v of JNum r \<Rightarrow> of_int \<lfloor>r\<rfloor> = r | _ \<Rightarrow> False)"

lemma is_integer_nonneg:
  assumes "is_integer v" and "0 \<le> (case v of JNum r \<Rightarrow> r | _ \<Rightarrow> 0)"
  obtains n where "v = JNum (of_nat n)"
proof -
  from assms(1) obtain r where r: "v = JNum r" "of_int \<lfloor>r\<rfloor> = r"
    by (auto simp: is_integer_def split: js.splits)
  with assms(2) have "0 \<le> \<lfloor>r\<rfloor>" by simp
  then have "of_nat (nat \<lfloor>r\<rfloor>) = (of_int \<lfloor>r\<rfloor> :: rat)"
    by (metis of_int_of_nat_eq nat_0_le)
  with r(2) have "v = JNum (of_nat (nat \<lfloor>r\<rfloor>))" unfolding r(1) by metis
  then show thesis by (rule that)
qed

definition is_safe_integer :: "js \<Rightarrow> bool" where
  "is_safe_integer v = (case v of JNum r \<Rightarrow> of_int \<lfloor>r\<rfloor> = r \<and> safe_int \<lfloor>r\<rfloor> | _ \<Rightarrow> False)"

text \<open>\<open>Number.isFinite\<close>.\<close>

fun is_finite_number :: "js \<Rightarrow> bool" where
  "is_finite_number (JNum r) = True"
| "is_finite_number _ = False"

fun num_of :: "js \<Rightarrow> rat" where
  "num_of (JNum r) = r"
| "num_of _ = 0"

lemma num_of_case: "num_of v = (case v of JNum r \<Rightarrow> r | _ \<Rightarrow> 0)"
  by (cases v) auto

abbreviation JNat :: "nat \<Rightarrow> js" where
  "JNat n \<equiv> JNum (of_nat n)"

fun truthy :: "js \<Rightarrow> bool" where
  "truthy Undefined = False"
| "truthy JNull = False"
| "truthy (JBool b) = b"
| "truthy (JNum r) = (r \<noteq> 0)"
| "truthy JNonFinite = True"
| "truthy (JStr s) = (s \<noteq> [])"
| "truthy (JArr vs) = True"
| "truthy (JObj kvs) = True"

definition nullish :: "js \<Rightarrow> bool" where
  "nullish v \<longleftrightarrow> v = Undefined \<or> v = JNull"

definition coalesce :: "js \<Rightarrow> js \<Rightarrow> js" where
  "coalesce v d = (if nullish v then d else v)"

text \<open>\<open>v?.k\<close>: absent properties, and properties of \<open>null\<close> and \<open>undefined\<close>, are
  \<open>undefined\<close>.\<close>

fun get :: "js \<Rightarrow> string \<Rightarrow> js" where
  "get (JObj kvs) k = (case map_of kvs k of Some v \<Rightarrow> v | None \<Rightarrow> Undefined)"
| "get _ k = Undefined"

text \<open>\<open>v.k\<close> without the question mark throws on \<open>null\<close> and \<open>undefined\<close>.\<close>

definition get_strict :: "js \<Rightarrow> string \<Rightarrow> js result" where
  "get_strict v k = (if nullish v then Inl TypeError else Inr (get v k))"

fun set_field :: "(string \<times> js) list \<Rightarrow> string \<Rightarrow> js \<Rightarrow> (string \<times> js) list" where
  "set_field [] k v = [(k, v)]"
| "set_field ((k', v') # kvs) k v =
     (if k' = k then (k, v) # kvs else (k', v') # set_field kvs k v)"

definition assign :: "js \<Rightarrow> string \<Rightarrow> js \<Rightarrow> js" where
  "assign v k x = (case v of JObj kvs \<Rightarrow> JObj (set_field kvs k x) | _ \<Rightarrow> v)"

text \<open>The own enumerable properties that \<open>{...v}\<close> copies: those of an object, the elements of
  an array or the characters of a string under their indexes, nothing for other values.\<close>

fun own_fields :: "js \<Rightarrow> (string \<times> js) list" where
  "own_fields (JObj kvs) = kvs"
| "own_fields (JArr vs) = map (\<lambda>(i, v). (show_nat i, v)) (index_from 0 vs)"
| "own_fields (JStr s) = map (\<lambda>(i, c). (show_nat i, JStr [c])) (index_from 0 s)"
| "own_fields _ = []"

fun spread_with :: "(string \<times> js) list \<Rightarrow> (string \<times> js) list \<Rightarrow> (string \<times> js) list" where
  "spread_with base [] = base"
| "spread_with base ((k, v) # kvs) = spread_with (set_field base k v) kvs"

lemma map_of_set_field [simp]: "map_of (set_field kvs k v) = (map_of kvs)(k \<mapsto> v)"
  by (induction kvs k v rule: set_field.induct) auto

lemma keys_set_field: "set (map fst (set_field kvs k v)) = insert k (set (map fst kvs))"
  by (induction kvs k v rule: set_field.induct) auto

lemma distinct_set_field:
  "distinct (map fst kvs) \<Longrightarrow> distinct (map fst (set_field kvs k v))"
proof (induction kvs k v rule: set_field.induct)
  case (2 k' v' kvs k v)
  then show ?case using keys_set_field [of kvs k v] by (auto simp: image_iff)
qed simp

lemma values_set_field: "(x, y) \<in> set (set_field kvs k v) \<Longrightarrow> (x, y) = (k, v) \<or> (x, y) \<in> set kvs"
  by (induction kvs k v rule: set_field.induct) (auto split: if_splits)

lemma get_assign [simp]:
  "get (assign (JObj kvs) k x) k' = (if k' = k then x else get (JObj kvs) k')"
  by (simp add: assign_def)

lemma is_integer_of [simp]: "is_integer (JNat n)" "is_integer (JNum (of_int i))"
  by (simp_all add: is_integer_def)

section \<open>What a JSON file holds\<close>

text \<open>\<open>JSON.parse(JSON.stringify(v))\<close>: properties that are \<open>undefined\<close> vanish, undefined array
  elements and non-finite numbers become \<open>null\<close>.\<close>

fun json_norm :: "js \<Rightarrow> js" where
  "json_norm (JArr vs) = JArr (map json_norm vs)"
| "json_norm (JObj kvs) =
     JObj (map (\<lambda>(k, v). (k, json_norm v)) (filter (\<lambda>(k, v). v \<noteq> Undefined) kvs))"
| "json_norm Undefined = JNull"
| "json_norm JNonFinite = JNull"
| "json_norm v = v"

fun is_json :: "js \<Rightarrow> bool" where
  "is_json (JArr vs) = (\<forall>v\<in>set vs. is_json v)"
| "is_json (JObj kvs) = (\<forall>(k, v)\<in>set kvs. is_json v)"
| "is_json Undefined = False"
| "is_json JNonFinite = False"
| "is_json v = True"

lemma is_json_json_norm [simp]: "is_json (json_norm v)"
  by (induction v rule: json_norm.induct) auto

lemma json_norm_is_json [simp]: "is_json v \<Longrightarrow> json_norm v = v"
proof (induction v rule: json_norm.induct)
  case (1 vs)
  then show ?case by (auto intro: map_idI)
next
  case (2 kvs)
  have "filter (\<lambda>(k, v). v \<noteq> Undefined) kvs = kvs"
    using "2.prems" by (auto simp: filter_id_conv)
  moreover have "map (\<lambda>(k, v). (k, json_norm v)) kvs = kvs"
    using 2 calculation by (intro map_idI) (auto split: prod.splits)
  ultimately show ?case by simp
qed auto

lemma json_norm_idem [simp]: "json_norm (json_norm v) = json_norm v"
  by simp

lemma json_norm_eq_JObj: "json_norm v = JObj kvs \<Longrightarrow> \<exists>kvs'. v = JObj kvs'"
  by (cases v) auto

lemma get_json_norm:
  assumes "get v k = x" and "x \<noteq> Undefined"
  shows "get (json_norm v) k = json_norm x"
proof -
  have fields: "map_of kvs k = Some x \<Longrightarrow> x \<noteq> Undefined \<Longrightarrow>
      map_of (map (\<lambda>(k, v). (k, json_norm v)) (filter (\<lambda>(k, v). v \<noteq> Undefined) kvs)) k
        = Some (json_norm x)" for kvs
    by (induction kvs) (auto split: if_splits)
  from assms show ?thesis by (cases v) (auto simp: fields split: option.splits)
qed

section \<open>Text checks\<close>

fun lower_char :: "char \<Rightarrow> char" where
  "lower_char c = (let n = of_char c :: nat in if 65 \<le> n \<and> n \<le> 90 then char_of (n + 32) else c)"

definition to_lower :: "string \<Rightarrow> string" where
  "to_lower s = map lower_char s"

fun upper_char :: "char \<Rightarrow> char" where
  "upper_char c = (let n = of_char c :: nat in if 97 \<le> n \<and> n \<le> 122 then char_of (n - 32) else c)"

definition to_upper :: "string \<Rightarrow> string" where
  "to_upper s = map upper_char s"

definition is_hex_char :: "char \<Rightarrow> bool" where
  "is_hex_char c = (let n = of_char c :: nat in (48 \<le> n \<and> n \<le> 57) \<or> (97 \<le> n \<and> n \<le> 102))"

text \<open>Whether a text contains another.\<close>

fun starts_with :: "string \<Rightarrow> string \<Rightarrow> bool" where
  "starts_with [] s = True"
| "starts_with (c # cs) [] = False"
| "starts_with (c # cs) (d # ds) = (c = d \<and> starts_with cs ds)"

fun contains :: "string \<Rightarrow> string \<Rightarrow> bool" where
  "contains n [] = (n = [])"
| "contains n (c # cs) = (starts_with n (c # cs) \<or> contains n cs)"

definition is_word_char :: "char \<Rightarrow> bool" where
  "is_word_char c =
     (let n = of_char c :: nat
      in (48 \<le> n \<and> n \<le> 57) \<or> (65 \<le> n \<and> n \<le> 90) \<or> n = 95 \<or> (97 \<le> n \<and> n \<le> 122))"

text \<open>Whether a word occurs between word boundaries, \<open>/\bword\b/\<close>; the flag says that the
  character before the text is a word character.\<close>

fun contains_word :: "string \<Rightarrow> bool \<Rightarrow> string \<Rightarrow> bool" where
  "contains_word w inside [] = False"
| "contains_word w inside (c # cs) =
     ((\<not> inside \<and> starts_with w (c # cs)
        \<and> (case drop (length w) (c # cs) of [] \<Rightarrow> True | d # _ \<Rightarrow> \<not> is_word_char d))
      \<or> contains_word w (is_word_char c) cs)"

text \<open>Strict equality \<open>===\<close> of values that were read independently: two objects or two arrays
  are never the same reference, and \<open>NaN\<close> equals nothing.\<close>

fun strict_equal :: "js \<Rightarrow> js \<Rightarrow> bool" where
  "strict_equal (JArr vs) w = False"
| "strict_equal (JObj kvs) w = False"
| "strict_equal JNonFinite w = False"
| "strict_equal v w = (v = w)"

lemma strict_equal_imp_eq: "strict_equal v w \<Longrightarrow> v = w"
  by (cases v) auto

lemma strict_equal_simps [simp]:
  "strict_equal v (JNum r) \<longleftrightarrow> v = JNum r" "strict_equal v (JStr s) \<longleftrightarrow> v = JStr s"
  "strict_equal v JNull \<longleftrightarrow> v = JNull" "strict_equal v Undefined \<longleftrightarrow> v = Undefined"
  by (cases v; auto)+

text \<open>The patterns \<open>/^[a-f0-9]{64}$/\<close> and, case-insensitive, \<open>/^[a-f0-9]{64}$/i\<close>.\<close>

definition hex64 :: "string \<Rightarrow> bool" where
  "hex64 s \<longleftrightarrow> length s = 64 \<and> list_all is_hex_char s"

definition hex64i :: "string \<Rightarrow> bool" where
  "hex64i s \<longleftrightarrow> hex64 (to_lower s)"

text \<open>\<open>regex.test(v ?? "")\<close> applies \<open>String\<close> to its argument: a one-element array prints as its
  element; no other value that is not a string prints as 64 hexadecimal digits.\<close>

fun hex64i_test :: "js \<Rightarrow> bool" where
  "hex64i_test (JStr s) = hex64i s"
| "hex64i_test (JArr [v]) = hex64i_test v"
| "hex64i_test _ = False"

end
