(* ===== verification/Loader_Codec.thy ===== *)
theory Loader_Codec imports Js_Values begin

text \<open>
  \<open>scripts/devnet/loader-v3-codec.mjs\<close> and the byte comparison of \<open>scripts/devnet/binary.mjs\<close>:
  the loader's \<open>Write\<close> instruction as bytes, and the check of a downloaded program against the
  local build.

  Parsing a base58 key is the job of a package outside the repository: whether a text is a key
  is the parameter \<open>valid\<close>, and a key is the text it prints as.  SHA-256 is the parameter
  \<open>sha\<close>, from bytes to hexadecimal text.
\<close>

section \<open>Instructions\<close>

type_synonym pubkey = string

record account_meta =
  am_pubkey :: pubkey
  am_signer :: bool
  am_writable :: bool

record instruction =
  i_program :: pubkey
  i_keys :: "account_meta list"
  i_data :: bytes

definition newPublicKey :: "(string \<Rightarrow> bool) \<Rightarrow> string \<Rightarrow> pubkey result" where
  "newPublicKey valid k = (if valid k then Inr k else throw ''Invalid public key input'')"

definition BPF_LOADER_UPGRADEABLE_PROGRAM_ID :: pubkey where
  "BPF_LOADER_UPGRADEABLE_PROGRAM_ID = ''BPFLoaderUpgradeab1e11111111111111111111111''"

definition MAX_WRITE_PAYLOAD_BYTES :: nat where
  "MAX_WRITE_PAYLOAD_BYTES = 1232"

section \<open>The write instruction\<close>

definition assertOffset :: "js \<Rightarrow> unit result" where
  "assertOffset offset =
     guard (is_integer offset \<and> 0 \<le> num_of offset \<and> num_of offset \<le> 4294967295)
       ''loader write offset must be an unsigned 32-bit integer''"

text \<open>A payload that is not a byte array is \<open>None\<close>.\<close>

definition assertBytes :: "bytes option \<Rightarrow> unit result" where
  "assertBytes payload =
     (case payload of
        None \<Rightarrow> throw ''loader write payload must be bytes''
      | Some bs \<Rightarrow> guard (length bs \<le> MAX_WRITE_PAYLOAD_BYTES)
                    ''loader write payload exceeds codec safety limit'')"

definition encodeLoaderV3Write :: "js \<Rightarrow> bytes option \<Rightarrow> bytes result" where
  "encodeLoaderV3Write offset payload =
     and_then (assertOffset offset) (\<lambda>_.
     and_then (assertBytes payload) (\<lambda>_.
       case payload of
         None \<Rightarrow> Inl TypeError
       | Some bs \<Rightarrow>
           Inr (le_bytes 4 1 @ le_bytes 4 (nat \<lfloor>num_of offset\<rfloor>) @ le_bytes 8 (length bs) @ bs)))"

definition makeLoaderV3WriteInstruction ::
    "(string \<Rightarrow> bool) \<Rightarrow> string \<Rightarrow> string \<Rightarrow> js \<Rightarrow> bytes option \<Rightarrow> instruction result" where
  "makeLoaderV3WriteInstruction valid buffer authority offset payload =
     and_then (newPublicKey valid buffer) (\<lambda>bufferKey.
     and_then (newPublicKey valid authority) (\<lambda>authorityKey.
     and_then (newPublicKey valid BPF_LOADER_UPGRADEABLE_PROGRAM_ID) (\<lambda>programId.
     and_then (encodeLoaderV3Write offset payload) (\<lambda>data.
       Inr \<lparr> i_program = programId,
             i_keys = [\<lparr> am_pubkey = bufferKey, am_signer = False, am_writable = True \<rparr>,
                       \<lparr> am_pubkey = authorityKey, am_signer = True, am_writable = False \<rparr>],
             i_data = data \<rparr>))))"

text \<open>How the loader reads the instruction (bincode): the variant, the offset, the length of the
  vector and exactly that many bytes.\<close>

definition decode_write :: "bytes \<Rightarrow> (nat \<times> bytes) option" where
  "decode_write data =
     (if length data < 16 \<or> le_value (take 4 data) \<noteq> 1
         \<or> le_value (subarray data 8 16) \<noteq> length data - 16
      then None else Some (le_value (subarray data 4 8), drop 16 data))"

lemma encodeLoaderV3Write_eq_Inr:
  "encodeLoaderV3Write offset payload = Inr data \<longleftrightarrow>
   (\<exists>n bs. offset = JNat n \<and> n \<le> 4294967295 \<and> payload = Some bs \<and> length bs \<le> 1232
     \<and> data = le_bytes 4 1 @ le_bytes 4 n @ le_bytes 8 (length bs) @ bs)"
  (is "?l \<longleftrightarrow> ?r")
proof
  assume ?l
  then have int: "is_integer offset" "0 \<le> num_of offset" and le: "num_of offset \<le> 4294967295"
    by (auto simp: encodeLoaderV3Write_def assertOffset_def result_simps)
  from int obtain n where n: "offset = JNat n"
    by (auto simp: num_of_case intro: is_integer_nonneg)
  with le have "n \<le> 4294967295"
    by (metis num_of.simps(1) of_nat_le_iff of_nat_numeral)
  with n \<open>?l\<close> show ?r
    by (auto simp: encodeLoaderV3Write_def assertBytes_def MAX_WRITE_PAYLOAD_BYTES_def
        result_simps split: option.splits)
next
  assume ?r
  then show ?l
    by (auto simp: encodeLoaderV3Write_def assertOffset_def assertBytes_def
        MAX_WRITE_PAYLOAD_BYTES_def guard_def)
qed

lemma decode_encode:
  "encodeLoaderV3Write (JNat n) (Some bs) = Inr data \<Longrightarrow> decode_write data = Some (n, bs)"
proof -
  assume "encodeLoaderV3Write (JNat n) (Some bs) = Inr data"
  then have bounds: "n \<le> 4294967295" "length bs \<le> 1232"
    and data: "data = le_bytes 4 1 @ le_bytes 4 n @ le_bytes 8 (length bs) @ bs"
    by (auto simp: encodeLoaderV3Write_eq_Inr)
  have "subarray data 4 8 = le_bytes 4 n" "subarray data 8 16 = le_bytes 8 (length bs)"
    "take 4 data = le_bytes 4 1" "drop 16 data = bs"
    by (simp_all add: data subarray_def)
  then show ?thesis using bounds by (simp add: decode_write_def data)
qed

lemma encoded_length: "encodeLoaderV3Write offset (Some bs) = Inr data \<Longrightarrow> length data = 16 + length bs"
  by (auto simp: encodeLoaderV3Write_eq_Inr)

section \<open>Program bytes\<close>

definition hashBytes :: "(bytes \<Rightarrow> string) \<Rightarrow> bytes \<Rightarrow> string" where
  "hashBytes sha bs = to_upper (sha bs)"

record byte_comparison =
  localLength :: nat
  onchainRawLength :: nat
  reportedDataLength :: int
  localRawSha256 :: string
  onchainRawSha256 :: string
  onchainCanonicalLength :: nat
  onchainCanonicalSha256 :: string
  paddingLength :: nat
  paddingAllZero :: bool
  paddingSemantics :: string
  exactExecutableMatch :: bool

definition compareProgramBytes ::
    "(bytes \<Rightarrow> string) \<Rightarrow> bytes \<Rightarrow> bytes \<Rightarrow> int \<Rightarrow> string option \<Rightarrow> byte_comparison result" where
  "compareProgramBytes sha local dump reported dumpSemantics =
     (if reported \<noteq> int (length dump)
      then throw (''reported ProgramData length '' @ show_int reported
                  @ '' differs from raw dump length '' @ show_nat (length dump))
      else if length dump < length local
      then throw ''onchain dump is shorter than local artifact''
      else if \<not> buffer_equals (subarray dump 0 (length local)) local
      then throw ''onchain executable bytes differ from local artifact''
      else let padding = drop (length local) dump in
      if \<not> list_all (\<lambda>b. b = 0) padding
      then throw ''onchain dump has nonzero allocation padding''
      else if length padding > 0 \<and> dumpSemantics \<noteq> Some ''upgradeable-programdata-allocation''
      then throw ''upgradeable-loader allocation padding semantics are not proven''
      else let canonical = subarray dump 0 (length local) in
      Inr \<lparr> localLength = length local, onchainRawLength = length dump,
            reportedDataLength = reported, localRawSha256 = hashBytes sha local,
            onchainRawSha256 = hashBytes sha dump, onchainCanonicalLength = length canonical,
            onchainCanonicalSha256 = hashBytes sha canonical, paddingLength = length padding,
            paddingAllZero = True,
            paddingSemantics =
              (if length padding = 0 then ''none'' else ''upgradeable-programdata-allocation''),
            exactExecutableMatch = True \<rparr>)"

lemma compareProgramBytes_accepts:
  "(\<exists>c. compareProgramBytes sha local dump reported sem = Inr c) \<longleftrightarrow>
   reported = int (length dump) \<and>
   (\<exists>k. dump = local @ replicate k 0 \<and>
     (k > 0 \<longrightarrow> sem = Some ''upgradeable-programdata-allocation''))"
  (is "?l \<longleftrightarrow> ?r")
proof
  assume ?l
  then have *: "reported = int (length dump)" "length local \<le> length dump"
    "buffer_equals (subarray dump 0 (length local)) local"
    "list_all (\<lambda>b. b = 0) (drop (length local) dump)"
    "length local < length dump \<longrightarrow> sem = Some ''upgradeable-programdata-allocation''"
    by (auto simp: compareProgramBytes_def Let_def split: if_splits)
  then have pre: "take (length local) dump = local"
    by (simp only: buffer_equals_def subarray_def drop_0 diff_zero)
  have "replicate (length (drop (length local) dump)) 0 = drop (length local) dump"
    by (rule replicate_length_same) (use *(4) in \<open>simp only: list_all_iff\<close>)
  then have "dump = take (length local) dump @ replicate (length dump - length local) 0"
    by (metis append_take_drop_id length_drop)
  then have "dump = local @ replicate (length dump - length local) 0"
    unfolding pre .
  with *(1,5) show ?r
    by (intro conjI exI [of _ "length dump - length local"]) auto
next
  assume ?r
  then show ?l
    by (auto simp: compareProgramBytes_def Let_def subarray_def buffer_equals_def list_all_iff)
qed

lemma compareProgramBytes_canonical:
  "compareProgramBytes sha local dump reported sem = Inr c \<Longrightarrow>
   onchainCanonicalSha256 c = localRawSha256 c \<and> exactExecutableMatch c
   \<and> paddingLength c = length dump - length local"
  by (auto simp: compareProgramBytes_def Let_def split: if_splits)
    (simp_all add: buffer_equals_def)

end
