(* ===== verification/Durable_Json.thy ===== *)
theory Durable_Json imports Js_Values "HOL-Library.Multiset" begin

text \<open>
  \<open>scripts/devnet/durable-json.mjs\<close>: the canonical form of a JSON document and the atomic,
  fsynced replacement of a JSON file, over a file system that may fail at every call.

  A file holds a parsed document (\<open>Doc\<close>) or bytes that do not parse (\<open>Junk\<close>, what an
  interrupted write leaves).  The answer of each system call is a parameter: an errno code when
  it throws.  Text is not modelled: \<open>JSON.stringify\<close> of a value followed by \<open>JSON.parse\<close> is
  \<open>json_norm\<close>, and the printed canonical text that is hashed is a function of the value.
\<close>

section \<open>Canonical values\<close>

fun sortedJsonValue :: "js \<Rightarrow> js" where
  "sortedJsonValue (JArr vs) = JArr (map sortedJsonValue vs)"
| "sortedJsonValue (JObj kvs) = JObj (map (\<lambda>(k, v). (k, sortedJsonValue v)) (sort_key fst kvs))"
| "sortedJsonValue v = v"

definition canonicalJson :: "(js \<Rightarrow> 'text) \<Rightarrow> js \<Rightarrow> 'text" where
  "canonicalJson stringify v = stringify (sortedJsonValue v)"

text \<open>Every object of the value lists a key once (what an object literal or \<open>JSON.parse\<close>
  produces).\<close>

fun distinct_keys :: "js \<Rightarrow> bool" where
  "distinct_keys (JArr vs) = (\<forall>v\<in>set vs. distinct_keys v)"
| "distinct_keys (JObj kvs) =
     (distinct (map fst kvs) \<and> (\<forall>(k, v)\<in>set kvs. distinct_keys v))"
| "distinct_keys v = True"

text \<open>The same document up to the order in which each object lists its properties.\<close>

inductive same_document :: "js \<Rightarrow> js \<Rightarrow> bool" where
  same_atom: "same_document v v"
| same_array: "list_all2 same_document vs ws \<Longrightarrow> same_document (JArr vs) (JArr ws)"
| same_object: "mset kvs = mset kvs' \<Longrightarrow>
     list_all2 (\<lambda>a b. fst a = fst b \<and> same_document (snd a) (snd b)) kvs' kvs'' \<Longrightarrow>
     same_document (JObj kvs) (JObj kvs'')"

lemma insort_key_map:
  "insort_key fst (k, g v) (map (\<lambda>(k, v). (k, g v)) kvs)
   = map (\<lambda>(k, v). (k, g v)) (insort_key fst (k, v) kvs)"
  by (induction kvs) auto

lemma sort_key_map_values:
  "sort_key fst (map (\<lambda>(k, v). (k, g v)) kvs) = map (\<lambda>(k, v). (k, g v)) (sort_key fst kvs)"
proof (induction kvs)
  case (Cons kv kvs)
  then show ?case by (cases kv) (simp add: insort_key_map)
qed simp

lemma sort_key_fst_mset:
  "mset kvs = mset kvs' \<Longrightarrow> distinct (map fst kvs) \<Longrightarrow> sort_key fst kvs = sort_key fst kvs'"
  by (rule sort_key_eq_sort_key) (auto simp: distinct_map)

lemma distinct_keys_mset:
  "mset kvs = mset kvs' \<Longrightarrow> distinct_keys (JObj kvs) \<Longrightarrow> distinct_keys (JObj kvs')"
  using mset_eq_setD [of kvs kvs'] mset_eq_imp_distinct_iff [of "map fst kvs" "map fst kvs'"]
  by (auto simp flip: mset_map) (metis mset_map)+

text \<open>The canonical form does not see the order of properties.\<close>

lemma sortedJsonValue_same_document:
  "same_document v w \<Longrightarrow> distinct_keys v \<Longrightarrow> sortedJsonValue v = sortedJsonValue w"
proof (induction rule: same_document.induct)
  case (same_atom v)
  show ?case by simp
next
  case (same_array vs ws)
  then show ?case by (auto simp: list_all2_conv_all_nth intro!: nth_equalityI)
next
  case (same_object kvs kvs' kvs'')
  let ?s = "map (\<lambda>(k, v). (k, sortedJsonValue v))"
  from same_object.prems same_object.hyps(1) have dk: "distinct_keys (JObj kvs')"
    by (rule distinct_keys_mset [rotated])
  have same: "sortedJsonValue (snd (kvs' ! i)) = sortedJsonValue (snd (kvs'' ! i))
      \<and> fst (kvs' ! i) = fst (kvs'' ! i)" if i: "i < length kvs'" for i
  proof -
    have "(fst (kvs' ! i), snd (kvs' ! i)) \<in> set kvs'" using i by simp
    with dk have "distinct_keys (snd (kvs' ! i))" by (simp only: distinct_keys.simps) blast
    then show ?thesis using list_all2_nthD [OF same_object.IH i] by simp
  qed
  from same_object.IH have "length kvs' = length kvs''" by (rule list_all2_lengthD)
  with same have "?s kvs' = ?s kvs''"
    by (intro nth_equalityI) (simp_all add: split_beta)
  then have "?s (sort_key fst kvs') = ?s (sort_key fst kvs'')"
    by (metis sort_key_map_values)
  with same_object show ?case by (simp add: sort_key_fst_mset [of kvs kvs'])
qed

lemma sortedJsonValue_idem: "sortedJsonValue (sortedJsonValue v) = sortedJsonValue v"
proof (induction v rule: sortedJsonValue.induct)
  case (2 kvs)
  have "sort_key fst (sort_key fst kvs) = sort_key fst kvs"
    by (rule sort_key_id_if_sorted) (rule sorted_sort_key)
  with 2 show ?case by (auto simp: sort_key_map_values split: prod.splits)
qed auto

section \<open>Files\<close>

type_synonym path = string

datatype file_content = Doc js | Junk

type_synonym fs = "path \<rightharpoonup> file_content"

definition readJson :: "fs \<Rightarrow> path \<Rightarrow> js result" where
  "readJson fs p = (case fs p of
      None \<Rightarrow> throw ''ENOENT''
    | Some Junk \<Rightarrow> throw ''SyntaxError''
    | Some (Doc v) \<Rightarrow> Inr v)"

definition renameFile :: "path \<Rightarrow> path \<Rightarrow> fs \<Rightarrow> fs" where
  "renameFile a b fs = (case fs a of None \<Rightarrow> fs | Some f \<Rightarrow> (fs(a := None))(b := Some f))"

section \<open>Atomic replacement\<close>

datatype io_call =
    IoOpen | IoWrite | IoFsync | IoClose | IoRename
  | IoDirOpen | IoDirFsync | IoDirClose
  | IoCloseAgain | IoExists | IoUnlink

text \<open>The answer of a system call: \<open>None\<close> on success, the errno code when it throws.\<close>

type_synonym io = "io_call \<Rightarrow> string option"

definition UNSUPPORTED_DIRECTORY_FSYNC :: "string list" where
  "UNSUPPORTED_DIRECTORY_FSYNC = [''EISDIR'', ''EPERM'', ''EACCES'', ''EINVAL'']"

definition flushDirectory :: "io \<Rightarrow> unit result" where
  "flushDirectory io =
     (let outcome = (case io IoDirOpen of
          Some c \<Rightarrow> Some c
        | None \<Rightarrow> (case io IoDirClose of Some c \<Rightarrow> Some c | None \<Rightarrow> io IoDirFsync))
      in case outcome of
          None \<Rightarrow> Inr ()
        | Some c \<Rightarrow> if c \<in> set UNSUPPORTED_DIRECTORY_FSYNC then Inr () else throw c)"

record io_state =
  files :: fs
  fd_open :: bool

text \<open>The body of the \<open>try\<close>: open, write, fsync, close, rename, flush.  A write that throws
  leaves bytes that do not parse.\<close>

definition write_body :: "io \<Rightarrow> path \<Rightarrow> path \<Rightarrow> js \<Rightarrow> io_state \<Rightarrow> unit result \<times> io_state" where
  "write_body io tmp p v s =
     (if files s tmp \<noteq> None then (throw ''EEXIST'', s) else
      case io IoOpen of Some c \<Rightarrow> (throw c, s) | None \<Rightarrow>
      let s1 = s\<lparr>files := (files s)(tmp := Some Junk), fd_open := True\<rparr> in
      case io IoWrite of Some c \<Rightarrow> (throw c, s1) | None \<Rightarrow>
      let s2 = s1\<lparr>files := (files s1)(tmp := Some (Doc (json_norm (sortedJsonValue v))))\<rparr> in
      case io IoFsync of Some c \<Rightarrow> (throw c, s2) | None \<Rightarrow>
      case io IoClose of Some c \<Rightarrow> (throw c, s2) | None \<Rightarrow>
      let s3 = s2\<lparr>fd_open := False\<rparr> in
      case io IoRename of Some c \<Rightarrow> (throw c, s3) | None \<Rightarrow>
      (flushDirectory io, s3\<lparr>files := renameFile tmp p (files s3)\<rparr>))"

text \<open>The \<open>catch\<close>: close the descriptor if it is still open, remove the temporary file if it
  exists; failures of either are swallowed, the first error is rethrown.\<close>

definition write_cleanup :: "io \<Rightarrow> path \<Rightarrow> io_state \<Rightarrow> io_state" where
  "write_cleanup io tmp s =
     (let s1 = (if fd_open s \<and> io IoCloseAgain = None then s\<lparr>fd_open := False\<rparr> else s)
      in if io IoExists = None \<and> files s1 tmp \<noteq> None \<and> io IoUnlink = None
         then s1\<lparr>files := (files s1)(tmp := None)\<rparr> else s1)"

definition writeCanonicalJsonAtomic ::
    "io \<Rightarrow> path \<Rightarrow> path \<Rightarrow> js \<Rightarrow> io_state \<Rightarrow> unit result \<times> io_state" where
  "writeCanonicalJsonAtomic io tmp p v s =
     (case write_body io tmp p v s of
        (Inr u, s') \<Rightarrow> (Inr u, s')
      | (Inl e, s') \<Rightarrow> (Inl e, write_cleanup io tmp s'))"

lemma renameFile_other: "q \<noteq> a \<Longrightarrow> q \<noteq> b \<Longrightarrow> renameFile a b fs q = fs q"
  by (auto simp: renameFile_def split: option.splits)

lemmas write_defs = writeCanonicalJsonAtomic_def write_body_def write_cleanup_def Let_def

text \<open>Whatever fails, the target holds the old or the new document, and no other file of the
  directory changes.\<close>

lemma write_old_or_new:
  assumes "writeCanonicalJsonAtomic io tmp p v s = (r, s')" and "tmp \<noteq> p"
  shows "files s' p = files s p \<or> files s' p = Some (Doc (json_norm (sortedJsonValue v)))"
  using assms
  by (auto simp: write_defs renameFile_def split: option.splits if_splits sum.splits prod.splits)

lemma write_frame:
  assumes "writeCanonicalJsonAtomic io tmp p v s = (r, s')" and "q \<noteq> tmp" and "q \<noteq> p"
  shows "files s' q = files s q"
  using assms
  by (auto simp: write_defs renameFile_def split: option.splits if_splits sum.splits prod.splits)

lemma write_success:
  assumes "writeCanonicalJsonAtomic io tmp p v s = (Inr (), s')" and "tmp \<noteq> p"
  shows "files s' p = Some (Doc (json_norm (sortedJsonValue v))) \<and> files s' tmp = None
    \<and> \<not> fd_open s'"
  using assms
  by (auto simp: write_defs renameFile_def split: option.splits if_splits sum.splits prod.splits)

text \<open>A failure before the rename leaves the old document; the temporary file and the
  descriptor are gone unless the clean-up calls fail themselves.\<close>

lemma write_failure_cleans_up:
  assumes "writeCanonicalJsonAtomic io tmp p v s = (Inl e, s')"
    and "files s tmp = None" and "\<not> fd_open s" and "tmp \<noteq> p"
    and "io IoCloseAgain = None" and "io IoExists = None" and "io IoUnlink = None"
  shows "files s' tmp = None \<and> \<not> fd_open s'"
  using assms
  by (auto simp: write_defs renameFile_def split: option.splits if_splits sum.splits prod.splits)

section \<open>The interface of a durable store\<close>

text \<open>What the callers of a store rely on: a saved document is what the next load returns, a
  save that throws leaves what was there or the new document, and a save touches one file.\<close>

locale durable_store =
  fixes save :: "'doc \<Rightarrow> 's \<Rightarrow> unit result \<times> 's"
    and load :: "'s \<Rightarrow> 'doc result"
    and norm :: "'doc \<Rightarrow> 'doc"
    and ready :: "'s \<Rightarrow> bool"
  assumes load_save: "ready s \<Longrightarrow> save d s = (Inr (), s') \<Longrightarrow> load s' = Inr (norm d)"
    and save_atomic: "ready s \<Longrightarrow> save d s = (Inl e, s') \<Longrightarrow>
      load s' = load s \<or> load s' = Inr (norm d)"
    and save_ready: "ready s \<Longrightarrow> save d s = (r, s') \<Longrightarrow> ready s'"
begin

text \<open>A sequence of saves that stops at the first failure.\<close>

fun save_all :: "'doc list \<Rightarrow> 's \<Rightarrow> unit result \<times> 's" where
  "save_all [] s = (Inr (), s)"
| "save_all (d # ds) s =
     (case save d s of (Inl e, s') \<Rightarrow> (Inl e, s') | (Inr u, s') \<Rightarrow> save_all ds s')"

lemma load_after_save:
  assumes "ready s" and "save d s = (r, s')"
  shows "load s' = load s \<or> load s' = Inr (norm d)"
  using assms load_save [of s d s'] save_atomic [of s d _ s'] by (cases r) auto

lemma save_all_loads:
  assumes "ready s" and "save_all ds s = (r, s')"
  shows "load s' = load s \<or> (\<exists>d\<in>set ds. load s' = Inr (norm d))"
  using assms
proof (induction ds arbitrary: s)
  case Nil
  then show ?case by simp
next
  case (Cons d ds)
  obtain r1 s1 where sv: "save d s = (r1, s1)" by (cases "save d s")
  note first = load_after_save [OF Cons.prems(1) sv]
  show ?case
  proof (cases r1)
    case (Inl e)
    with sv Cons.prems(2) first show ?thesis by auto
  next
    case (Inr u)
    from save_ready [OF Cons.prems(1) sv] have "ready s1" .
    moreover from sv Inr Cons.prems(2) have "save_all ds s1 = (r, s')" by simp
    ultimately show ?thesis using Cons.IH first by fastforce
  qed
qed

end

definition canonical_load :: "path \<Rightarrow> io_state \<Rightarrow> js result" where
  "canonical_load p s = readJson (files s) p"

interpretation canonical_file: durable_store
  "writeCanonicalJsonAtomic io tmp p" "canonical_load p" "\<lambda>v. json_norm (sortedJsonValue v)"
  "\<lambda>s. tmp \<noteq> p" for io tmp p
proof
  show "canonical_load p s' = Inr (json_norm (sortedJsonValue d))"
    if "tmp \<noteq> p" and "writeCanonicalJsonAtomic io tmp p d s = (Inr (), s')" for d s s'
    using write_success [OF that(2,1)] by (simp add: canonical_load_def readJson_def)
  show "canonical_load p s' = canonical_load p s
      \<or> canonical_load p s' = Inr (json_norm (sortedJsonValue d))"
    if "tmp \<noteq> p" and "writeCanonicalJsonAtomic io tmp p d s = (Inl e, s')" for d s e s'
    using write_old_or_new [OF that(2,1)] by (auto simp: canonical_load_def readJson_def)
qed simp

end
