(* ===== verification/Chunk_Tiling.thy ===== *)
theory Chunk_Tiling imports Prelude begin

text \<open>
  Chunk lists that cover a payload without gap or overlap.  The upload planner produces one,
  the state validator accepts only such lists, the validation snapshot checks one and the
  uploader walks one; the interface \<open>chunk_tiling\<close> is what they share.
  A span is an index, an offset and a length.
\<close>

type_synonym span = "nat \<times> nat \<times> nat"

fun tiled_from :: "nat \<Rightarrow> nat \<Rightarrow> span list \<Rightarrow> bool" where
  "tiled_from i off [] = True"
| "tiled_from i off ((j, a, n) # cs) =
     (j = i \<and> a = off \<and> 1 \<le> n \<and> tiled_from (Suc i) (off + n) cs)"

fun span_total :: "span list \<Rightarrow> nat" where
  "span_total [] = 0"
| "span_total ((j, a, n) # cs) = n + span_total cs"

definition slice_of :: "'a list \<Rightarrow> span \<Rightarrow> 'a list" where
  "slice_of xs s = (case s of (j, a, n) \<Rightarrow> subarray xs a (a + n))"

lemma slice_of_simp [simp]: "slice_of xs (j, a, n) = subarray xs a (a + n)"
  by (simp add: slice_of_def)

definition in_span :: "nat \<Rightarrow> span \<Rightarrow> bool" where
  "in_span b s = (case s of (j, a, n) \<Rightarrow> a \<le> b \<and> b < a + n)"

lemma in_span_simp [simp]: "in_span b (j, a, n) \<longleftrightarrow> a \<le> b \<and> b < a + n"
  by (simp add: in_span_def)

text \<open>Overwriting a payload with bytes at an offset, what the loader does with a write.\<close>

definition write_at :: "nat \<Rightarrow> 'a list \<Rightarrow> 'a list \<Rightarrow> 'a list" where
  "write_at a bs xs = take a xs @ bs @ drop (a + length bs) xs"

lemma length_write_at [simp]: "a + length bs \<le> length xs \<Longrightarrow> length (write_at a bs xs) = length xs"
  by (simp add: write_at_def)

lemma nth_write_at:
  "a + length bs \<le> length xs \<Longrightarrow> i < length xs \<Longrightarrow>
   write_at a bs xs ! i = (if a \<le> i \<and> i < a + length bs then bs ! (i - a) else xs ! i)"
  by (auto simp: write_at_def nth_append)

lemma tiled_concat:
  "tiled_from i off cs \<Longrightarrow>
   concat (map (slice_of xs) cs) = subarray xs off (off + span_total cs)"
proof (induction i off cs rule: tiled_from.induct)
  case (2 i off j a n cs)
  then have "concat (map (slice_of xs) ((j, a, n) # cs))
      = subarray xs off (off + n) @ subarray xs (off + n) (off + n + span_total cs)"
    by simp
  also have "\<dots> = subarray xs off (off + n + span_total cs)"
    by (rule subarray_append_subarray) simp_all
  finally show ?case by (simp add: add.assoc)
qed (simp add: subarray_def)

lemma tiled_bounds:
  "tiled_from i off cs \<Longrightarrow> (j, a, n) \<in> set cs \<Longrightarrow>
   off \<le> a \<and> 1 \<le> n \<and> a + n \<le> off + span_total cs"
  by (induction i off cs rule: tiled_from.induct) force+

lemma tiled_cover:
  "tiled_from i off cs \<Longrightarrow> off \<le> b \<Longrightarrow> b < off + span_total cs \<Longrightarrow> \<exists>s\<in>set cs. in_span b s"
proof (induction i off cs rule: tiled_from.induct)
  case (2 i off j a n cs)
  show ?case
  proof (cases "b < off + n")
    case True
    with 2 show ?thesis by simp
  next
    case False
    with 2 have "\<exists>s\<in>set cs. in_span b s" by (intro "2.IH") auto
    then show ?thesis by simp
  qed
qed simp

lemma tiled_disjoint:
  "tiled_from i off cs \<Longrightarrow> s \<in> set cs \<Longrightarrow> t \<in> set cs \<Longrightarrow> in_span b s \<Longrightarrow> in_span b t \<Longrightarrow> s = t"
proof (induction i off cs rule: tiled_from.induct)
  case (2 i off j a n cs)
  from 2 have tl: "tiled_from (Suc i) (off + n) cs" and hd: "a = off" by auto
  have later: "off + n \<le> b" if "u \<in> set cs" "in_span b u" for u
    using tiled_bounds [OF tl, of "fst u" "fst (snd u)" "snd (snd u)"] that
    by (cases u) auto
  from "2.prems"(2,3) consider (both) "s \<in> set cs" "t \<in> set cs" | (left) "s = (j, a, n)" "t \<in> set cs"
    | (right) "s \<in> set cs" "t = (j, a, n)" | (head) "s = (j, a, n)" "t = (j, a, n)" by auto
  then show ?case
  proof cases
    case both
    with "2.IH" tl "2.prems"(4,5) show ?thesis by blast
  next
    case left
    with later [of t] hd "2.prems"(4,5) show ?thesis by simp
  next
    case right
    with later [of s] hd "2.prems"(4,5) show ?thesis by simp
  next
    case head
    then show ?thesis by simp
  qed
qed simp

lemma tiled_nth_index:
  "tiled_from i off cs \<Longrightarrow> k < length cs \<Longrightarrow> fst (cs ! k) = i + k"
proof (induction i off cs arbitrary: k rule: tiled_from.induct)
  case (2 i off j a n cs)
  then show ?case by (cases k) auto
qed simp

lemma tiled_append:
  "tiled_from i off (cs @ ds) \<longleftrightarrow>
   tiled_from i off cs \<and> tiled_from (i + length cs) (off + span_total cs) ds"
  by (induction i off cs rule: tiled_from.induct) (auto simp: add.assoc)

lemma span_total_append [simp]: "span_total (cs @ ds) = span_total cs + span_total ds"
  by (induction cs rule: span_total.induct) auto

lemma span_total_sum: "span_total cs = sum_list (map (\<lambda>(j, a, n). n) cs)"
  by (induction cs rule: span_total.induct) auto

text \<open>Writing, in any order of the list, the chunks that differ turns the current payload into
  the wanted one.\<close>

definition write_chunk :: "'a list \<Rightarrow> span \<Rightarrow> 'a list \<Rightarrow> 'a list" where
  "write_chunk local s xs = (case s of (j, a, n) \<Rightarrow> write_at a (subarray local a (a + n)) xs)"

lemma write_chunk_nth:
  assumes "(case s of (j, a, n) \<Rightarrow> a + n \<le> length local)" and "length xs = length local"
    and "b < length local"
  shows "write_chunk local s xs ! b =
    (if in_span b s then local ! b else xs ! b)"
  using assms by (auto simp: write_chunk_def nth_write_at nth_subarray split: prod.splits)

lemma length_write_chunk:
  "(case s of (j, a, n) \<Rightarrow> a + n \<le> length local) \<Longrightarrow> length xs = length local \<Longrightarrow>
   length (write_chunk local s xs) = length local"
  by (auto simp: write_chunk_def split: prod.splits)

lemma fold_write_chunk:
  assumes "\<forall>s\<in>set ss. case s of (j, a, n) \<Rightarrow> a + n \<le> length local"
    and "length xs = length local"
  shows "length (fold (write_chunk local) ss xs) = length local \<and>
    (\<forall>b<length local. fold (write_chunk local) ss xs ! b =
       (if \<exists>s\<in>set ss. in_span b s then local ! b else xs ! b))"
  using assms
proof (induction ss arbitrary: xs)
  case Nil
  then show ?case by simp
next
  case (Cons s ss)
  have len: "length (write_chunk local s xs) = length local"
    using Cons.prems by (intro length_write_chunk) auto
  have nth: "write_chunk local s xs ! b =
      (if in_span b s then local ! b else xs ! b)"
    if "b < length local" for b
    using Cons.prems that by (intro write_chunk_nth) auto
  from Cons.IH [OF _ len] Cons.prems nth show ?case by auto
qed

section \<open>The interface\<close>

locale chunk_tiling =
  fixes accepted :: "'p \<Rightarrow> bool"
    and spans :: "'p \<Rightarrow> span list"
    and payload_size :: "'p \<Rightarrow> nat"
  assumes tiled: "accepted p \<Longrightarrow> tiled_from 0 0 (spans p)"
    and covers: "accepted p \<Longrightarrow> span_total (spans p) = payload_size p"
begin

lemma reassemble:
  "accepted p \<Longrightarrow> length xs = payload_size p \<Longrightarrow> concat (map (slice_of xs) (spans p)) = xs"
  using tiled_concat [OF tiled, of p xs] covers [of p] by simp

lemma one_chunk_per_byte:
  "accepted p \<Longrightarrow> b < payload_size p \<Longrightarrow>
   \<exists>!s. s \<in> set (spans p) \<and> in_span b s"
  using tiled_cover [OF tiled, of p b] tiled_disjoint [OF tiled, of p] covers [of p]
  by (auto simp: Ex1_def) blast

lemma index_is_position:
  "accepted p \<Longrightarrow> k < length (spans p) \<Longrightarrow> fst (spans p ! k) = k"
  using tiled_nth_index [OF tiled] by simp

lemma in_bounds:
  "accepted p \<Longrightarrow> (j, a, n) \<in> set (spans p) \<Longrightarrow> 1 \<le> n \<and> a + n \<le> payload_size p"
  using tiled_bounds [OF tiled, of p j a n] covers [of p] by simp

text \<open>A payload in which every chunk outside a set already agrees becomes the wanted payload
  once the chunks of the set are written.\<close>

lemma writes_complete:
  assumes "accepted p" and "length local = payload_size p" and "length current = payload_size p"
    and "set ss \<subseteq> set (spans p)"
    and "\<forall>s\<in>set (spans p) - set ss. slice_of current s = slice_of local s"
  shows "fold (write_chunk local) ss current = local"
proof (rule nth_equalityI)
  have bnd: "\<forall>s\<in>set ss. case s of (j, a, n) \<Rightarrow> a + n \<le> length local"
    using in_bounds [OF assms(1)] assms(2,4) by fastforce
  note written = fold_write_chunk [OF bnd, of current]
  show "length (fold (write_chunk local) ss current) = length local"
    using written assms(2,3) by simp
  show "fold (write_chunk local) ss current ! b = local ! b"
    if "b < length (fold (write_chunk local) ss current)" for b
  proof (cases "\<exists>s\<in>set ss. in_span b s")
    case True
    with written that assms(2,3) show ?thesis by auto
  next
    case False
    from that written assms(2,3) have b: "b < payload_size p" by simp
    then obtain s where "s \<in> set (spans p)" "in_span b s"
      using one_chunk_per_byte [OF assms(1)] by blast
    then obtain j a n where s: "(j, a, n) \<in> set (spans p)" and ab: "a \<le> b" "b < a + n"
      by (cases s rule: prod_cases3) auto
    with False have "(j, a, n) \<notin> set ss" by auto
    with s assms(5) have "slice_of current (j, a, n) = slice_of local (j, a, n)" by blast
    then have "subarray current a (a + n) ! (b - a) = subarray local a (a + n) ! (b - a)"
      by simp
    then have "current ! b = local ! b"
      using in_bounds [OF assms(1) s] ab assms(2,3) by (simp add: nth_subarray)
    with False written that assms(2,3) show ?thesis by auto
  qed
qed

end

end
