(* ===== verification/Upload_State.thy ===== *)
theory Upload_State imports Durable_Json Chunk_Tiling begin

text \<open>
  \<open>scripts/devnet/state.mjs\<close>: the deployment state document, its validation, its migration
  and its files.  The document is a JavaScript value, read with the accesses of the code, so
  that every malformed document is a case of the model; the typed view of a chunk record that
  the uploader works on is \<open>chunk_record\<close>, and \<open>chunk_js\<close> is the object it stands for.
\<close>

section \<open>Chunk records\<close>

datatype chunk_status = PLANNED | SENT | CONFIRMED | FAILED | UNKNOWN

fun status_name :: "chunk_status \<Rightarrow> string" where
  "status_name PLANNED = ''PLANNED''"
| "status_name SENT = ''SENT''"
| "status_name CONFIRMED = ''CONFIRMED''"
| "status_name FAILED = ''FAILED''"
| "status_name UNKNOWN = ''UNKNOWN''"

definition CHUNK_STATUS :: "string list" where
  "CHUNK_STATUS = [''PLANNED'', ''SENT'', ''CONFIRMED'', ''FAILED'', ''UNKNOWN'']"

definition str_in :: "js \<Rightarrow> string list \<Rightarrow> bool" where
  "str_in v names = (case v of JStr s \<Rightarrow> s \<in> set names | _ \<Rightarrow> False)"

record chunk_scan =
  expectedOffset :: rat
  indices :: "rat list"
  signatures :: "string list"

text \<open>One turn of the loop of \<open>validateChunkRecords\<close>, check by check.\<close>

definition validate_chunk :: "js \<Rightarrow> chunk_scan \<Rightarrow> chunk_scan result" where
  "validate_chunk chunk s =
     (let i = get chunk ''index''; off = get chunk ''offset''; len = get chunk ''length'';
          st = get chunk ''status''; sig = coalesce (get chunk ''signature'') JNull;
          dur = get chunk ''confirmationDurationMs''
      in if \<not> is_integer i \<or> num_of i \<in> set (indices s)
         then throw ''duplicate index in chunk records''
         else if num_of i \<noteq> of_nat (length (indices s))
         then throw ''chunk index order is invalid''
         else if \<not> is_integer off \<or> num_of off \<noteq> expectedOffset s \<or> \<not> is_integer len \<or> num_of len < 1
         then throw ''chunk offset gap or overlap''
         else if \<not> hex64i_test (coalesce (get chunk ''sha256'') (JStr ''''))
         then throw ''chunk sha256 is invalid''
         else if \<not> str_in st CHUNK_STATUS
         then throw ''chunk status is invalid''
         else if sig \<noteq> JNull \<and> (case sig of JStr t \<Rightarrow> t = [] | _ \<Rightarrow> True)
         then throw ''chunk signature is invalid''
         else if str_in st [''SENT'', ''FAILED'', ''UNKNOWN''] \<and> sig = JNull
         then throw ''chunk signature is required for sent state''
         else if st = JStr ''PLANNED'' \<and> sig \<noteq> JNull
         then throw ''planned chunk signature is forbidden''
         else if dur \<noteq> Undefined \<and> (st \<noteq> JStr ''CONFIRMED'' \<or> \<not> is_safe_integer dur \<or> num_of dur < 0)
         then throw ''chunk confirmation duration is invalid''
         else if (case sig of JStr t \<Rightarrow> t \<in> set (signatures s) | _ \<Rightarrow> False)
         then throw ''duplicate signature in chunk records''
         else Inr \<lparr> expectedOffset = expectedOffset s + num_of len,
                    indices = indices s @ [num_of i],
                    signatures = (case sig of JStr t \<Rightarrow> signatures s @ [t] | _ \<Rightarrow> signatures s) \<rparr>)"

fun validate_chunks :: "js list \<Rightarrow> chunk_scan \<Rightarrow> chunk_scan result" where
  "validate_chunks [] s = Inr s"
| "validate_chunks (c # cs) s = and_then (validate_chunk c s) (validate_chunks cs)"

definition scan_start :: chunk_scan where
  "scan_start = \<lparr> expectedOffset = 0, indices = [], signatures = [] \<rparr>"

definition validateChunkRecords :: "js \<Rightarrow> unit result" where
  "validateChunkRecords chunks =
     (case chunks of
        JArr cs \<Rightarrow> and_then (validate_chunks cs scan_start) (\<lambda>_. Inr ())
      | _ \<Rightarrow> throw ''chunk records must be an array'')"

subsection \<open>The typed view\<close>

record chunk_record =
  c_index :: nat
  c_offset :: nat
  c_length :: nat
  c_sha256 :: string
  c_status :: chunk_status
  c_signature :: "string option"
  c_duration :: "nat option"

definition chunk_js :: "chunk_record \<Rightarrow> js" where
  "chunk_js c = JObj (
     [(''index'', JNat (c_index c)), (''offset'', JNat (c_offset c)),
      (''length'', JNat (c_length c)), (''sha256'', JStr (c_sha256 c)),
      (''status'', JStr (status_name (c_status c))),
      (''signature'', (case c_signature c of None \<Rightarrow> JNull | Some t \<Rightarrow> JStr t))]
     @ (case c_duration c of None \<Rightarrow> [] | Some d \<Rightarrow> [(''confirmationDurationMs'', JNat d)]))"

text \<open>What a well-formed record list is: indexes count up from 0, the chunks tile the payload
  without gap or overlap, a signature exists exactly where the status needs one, signatures
  are distinct, and only a confirmed chunk carries a duration.\<close>

definition chunk_fields_ok :: "chunk_record \<Rightarrow> bool" where
  "chunk_fields_ok c \<longleftrightarrow>
     1 \<le> c_length c \<and> hex64i (c_sha256 c)
     \<and> c_signature c \<noteq> Some []
     \<and> (c_status c \<in> {SENT, FAILED, UNKNOWN} \<longrightarrow> c_signature c \<noteq> None)
     \<and> (c_status c = PLANNED \<longrightarrow> c_signature c = None)
     \<and> (case c_duration c of None \<Rightarrow> True | Some d \<Rightarrow> c_status c = CONFIRMED \<and> safe_int (int d))"

definition used_signatures :: "chunk_record list \<Rightarrow> string list" where
  "used_signatures cs = List.map_filter c_signature cs"

definition chunk_span :: "chunk_record \<Rightarrow> span" where
  "chunk_span c = (c_index c, c_offset c, c_length c)"

definition wf_chunks :: "chunk_record list \<Rightarrow> bool" where
  "wf_chunks cs \<longleftrightarrow>
     tiled_from 0 0 (map chunk_span cs) \<and> (\<forall>c\<in>set cs. chunk_fields_ok c)
     \<and> distinct (used_signatures cs)"

lemma get_chunk_js [simp]:
  "get (chunk_js c) ''index'' = JNat (c_index c)"
  "get (chunk_js c) ''offset'' = JNat (c_offset c)"
  "get (chunk_js c) ''length'' = JNat (c_length c)"
  "get (chunk_js c) ''sha256'' = JStr (c_sha256 c)"
  "get (chunk_js c) ''status'' = JStr (status_name (c_status c))"
  "get (chunk_js c) ''signature'' =
     (case c_signature c of None \<Rightarrow> JNull | Some t \<Rightarrow> JStr t)"
  "get (chunk_js c) ''confirmationDurationMs'' =
     (case c_duration c of None \<Rightarrow> Undefined | Some d \<Rightarrow> JNat d)"
  by (simp_all add: chunk_js_def split: option.split)

lemma status_name_simps [simp]:
  "status_name st \<in> set CHUNK_STATUS"
  "status_name st = ''PLANNED'' \<longleftrightarrow> st = PLANNED"
  "status_name st = ''SENT'' \<longleftrightarrow> st = SENT"
  "status_name st = ''CONFIRMED'' \<longleftrightarrow> st = CONFIRMED"
  "status_name st = ''FAILED'' \<longleftrightarrow> st = FAILED"
  "status_name st = ''UNKNOWN'' \<longleftrightarrow> st = UNKNOWN"
  by (cases st; simp add: CHUNK_STATUS_def)+

lemma is_safe_integer_JNat [simp]: "is_safe_integer (JNat n) \<longleftrightarrow> safe_int (int n)"
  by (simp add: is_safe_integer_def)

text \<open>The scan after \<open>n\<close> accepted records.\<close>

definition scan_at :: "nat \<Rightarrow> nat \<Rightarrow> string list \<Rightarrow> chunk_scan" where
  "scan_at n off sigs =
     \<lparr> expectedOffset = of_nat off, indices = map of_nat [0..<n], signatures = sigs \<rparr>"

definition sig_list :: "chunk_record \<Rightarrow> string list" where
  "sig_list c = (case c_signature c of None \<Rightarrow> [] | Some t \<Rightarrow> [t])"

lemma validate_chunk_typed:
  "validate_chunk (chunk_js c) (scan_at n off sigs) = Inr s' \<longleftrightarrow>
     c_index c = n \<and> c_offset c = off \<and> chunk_fields_ok c
     \<and> set (sig_list c) \<inter> set sigs = {}
     \<and> s' = scan_at (Suc n) (off + c_length c) (sigs @ sig_list c)"
proof -
  have len: "\<not> (of_nat (c_length c) :: rat) < 1 \<longleftrightarrow> 1 \<le> c_length c" for c
    by (simp add: not_less Suc_le_eq)
  show ?thesis
    unfolding validate_chunk_def Let_def scan_at_def chunk_fields_ok_def sig_list_def
    by (cases "c_signature c"; cases "c_duration c"; cases "c_status c")
      (auto simp: coalesce_def nullish_def str_in_def CHUNK_STATUS_def len not_less)
qed

lemma validate_chunks_typed:
  "validate_chunks (map chunk_js cs) (scan_at n off sigs) = Inr s' \<Longrightarrow>
     tiled_from n off (map chunk_span cs) \<and> (\<forall>c\<in>set cs. chunk_fields_ok c)
     \<and> (distinct sigs \<longrightarrow> distinct (sigs @ concat (map sig_list cs)))"
proof (induction cs arbitrary: n off sigs)
  case Nil
  then show ?case by simp
next
  case (Cons c cs)
  from Cons.prems obtain s1 where
    "validate_chunk (chunk_js c) (scan_at n off sigs) = Inr s1"
    and rest: "validate_chunks (map chunk_js cs) s1 = Inr s'"
    by (auto simp: and_then_eq_Inr)
  then have c: "c_index c = n" "c_offset c = off" "chunk_fields_ok c"
      "set (sig_list c) \<inter> set sigs = {}"
    and s1: "s1 = scan_at (Suc n) (off + c_length c) (sigs @ sig_list c)"
    by (simp_all add: validate_chunk_typed)
  have "distinct (sig_list c)" by (simp add: sig_list_def split: option.split)
  with c Cons.IH [OF rest [unfolded s1]] show ?case
    by (auto simp: chunk_span_def chunk_fields_ok_def)
qed

lemma validate_chunks_complete:
  "tiled_from n off (map chunk_span cs) \<Longrightarrow> \<forall>c\<in>set cs. chunk_fields_ok c \<Longrightarrow>
   distinct (sigs @ concat (map sig_list cs)) \<Longrightarrow>
   \<exists>s'. validate_chunks (map chunk_js cs) (scan_at n off sigs) = Inr s'"
proof (induction cs arbitrary: n off sigs)
  case Nil
  then show ?case by simp
next
  case (Cons c cs)
  then have "validate_chunk (chunk_js c) (scan_at n off sigs)
      = Inr (scan_at (Suc n) (off + c_length c) (sigs @ sig_list c))"
    by (auto simp: validate_chunk_typed chunk_span_def)
  with Cons.IH [of "Suc n" "off + c_length c" "sigs @ sig_list c"] Cons.prems show ?case
    by (auto simp: chunk_span_def)
qed

lemma scan_start_at: "scan_start = scan_at 0 0 []"
  by (simp add: scan_start_def scan_at_def)

lemma used_signatures_concat: "used_signatures cs = concat (map sig_list cs)"
  by (induction cs) (auto simp: used_signatures_def sig_list_def List.map_filter_def split: option.split)

text \<open>The validator accepts exactly the well-formed record lists.\<close>

lemma validateChunkRecords_iff_wf:
  "validateChunkRecords (JArr (map chunk_js cs)) = Inr () \<longleftrightarrow> wf_chunks cs"
  using validate_chunks_typed [of cs 0 0 "[]"] validate_chunks_complete [of 0 0 cs "[]"]
  by (auto simp: validateChunkRecords_def wf_chunks_def scan_start_at and_then_eq_Inr
      used_signatures_concat)

section \<open>Secret material\<close>

definition SECRET_FIELDS :: "string list" where
  "SECRET_FIELDS =
     [''secret'', ''secretkey'', ''privatekey'', ''mnemonic'', ''seed'', ''seedphrase'',
      ''passphrase'', ''credential'']"

definition secret_field :: "string \<Rightarrow> bool" where
  "secret_field k \<longleftrightarrow> to_lower k \<in> set SECRET_FIELDS"

definition is_byte_number :: "js \<Rightarrow> bool" where
  "is_byte_number v \<longleftrightarrow> is_integer v \<and> 0 \<le> num_of v \<and> num_of v \<le> 255"

definition keypair_shaped :: "js list \<Rightarrow> bool" where
  "keypair_shaped vs \<longleftrightarrow> length vs = 64 \<and> list_all is_byte_number vs"

lemma size_js_indexed [termination_simp]:
  "(j, x) \<in> set (index_from i vs) \<Longrightarrow> size x < Suc (size_list size vs)"
  by (rule size_js_elem) (rule index_from_elem)

fun assertNoSecretMaterial :: "js \<Rightarrow> string \<Rightarrow> unit result" where
  "assertNoSecretMaterial (JArr vs) path =
     (if keypair_shaped vs
      then throw (''keypair-shaped byte array is forbidden in '' @ path)
      else for_each (\<lambda>(i, item). assertNoSecretMaterial item (path @ ''['' @ show_nat i @ '']''))
             (index_from 0 vs))"
| "assertNoSecretMaterial (JObj kvs) path =
     for_each (\<lambda>(k, item).
        if secret_field k then throw (''secret material is forbidden in '' @ path @ ''.'' @ k)
        else assertNoSecretMaterial item (path @ ''.'' @ k)) kvs"
| "assertNoSecretMaterial _ path = Inr ()"

text \<open>The documents without secret material.\<close>

fun no_secrets :: "js \<Rightarrow> bool" where
  "no_secrets (JArr vs) = (\<not> keypair_shaped vs \<and> (\<forall>v\<in>set vs. no_secrets v))"
| "no_secrets (JObj kvs) = (\<forall>(k, v)\<in>set kvs. \<not> secret_field k \<and> no_secrets v)"
| "no_secrets _ = True"

lemma ball_index_from: "(\<forall>p\<in>set (index_from i xs). P (snd p)) \<longleftrightarrow> (\<forall>x\<in>set xs. P x)"
  by (metis (mono_tags, lifting) image_iff snd_index_from)

lemma assertNoSecretMaterial_iff:
  "assertNoSecretMaterial v path = Inr () \<longleftrightarrow> no_secrets v"
proof (induction v path rule: assertNoSecretMaterial.induct)
  case (1 vs path)
  show ?case
  proof (cases "keypair_shaped vs")
    case False
    with 1 have "assertNoSecretMaterial (JArr vs) path = Inr ()
        \<longleftrightarrow> (\<forall>p\<in>set (index_from 0 vs). no_secrets (snd p))"
      by (simp add: for_each_eq_Inr split_beta)
    with False show ?thesis by (simp add: ball_index_from)
  qed simp
next
  case (2 kvs path)
  then show ?case by (auto simp: for_each_eq_Inr split: if_splits)
qed auto

lemma no_secrets_get: "no_secrets v \<Longrightarrow> no_secrets (get v k)"
  by (cases v) (auto split: option.split dest: map_of_SomeD)

lemma no_secrets_set_field:
  "no_secrets (JObj kvs) \<Longrightarrow> \<not> secret_field k \<Longrightarrow> no_secrets x \<Longrightarrow>
   no_secrets (JObj (set_field kvs k x))"
  by (auto dest: values_set_field)

section \<open>Creation and migration\<close>

definition createInitialState :: "string \<Rightarrow> js \<Rightarrow> js \<Rightarrow> js" where
  "createInitialState uuid publicConfig sourceCommit =
     JObj [(''schemaVersion'', JNum 3), (''runId'', JStr uuid),
           (''cluster'', get publicConfig ''cluster''),
           (''source'', JObj [(''commit'', sourceCommit), (''binary'', JNull)]),
           (''program'', JObj [(''id'', get publicConfig ''programId'')]),
           (''identities'', JObj []),
           (''deployment'', JObj [(''buffer'', JNull)]),
           (''mint'', JObj []),
           (''flows'', JObj [(''release'', JObj []), (''refund'', JObj [])]),
           (''transactions'', JObj []),
           (''captures'', JArr [])]"

definition migrate_to_2 :: "js \<Rightarrow> js" where
  "migrate_to_2 m =
     (let d = get m ''deployment''
      in assign (assign m ''schemaVersion'' (JNum 2)) ''deployment''
           (JObj (set_field (own_fields (coalesce d (JObj []))) ''buffer''
                    (coalesce (get d ''buffer'') JNull))))"

definition migrate_buffer :: "js \<Rightarrow> js" where
  "migrate_buffer b =
     JObj (set_field (set_field (set_field (own_fields b)
       ''chunks'' (coalesce (get b ''chunks'') (JArr [])))
       ''planFingerprint'' (coalesce (get b ''planFingerprint'') JNull))
       ''uploadWindows'' (coalesce (get b ''uploadWindows'') (JArr [])))"

definition migrate_to_3 :: "js \<Rightarrow> js" where
  "migrate_to_3 m =
     (let m' = assign m ''schemaVersion'' (JNum 3); d = get m ''deployment''; b = get d ''buffer''
      in if truthy b then assign m' ''deployment'' (assign d ''buffer'' (migrate_buffer b)) else m')"

definition migrateState :: "js \<Rightarrow> js result" where
  "migrateState value =
     (let v = get value ''schemaVersion'' in
      if \<not> is_integer v then throw ''state schemaVersion is required''
      else if num_of v > 3 then
        throw (''future state schemaVersion '' @ show_int \<lfloor>num_of v\<rfloor> @ '' is not supported'')
      else if num_of v < 1 then
        throw (''state schemaVersion '' @ show_int \<lfloor>num_of v\<rfloor> @ '' is unsupported'')
      else and_then (assertNoSecretMaterial value ''state'') (\<lambda>_.
        let m1 = (if num_of v = 1 then migrate_to_2 value else value);
            m2 = (if get m1 ''schemaVersion'' = JNum 2 then migrate_to_3 m1 else m1)
        in Inr m2))"

lemma digits_not_secret: "\<not> secret_field (show_nat n)"
proof
  assume "secret_field (show_nat n)"
  then have "to_lower (show_nat n) \<in> set SECRET_FIELDS" by (simp add: secret_field_def)
  then have "97 \<le> (of_char (hd (to_lower (show_nat n))) :: nat)"
    by (auto simp: SECRET_FIELDS_def)
  moreover have "hd (show_nat n) \<in> set (show_nat n)" by simp
  from show_nat_chars [OF this] have "(of_char (lower_char (hd (show_nat n))) :: nat) \<le> 57"
    by (simp add: Let_def)
  ultimately show False by (simp add: to_lower_def hd_map)
qed

lemma no_secrets_own_fields: "no_secrets v \<Longrightarrow> no_secrets (JObj (own_fields v))"
  by (cases v) (auto simp: digits_not_secret dest: index_from_elem)

lemma schema_object: "is_integer (get v ''schemaVersion'') \<Longrightarrow> \<exists>kvs. v = JObj kvs"
  by (cases v) (auto simp: is_integer_def)

lemma field_names_not_secret [simp]:
  "\<not> secret_field ''schemaVersion''" "\<not> secret_field ''deployment''" "\<not> secret_field ''buffer''"
  "\<not> secret_field ''chunks''" "\<not> secret_field ''planFingerprint''" "\<not> secret_field ''uploadWindows''"
  by (simp_all add: secret_field_def to_lower_def SECRET_FIELDS_def Let_def)

lemma no_secrets_coalesce: "no_secrets v \<Longrightarrow> no_secrets d \<Longrightarrow> no_secrets (coalesce v d)"
  by (simp add: coalesce_def)

lemma no_secrets_assign:
  "no_secrets v \<Longrightarrow> \<not> secret_field k \<Longrightarrow> no_secrets x \<Longrightarrow> no_secrets (assign v k x)"
  by (cases v) (simp_all add: assign_def no_secrets_set_field del: no_secrets.simps(2))

lemma no_secrets_migrate_buffer: "no_secrets b \<Longrightarrow> no_secrets (migrate_buffer b)"
  unfolding migrate_buffer_def
  by (intro no_secrets_set_field no_secrets_own_fields no_secrets_coalesce no_secrets_get)
    (simp_all add: keypair_shaped_def)

lemma no_secrets_migrate_to_2: "no_secrets m \<Longrightarrow> no_secrets (migrate_to_2 m)"
  unfolding migrate_to_2_def Let_def
  by (intro no_secrets_assign no_secrets_set_field no_secrets_own_fields no_secrets_coalesce
      no_secrets_get) simp_all

lemma no_secrets_migrate_to_3: "no_secrets m \<Longrightarrow> no_secrets (migrate_to_3 m)"
  unfolding migrate_to_3_def Let_def
  by (auto intro!: no_secrets_assign no_secrets_migrate_buffer no_secrets_get simp del: no_secrets.simps(2))

lemma migrateState_cases:
  assumes "migrateState v = Inr m"
  obtains (v3) kvs where "v = JObj kvs" "get v ''schemaVersion'' = JNum 3" "m = v"
    | (v2) kvs where "v = JObj kvs" "get v ''schemaVersion'' = JNum 2" "m = migrate_to_3 v"
    | (v1) kvs where "v = JObj kvs" "get v ''schemaVersion'' = JNum 1"
        "m = migrate_to_3 (migrate_to_2 v)"
proof -
  let ?n = "num_of (get v ''schemaVersion'')"
  from assms have int: "is_integer (get v ''schemaVersion'')" and range: "\<not> ?n > 3" "\<not> ?n < 1"
    by (auto simp: migrateState_def Let_def split: if_splits)
  then obtain r where r: "get v ''schemaVersion'' = JNum r" "of_int \<lfloor>r\<rfloor> = r"
    by (auto simp: is_integer_def split: js.splits)
  with range have "1 \<le> \<lfloor>r\<rfloor>" "\<lfloor>r\<rfloor> \<le> 3"
    by (metis num_of.simps(1) not_less le_floor_iff of_int_1 floor_le_iff, 
        metis num_of.simps(1) not_less of_int_le_iff of_int_numeral)
  then have "\<lfloor>r\<rfloor> = 1 \<or> \<lfloor>r\<rfloor> = 2 \<or> \<lfloor>r\<rfloor> = 3" by arith
  with r(2) have cases: "r = 1 \<or> r = 2 \<or> r = 3" by auto
  from schema_object [OF int] obtain kvs where obj: "v = JObj kvs" by blast
  have ver2: "get (migrate_to_2 v) ''schemaVersion'' = JNum 2"
    by (simp add: migrate_to_2_def obj Let_def assign_def)
  from assms int range r(1) cases v1 v2 v3 obj ver2 show thesis
    by (auto simp: migrateState_def Let_def and_then_eq_Inr simp del: get.simps split: if_splits)
qed

lemma migrate_to_3_object:
  "get (migrate_to_3 (JObj kvs)) k =
     (if k = ''schemaVersion'' then JNum 3
      else if k = ''deployment'' \<and> truthy (get (get (JObj kvs) ''deployment'') ''buffer'')
      then assign (get (JObj kvs) ''deployment'') ''buffer''
             (migrate_buffer (get (get (JObj kvs) ''deployment'') ''buffer''))
      else get (JObj kvs) k)"
  by (simp add: migrate_to_3_def Let_def assign_def)

lemma migrate_to_2_object:
  "\<exists>kvs'. migrate_to_2 (JObj kvs) = JObj kvs'"
  "k \<noteq> ''schemaVersion'' \<Longrightarrow> k \<noteq> ''deployment'' \<Longrightarrow> get (migrate_to_2 (JObj kvs)) k = get (JObj kvs) k"
  by (simp_all add: migrate_to_2_def Let_def assign_def)

lemma migrateState_version: "migrateState v = Inr m \<Longrightarrow> get m ''schemaVersion'' = JNum 3"
  by (erule migrateState_cases) (metis migrate_to_2_object(1) migrate_to_3_object)+

lemma migrateState_no_secrets: "migrateState v = Inr m \<Longrightarrow> no_secrets v \<and> no_secrets m"
proof -
  assume "migrateState v = Inr m"
  moreover from this have "no_secrets v"
    by (auto simp: migrateState_def Let_def and_then_eq_Inr assertNoSecretMaterial_iff split: if_splits)
  ultimately show ?thesis
    by (auto elim!: migrateState_cases intro: no_secrets_migrate_to_2 no_secrets_migrate_to_3
        simp del: no_secrets.simps)
qed

lemma migrateState_current:
  "get m ''schemaVersion'' = JNum 3 \<Longrightarrow> no_secrets m \<Longrightarrow> migrateState m = Inr m"
  by (simp add: migrateState_def Let_def is_integer_def assertNoSecretMaterial_iff [THEN iffD2])

lemma migrateState_frame:
  "migrateState v = Inr m \<Longrightarrow> k \<noteq> ''schemaVersion'' \<Longrightarrow> k \<noteq> ''deployment'' \<Longrightarrow> get m k = get v k"
  by (erule migrateState_cases) (metis migrate_to_2_object migrate_to_3_object)+

section \<open>State files\<close>

text \<open>The calls of \<open>saveStateAtomic\<close> and \<open>backupState\<close> that can throw; \<open>None\<close> is success.
  Neither function cleans up, so a call that throws and a crash before it leave the same
  files.\<close>

datatype state_call = CallMkdir | CallWrite | CallRename | CallCopy | CallBackupMkdir | CallBackupRename

type_synonym state_io = "state_call \<Rightarrow> string option"

definition loadState :: "fs \<Rightarrow> path \<Rightarrow> js result" where
  "loadState fs p = and_then (readJson fs p) migrateState"

definition saveStateAtomic :: "state_io \<Rightarrow> path \<Rightarrow> js \<Rightarrow> fs \<Rightarrow> unit result \<times> fs" where
  "saveStateAtomic io p state fs =
     (case assertNoSecretMaterial state ''state'' of Inl e \<Rightarrow> (Inl e, fs) | Inr _ \<Rightarrow>
      case io CallMkdir of Some c \<Rightarrow> (throw c, fs) | None \<Rightarrow>
      let temporary = p @ ''.tmp'' in
      case io CallWrite of Some c \<Rightarrow> (throw c, fs(temporary := Some Junk)) | None \<Rightarrow>
      let fs1 = fs(temporary := Some (Doc (json_norm state))) in
      case io CallRename of Some c \<Rightarrow> (throw c, fs1) | None \<Rightarrow>
      (Inr (), renameFile temporary p fs1))"

definition backup_path :: "fs \<Rightarrow> path \<Rightarrow> string \<Rightarrow> string \<Rightarrow> js \<Rightarrow> path" where
  "backup_path fs historyDir timestamp uuid state =
     (let stem = historyDir @ ''/state-v'' @ show_int \<lfloor>num_of (get state ''schemaVersion'')\<rfloor>
                 @ ''-'' @ timestamp;
          preferred = stem @ ''.json''
      in if fs preferred \<noteq> None then stem @ ''-'' @ uuid @ ''.json'' else preferred)"

definition backupState ::
    "state_io \<Rightarrow> path \<Rightarrow> path \<Rightarrow> string \<Rightarrow> string \<Rightarrow> fs \<Rightarrow> path result \<times> fs" where
  "backupState io p historyDir timestamp uuid fs =
     (if fs p = None then (throw (''state file does not exist: '' @ p), fs) else
      case readJson fs p of Inl e \<Rightarrow> (Inl e, fs) | Inr state \<Rightarrow>
      if \<not> is_integer (get state ''schemaVersion'')
      then (throw ''state schemaVersion is required'', fs) else
      case assertNoSecretMaterial state ''state'' of Inl e \<Rightarrow> (Inl e, fs) | Inr _ \<Rightarrow>
      case io CallBackupMkdir of Some c \<Rightarrow> (throw c, fs) | None \<Rightarrow>
      let backup = backup_path fs historyDir timestamp uuid state;
          temporary = backup @ ''.tmp'' in
      case io CallCopy of Some c \<Rightarrow> (throw c, fs(temporary := Some Junk)) | None \<Rightarrow>
      let fs1 = fs(temporary := fs p) in
      case io CallBackupRename of Some c \<Rightarrow> (throw c, fs1) | None \<Rightarrow>
      (Inr backup, renameFile temporary backup fs1))"

definition migrateStateFile ::
    "state_io \<Rightarrow> path \<Rightarrow> path \<Rightarrow> string \<Rightarrow> string \<Rightarrow> fs \<Rightarrow> (js \<times> path option) result \<times> fs" where
  "migrateStateFile io p historyDir timestamp uuid fs =
     (case readJson fs p of Inl e \<Rightarrow> (Inl e, fs) | Inr raw \<Rightarrow>
      case migrateState raw of Inl e \<Rightarrow> (Inl e, fs) | Inr migrated \<Rightarrow>
      if get raw ''schemaVersion'' = get migrated ''schemaVersion''
      then (Inr (migrated, None), fs)
      else case backupState io p historyDir timestamp uuid fs of
          (Inl e, fs1) \<Rightarrow> (Inl e, fs1)
        | (Inr backup, fs1) \<Rightarrow>
            (case saveStateAtomic io p migrated fs1 of
               (Inl e, fs2) \<Rightarrow> (Inl e, fs2)
             | (Inr _, fs2) \<Rightarrow> (Inr (migrated, Some backup), fs2)))"

lemma tmp_not_same [simp]: "p @ ''.tmp'' \<noteq> p" "p \<noteq> p @ ''.tmp''"
  by simp_all

lemmas save_defs = saveStateAtomic_def Let_def renameFile_def

lemma saveStateAtomic_old_or_new:
  "saveStateAtomic io p d fs = (r, fs') \<Longrightarrow> fs' p = fs p \<or> fs' p = Some (Doc (json_norm d))"
  by (auto simp: save_defs split: sum.splits option.splits if_splits)

lemma saveStateAtomic_success:
  "saveStateAtomic io p d fs = (Inr (), fs') \<Longrightarrow>
   fs' p = Some (Doc (json_norm d)) \<and> fs' (p @ ''.tmp'') = None \<and> no_secrets d"
  by (auto simp: save_defs assertNoSecretMaterial_iff [THEN iffD1] split: sum.splits option.splits)

lemma saveStateAtomic_frame:
  "saveStateAtomic io p d fs = (r, fs') \<Longrightarrow> q \<noteq> p \<Longrightarrow> q \<noteq> p @ ''.tmp'' \<Longrightarrow> fs' q = fs q"
  by (auto simp: save_defs split: sum.splits option.splits)

text \<open>The state file is a durable store of its documents: the second provider of the
  interface.\<close>

definition read_state :: "path \<Rightarrow> fs \<Rightarrow> js result" where
  "read_state p fs = readJson fs p"

interpretation state_file: durable_store
  "saveStateAtomic io p" "read_state p" json_norm "\<lambda>_. True" for io p
proof
  show "read_state p fs' = Inr (json_norm d)"
    if "saveStateAtomic io p d fs = (Inr (), fs')" for fs d fs'
    using saveStateAtomic_success [OF that] by (simp add: read_state_def readJson_def)
  show "read_state p fs' = read_state p fs \<or> read_state p fs' = Inr (json_norm d)"
    if "saveStateAtomic io p d fs = (Inl e, fs')" for fs d e fs'
    using saveStateAtomic_old_or_new [OF that] by (auto simp: read_state_def readJson_def)
qed simp

lemma backupState_keeps_state:
  assumes "backupState io p historyDir timestamp uuid fs = (r, fs')"
    and "\<And>d. p \<noteq> backup_path fs historyDir timestamp uuid d"
    and "\<And>d. p \<noteq> backup_path fs historyDir timestamp uuid d @ ''.tmp''"
  shows "fs' p = fs p"
  using assms
  by (auto simp: backupState_def Let_def renameFile_def split: sum.splits option.splits if_splits)

lemma backupState_copies:
  assumes "backupState io p historyDir timestamp uuid fs = (Inr b, fs')"
  shows "fs' b = fs p \<and> (\<exists>d. b = backup_path fs historyDir timestamp uuid d)"
  using assms
  by (auto simp: backupState_def Let_def renameFile_def readJson_def
      split: sum.splits option.splits if_splits file_content.splits)

section \<open>Buffer metadata and the next step\<close>

definition configureDeploymentBuffer :: "js \<Rightarrow> js \<Rightarrow> js result" where
  "configureDeploymentBuffer state input =
     and_then (migrateState state) (\<lambda>migrated.
       let f = get input in
       if \<not> truthy (f ''publicKey'') \<or> \<not> truthy (f ''expectedOwner'')
          \<or> \<not> truthy (f ''expectedAuthority'')
          \<or> \<not> is_integer (f ''allocatedLength'') \<or> num_of (f ''allocatedLength'') \<le> 0
          \<or> \<not> is_integer (f ''localBinaryLength'') \<or> num_of (f ''localBinaryLength'') \<le> 0
          \<or> \<not> truthy (f ''localBinarySha256'')
       then throw ''complete public deployment buffer metadata is required''
       else
         let d = coalesce (get migrated ''deployment'') (JObj []);
             buffer = JObj [(''publicKey'', f ''publicKey''),
               (''expectedOwner'', f ''expectedOwner''),
               (''expectedAuthority'', f ''expectedAuthority''),
               (''allocatedLength'', f ''allocatedLength''),
               (''localBinary'', JObj [(''length'', f ''localBinaryLength''),
                                       (''sha256'', f ''localBinarySha256'')]),
               (''creationSignature'', JNull), (''writeAttempts'', JArr []),
               (''lastConfirmedProgress'', JNull), (''status'', JStr ''PLANNED''),
               (''lastRpcError'', JNull), (''retryEligible'', JBool True),
               (''chunks'', JArr []), (''planFingerprint'', JNull), (''uploadWindows'', JArr [])];
             result = assign migrated ''deployment'' (assign d ''buffer'' buffer)
         in and_then (assertNoSecretMaterial result ''state'') (\<lambda>_. Inr result))"

definition decideNextStep :: "string \<Rightarrow> (string \<times> bool) result" where
  "decideNextStep status =
     (if status = ''Initialized'' then Inr (''fund'', True)
      else if status = ''Funded'' then Inr (''settle'', True)
      else if status \<in> {''Released'', ''Refunded'', ''Cancelled''} then Inr (''terminal'', False)
      else throw (''unknown escrow status '' @ status))"

lemma configureDeploymentBuffer_ok:
  "configureDeploymentBuffer state input = Inr m \<Longrightarrow>
   no_secrets m \<and> get m ''schemaVersion'' = JNum 3"
proof -
  assume *: "configureDeploymentBuffer state input = Inr m"
  then obtain m0 where m0: "migrateState state = Inr m0"
    by (auto simp: configureDeploymentBuffer_def and_then_eq_Inr)
  have "get m0 ''schemaVersion'' = JNum 3" by (rule migrateState_version [OF m0])
  moreover from this obtain kvs where "m0 = JObj kvs" by (cases m0) auto
  ultimately show ?thesis using * m0
    by (auto simp: configureDeploymentBuffer_def Let_def and_then_eq_Inr assertNoSecretMaterial_iff
        simp del: no_secrets.simps get.simps split: if_splits)
qed

end
