(* ===== verification/Upload_Plan.thy ===== *)
theory Upload_Plan imports Loader_Codec Upload_State begin

text \<open>
  \<open>scripts/devnet/upload-plan.mjs\<close>: how a local binary is cut into write transactions that fit
  a packet.  Serialising a transaction is the job of a package outside the repository: the
  parameter \<open>serialize\<close> gives the serialized length of a transaction with one instruction paid
  by the authority, or the error the package throws.
\<close>

definition PACKET_DATA_SIZE :: nat where
  "PACKET_DATA_SIZE = 1232"

definition SAFETY_MARGIN :: nat where
  "SAFETY_MARGIN = 1"

record tx_env =
  valid_key :: "string \<Rightarrow> bool"
  serialize :: "pubkey \<Rightarrow> instruction \<Rightarrow> nat result"

definition serializedWriteTransactionSize ::
    "tx_env \<Rightarrow> string \<Rightarrow> string \<Rightarrow> nat \<Rightarrow> bytes \<Rightarrow> nat result" where
  "serializedWriteTransactionSize env buffer authority offset bs =
     and_then (newPublicKey (valid_key env) authority) (\<lambda>authorityKey.
     and_then (makeLoaderV3WriteInstruction (valid_key env) buffer authorityKey (JNat offset) (Some bs))
       (\<lambda>ix. serialize env authorityKey ix))"

section \<open>The largest payload\<close>

definition too_large :: "js_error \<Rightarrow> bool" where
  "too_large e = (case e of Error m \<Rightarrow> contains ''Transaction too large'' m | TypeError \<Rightarrow> False)"

definition payload_fits :: "tx_env \<Rightarrow> string \<Rightarrow> string \<Rightarrow> nat \<Rightarrow> bool result" where
  "payload_fits env buffer authority candidate =
     (case serializedWriteTransactionSize env buffer authority 0 (replicate candidate 0) of
        Inr n \<Rightarrow> Inr (n \<le> PACKET_DATA_SIZE - SAFETY_MARGIN)
      | Inl e \<Rightarrow> if too_large e then Inr False else Inl e)"

text \<open>The bisection; \<open>(low + high + 1) div 2\<close> is \<open>Math.ceil((low + high) / 2)\<close>.\<close>

function bisect_payload :: "(nat \<Rightarrow> bool result) \<Rightarrow> nat \<Rightarrow> nat \<Rightarrow> nat result" where
  "bisect_payload fits low high =
     (if low < high then
        (let candidate = (low + high + 1) div 2 in
         case fits candidate of
           Inl e \<Rightarrow> Inl e
         | Inr True \<Rightarrow> bisect_payload fits candidate high
         | Inr False \<Rightarrow> bisect_payload fits low (candidate - 1))
      else Inr low)"
  by pat_completeness auto
termination
  by (relation "measure (\<lambda>(fits, low, high). high - low)") auto

declare bisect_payload.simps [simp del]

definition deriveMaxWritePayload :: "tx_env \<Rightarrow> string \<Rightarrow> string \<Rightarrow> nat result" where
  "deriveMaxWritePayload env buffer authority =
     bisect_payload (payload_fits env buffer authority) 0 PACKET_DATA_SIZE"

text \<open>The bisection returns the largest fitting payload when fitting is downward closed.\<close>

lemma bisect_payload_largest:
  assumes "\<And>n. n \<le> high \<Longrightarrow> fits n = Inr (F n)"
    and "\<And>m n. m \<le> n \<Longrightarrow> F n \<Longrightarrow> F m" and "low \<le> high" and "F low"
  shows "\<exists>n. bisect_payload fits low high = Inr n \<and> F n \<and> low \<le> n \<and> n \<le> high
    \<and> (\<forall>m\<le>high. F m \<longrightarrow> m \<le> n)"
  using assms
proof (induction fits low high rule: bisect_payload.induct)
  case (1 fits low high)
  let ?c = "(low + high + 1) div 2"
  show ?case
  proof (cases "low < high")
    case False
    then have "bisect_payload fits low high = Inr low"
      by (simp add: bisect_payload.simps [of fits low high])
    with "1.prems" False show ?thesis by auto
  next
    case True
    then have c: "low < ?c" "?c \<le> high" by auto
    have f: "fits ?c = Inr (F ?c)" using "1.prems"(1) c(2) by blast
    show ?thesis
    proof (cases "F ?c")
      case True
      with f "1.IH"(1) [OF \<open>low < high\<close> refl f [unfolded eqTrueI [OF True]]] "1.prems" c
      show ?thesis by (force simp: bisect_payload.simps [of fits low high] Let_def)
    next
      case False
      then have "bisect_payload fits low high = bisect_payload fits low (?c - 1)"
        using f \<open>low < high\<close> by (simp add: bisect_payload.simps [of fits low high] Let_def)
      moreover have "\<exists>n. bisect_payload fits low (?c - 1) = Inr n \<and> F n \<and> low \<le> n \<and> n \<le> ?c - 1
          \<and> (\<forall>m\<le>?c - 1. F m \<longrightarrow> m \<le> n)"
        using f False c "1.prems" by (intro "1.IH"(2) [OF \<open>low < high\<close> refl]) auto
      moreover have "m \<le> ?c - 1" if "F m" for m
        using that False "1.prems"(2) [of ?c m] by (cases "m < ?c") auto
      ultimately show ?thesis using c(2) by force
    qed
  qed
qed

section \<open>The plan\<close>

record plan_chunk =
  p_index :: nat
  p_offset :: nat
  p_length :: nat
  p_sha256 :: string
  p_exact :: bool
  p_txbytes :: nat

record upload_plan =
  maxPayload :: nat
  plan_chunks :: "plan_chunk list"
  totalChunks :: nat
  exactChunks :: nat
  remainingChunks :: nat
  exactBinaryMatch :: bool

definition plan_one ::
    "tx_env \<Rightarrow> (bytes \<Rightarrow> string) \<Rightarrow> string \<Rightarrow> string \<Rightarrow> bytes \<Rightarrow> bytes \<Rightarrow> nat \<Rightarrow> nat \<Rightarrow> nat
     \<Rightarrow> plan_chunk result" where
  "plan_one env sha buffer authority local current maxP offset index =
     (let bs = subarray local offset (min (offset + maxP) (length local)) in
      and_then (serializedWriteTransactionSize env buffer authority offset bs) (\<lambda>transactionBytes.
        if transactionBytes > PACKET_DATA_SIZE - SAFETY_MARGIN
        then throw ''write transaction exceeds packet safety ceiling''
        else Inr \<lparr> p_index = index, p_offset = offset, p_length = length bs, p_sha256 = sha bs,
                   p_exact = buffer_equals bs (subarray current offset (offset + length bs)),
                   p_txbytes = transactionBytes \<rparr>))"

function plan_from ::
    "tx_env \<Rightarrow> (bytes \<Rightarrow> string) \<Rightarrow> string \<Rightarrow> string \<Rightarrow> bytes \<Rightarrow> bytes \<Rightarrow> nat \<Rightarrow> nat \<Rightarrow> nat
     \<Rightarrow> plan_chunk list result" where
  "plan_from env sha buffer authority local current maxP offset index =
     (if offset < length local \<and> 0 < maxP then
        and_then (plan_one env sha buffer authority local current maxP offset index) (\<lambda>c.
        and_then (plan_from env sha buffer authority local current maxP (offset + maxP) (Suc index))
          (\<lambda>cs. Inr (c # cs)))
      else Inr [])"
  by pat_completeness auto
termination
  by (relation "measure (\<lambda>(env, sha, buffer, authority, local, current, maxP, offset, index).
        length local - offset)") auto

declare plan_from.simps [simp del]

definition planBufferUpload ::
    "tx_env \<Rightarrow> (bytes \<Rightarrow> string) \<Rightarrow> string \<Rightarrow> string \<Rightarrow> bytes \<Rightarrow> bytes \<Rightarrow> js option
     \<Rightarrow> upload_plan result" where
  "planBufferUpload env sha buffer authority local current payload =
     and_then
       (case payload of
          Some v \<Rightarrow> Inr v
        | None \<Rightarrow> and_then (deriveMaxWritePayload env buffer authority) (\<lambda>n. Inr (JNat n)))
     (\<lambda>v.
       if length local \<noteq> length current \<or> \<not> is_integer v \<or> num_of v < 1
       then throw ''valid equal-length buffer bytes and max payload are required''
       else let maxP = nat \<lfloor>num_of v\<rfloor> in and_then (plan_from env sha buffer authority local current maxP 0 0) (\<lambda>chunks.
         Inr \<lparr> maxPayload = maxP, plan_chunks = chunks, totalChunks = length chunks,
               exactChunks = length (filter p_exact chunks),
               remainingChunks = length (filter (\<lambda>c. \<not> p_exact c) chunks),
               exactBinaryMatch = buffer_equals local current \<rparr>))"

definition plan_span :: "plan_chunk \<Rightarrow> span" where
  "plan_span c = (p_index c, p_offset c, p_length c)"

lemma plan_one_span:
  "plan_one env sha buffer authority local current maxP offset index = Inr c \<Longrightarrow>
   offset < length local \<Longrightarrow> 0 < maxP \<Longrightarrow>
   plan_span c = (index, offset, min maxP (length local - offset)) \<and> 1 \<le> p_length c
   \<and> p_sha256 c = sha (slice_of local (plan_span c))
   \<and> (p_exact c \<longleftrightarrow> slice_of current (plan_span c) = slice_of local (plan_span c))
   \<and> p_txbytes c \<le> 1231"
  by (auto simp: plan_one_def Let_def plan_span_def and_then_eq_Inr buffer_equals_def min_def
      PACKET_DATA_SIZE_def SAFETY_MARGIN_def split: if_splits)

lemma plan_from_Cons:
  assumes "plan_from env sha buffer authority local current maxP offset index = Inr cs"
    and "offset < length local" and "0 < maxP"
  shows "\<exists>c cs'. plan_one env sha buffer authority local current maxP offset index = Inr c
    \<and> plan_from env sha buffer authority local current maxP (offset + maxP) (Suc index) = Inr cs'
    \<and> cs = c # cs'"
proof -
  have "and_then (plan_one env sha buffer authority local current maxP offset index) (\<lambda>c.
      and_then (plan_from env sha buffer authority local current maxP (offset + maxP) (Suc index))
        (\<lambda>cs. Inr (c # cs))) = Inr cs"
    using assms by (subst (asm) plan_from.simps) (simp only: simp_thms if_True)
  then show ?thesis by (auto simp only: and_then_eq_Inr sum.inject)
qed

lemma plan_from_tiles:
  assumes "plan_from env sha buffer authority local current maxP offset index = Inr cs"
    and "0 < maxP" and "offset \<le> length local"
  shows "tiled_from index offset (map plan_span cs)
    \<and> offset + span_total (map plan_span cs) = length local
    \<and> (\<forall>c\<in>set cs. p_sha256 c = sha (slice_of local (plan_span c))
        \<and> (p_exact c \<longleftrightarrow> slice_of current (plan_span c) = slice_of local (plan_span c))
        \<and> p_txbytes c \<le> 1231 \<and> p_length c \<le> maxP)"
  using assms
proof (induction env sha buffer authority local current maxP offset index
    arbitrary: cs rule: plan_from.induct)
  case (1 env sha buffer authority local current maxP offset index)
  show ?case
  proof (cases "offset < length local")
    case False
    with "1.prems" show ?thesis
      by (simp add: plan_from.simps [of env sha buffer authority local current maxP offset index])
  next
    case True
    from plan_from_Cons [OF "1.prems"(1) True "1.prems"(2)] obtain c cs' where
      one: "plan_one env sha buffer authority local current maxP offset index = Inr c"
      and rest: "plan_from env sha buffer authority local current maxP (offset + maxP) (Suc index)
        = Inr cs'"
      and cs: "cs = c # cs'"
      by blast
    note c = plan_one_span [OF one True "1.prems"(2)]
    show ?thesis
    proof (cases "offset + maxP \<le> length local")
      case fits: True
      then have "plan_span c = (index, offset, maxP)" using c by simp
      with c "1.IH" [OF conjI [OF True "1.prems"(2)] rest "1.prems"(2) fits] cs show ?thesis
        by (auto simp: plan_span_def)
    next
      case False
      then have "cs' = []" using rest by (simp add: plan_from.simps)
      with c cs False True show ?thesis by (auto simp: plan_span_def)
    qed
  qed
qed

lemma planBufferUpload_plan:
  assumes "planBufferUpload env sha buffer authority local current payload = Inr plan"
  shows "plan_from env sha buffer authority local current (maxPayload plan) 0 0
      = Inr (plan_chunks plan) \<and> 0 < maxPayload plan \<and> length local = length current
    \<and> totalChunks plan = length (plan_chunks plan)
    \<and> remainingChunks plan = length (filter (\<lambda>c. \<not> p_exact c) (plan_chunks plan))
    \<and> exactChunks plan = length (filter p_exact (plan_chunks plan))
    \<and> (exactBinaryMatch plan \<longleftrightarrow> local = current)"
proof -
  have pos: "0 < nat \<lfloor>r\<rfloor>" if "\<not> r < 1" for r :: rat
    using that by (simp add: le_floor_iff)
  from assms show ?thesis
    by (auto simp: planBufferUpload_def and_then_eq_Inr Let_def buffer_equals_def pos
        simp del: not_less split: if_splits)
qed

text \<open>The planner is a provider of \<open>chunk_tiling\<close>: a plan with the inputs it was made from.\<close>

type_synonym plan_inputs =
  "tx_env \<times> (bytes \<Rightarrow> string) \<times> string \<times> string \<times> bytes \<times> bytes \<times> js option"

definition planned :: "plan_inputs \<times> upload_plan \<Rightarrow> bool" where
  "planned q = (case q of ((env, sha, buffer, authority, local, current, payload), plan) \<Rightarrow>
     planBufferUpload env sha buffer authority local current payload = Inr plan)"

definition planned_spans :: "plan_inputs \<times> upload_plan \<Rightarrow> span list" where
  "planned_spans q = map plan_span (plan_chunks (snd q))"

definition planned_size :: "plan_inputs \<times> upload_plan \<Rightarrow> nat" where
  "planned_size q = (case q of ((env, sha, buffer, authority, local, current, payload), plan) \<Rightarrow>
     length local)"

interpretation planner: chunk_tiling planned planned_spans planned_size
proof
  fix q assume q: "planned q"
  obtain env sha buffer authority loc cur payload plan
    where e: "q = ((env, sha, buffer, authority, loc, cur, payload), plan)"
    by (cases q) auto
  with q have "planBufferUpload env sha buffer authority loc cur payload = Inr plan"
    by (simp add: planned_def)
  from planBufferUpload_plan [OF this]
  have "tiled_from 0 0 (planned_spans q) \<and> span_total (planned_spans q) = planned_size q"
    using plan_from_tiles [of env sha buffer authority loc cur "maxPayload plan" 0 0]
    by (simp add: e planned_spans_def planned_size_def)
  then show "tiled_from 0 0 (planned_spans q)" "span_total (planned_spans q) = planned_size q"
    by simp_all
qed

lemma plan_chunk_facts:
  assumes "planBufferUpload env sha buffer authority local current payload = Inr plan"
    and "c \<in> set (plan_chunks plan)"
  shows "p_sha256 c = sha (slice_of local (plan_span c))
    \<and> (p_exact c \<longleftrightarrow> slice_of current (plan_span c) = slice_of local (plan_span c))
    \<and> p_txbytes c \<le> 1231 \<and> p_length c \<le> maxPayload plan"
  using planBufferUpload_plan [OF assms(1)] assms(2)
    plan_from_tiles [of env sha buffer authority local current "maxPayload plan" 0 0]
  by blast

text \<open>Writing the chunks the plan marks as remaining completes the buffer.\<close>

lemma plan_completes:
  assumes "planBufferUpload env sha buffer authority local current payload = Inr plan"
  shows "fold (write_chunk local)
    (map plan_span (filter (\<lambda>c. \<not> p_exact c) (plan_chunks plan))) current = local"
proof -
  let ?q = "((env, sha, buffer, authority, local, current, payload), plan)"
  have q: "planned ?q" using assms by (simp add: planned_def)
  have size: "planned_size ?q = length local" by (simp add: planned_size_def)
  show ?thesis
  proof (rule planner.writes_complete [OF q])
    show "length local = planned_size ?q" "length current = planned_size ?q"
      using planBufferUpload_plan [OF assms] size by simp_all
    show "set (map plan_span (filter (\<lambda>c. \<not> p_exact c) (plan_chunks plan)))
        \<subseteq> set (planned_spans ?q)"
      by (auto simp: planned_spans_def)
    show "\<forall>s\<in>set (planned_spans ?q)
        - set (map plan_span (filter (\<lambda>c. \<not> p_exact c) (plan_chunks plan))).
        slice_of current s = slice_of local s"
      using plan_chunk_facts [OF assms] by (auto simp: planned_spans_def image_iff)
  qed
qed

text \<open>The second provider: the record lists that the state validator accepts.\<close>

definition records_spans :: "chunk_record list \<Rightarrow> span list" where
  "records_spans cs = map chunk_span cs"

definition records_ok :: "chunk_record list \<Rightarrow> bool" where
  "records_ok cs \<longleftrightarrow> validateChunkRecords (JArr (map chunk_js cs)) = Inr ()"

definition records_size :: "chunk_record list \<Rightarrow> nat" where
  "records_size cs = sum_list (map c_length cs)"

interpretation records: chunk_tiling records_ok records_spans records_size
proof
  show "tiled_from 0 0 (records_spans cs)" if "records_ok cs" for cs
    using that by (simp add: records_ok_def validateChunkRecords_iff_wf wf_chunks_def records_spans_def)
  show "span_total (records_spans cs) = records_size cs" if "records_ok cs" for cs
    by (simp add: records_spans_def records_size_def span_total_sum chunk_span_def comp_def)
qed

end
