(* ===== verification/Throttled_Uploader.thy ===== *)
theory Throttled_Uploader imports Upload_Plan begin

text \<open>
  \<open>scripts/devnet/throttled-uploader.mjs\<close>: the sequential, rate-limited upload of the planned
  chunks, and its crash-safe version that records every step in the state file.

  The callbacks of the code (sign, send, confirm, read, sleep, clock) are functions of an
  arbitrary outside world that they may change; the persistence callback is a parameter of the
  plain uploader and a definition here for the persisted one.
\<close>

section \<open>Chunk transitions\<close>

definition CHUNK_TRANSITIONS :: "(string \<times> string list) list" where
  "CHUNK_TRANSITIONS =
     [(''PLANNED'', [''SENT'', ''CONFIRMED'']),
      (''SENT'', [''CONFIRMED'', ''FAILED'', ''UNKNOWN'']),
      (''UNKNOWN'', [''CONFIRMED'', ''FAILED'', ''UNKNOWN'']),
      (''CONFIRMED'', [''CONFIRMED'']),
      (''FAILED'', [''FAILED''])]"

definition assertChunkTransition :: "js \<Rightarrow> string \<Rightarrow> unit result" where
  "assertChunkTransition from_status to_status =
     (case from_status of
        JStr f \<Rightarrow> (case map_of CHUNK_TRANSITIONS f of
            Some tos \<Rightarrow> guard (to_status \<in> set tos) ''invalid chunk transition''
          | None \<Rightarrow> throw ''invalid chunk transition'')
      | _ \<Rightarrow> throw ''invalid chunk transition'')"

section \<open>Policy\<close>

definition DEFAULT_POLICY :: "(string \<times> js) list" where
  "DEFAULT_POLICY =
     [(''concurrency'', JNum 1), (''minimumDelayMs'', JNum 1000), (''maxChunksPerWindow'', JNum 5),
      (''maxRateLimitEvents'', JNum 1), (''confirmationTimeoutMs'', JNum 30000),
      (''readRetries'', JNum 3), (''readRetryDelayMs'', JNum 500)]"

definition normalizeRatePolicy :: "js \<Rightarrow> js result" where
  "normalizeRatePolicy input =
     (let policy = JObj (spread_with DEFAULT_POLICY (own_fields input)); f = get policy in
      if f ''concurrency'' \<noteq> JNum 1
         \<or> \<not> is_integer (f ''minimumDelayMs'') \<or> num_of (f ''minimumDelayMs'') \<le> 0
         \<or> \<not> is_integer (f ''maxChunksPerWindow'') \<or> num_of (f ''maxChunksPerWindow'') < 1
         \<or> \<not> is_integer (f ''maxRateLimitEvents'') \<or> f ''maxRateLimitEvents'' \<noteq> JNum 1
         \<or> \<not> is_integer (f ''confirmationTimeoutMs'') \<or> num_of (f ''confirmationTimeoutMs'') < 1
         \<or> \<not> is_integer (f ''readRetries'') \<or> num_of (f ''readRetries'') < 1
         \<or> \<not> is_integer (f ''readRetryDelayMs'') \<or> num_of (f ''readRetryDelayMs'') < 1
      then throw ''unsafe throttled uploader policy''
      else Inr policy)"

section \<open>Reconciliation of one chunk\<close>

record signature_status =
  st_err :: bool
  st_confirmation :: "string option"

datatype reconciliation = R_CONFIRMED | R_CONFIRMED_FAILURE | R_UNKNOWN

definition reconcileChunk :: "signature_status option \<Rightarrow> bool \<Rightarrow> bool \<Rightarrow> reconciliation" where
  "reconcileChunk signatureStatus chunkMatches expired =
     (if (case signatureStatus of Some st \<Rightarrow> st_err st | None \<Rightarrow> False) then R_CONFIRMED_FAILURE
      else if chunkMatches \<and> (expired \<or>
          (case signatureStatus of Some st \<Rightarrow> st_confirmation st = Some ''finalized'' | None \<Rightarrow> False))
      then R_CONFIRMED
      else R_UNKNOWN)"

fun reconciliation_status :: "reconciliation \<Rightarrow> string" where
  "reconciliation_status R_CONFIRMED = ''CONFIRMED''"
| "reconciliation_status R_CONFIRMED_FAILURE = ''FAILED''"
| "reconciliation_status R_UNKNOWN = ''UNKNOWN''"

section \<open>The sequential upload\<close>

text \<open>What \<open>send\<close> may throw: the two properties of the error the uploader looks at.\<close>

record thrown =
  t_classification :: "string option"
  t_message :: string

definition rate_limited :: "thrown \<Rightarrow> bool" where
  "rate_limited e \<longleftrightarrow>
     t_classification e = Some ''RPC_RATE_LIMITED'' \<or> contains_word ''429'' False (t_message e)
     \<or> contains ''too many requests'' (to_lower (t_message e))"

record persist_event =
  e_status :: string
  e_index :: nat
  e_signature :: js
  e_duration :: "nat option"

record 's adapters =
  sign :: "plan_chunk \<Rightarrow> (string option, 's) effect"
  send :: "string \<Rightarrow> plan_chunk \<Rightarrow> 's \<Rightarrow> thrown option \<times> 's"
  confirm :: "js \<Rightarrow> rat \<Rightarrow> plan_chunk \<Rightarrow> (signature_status option, 's) effect"
  readChunkMatches :: "plan_chunk \<Rightarrow> (bool, 's) effect"
  sleep :: "rat \<Rightarrow> (unit, 's) effect"
  monotonicNow :: "(rat option, 's) effect"

datatype upload_status =
  COMPLETE | WINDOW_LIMIT | RATE_LIMITED | CONFIRMED_FAILURE | UPLOAD_UNKNOWN

record counters =
  processed :: nat
  sent :: nat
  confirmedIndexes :: "nat list"
  confirmations :: "(nat \<times> nat) list"
  skippedIndexes :: "nat list"

definition no_counters :: counters where
  "no_counters = \<lparr> processed = 0, sent = 0, confirmedIndexes = [], confirmations = [],
     skippedIndexes = [] \<rparr>"

text \<open>The wait for a confirmation: two clock reads around \<open>confirm\<close>, the read of the chunk and
  the duration in whole milliseconds.\<close>

definition confirm_chunk ::
    "'s adapters \<Rightarrow> js \<Rightarrow> plan_chunk \<Rightarrow> string \<Rightarrow> (reconciliation \<times> nat, 's) effect" where
  "confirm_chunk a policy c sg =
     then_do (monotonicNow a) (\<lambda>started.
     then_do (confirm a (JStr sg) (num_of (get policy ''confirmationTimeoutMs'')) c) (\<lambda>st.
     then_do (monotonicNow a) (\<lambda>finished.
       case (started, finished) of
         (Some t0, Some t1) \<Rightarrow>
           if t1 < t0 then fail ''confirmation monotonic clock regression''
           else then_do (readChunkMatches a c) (\<lambda>matches.
             let duration = \<lceil>t1 - t0\<rceil> in
             if \<not> safe_int duration then fail ''confirmation duration is invalid''
             else give (reconcileChunk st matches False, nat duration))
       | _ \<Rightarrow> fail ''confirmation monotonic clock regression'')))"

text \<open>One chunk of the loop: \<open>Inl\<close> is an early return with that status, \<open>Inr\<close> goes on.
  What follows the call of \<open>send\<close> is \<open>finish_chunk\<close>.\<close>

definition finish_chunk ::
    "'s adapters \<Rightarrow> (persist_event \<Rightarrow> (unit, 's) effect) \<Rightarrow> js \<Rightarrow> plan_chunk \<Rightarrow> counters
     \<Rightarrow> string \<Rightarrow> thrown option \<Rightarrow> (upload_status + counters, 's) effect" where
  "finish_chunk a persist policy c k sg outcome =
     (case outcome of
        Some e \<Rightarrow> if rate_limited e then give (Inl RATE_LIMITED) else fail (t_message e)
      | None \<Rightarrow>
          then_do (confirm_chunk a policy c sg) (\<lambda>(reconciled, duration).
          then_do (persist \<lparr> e_status = reconciliation_status reconciled, e_index = p_index c,
              e_signature = JStr sg,
              e_duration = (if reconciled = R_CONFIRMED then Some duration else None) \<rparr>) (\<lambda>_.
            if reconciled = R_CONFIRMED_FAILURE then give (Inl CONFIRMED_FAILURE)
            else if reconciled = R_UNKNOWN then give (Inl UPLOAD_UNKNOWN)
            else
              then_do (sleep a (num_of (get policy ''minimumDelayMs''))) (\<lambda>_.
                give (Inr (k\<lparr> sent := sent k + 1, processed := processed k + 1,
                  confirmedIndexes := confirmedIndexes k @ [p_index c],
                  confirmations := confirmations k @ [(p_index c, duration)] \<rparr>))))))"

definition sent_event :: "plan_chunk \<Rightarrow> string \<Rightarrow> persist_event" where
  "sent_event c sg =
     \<lparr> e_status = ''SENT'', e_index = p_index c, e_signature = JStr sg, e_duration = None \<rparr>"

definition upload_chunk ::
    "'s adapters \<Rightarrow> (persist_event \<Rightarrow> (unit, 's) effect) \<Rightarrow> js \<Rightarrow> plan_chunk \<Rightarrow> counters
     \<Rightarrow> (upload_status + counters, 's) effect" where
  "upload_chunk a persist policy c k =
     then_do (sign a c) (\<lambda>signed.
       if signed = None \<or> signed = Some []
       then fail ''signer did not return a public signature''
       else let sg = the signed in
         then_do (persist (sent_event c sg)) (\<lambda>_ s.
           case send a sg c s of (outcome, s') \<Rightarrow> finish_chunk a persist policy c k sg outcome s'))"

fun upload_loop ::
    "'s adapters \<Rightarrow> (persist_event \<Rightarrow> (unit, 's) effect) \<Rightarrow> js \<Rightarrow> plan_chunk list \<Rightarrow> counters
     \<Rightarrow> (upload_status \<times> counters, 's) effect" where
  "upload_loop a persist policy [] k = give (COMPLETE, k)"
| "upload_loop a persist policy (c # cs) k =
     (if p_exact c
      then upload_loop a persist policy cs (k\<lparr> skippedIndexes := skippedIndexes k @ [p_index c] \<rparr>)
      else if num_of (get policy ''maxChunksPerWindow'') \<le> of_nat (processed k)
      then give (WINDOW_LIMIT, k)
      else then_do (upload_chunk a persist policy c k) (\<lambda>next_step.
        case next_step of
          Inl st \<Rightarrow> give (st, k)
        | Inr k' \<Rightarrow> upload_loop a persist policy cs k'))"

definition runSequentialUpload ::
    "'s adapters \<Rightarrow> (persist_event \<Rightarrow> (unit, 's) effect) \<Rightarrow> js \<Rightarrow> plan_chunk list
     \<Rightarrow> (upload_status \<times> counters, 's) effect" where
  "runSequentialUpload a persist policyInput chunks =
     then_do (lift_result (normalizeRatePolicy policyInput)) (\<lambda>policy.
       upload_loop a persist policy chunks no_counters)"

text \<open>What the counters say: every uploaded chunk is counted once, in order, with one duration,
  and never more than the window allows.\<close>

definition counters_ok :: "js \<Rightarrow> counters \<Rightarrow> bool" where
  "counters_ok policy k \<longleftrightarrow>
     sent k = processed k \<and> processed k = length (confirmedIndexes k)
     \<and> map fst (confirmations k) = confirmedIndexes k
     \<and> of_nat (processed k) \<le> max 0 (num_of (get policy ''maxChunksPerWindow''))"

lemma upload_chunk_goes_on:
  "upload_chunk a persist policy c k s = (Inr (Inr k'), s') \<Longrightarrow>
   \<exists>d. k' = k\<lparr> sent := sent k + 1, processed := processed k + 1,
     confirmedIndexes := confirmedIndexes k @ [p_index c],
     confirmations := confirmations k @ [(p_index c, d)] \<rparr>"
  unfolding upload_chunk_def finish_chunk_def Let_def
  by (auto elim!: then_do_cases split: if_splits option.splits prod.splits) blast+

text \<open>A rule for one chunk: what holds before the send, what the send makes of it, and what the
  rest keeps.\<close>

lemma upload_chunk_rule:
  assumes "upload_chunk a persist policy c k w = (r, w')" and "P w"
    and "keeps P (sign a c)" and "\<And>ev. keeps P (persist ev)"
    and snd_ok: "\<And>sg w1 w2 outcome w3. P w1 \<Longrightarrow> persist (sent_event c sg) w1 = (Inr (), w2) \<Longrightarrow>
      send a sg c w2 = (outcome, w3) \<Longrightarrow> Q w3"
    and fin: "\<And>sg outcome. keeps Q (finish_chunk a persist policy c k sg outcome)"
    and weaken: "\<And>v. P v \<Longrightarrow> Q v"
  shows "Q w'"
  using assms(1) unfolding upload_chunk_def
proof (cases rule: then_do_cases)
  case (throws e)
  with keepsD [OF assms(3,2)] show ?thesis by (blast intro: weaken)
next
  case (returns signed w1)
  then have P1: "P w1" using keepsD [OF assms(3,2)] by blast
  show ?thesis
  proof (cases "signed = None \<or> signed = Some []")
    case True
    with returns P1 show ?thesis by (auto intro: weaken)
  next
    case False
    with returns(2) have "then_do (persist (sent_event c (the signed))) (\<lambda>_ s.
        case send a (the signed) c s of (outcome, s') \<Rightarrow>
          finish_chunk a persist policy c k (the signed) outcome s') w1 = (r, w')"
      by (simp add: Let_def split: if_splits)
    then show ?thesis
    proof (cases rule: then_do_cases)
      case (throws e)
      with keepsD [OF assms(4) P1] show ?thesis by (blast intro: weaken)
    next
      case (returns u w2)
      obtain outcome w3 where s3: "send a (the signed) c w2 = (outcome, w3)"
        by (cases "send a (the signed) c w2")
      with returns have "Q w3" and
        "finish_chunk a persist policy c k (the signed) outcome w3 = (r, w')"
        using snd_ok [OF P1] by auto
      then show ?thesis using keepsD [OF fin] by blast
    qed
  qed
qed

lemma upload_loop_counters:
  assumes "upload_loop a persist policy cs k s = (Inr (st, k'), s')" and "counters_ok policy k"
    and "is_integer (get policy ''maxChunksPerWindow'')"
  shows "counters_ok policy k'"
  using assms
proof (induction cs arbitrary: k s)
  case Nil
  then show ?case by simp
next
  case (Cons c cs)
  let ?max = "num_of (get policy ''maxChunksPerWindow'')"
  consider (skip) "p_exact c" | (full) "\<not> p_exact c" "?max \<le> of_nat (processed k)"
    | (go) "\<not> p_exact c" "of_nat (processed k) < ?max" by linarith
  then show ?case
  proof cases
    case skip
    have "counters_ok policy (k\<lparr> skippedIndexes := skippedIndexes k @ [p_index c] \<rparr>)"
      using Cons.prems(2) by (simp add: counters_ok_def)
    moreover from skip Cons.prems(1) have
      "upload_loop a persist policy cs (k\<lparr> skippedIndexes := skippedIndexes k @ [p_index c] \<rparr>) s
        = (Inr (st, k'), s')" by simp
    ultimately show ?thesis using Cons.IH Cons.prems(3) by blast
  next
    case full
    with Cons show ?thesis by simp
  next
    case go
    with Cons.prems(1) have "then_do (upload_chunk a persist policy c k) (\<lambda>next_step.
        case next_step of Inl st \<Rightarrow> give (st, k) | Inr k' \<Rightarrow> upload_loop a persist policy cs k') s
        = (Inr (st, k'), s')" by simp
    then show ?thesis
    proof (cases rule: then_do_cases)
      case (returns x s1)
      show ?thesis
      proof (cases x)
        case (Inl st')
        with returns Cons.prems(2) show ?thesis by simp
      next
        case (Inr k1)
        obtain m where m: "get policy ''maxChunksPerWindow'' = JNat m"
          using Cons.prems(3) go(2)
          by (auto simp: num_of_case elim!: is_integer_nonneg
              intro: order_trans [OF of_nat_0_le_iff less_imp_le])
        with go(2) have "counters_ok policy k1"
          using upload_chunk_goes_on [of a persist policy c k s k1 s1] returns(1) Inr Cons.prems(2)
          by (auto simp: counters_ok_def)
        with returns Inr Cons show ?thesis by auto
      qed
    qed simp
  qed
qed

text \<open>A complete run confirmed every chunk that was not already there and skipped the others.\<close>

lemma upload_loop_complete:
  assumes "upload_loop a persist policy cs k s = (Inr (COMPLETE, k'), s')"
  shows "confirmedIndexes k' = confirmedIndexes k @ map p_index (filter (\<lambda>c. \<not> p_exact c) cs)
    \<and> skippedIndexes k' = skippedIndexes k @ map p_index (filter p_exact cs)"
  using assms
proof (induction cs arbitrary: k s)
  case Nil
  then show ?case by simp
next
  case (Cons c cs)
  show ?case
  proof (cases "p_exact c")
    case True
    with Cons.prems Cons.IH show ?thesis by fastforce
  next
    case False
    with Cons.prems have "then_do (upload_chunk a persist policy c k) (\<lambda>next_step.
        case next_step of Inl st \<Rightarrow> give (st, k) | Inr k' \<Rightarrow> upload_loop a persist policy cs k') s
        = (Inr (COMPLETE, k'), s')" by (simp split: if_splits)
    then show ?thesis
    proof (cases rule: then_do_cases)
      case (returns x s1)
      show ?thesis
      proof (cases x)
        case (Inl st')
        with returns have "upload_chunk a persist policy c k s = (Inr (Inl COMPLETE), s1)" by simp
        then show ?thesis
          unfolding upload_chunk_def finish_chunk_def Let_def
          by (auto elim!: then_do_cases split: if_splits option.splits prod.splits)
      next
        case (Inr k1)
        with upload_chunk_goes_on [of a persist policy c k s k1 s1] returns Cons.IH [of k1 s1] False
        show ?thesis by auto
      qed
    qed simp
  qed
qed

section \<open>Plan fingerprint and checkpoint\<close>

definition createPlanFingerprint ::
    "(js \<Rightarrow> string) \<Rightarrow> (string \<Rightarrow> string) \<Rightarrow> js \<Rightarrow> js list \<Rightarrow> string result" where
  "createPlanFingerprint stringify sha_text b chunks =
     (let f = get b; nonempty = (\<lambda>v. case v of JStr s \<Rightarrow> s \<noteq> [] | _ \<Rightarrow> False) in
      if \<not> nonempty (f ''program'') \<or> \<not> nonempty (f ''buffer'') \<or> \<not> nonempty (f ''authority'')
         \<or> \<not> is_integer (f ''allocation'') \<or> num_of (f ''allocation'') < 1
         \<or> \<not> hex64i_test (coalesce (f ''binarySha256'') (JStr []))
         \<or> \<not> is_integer (f ''maxPayload'') \<or> num_of (f ''maxPayload'') < 1
      then throw ''complete plan fingerprint binding is required''
      else Inr (sha_text (stringify (JObj
        [(''program'', f ''program''), (''buffer'', f ''buffer''), (''authority'', f ''authority''),
         (''allocation'', f ''allocation''), (''binarySha256'', f ''binarySha256''),
         (''maxPayload'', f ''maxPayload''),
         (''chunks'', JArr (map (\<lambda>c. JObj
            [(''index'', get c ''index''), (''offset'', get c ''offset''),
             (''length'', get c ''length''), (''sha256'', get c ''sha256'')]) chunks))]))))"

definition state_buffer :: "js \<Rightarrow> js" where
  "state_buffer state = get (get state ''deployment'') ''buffer''"

definition checkpoint_checks :: "js \<Rightarrow> js \<Rightarrow> (js \<times> js \<times> string) list" where
  "checkpoint_checks state expected =
     (let buffer = state_buffer state in
      [(get (get state ''identities'') ''program'', get expected ''program'', ''program ID''),
       (get buffer ''publicKey'', get expected ''buffer'', ''buffer address''),
       (get buffer ''expectedAuthority'', get expected ''authority'', ''buffer authority''),
       (get buffer ''expectedOwner'', get expected ''owner'', ''buffer owner''),
       (get buffer ''allocatedLength'', get expected ''allocation'', ''buffer allocation''),
       (get (get buffer ''localBinary'') ''length'', get expected ''binaryLength'', ''binary length''),
       (get (get buffer ''localBinary'') ''sha256'', get expected ''binarySha256'', ''binary hash''),
       (get buffer ''planFingerprint'', get expected ''planFingerprint'', ''plan fingerprint'')])"

definition loadUploaderCheckpoint :: "fs \<Rightarrow> path \<Rightarrow> js \<Rightarrow> js result" where
  "loadUploaderCheckpoint fs p expected =
     (case readJson fs p of
        Inl e \<Rightarrow> throw ''corrupted uploader state''
      | Inr parsed \<Rightarrow>
          if get parsed ''schemaVersion'' \<noteq> JNum 3
          then throw ''uploader state schema must be v3''
          else and_then (migrateState parsed) (\<lambda>state.
            if \<not> truthy (state_buffer state)
            then throw ''uploader buffer checkpoint is required''
            else and_then
              (for_each (\<lambda>(actual, wanted, label). guard (strict_equal actual wanted) (label @ '' mismatch''))
                 (checkpoint_checks state expected)) (\<lambda>_.
              and_then (validateChunkRecords (get (state_buffer state) ''chunks'')) (\<lambda>_.
                Inr state))))"

section \<open>The persisted upload\<close>

text \<open>What the run does to the outside, in order: a record update saved to the state file, and
  a transaction sent, with the files at that moment.\<close>

datatype upload_event = Ev_Saved persist_event | Ev_Send string nat fs

record 'e upload_world =
  w_doc :: js
  w_records :: "js list"
  w_fs :: fs
  w_ext :: 'e
  w_trace :: "upload_event list"

text \<open>The records are one array of the document, so a changed record changes the document.\<close>

definition with_chunks :: "js \<Rightarrow> js list \<Rightarrow> js" where
  "with_chunks doc records =
     assign doc ''deployment''
       (assign (get doc ''deployment'') ''buffer''
         (assign (state_buffer doc) ''chunks'' (JArr records)))"

definition record_at :: "js list \<Rightarrow> nat \<Rightarrow> js" where
  "record_at records i = (if i < length records then records ! i else Undefined)"

definition updated_record :: "js \<Rightarrow> persist_event \<Rightarrow> js" where
  "updated_record r ev =
     (let r1 = assign r ''status'' (JStr (e_status ev));
          r2 = assign r1 ''signature'' (coalesce (e_signature ev) (coalesce (get r1 ''signature'') JNull))
      in case e_duration ev of None \<Rightarrow> r2 | Some d \<Rightarrow> assign r2 ''confirmationDurationMs'' (JNat d))"

definition persist_record ::
    "(upload_event list \<Rightarrow> state_io) \<Rightarrow> path \<Rightarrow> persist_event \<Rightarrow> (unit, 'e upload_world) effect" where
  "persist_record io p ev w =
     (let i = e_index ev; r = record_at (w_records w) i in
      if \<not> truthy r \<or> get r ''index'' \<noteq> JNat i then (throw ''plan chunk index mismatch'', w) else
      case assertChunkTransition (get r ''status'') (e_status ev) of Inl e \<Rightarrow> (Inl e, w) | Inr _ \<Rightarrow>
      let w1 = w\<lparr> w_records := (w_records w)[i := updated_record r ev] \<rparr> in
      case validateChunkRecords (JArr (w_records w1)) of Inl e \<Rightarrow> (Inl e, w1) | Inr _ \<Rightarrow>
      case saveStateAtomic (io (w_trace w1)) p (with_chunks (w_doc w1) (w_records w1)) (w_fs w1) of
        (Inl e, fs') \<Rightarrow> (Inl e, w1\<lparr> w_fs := fs' \<rparr>)
      | (Inr _, fs') \<Rightarrow>
          (Inr (), w1\<lparr> w_fs := fs', w_trace := w_trace w1 @ [Ev_Saved ev] \<rparr>))"

definition lift_ext :: "('a, 'e) effect \<Rightarrow> ('a, 'e upload_world) effect" where
  "lift_ext m w = (case m (w_ext w) of (r, e') \<Rightarrow> (r, w\<lparr> w_ext := e' \<rparr>))"

definition lift_send ::
    "(string \<Rightarrow> plan_chunk \<Rightarrow> 'e \<Rightarrow> thrown option \<times> 'e) \<Rightarrow> string \<Rightarrow> plan_chunk
     \<Rightarrow> 'e upload_world \<Rightarrow> thrown option \<times> 'e upload_world" where
  "lift_send snd_call sg c w =
     (case snd_call sg c (w_ext w) of (outcome, e') \<Rightarrow>
        (outcome, w\<lparr> w_ext := e', w_trace := w_trace w @ [Ev_Send sg (p_index c) (w_fs w)] \<rparr>))"

definition lift_adapters :: "'e adapters \<Rightarrow> 'e upload_world adapters" where
  "lift_adapters a =
     \<lparr> sign = (\<lambda>c. lift_ext (sign a c)), send = lift_send (send a),
       confirm = (\<lambda>sg t c. lift_ext (confirm a sg t c)),
       readChunkMatches = (\<lambda>c. lift_ext (readChunkMatches a c)),
       sleep = (\<lambda>t. lift_ext (sleep a t)), monotonicNow = lift_ext (monotonicNow a) \<rparr>"

definition current_record :: "nat \<Rightarrow> (js, 'e upload_world) effect" where
  "current_record i w = (Inr (record_at (w_records w) i), w)"

text \<open>A chunk that an earlier run left as SENT or UNKNOWN is settled by its recorded signature
  before anything new is sent.\<close>

definition settle_chunk ::
    "'e adapters \<Rightarrow> (upload_event list \<Rightarrow> state_io) \<Rightarrow> path \<Rightarrow> js \<Rightarrow> plan_chunk \<Rightarrow> js
     \<Rightarrow> (upload_status + plan_chunk, 'e upload_world) effect" where
  "settle_chunk a io p policyInput c r =
     (let sg = get r ''signature'' in
      then_do
        (if truthy sg
         then then_do (lift_result (normalizeRatePolicy policyInput)) (\<lambda>policy.
                lift_ext (confirm a sg (num_of (get policy ''confirmationTimeoutMs'')) c))
         else give None) (\<lambda>st.
      then_do (lift_ext (readChunkMatches a c)) (\<lambda>matches.
        let reconciled = reconcileChunk st matches True in
        then_do (persist_record io p \<lparr> e_status = reconciliation_status reconciled,
            e_index = p_index c, e_signature = sg, e_duration = None \<rparr>) (\<lambda>_.
          give (case reconciled of
              R_CONFIRMED \<Rightarrow> Inr (c\<lparr> p_exact := True \<rparr>)
            | R_CONFIRMED_FAILURE \<Rightarrow> Inl CONFIRMED_FAILURE
            | R_UNKNOWN \<Rightarrow> Inl UPLOAD_UNKNOWN)))))"

definition scan_chunk ::
    "'e adapters \<Rightarrow> (upload_event list \<Rightarrow> state_io) \<Rightarrow> path \<Rightarrow> js \<Rightarrow> js list \<Rightarrow> plan_chunk
     \<Rightarrow> (upload_status + plan_chunk, 'e upload_world) effect" where
  "scan_chunk a io p policyInput confirmed c =
     then_do (current_record (p_index c)) (\<lambda>r.
       let st = get r ''status''; has = JNat (p_index c) \<in> set confirmed in
       if \<not> truthy r \<or> get r ''offset'' \<noteq> JNat (p_offset c) \<or> get r ''length'' \<noteq> JNat (p_length c)
          \<or> get r ''sha256'' \<noteq> JStr (p_sha256 c)
       then fail ''plan chunk evidence mismatch''
       else if st \<noteq> JStr ''CONFIRMED'' \<and> has then fail ''confirmed snapshot status mismatch''
       else if st = JStr ''FAILED'' then give (Inl CONFIRMED_FAILURE)
       else if st = JStr ''SENT'' \<or> st = JStr ''UNKNOWN'' then settle_chunk a io p policyInput c r
       else if st = JStr ''CONFIRMED'' then
         (if \<not> has then fail ''confirmed chunk snapshot evidence missing''
          else give (Inr (c\<lparr> p_exact := True \<rparr>)))
       else if p_exact c then
         then_do (persist_record io p \<lparr> e_status = ''CONFIRMED'', e_index = p_index c,
             e_signature = get r ''signature'', e_duration = None \<rparr>) (\<lambda>_.
           give (Inr (c\<lparr> p_exact := True \<rparr>)))
       else give (Inr (c\<lparr> p_exact := False \<rparr>)))"

fun scan_chunks ::
    "'e adapters \<Rightarrow> (upload_event list \<Rightarrow> state_io) \<Rightarrow> path \<Rightarrow> js \<Rightarrow> js list \<Rightarrow> plan_chunk list
     \<Rightarrow> plan_chunk list \<Rightarrow> (upload_status + plan_chunk list, 'e upload_world) effect" where
  "scan_chunks a io p policyInput confirmed [] runnable = give (Inr runnable)"
| "scan_chunks a io p policyInput confirmed (c # cs) runnable =
     then_do (scan_chunk a io p policyInput confirmed c) (\<lambda>outcome.
       case outcome of
         Inl st \<Rightarrow> give (Inl st)
       | Inr c' \<Rightarrow> scan_chunks a io p policyInput confirmed cs (runnable @ [c']))"

text \<open>The confirmed indexes must be an increasing array of safe indexes.\<close>

fun increasing_indexes :: "js option \<Rightarrow> js list \<Rightarrow> bool" where
  "increasing_indexes prev [] = True"
| "increasing_indexes prev (v # vs) =
     (is_safe_integer v \<and> 0 \<le> num_of v
      \<and> (case prev of None \<Rightarrow> True | Some u \<Rightarrow> num_of u < num_of v)
      \<and> increasing_indexes (Some v) vs)"

definition initial_world :: "js \<Rightarrow> fs \<Rightarrow> 'e \<Rightarrow> 'e upload_world" where
  "initial_world state fs ext =
     \<lparr> w_doc = state,
       w_records = (case get (state_buffer state) ''chunks'' of JArr rs \<Rightarrow> rs | _ \<Rightarrow> []),
       w_fs = fs, w_ext = ext, w_trace = [] \<rparr>"

definition runPersistedSequentialUpload ::
    "'e adapters \<Rightarrow> (upload_event list \<Rightarrow> state_io) \<Rightarrow> path \<Rightarrow> js \<Rightarrow> plan_chunk list \<Rightarrow> js \<Rightarrow> js
     \<Rightarrow> fs \<Rightarrow> 'e \<Rightarrow> (upload_status \<times> counters) result \<times> 'e upload_world" where
  "runPersistedSequentialUpload a io p checkpoint chunks confirmedChunkIndexes policy fs ext =
     (case loadUploaderCheckpoint fs p checkpoint of
        Inl e \<Rightarrow> (Inl e, initial_world JNull fs ext)
      | Inr state \<Rightarrow>
          let w = initial_world state fs ext in
          if length (w_records w) \<noteq> length chunks then (throw ''plan chunk count mismatch'', w) else
          case confirmedChunkIndexes of
            JArr confirmed \<Rightarrow>
              if \<not> increasing_indexes None confirmed
              then (throw ''confirmed snapshot indexes are invalid'', w)
              else if \<exists>v\<in>set confirmed. of_nat (length chunks) \<le> num_of v
              then (throw ''confirmed snapshot index out of range'', w)
              else then_do (scan_chunks a io p policy confirmed chunks []) (\<lambda>outcome.
                case outcome of
                  Inl st \<Rightarrow> give (st, no_counters)
                | Inr runnable \<Rightarrow>
                    runSequentialUpload (lift_adapters a) (persist_record io p) policy runnable) w
          | _ \<Rightarrow> (throw ''confirmed snapshot indexes are invalid'', w))"

section \<open>The state file is written ahead of every send\<close>

text \<open>The record of a chunk as the state file holds it.\<close>

definition disk_record :: "fs \<Rightarrow> path \<Rightarrow> nat \<Rightarrow> js" where
  "disk_record fs p i =
     (case readJson fs p of
        Inl e \<Rightarrow> Undefined
      | Inr d \<Rightarrow> (case get (state_buffer d) ''chunks'' of
            JArr rs \<Rightarrow> record_at rs i
          | _ \<Rightarrow> Undefined))"

definition recorded_as :: "string \<Rightarrow> string \<Rightarrow> js \<Rightarrow> bool" where
  "recorded_as st sg r \<longleftrightarrow> get r ''status'' = JStr st \<and> get r ''signature'' = JStr sg"

definition write_ahead :: "path \<Rightarrow> upload_event list \<Rightarrow> bool" where
  "write_ahead p tr \<longleftrightarrow>
     (\<forall>sg i fs. Ev_Send sg i fs \<in> set tr \<longrightarrow> recorded_as ''SENT'' sg (disk_record fs p i))"

fun send_count :: "upload_event list \<Rightarrow> nat" where
  "send_count [] = 0"
| "send_count (Ev_Send sg i fs # tr) = Suc (send_count tr)"
| "send_count (Ev_Saved ev # tr) = send_count tr"

lemma send_count_append [simp]: "send_count (tr @ tr') = send_count tr + send_count tr'"
  by (induction tr rule: send_count.induct) auto

definition doc_ok :: "js \<Rightarrow> bool" where
  "doc_ok doc \<longleftrightarrow> (\<exists>rs. get (state_buffer doc) ''chunks'' = JArr rs)"

lemma get_JArr_object: "get v k = JArr rs \<Longrightarrow> \<exists>kvs. v = JObj kvs"
  by (cases v) auto

lemma doc_ok_objects:
  assumes "doc_ok doc"
  obtains kvs dep buf where "doc = JObj kvs" "get doc ''deployment'' = JObj dep"
    "get (JObj dep) ''buffer'' = JObj buf"
proof -
  from assms obtain buf where b: "state_buffer doc = JObj buf"
    unfolding doc_ok_def by (meson get_JArr_object)
  then obtain dep where d: "get doc ''deployment'' = JObj dep"
    by (cases "get doc ''deployment''") (auto simp: state_buffer_def)
  then obtain kvs where "doc = JObj kvs" by (cases doc) auto
  with b d that show thesis by (simp add: state_buffer_def)
qed

lemma with_chunks_on_disk:
  assumes "doc_ok doc"
  shows "get (state_buffer (json_norm (with_chunks doc recs))) ''chunks'' = JArr (map json_norm recs)"
proof -
  from assms obtain kvs dep buf where doc: "doc = JObj kvs" "get doc ''deployment'' = JObj dep"
      "get (JObj dep) ''buffer'' = JObj buf"
    by (rule doc_ok_objects)
  let ?buf = "assign (JObj buf) ''chunks'' (JArr recs)"
  let ?dep = "assign (JObj dep) ''buffer'' ?buf"
  have "with_chunks doc recs = assign (JObj kvs) ''deployment'' ?dep"
    using doc by (simp add: with_chunks_def state_buffer_def del: get.simps)
  then have "get (json_norm (with_chunks doc recs)) ''deployment'' = json_norm ?dep"
    by (intro get_json_norm) (simp_all add: assign_def)
  moreover have "get (json_norm ?dep) ''buffer'' = json_norm ?buf"
    by (intro get_json_norm) (simp_all add: assign_def)
  moreover have "get (json_norm ?buf) ''chunks'' = json_norm (JArr recs)"
    by (intro get_json_norm) (simp_all add: assign_def)
  ultimately show ?thesis by (simp add: state_buffer_def)
qed

lemma updated_record_gets:
  assumes "get r ''index'' = JNat i"
  shows "get (updated_record r ev) ''status'' = JStr (e_status ev)"
    and "e_signature ev = JStr sg \<Longrightarrow> get (updated_record r ev) ''signature'' = JStr sg"
    and "get (updated_record r ev) ''index'' = JNat i"
proof -
  from assms obtain kvs where r: "r = JObj kvs" by (cases r) auto
  have obj: "\<exists>kvs'. assign (JObj kvs) k x = JObj kvs'" for kvs k x
    by (simp add: assign_def)
  show "get (updated_record r ev) ''status'' = JStr (e_status ev)"
    and "e_signature ev = JStr sg \<Longrightarrow> get (updated_record r ev) ''signature'' = JStr sg"
    and "get (updated_record r ev) ''index'' = JNat i"
    using assms unfolding r
    by (auto simp: updated_record_def Let_def assign_def coalesce_def nullish_def
        simp del: set_field.simps split: option.splits)
qed

lemma persist_record_cases:
  assumes "persist_record io p ev w = (res, w')"
  shows "w_doc w' = w_doc w \<and> w_ext w' = w_ext w
    \<and> (w_trace w' = w_trace w \<or> w_trace w' = w_trace w @ [Ev_Saved ev])"
  using assms
  by (auto simp: persist_record_def Let_def split: if_splits sum.splits prod.splits)

lemma persist_record_saves:
  assumes "persist_record io p ev w = (Inr (), w')" and "doc_ok (w_doc w)"
  shows "get (disk_record (w_fs w') p (e_index ev)) ''status'' = JStr (e_status ev)
    \<and> (e_signature ev = JStr sg \<longrightarrow>
        get (disk_record (w_fs w') p (e_index ev)) ''signature'' = JStr sg)
    \<and> w_trace w' = w_trace w @ [Ev_Saved ev]"
proof -
  let ?i = "e_index ev" and ?r = "record_at (w_records w) (e_index ev)"
  let ?recs = "(w_records w)[?i := updated_record ?r ev]"
  from assms(1) have idx: "get ?r ''index'' = JNat ?i"
    and tr: "w_trace w' = w_trace w @ [Ev_Saved ev]"
    and recs: "w_records w' = ?recs"
    and sv: "saveStateAtomic (io (w_trace w)) p (with_chunks (w_doc w) ?recs) (w_fs w)
      = (Inr (), w_fs w')"
    by (auto simp: persist_record_def Let_def split: if_splits sum.splits prod.splits)
  then have lt: "?i < length (w_records w)"
    by (auto simp: record_at_def split: if_splits)
  from sv have "w_fs w' p = Some (Doc (json_norm (with_chunks (w_doc w) ?recs)))"
    using saveStateAtomic_success [OF sv] by simp
  then have "disk_record (w_fs w') p ?i = json_norm (updated_record ?r ev)"
    using lt with_chunks_on_disk [OF assms(2), of ?recs]
    by (simp add: disk_record_def readJson_def record_at_def)
  moreover have "get (json_norm (updated_record ?r ev)) ''status'' = json_norm (JStr (e_status ev))"
    by (rule get_json_norm [OF updated_record_gets(1) [OF idx]]) simp
  moreover have "get (json_norm (updated_record ?r ev)) ''signature'' = json_norm (JStr sg)"
    if "e_signature ev = JStr sg"
    by (rule get_json_norm [OF updated_record_gets(2) [OF idx that]]) simp
  ultimately show ?thesis using tr by simp
qed

lemma lift_adapters_sel [simp]:
  "sign (lift_adapters a) c = lift_ext (sign a c)"
  "send (lift_adapters a) = lift_send (send a)"
  "confirm (lift_adapters a) sg t c = lift_ext (confirm a sg t c)"
  "readChunkMatches (lift_adapters a) c = lift_ext (readChunkMatches a c)"
  "sleep (lift_adapters a) t = lift_ext (sleep a t)"
  "monotonicNow (lift_adapters a) = lift_ext (monotonicNow a)"
  by (simp_all add: lift_adapters_def)

text \<open>The invariant of the run.\<close>

definition upload_inv :: "path \<Rightarrow> 'e upload_world \<Rightarrow> bool" where
  "upload_inv p w \<longleftrightarrow> doc_ok (w_doc w) \<and> write_ahead p (w_trace w)"

lemma write_ahead_append [simp]:
  "write_ahead p (tr @ [Ev_Saved ev]) \<longleftrightarrow> write_ahead p tr"
  "write_ahead p (tr @ [Ev_Send sg i fs]) \<longleftrightarrow>
     write_ahead p tr \<and> recorded_as ''SENT'' sg (disk_record fs p i)"
  by (auto simp: write_ahead_def)

lemma keeps_inv_persist [keeps_intros]: "keeps (upload_inv p) (persist_record io p ev)"
proof (rule keepsI)
  fix w :: "'e upload_world" and res w'
  assume "upload_inv p w" and "persist_record io p ev w = (res, w')"
  with persist_record_cases [of io p ev w res w'] show "upload_inv p w'"
    by (auto simp: upload_inv_def)
qed

lemma keeps_inv_lift [keeps_intros]: "keeps (upload_inv p) (lift_ext m)"
  by (auto simp: keeps_def upload_inv_def lift_ext_def split: prod.splits)

lemma keeps_inv_record [keeps_intros]: "keeps (upload_inv p) (current_record i)"
  by (auto simp: keeps_def current_record_def)

lemma keeps_inv_confirm [keeps_intros]:
  "keeps (upload_inv p) (confirm_chunk (lift_adapters a) policy c sg)"
  unfolding confirm_chunk_def Let_def
  by (auto intro!: keeps_intros split: option.split)

lemma keeps_inv_settle [keeps_intros]:
  "keeps (upload_inv p) (settle_chunk a io p policyInput c r)"
  unfolding settle_chunk_def Let_def by (intro keeps_intros)

lemma keeps_inv_scan_chunk [keeps_intros]:
  "keeps (upload_inv p) (scan_chunk a io p policyInput confirmed c)"
  unfolding scan_chunk_def Let_def by (intro keeps_intros)

lemma keeps_inv_scan [keeps_intros]:
  "keeps (upload_inv p) (scan_chunks a io p policyInput confirmed cs runnable)"
proof (induction cs arbitrary: runnable)
  case (Cons c cs)
  then show ?case by (auto intro!: keeps_intros split: sum.split)
qed (simp add: keeps_give)

lemma keeps_inv_finish [keeps_intros]:
  "keeps (upload_inv p) (finish_chunk (lift_adapters a) (persist_record io p) policy c k sg outcome)"
  unfolding finish_chunk_def by (auto intro!: keeps_intros split: option.split)

lemma keeps_inv_upload_chunk [keeps_intros]:
  "keeps (upload_inv p) (upload_chunk (lift_adapters a) (persist_record io p) policy c k)"
proof (rule keepsI)
  fix w :: "'a upload_world" and r w'
  assume inv: "upload_inv p w"
    and run: "upload_chunk (lift_adapters a) (persist_record io p) policy c k w = (r, w')"
  show "upload_inv p w'"
  proof (rule upload_chunk_rule [OF run, where P = "upload_inv p"])
    fix sg w1 w2 outcome w3
    assume inv1: "upload_inv p w1"
      and sv: "persist_record io p (sent_event c sg) w1 = (Inr (), w2)"
      and sd: "send (lift_adapters a) sg c w2 = (outcome, w3)"
    have "recorded_as ''SENT'' sg (disk_record (w_fs w2) p (p_index c))"
      using persist_record_saves [OF sv, of sg] inv1
      by (simp add: upload_inv_def recorded_as_def sent_event_def)
    moreover have "upload_inv p w2" by (rule keepsD [OF keeps_inv_persist inv1 sv])
    ultimately show "upload_inv p w3"
      using sd by (auto simp: lift_send_def upload_inv_def split: prod.splits)
  qed (use inv in \<open>auto intro!: keeps_intros\<close>)
qed

lemma keeps_inv_loop [keeps_intros]:
  "keeps (upload_inv p) (upload_loop (lift_adapters a) (persist_record io p) policy cs k)"
proof (induction cs arbitrary: k)
  case (Cons c cs)
  then show ?case
    by (auto intro!: keeps_intros split: sum.split)
qed (simp add: keeps_give)

lemma loaded_checkpoint:
  assumes "loadUploaderCheckpoint fs p expected = Inr state"
  shows "doc_ok state \<and> validateChunkRecords (get (state_buffer state) ''chunks'') = Inr ()
    \<and> (\<forall>(actual, wanted, label)\<in>set (checkpoint_checks state expected). strict_equal actual wanted)"
proof -
  from assms have v: "validateChunkRecords (get (state_buffer state) ''chunks'') = Inr ()"
    and "\<forall>(actual, wanted, label)\<in>set (checkpoint_checks state expected). strict_equal actual wanted"
    by (auto simp: loadUploaderCheckpoint_def result_simps split: sum.splits if_splits)
  moreover from v have "doc_ok state"
    by (auto simp: validateChunkRecords_def doc_ok_def split: js.splits)
  ultimately show ?thesis by blast
qed

text \<open>A run either refuses its inputs, touching nothing, or is the scan followed by the upload.\<close>

lemma persisted_run_cases:
  assumes "runPersistedSequentialUpload a io p checkpoint chunks confirmed policy fs ext = (r, w')"
  obtains (refused) "w_trace w' = []" "w_fs w' = fs" "\<exists>e. r = Inl e"
    | (scanned) state st w1 where
        "loadUploaderCheckpoint fs p checkpoint = Inr state"
        "\<exists>vs. scan_chunks a io p policy vs chunks [] (initial_world state fs ext) = (st, w1)"
        "r = (case st of Inl e \<Rightarrow> Inl e | Inr (Inl s) \<Rightarrow> Inr (s, no_counters) | Inr (Inr x) \<Rightarrow> r)"
        "w' = w1" "\<forall>x. st \<noteq> Inr (Inr x)"
    | (uploaded) state vs runnable w1 where
        "loadUploaderCheckpoint fs p checkpoint = Inr state"
        "scan_chunks a io p policy vs chunks [] (initial_world state fs ext) = (Inr (Inr runnable), w1)"
        "runSequentialUpload (lift_adapters a) (persist_record io p) policy runnable w1 = (r, w')"
proof (cases "loadUploaderCheckpoint fs p checkpoint")
  case (Inl e)
  with assms refused show thesis by (auto simp: runPersistedSequentialUpload_def initial_world_def)
next
  case (Inr state)
  let ?w = "initial_world state fs ext"
  have w: "w_trace ?w = []" "w_fs ?w = fs" by (simp_all add: initial_world_def)
  show thesis
  proof (cases "length (w_records ?w) = length chunks \<and> (\<exists>vs. confirmed = JArr vs
      \<and> increasing_indexes None vs \<and> \<not> (\<exists>v\<in>set vs. of_nat (length chunks) \<le> num_of v))")
    case False
    with assms Inr w refused show thesis
      by (auto simp: runPersistedSequentialUpload_def Let_def split: if_splits js.splits)
  next
    case True
    then obtain vs where vs: "confirmed = JArr vs" "increasing_indexes None vs"
        "\<not> (\<exists>v\<in>set vs. of_nat (length chunks) \<le> num_of v)" by blast
    with assms Inr True have run: "then_do (scan_chunks a io p policy vs chunks []) (\<lambda>outcome.
        case outcome of Inl st \<Rightarrow> give (st, no_counters)
        | Inr runnable \<Rightarrow> runSequentialUpload (lift_adapters a) (persist_record io p) policy runnable)
        ?w = (r, w')"
      by (simp add: runPersistedSequentialUpload_def Let_def)
    then show thesis
    proof (cases rule: then_do_cases)
      case (throws e)
      with Inr show thesis by (intro scanned [of state "Inl e" w']) auto
    next
      case (returns x w1)
      show thesis
      proof (cases x)
        case (Inl s)
        with returns \<open>loadUploaderCheckpoint fs p checkpoint = Inr state\<close> show thesis
          by (intro scanned [of state "Inr (Inl s)" w1]) auto
      next
        case (Inr runnable)
        with returns \<open>loadUploaderCheckpoint fs p checkpoint = Inr state\<close> show thesis
          by (intro uploaded [of state vs runnable w1]) auto
      qed
    qed
  qed
qed

lemma initial_world_inv: "doc_ok state \<Longrightarrow> upload_inv p (initial_world state fs ext)"
  by (simp add: upload_inv_def initial_world_def write_ahead_def)

lemma keeps_inv_sequential:
  "keeps (upload_inv p) (runSequentialUpload (lift_adapters a) (persist_record io p) policy runnable)"
  unfolding runSequentialUpload_def by (intro keeps_intros)

lemma persisted_run_keeps:
  assumes "runPersistedSequentialUpload a io p checkpoint chunks confirmed policy fs ext = (r, w')"
    and "\<And>state. loadUploaderCheckpoint fs p checkpoint = Inr state \<Longrightarrow> I (initial_world state fs ext)"
    and "\<And>vs. keeps I (scan_chunks a io p policy vs chunks [])"
    and "\<And>runnable. keeps I (runSequentialUpload (lift_adapters a) (persist_record io p) policy runnable)"
  shows "I w' \<or> w_trace w' = []"
  using assms(1)
proof (cases rule: persisted_run_cases)
  case (scanned state st w1)
  with keepsD [OF assms(3) assms(2)] show ?thesis by blast
next
  case (uploaded state vs runnable w1)
  with keepsD [OF assms(3) assms(2)] keepsD [OF assms(4)] show ?thesis by blast
qed simp

lemma persisted_run_write_ahead:
  assumes "runPersistedSequentialUpload a io p checkpoint chunks confirmed policy fs ext = (r, w')"
  shows "write_ahead p (w_trace w')"
proof -
  have "upload_inv p w' \<or> w_trace w' = []"
    by (rule persisted_run_keeps [OF assms])
      (auto intro: initial_world_inv keeps_inv_scan keeps_inv_sequential dest: loaded_checkpoint)
  then show ?thesis by (auto simp: upload_inv_def write_ahead_def)
qed

section \<open>At most once, and no more than the window\<close>

fun sent_indexes :: "upload_event list \<Rightarrow> nat list" where
  "sent_indexes [] = []"
| "sent_indexes (Ev_Send sg i fs # tr) = i # sent_indexes tr"
| "sent_indexes (Ev_Saved ev # tr) = sent_indexes tr"

lemma sent_indexes_append [simp]: "sent_indexes (tr @ tr') = sent_indexes tr @ sent_indexes tr'"
  by (induction tr rule: sent_indexes.induct) auto

lemma send_count_indexes: "send_count tr = length (sent_indexes tr)"
  by (induction tr rule: send_count.induct) auto

definition status_at :: "'e upload_world \<Rightarrow> nat \<Rightarrow> js" where
  "status_at w i = get (record_at (w_records w) i) ''status''"

text \<open>A chunk sent once has left the planned state for good.\<close>

definition once_inv :: "'e upload_world \<Rightarrow> bool" where
  "once_inv w \<longleftrightarrow> distinct (sent_indexes (w_trace w))
     \<and> (\<forall>i\<in>set (sent_indexes (w_trace w)). status_at w i \<noteq> JStr ''PLANNED'')"

lemma transition_target: "assertChunkTransition st to = Inr () \<Longrightarrow> to \<noteq> ''PLANNED''"
  by (auto simp: assertChunkTransition_def CHUNK_TRANSITIONS_def result_simps
      split: js.splits option.splits if_splits)

lemma transition_to_sent: "assertChunkTransition st ''SENT'' = Inr () \<Longrightarrow> st = JStr ''PLANNED''"
  by (auto simp: assertChunkTransition_def CHUNK_TRANSITIONS_def result_simps
      split: js.splits option.splits if_splits)

lemma persist_record_records:
  assumes "persist_record io p ev w = (res, w')"
  shows "w_records w' = w_records w
    \<or> (get (record_at (w_records w) (e_index ev)) ''index'' = JNat (e_index ev)
        \<and> e_status ev \<noteq> ''PLANNED''
        \<and> w_records w' = (w_records w)[e_index ev :=
            updated_record (record_at (w_records w) (e_index ev)) ev])"
proof (cases "assertChunkTransition (get (record_at (w_records w) (e_index ev)) ''status'') (e_status ev)")
  case (Inl e)
  with assms show ?thesis by (auto simp: persist_record_def Let_def split: if_splits)
next
  case (Inr u)
  with assms transition_target [of _ "e_status ev"] show ?thesis
    by (auto simp: persist_record_def Let_def split: if_splits sum.splits prod.splits)
qed

lemma persist_record_status:
  assumes "persist_record io p ev w = (res, w')"
  shows "status_at w' j = status_at w j
    \<or> (j = e_index ev \<and> status_at w' j = JStr (e_status ev) \<and> e_status ev \<noteq> ''PLANNED'')"
  using persist_record_records [OF assms]
proof
  assume "w_records w' = w_records w"
  then show ?thesis by (simp add: status_at_def)
next
  let ?i = "e_index ev" and ?r = "record_at (w_records w) (e_index ev)"
  assume upd: "get ?r ''index'' = JNat ?i \<and> e_status ev \<noteq> ''PLANNED''
    \<and> w_records w' = (w_records w)[?i := updated_record ?r ev]"
  then have "get (updated_record ?r ev) ''status'' = JStr (e_status ev)"
    using updated_record_gets(1) [of ?r] by blast
  with upd show ?thesis
    by (cases "j = ?i"; cases "?i < length (w_records w)")
      (simp_all add: status_at_def record_at_def nth_list_update)
qed

lemma persist_record_sent_from_planned:
  assumes "persist_record io p (sent_event c sg) w = (Inr (), w')"
  shows "status_at w (p_index c) = JStr ''PLANNED'' \<and> status_at w' (p_index c) = JStr ''SENT''"
proof -
  let ?ev = "sent_event c sg" and ?i = "p_index c"
  let ?r = "record_at (w_records w) ?i"
  from assms have idx: "get ?r ''index'' = JNat ?i" and "truthy ?r"
    and tr: "assertChunkTransition (get ?r ''status'') ''SENT'' = Inr ()"
    and recs: "w_records w' = (w_records w)[?i := updated_record ?r ?ev]"
    by (auto simp: persist_record_def Let_def sent_event_def split: if_splits sum.splits prod.splits)
  then have "?i < length (w_records w)" by (auto simp: record_at_def split: if_splits)
  with recs updated_record_gets(1) [OF idx, of ?ev] have "status_at w' ?i = JStr ''SENT''"
    by (simp add: status_at_def record_at_def sent_event_def)
  with transition_to_sent [OF tr] show ?thesis by (simp add: status_at_def)
qed

lemma keeps_once_persist [keeps_intros]: "keeps once_inv (persist_record io p ev)"
proof (rule keepsI)
  fix w :: "'a upload_world" and res w'
  assume inv: "once_inv w" and run: "persist_record io p ev w = (res, w')"
  from persist_record_cases [OF run] have "sent_indexes (w_trace w') = sent_indexes (w_trace w)" by auto
  with inv persist_record_status [OF run] show "once_inv w'"
    unfolding once_inv_def by (metis js.inject(3))
qed

lemma keeps_once_lift [keeps_intros]: "keeps once_inv (lift_ext m)"
  by (auto simp: keeps_def once_inv_def status_at_def lift_ext_def split: prod.splits)

lemma keeps_once_record [keeps_intros]: "keeps once_inv (current_record i)"
  by (auto simp: keeps_def current_record_def)

text \<open>Calls that send nothing.\<close>

definition sends_at_most :: "nat \<Rightarrow> 'e upload_world \<Rightarrow> bool" where
  "sends_at_most n w \<longleftrightarrow> send_count (w_trace w) \<le> n"

lemma keeps_sends_persist [keeps_intros]: "keeps (sends_at_most n) (persist_record io p ev)"
  by (rule keepsI) (auto simp: sends_at_most_def dest!: persist_record_cases)

lemma keeps_sends_lift [keeps_intros]: "keeps (sends_at_most n) (lift_ext m)"
  by (auto simp: keeps_def sends_at_most_def lift_ext_def split: prod.splits)

lemma keeps_sends_record [keeps_intros]: "keeps (sends_at_most n) (current_record i)"
  by (auto simp: keeps_def current_record_def)

lemma keeps_finish_of:
  assumes "\<And>ev. keeps P (persist_record io p ev)" and "\<And>(m :: (signature_status option, 'e) effect). keeps P (lift_ext m)"
    and "\<And>(m :: (bool, 'e) effect). keeps P (lift_ext m)" and "\<And>(m :: (unit, 'e) effect). keeps P (lift_ext m)"
    and "\<And>(m :: (rat option, 'e) effect). keeps P (lift_ext m)"
  shows "keeps P (finish_chunk (lift_adapters a) (persist_record io p) policy c k sg outcome)"
  unfolding finish_chunk_def confirm_chunk_def Let_def
  by (auto intro!: keeps_intros assms split: option.split)

lemma keeps_scan_of:
  assumes "\<And>ev. keeps P (persist_record io p ev)" and "\<And>(m :: (signature_status option, 'e) effect). keeps P (lift_ext m)"
    and "\<And>(m :: (bool, 'e) effect). keeps P (lift_ext m)" and "\<And>i. keeps P (current_record i)"
  shows "keeps P (scan_chunks a io p policyInput confirmed cs runnable)"
proof (induction cs arbitrary: runnable)
  case (Cons c cs)
  have "keeps P (settle_chunk a io p policyInput c r)" for r
    unfolding settle_chunk_def Let_def by (intro keeps_intros assms)
  then have "keeps P (scan_chunk a io p policyInput confirmed c)"
    unfolding scan_chunk_def Let_def by (intro keeps_intros assms)
  with Cons show ?case by (auto intro!: keeps_intros split: sum.split)
qed (simp add: keeps_give)

lemma keeps_once_chunk [keeps_intros]:
  "keeps once_inv (upload_chunk (lift_adapters a) (persist_record io p) policy c k)"
proof (rule keepsI)
  fix w :: "'a upload_world" and r w'
  assume inv: "once_inv w"
    and run: "upload_chunk (lift_adapters a) (persist_record io p) policy c k w = (r, w')"
  show "once_inv w'"
  proof (rule upload_chunk_rule [OF run, where P = once_inv])
    fix sg w1 w2 outcome w3
    assume inv1: "once_inv w1"
      and sv: "persist_record io p (sent_event c sg) w1 = (Inr (), w2)"
      and sd: "send (lift_adapters a) sg c w2 = (outcome, w3)"
    note st = persist_record_sent_from_planned [OF sv]
    have inv2: "once_inv w2" by (rule keepsD [OF keeps_once_persist inv1 sv])
    have "p_index c \<notin> set (sent_indexes (w_trace w2))"
      using inv1 st persist_record_cases [OF sv] by (auto simp: once_inv_def)
    with sd inv2 st show "once_inv w3"
      by (auto simp: lift_send_def once_inv_def status_at_def split: prod.splits)
  qed (use inv in \<open>auto intro!: keeps_intros keeps_finish_of\<close>)
qed

lemma keeps_once_loop [keeps_intros]:
  "keeps once_inv (upload_loop (lift_adapters a) (persist_record io p) policy cs k)"
proof (induction cs arbitrary: k)
  case (Cons c cs)
  then show ?case by (auto intro!: keeps_intros split: sum.split)
qed (simp add: keeps_give)

lemma once_inv_initial: "once_inv (initial_world state fs ext)"
  by (simp add: once_inv_def initial_world_def)

lemma keeps_once_scan: "keeps once_inv (scan_chunks a io p policy vs chunks runnable)"
  by (intro keeps_scan_of keeps_intros)

lemma keeps_once_sequential:
  "keeps once_inv (runSequentialUpload (lift_adapters a) (persist_record io p) policy runnable)"
  unfolding runSequentialUpload_def by (intro keeps_intros)

lemma persisted_run_at_most_once:
  assumes "runPersistedSequentialUpload a io p checkpoint chunks confirmed policy fs ext = (r, w')"
  shows "distinct (sent_indexes (w_trace w'))"
proof -
  have "once_inv w' \<or> w_trace w' = []"
    by (rule persisted_run_keeps [OF assms once_inv_initial keeps_once_scan keeps_once_sequential])
  then show ?thesis by (auto simp: once_inv_def)
qed

lemma sends_at_most_mono: "sends_at_most n w \<Longrightarrow> n \<le> m \<Longrightarrow> sends_at_most m w"
  by (simp add: sends_at_most_def)

lemma sends_at_most_initial: "sends_at_most 0 (initial_world state fs ext)"
  by (simp add: sends_at_most_def initial_world_def)

lemma keeps_sends_scan:
  "keeps (sends_at_most n) (scan_chunks a io p policy vs chunks runnable)"
  by (intro keeps_scan_of keeps_intros)

lemma upload_chunk_sends:
  assumes "upload_chunk (lift_adapters a) (persist_record io p) policy c k w = (r, w')"
    and "sends_at_most n w"
  shows "sends_at_most (Suc n) w'"
proof (rule upload_chunk_rule [OF assms(1), where P = "sends_at_most n"])
  fix sg w1 w2 outcome w3
  assume "sends_at_most n w1" and sv: "persist_record io p (sent_event c sg) w1 = (Inr (), w2)"
    and sd: "send (lift_adapters a) sg c w2 = (outcome, w3)"
  then have "sends_at_most n w2" using keepsD [OF keeps_sends_persist] by blast
  with sd show "sends_at_most (Suc n) w3"
    by (auto simp: lift_send_def sends_at_most_def split: prod.splits)
qed (use assms(2) in \<open>auto intro!: keeps_intros keeps_finish_of intro: sends_at_most_mono\<close>)

lemma upload_loop_sends:
  assumes "upload_loop (lift_adapters a) (persist_record io p) policy cs k w = (r, w')"
    and "get policy ''maxChunksPerWindow'' = JNat m" and "sends_at_most n w"
  shows "sends_at_most (n + (m - processed k)) w'"
  using assms(1,3)
proof (induction cs arbitrary: k w n)
  case Nil
  then show ?case by (simp add: sends_at_most_def)
next
  case (Cons c cs)
  show ?case
  proof (cases "p_exact c \<or> m \<le> processed k")
    case True
    with Cons.prems Cons.IH [of "k\<lparr> skippedIndexes := skippedIndexes k @ [p_index c] \<rparr>" w n] assms(2)
    show ?thesis by (auto simp: sends_at_most_def split: if_splits)
  next
    case False
    with Cons.prems(1) assms(2) have
      "then_do (upload_chunk (lift_adapters a) (persist_record io p) policy c k) (\<lambda>next_step.
        case next_step of Inl st \<Rightarrow> give (st, k)
        | Inr k' \<Rightarrow> upload_loop (lift_adapters a) (persist_record io p) policy cs k') w = (r, w')"
      by simp
    then show ?thesis
    proof (cases rule: then_do_cases)
      case (throws e)
      from upload_chunk_sends [OF throws(1) Cons.prems(2)] show ?thesis
        by (rule sends_at_most_mono) (use False in linarith)
    next
      case (returns x w1)
      note one = upload_chunk_sends [OF returns(1) Cons.prems(2)]
      show ?thesis
      proof (cases x)
        case (Inl st)
        with returns one False show ?thesis by (auto simp: sends_at_most_def)
      next
        case (Inr k1)
        from upload_chunk_goes_on [OF returns(1) [unfolded Inr]]
        have "processed k1 = Suc (processed k)" by auto
        moreover from returns Inr Cons.IH [OF _ one] have "sends_at_most (Suc n + (m - processed k1)) w'"
          by simp
        ultimately have "sends_at_most (Suc n + (m - Suc (processed k))) w'" by simp
        then show ?thesis by (rule sends_at_most_mono) (use False in linarith)
      qed
    qed
  qed
qed

lemma normalized_window:
  assumes "normalizeRatePolicy input = Inr policy"
  obtains m where "get policy ''maxChunksPerWindow'' = JNat m" "1 \<le> m"
proof -
  from assms have "is_integer (get policy ''maxChunksPerWindow'')"
    "1 \<le> num_of (get policy ''maxChunksPerWindow'')"
    by (auto simp: normalizeRatePolicy_def Let_def simp del: get.simps split: if_splits)
  moreover from this obtain m where "get policy ''maxChunksPerWindow'' = JNat m"
    by (auto simp: num_of_case elim!: is_integer_nonneg intro: order_trans)
  ultimately show thesis using that by (metis num_of.simps(1) of_nat_1 of_nat_le_iff)
qed

lemma persisted_run_window:
  assumes "runPersistedSequentialUpload a io p checkpoint chunks confirmed policyInput fs ext = (r, w')"
    and "normalizeRatePolicy policyInput = Inr policy"
    and "get policy ''maxChunksPerWindow'' = JNat m"
  shows "send_count (w_trace w') \<le> m"
  using assms(1)
proof (cases rule: persisted_run_cases)
  case refused
  then show ?thesis by simp
next
  case (scanned state st w1)
  from scanned(2) obtain vs where
    "scan_chunks a io p policyInput vs chunks [] (initial_world state fs ext) = (st, w1)" by blast
  from keepsD [OF keeps_sends_scan sends_at_most_initial this] have "sends_at_most 0 w1" .
  with scanned(4) show ?thesis by (simp add: sends_at_most_def)
next
  case (uploaded state vs runnable w1)
  from keepsD [OF keeps_sends_scan sends_at_most_initial uploaded(2)] have "sends_at_most 0 w1" .
  moreover from uploaded(3) assms(2)
  have "upload_loop (lift_adapters a) (persist_record io p) policy runnable no_counters w1 = (r, w')"
    by (simp add: runSequentialUpload_def)
  ultimately have "sends_at_most (0 + (m - processed no_counters)) w'"
    by (intro upload_loop_sends [OF _ assms(3)])
  then show ?thesis by (simp add: no_counters_def sends_at_most_def)
qed

text \<open>An unsafe policy sends nothing.\<close>

lemma persisted_run_unsafe_policy:
  assumes "runPersistedSequentialUpload a io p checkpoint chunks confirmed policyInput fs ext = (r, w')"
    and "normalizeRatePolicy policyInput = Inl e"
  shows "send_count (w_trace w') = 0"
proof -
  have idle: "runSequentialUpload (lift_adapters a) (persist_record io p) policyInput runnable w = (Inl e, w)"
    for runnable w
    using assms(2) by (simp add: runSequentialUpload_def then_do_def)
  have "sends_at_most 0 w' \<or> w_trace w' = []"
    using assms(1) sends_at_most_initial keeps_sends_scan
    by (rule persisted_run_keeps) (auto simp: keeps_def idle)
  then show ?thesis by (auto simp: sends_at_most_def)
qed

end
