(* ===== verification/Validation_Snapshot.thy ===== *)
theory Validation_Snapshot imports Js_Values Chunk_Tiling begin

text \<open>
  \<open>scripts/devnet/upload-validation-snapshot.mjs\<close>: a snapshot of the finalized buffer account
  bound to the state file, the binary and the upload plan, and its validation before a write
  window: identity bindings, freshness, integrity of the captured bytes, and a plan that tiles
  the binary with a prefix of confirmed chunks whose bytes are on chain.

  \<open>sha\<close> stands for the SHA-256 of \<open>node:crypto\<close> in hexadecimal; no lemma assumes anything
  of it.  Base64 is defined here.
\<close>

section \<open>Base64\<close>

text \<open>The alphabet is \<open>A-Z\<close>, \<open>a-z\<close>, \<open>0-9\<close>, \<open>+\<close>, \<open>/\<close>.\<close>

definition base64_char :: "nat \<Rightarrow> char" where
  "base64_char d =
     (let i = d mod 64 in
      char_of (if i < 26 then i + 65 else if i < 52 then i + 71 else if i < 62 then i - 4
               else if i = 62 then 43 else 47))"

text \<open>Three bytes are four characters; a rest of one or two bytes is padded.\<close>

fun base64_encode :: "bytes \<Rightarrow> string" where
  "base64_encode (a # b # c # rest) =
     base64_char (unat a div 4) # base64_char (unat a mod 4 * 16 + unat b div 16)
     # base64_char (unat b mod 16 * 4 + unat c div 64) # base64_char (unat c mod 64)
     # base64_encode rest"
| "base64_encode [a, b] =
     [base64_char (unat a div 4), base64_char (unat a mod 4 * 16 + unat b div 16),
      base64_char (unat b mod 16 * 4), CHR ''='']"
| "base64_encode [a] =
     [base64_char (unat a div 4), base64_char (unat a mod 4 * 16), CHR ''='', CHR ''='']"
| "base64_encode [] = []"

definition base64_digit :: "char \<Rightarrow> nat option" where
  "base64_digit c =
     (let n = of_char c :: nat in
      if 65 \<le> n \<and> n \<le> 90 then Some (n - 65)
      else if 97 \<le> n \<and> n \<le> 122 then Some (n - 71)
      else if 48 \<le> n \<and> n \<le> 57 then Some (n + 4)
      else if n = 43 then Some 62 else if n = 47 then Some 63 else None)"

fun base64_digits :: "nat list \<Rightarrow> bytes" where
  "base64_digits (w # x # y # z # rest) =
     word_of_nat (w * 4 + x div 16) # word_of_nat (x * 16 + y div 4) # word_of_nat (y * 64 + z)
     # base64_digits rest"
| "base64_digits [w, x, y] = [word_of_nat (w * 4 + x div 16), word_of_nat (x * 16 + y div 4)]"
| "base64_digits [w, x] = [word_of_nat (w * 4 + x div 16)]"
| "base64_digits _ = []"

text \<open>The decoder is lenient: it skips characters outside the alphabet.  The code never relies on
  that, since it encodes the result again and compares.\<close>

definition base64_decode :: "string \<Rightarrow> bytes" where
  "base64_decode s = base64_digits (List.map_filter base64_digit s)"

lemma base64_digit_char_small:
  "i < 64 \<Longrightarrow> base64_digit (char_of (if i < 26 then i + 65 else if i < 52 then i + 71
     else if i < 62 then i - 4 else if i = 62 then 43 else 47 :: nat)) = Some i"
  by (simp add: base64_digit_def Let_def) arith

lemma base64_digit_char [simp]: "base64_digit (base64_char d) = Some (d mod 64)"
  unfolding base64_char_def Let_def by (rule base64_digit_char_small) simp

lemma base64_padding [simp]: "base64_digit (CHR ''='') = None"
  by (simp add: base64_digit_def)

lemma digit_split:
  fixes p q :: nat
  assumes "q < k" and "p < m" and "k * m = 64"
  shows "(p * k + q) mod 64 = p * k + q" "(p * k + q) div k = p" "(p * k + q) mod k = q"
proof -
  from assms(1,2) have "p * k + q < Suc p * k" by simp
  also from assms(2) have "\<dots> \<le> m * k" by (intro mult_le_mono1) simp
  finally show "(p * k + q) mod 64 = p * k + q" using assms(3) by (simp add: mult.commute)
  show "(p * k + q) div k = p" "(p * k + q) mod k = q" using assms(1) by simp_all
qed

lemma byte_mod_256: "(word_of_nat (k * 256 + unat (b :: byte)) :: byte) = b"
proof -
  have zero: "(word_of_nat 256 :: byte) = 0" by simp
  have "(word_of_nat (k * 256 + unat b) :: byte) = word_of_nat k * word_of_nat 256 + b"
    by (simp only: of_nat_add of_nat_mult) simp
  then show ?thesis by (simp only: zero) simp
qed

lemma base64_group:
  fixes a b c :: byte
  defines "w \<equiv> unat a div 4" and "x \<equiv> unat a mod 4 * 16 + unat b div 16"
    and "y \<equiv> unat b mod 16 * 4 + unat c div 64" and "z \<equiv> unat c mod 64"
  shows "w mod 64 = w \<and> x mod 64 = x \<and> y mod 64 = y \<and> z mod 64 = z
    \<and> (word_of_nat (w * 4 + x div 16) :: byte) = a
    \<and> (word_of_nat (x * 16 + y div 4) :: byte) = b
    \<and> (word_of_nat (y * 64 + z) :: byte) = c"
proof -
  have lt: "unat a < 256" "unat b < 256" "unat c < 256" by (rule byte_less_256)+
  have xs: "x mod 64 = x" "x div 16 = unat a mod 4"
    unfolding x_def by (rule digit_split [of _ _ _ 4]; use lt in simp)+
  have ys: "y mod 64 = y" "y div 4 = unat b mod 16"
    unfolding y_def by (rule digit_split [of _ _ _ 16]; use lt in simp)+
  have wz: "w mod 64 = w" "z mod 64 = z" using lt by (simp_all add: w_def z_def)
  have a: "(word_of_nat (w * 4 + x div 16) :: byte) = a" unfolding xs by (simp add: w_def)
  have "x * 16 + y div 4 = unat a mod 4 * 256 + unat b"
    unfolding ys x_def using div_mult_mod_eq [of "unat b" 16] by simp
  then have b: "(word_of_nat (x * 16 + y div 4) :: byte) = b" by (simp only: byte_mod_256)
  have "y * 64 + z = unat b mod 16 * 256 + unat c"
    unfolding y_def z_def using div_mult_mod_eq [of "unat c" 64] by simp
  then have c: "(word_of_nat (y * 64 + z) :: byte) = c" by (simp only: byte_mod_256)
  from wz xs ys a b c show ?thesis by blast
qed

lemma base64_decode_encode [simp]: "base64_decode (base64_encode bs) = bs"
proof (induction bs rule: base64_encode.induct)
  case (1 a b c rest)
  then show ?case
    using base64_group [of a b c] by (simp add: base64_decode_def List.map_filter_simps)
next
  case (2 a b)
  then show ?case
    using base64_group [of a b 0] by (simp add: base64_decode_def List.map_filter_simps)
next
  case (3 a)
  then show ?case
    using base64_group [of a 0 0] by (simp add: base64_decode_def List.map_filter_simps)
qed (simp add: base64_decode_def List.map_filter_simps)

section \<open>Creating a snapshot\<close>

definition SNAPSHOT_VERSION :: string where
  "SNAPSHOT_VERSION = ''CONFIRMED_VALIDATION_SNAPSHOT_V1''"

definition BUFFER_METADATA_LENGTH :: nat where
  "BUFFER_METADATA_LENGTH = 37"

definition VALIDATION_SNAPSHOT_TTL_MS :: nat where
  "VALIDATION_SNAPSHOT_TTL_MS = 30000"

definition assertIdentity :: "js \<Rightarrow> string \<Rightarrow> unit result" where
  "assertIdentity v label =
     guard (case v of JStr s \<Rightarrow> s \<noteq> [] | _ \<Rightarrow> False) (label @ '' is required'')"

definition assertSha256 :: "js \<Rightarrow> string \<Rightarrow> unit result" where
  "assertSha256 v label = guard (hex64i_test v) (label @ '' must be SHA-256'')"

text \<open>\<open>input\<close> holds every field but the account bytes, \<open>None\<close> for a missing \<open>accountData\<close>.\<close>

definition createConfirmedValidationSnapshot ::
    "(bytes \<Rightarrow> string) \<Rightarrow> js \<Rightarrow> bytes option \<Rightarrow> js result" where
  "createConfirmedValidationSnapshot sha input accountData =
     and_then (assertIdentity (get input ''bufferAddress'') ''snapshot buffer address'') (\<lambda>_.
     and_then (assertIdentity (get input ''owner'') ''snapshot owner'') (\<lambda>_.
     and_then (assertIdentity (get input ''authority'') ''snapshot authority'') (\<lambda>_.
     and_then (assertSha256 (get input ''stateSha256'') ''snapshot state hash'') (\<lambda>_.
     and_then (assertSha256 (get input ''binarySha256'') ''snapshot binary hash'') (\<lambda>_.
     and_then (assertSha256 (get input ''planFingerprint'') ''snapshot plan fingerprint'') (\<lambda>_.
     let allocation = get input ''allocation''; lamports = get input ''lamports'';
         slot = get input ''finalizedSlot''; captured = get input ''capturedAtMonotonicMs'';
         bytes = (case accountData of Some bs \<Rightarrow> bs | None \<Rightarrow> []) in
     if \<not> is_safe_integer allocation \<or> num_of allocation < of_nat BUFFER_METADATA_LENGTH
     then throw ''snapshot allocation is invalid''
     else if \<not> is_safe_integer lamports \<or> num_of lamports < 0
     then throw ''snapshot lamports are invalid''
     else if \<not> is_safe_integer slot \<or> num_of slot < 0
     then throw ''snapshot finalized slot is invalid''
     else if \<not> is_finite_number captured \<or> num_of captured < 0
     then throw ''snapshot capture time is invalid''
     else if of_nat (length bytes) \<noteq> num_of allocation
     then throw ''snapshot account data allocation mismatch''
     else Inr (JObj
       [(''version'', JStr SNAPSHOT_VERSION),
        (''bufferAddress'', get input ''bufferAddress''), (''owner'', get input ''owner''),
        (''authority'', get input ''authority''), (''allocation'', allocation),
        (''lamports'', lamports), (''accountDataSha256'', JStr (sha bytes)),
        (''accountDataBase64'', JStr (base64_encode bytes)), (''finalizedSlot'', slot),
        (''capturedAtMonotonicMs'', captured), (''stateSha256'', get input ''stateSha256''),
        (''binarySha256'', get input ''binarySha256''),
        (''planFingerprint'', get input ''planFingerprint'')])))))))"

section \<open>Validating a snapshot\<close>

text \<open>The bindings in the order of the code: the words of the error message and the property.\<close>

definition snapshot_bindings :: "(string \<times> string) list" where
  "snapshot_bindings =
     [(''buffer address'', ''bufferAddress''), (''owner'', ''owner''),
      (''authority'', ''authority''), (''allocation'', ''allocation''),
      (''state hash'', ''stateSha256''), (''binary hash'', ''binarySha256''),
      (''plan fingerprint'', ''planFingerprint'')]"

text \<open>A number under comparison and subtraction: \<open>null\<close> and booleans convert; every other value
  that is not a number is read as \<open>NaN\<close>, with which all comparisons are false.  (The capture
  time of a snapshot that the code created is a finite number.)\<close>

fun as_number :: "js \<Rightarrow> rat option" where
  "as_number (JNum r) = Some r"
| "as_number JNull = Some 0"
| "as_number (JBool b) = Some (if b then 1 else 0)"
| "as_number _ = None"

definition captured_after :: "rat \<Rightarrow> js \<Rightarrow> bool" where
  "captured_after now captured = (case as_number captured of Some c \<Rightarrow> now < c | None \<Rightarrow> False)"

definition older_than :: "rat \<Rightarrow> rat \<Rightarrow> js \<Rightarrow> bool" where
  "older_than ttl now captured =
     (case as_number captured of Some c \<Rightarrow> ttl < now - c | None \<Rightarrow> False)"

record snapshot_walk =
  nextOffset :: rat
  confirmedPrefixEnded :: bool
  confirmedIndexes_s :: "nat list"

text \<open>One turn of the loop over the plan; the state is the walk so far.\<close>

definition snapshot_step ::
    "(bytes \<Rightarrow> string) \<Rightarrow> bytes \<Rightarrow> bytes \<Rightarrow> nat \<Rightarrow> js \<Rightarrow> js \<Rightarrow> snapshot_walk \<Rightarrow> snapshot_walk result" where
  "snapshot_step sha binary payload index chunk record walk =
     (let off = get chunk ''offset''; len = get chunk ''length'' in
      if \<not> truthy chunk \<or> \<not> truthy record \<or> get chunk ''index'' \<noteq> JNat index
          \<or> get record ''index'' \<noteq> JNat index
      then throw ''snapshot chunk index mismatch''
      else if \<not> is_safe_integer off \<or> num_of off < 0 \<or> \<not> is_safe_integer len \<or> num_of len < 1
          \<or> of_nat (length binary) < num_of off + num_of len
      then throw ''snapshot chunk out of bounds''
      else if num_of off \<noteq> nextOffset walk then throw ''snapshot chunk gap or overlap''
      else if \<not> strict_equal (get record ''offset'') off \<or> \<not> strict_equal (get record ''length'') len
          \<or> \<not> strict_equal (get record ''sha256'') (get chunk ''sha256'')
      then throw ''snapshot chunk evidence mismatch''
      else
      let a = nat \<lfloor>num_of off\<rfloor>; b = nat \<lfloor>num_of off + num_of len\<rfloor>;
          expectedBytes = subarray binary a b in
      if get chunk ''sha256'' \<noteq> JStr (sha expectedBytes) then throw ''snapshot chunk hash mismatch''
      else if get record ''status'' = JStr ''CONFIRMED'' then
        (if confirmedPrefixEnded walk then throw ''confirmed chunk gap''
         else if \<not> buffer_equals (subarray payload a b) expectedBytes
         then throw ''confirmed chunk bytes mismatch''
         else Inr (walk\<lparr> confirmedIndexes_s := confirmedIndexes_s walk @ [index],
                          nextOffset := num_of off + num_of len \<rparr>))
      else Inr (walk\<lparr> confirmedPrefixEnded := True, nextOffset := num_of off + num_of len \<rparr>))"

fun snapshot_loop ::
    "(bytes \<Rightarrow> string) \<Rightarrow> bytes \<Rightarrow> bytes \<Rightarrow> nat \<Rightarrow> (js \<times> js) list \<Rightarrow> snapshot_walk
     \<Rightarrow> snapshot_walk result" where
  "snapshot_loop sha binary payload index [] walk = Inr walk"
| "snapshot_loop sha binary payload index ((chunk, record) # rest) walk =
     and_then (snapshot_step sha binary payload index chunk record walk)
       (snapshot_loop sha binary payload (Suc index) rest)"

text \<open>The walk over the whole plan, and its guards.\<close>

definition snapshot_plan ::
    "(bytes \<Rightarrow> string) \<Rightarrow> bytes \<Rightarrow> bytes \<Rightarrow> js \<Rightarrow> js \<Rightarrow> nat list result" where
  "snapshot_plan sha binary payload chunks records =
     (case (chunks, records) of (JArr cs, JArr rs) \<Rightarrow>
        and_then (guard (length cs = length rs \<and> cs \<noteq> []) ''snapshot plan records mismatch'') (\<lambda>_.
        and_then (snapshot_loop sha binary payload 0 (zip cs rs)
            \<lparr> nextOffset = 0, confirmedPrefixEnded = False, confirmedIndexes_s = [] \<rparr>) (\<lambda>walk.
        and_then (guard (nextOffset walk = of_nat (length binary))
            ''snapshot plan coverage mismatch'') (\<lambda>_.
        Inr (confirmedIndexes_s walk))))
      | _ \<Rightarrow> throw ''snapshot plan records mismatch'')"

text \<open>The bytes of the snapshot and those of the binary.\<close>

definition snapshot_bytes ::
    "(bytes \<Rightarrow> string) \<Rightarrow> js \<Rightarrow> bytes \<Rightarrow> bytes result" where
  "snapshot_bytes sha snapshot binary =
     (case get snapshot ''accountDataBase64'' of JStr encoded \<Rightarrow>
        (let accountData = base64_decode encoded; payload = drop BUFFER_METADATA_LENGTH accountData in
         if base64_encode accountData \<noteq> encoded
             \<or> get snapshot ''allocation'' \<noteq> JNat (length accountData)
             \<or> get snapshot ''accountDataSha256'' \<noteq> JStr (sha accountData)
         then throw ''snapshot account data mismatch''
         else if get snapshot ''binarySha256'' \<noteq> JStr (sha binary)
         then throw ''snapshot binary hash mismatch''
         else if length payload \<noteq> length binary then throw ''snapshot allocation mismatch''
         else Inr payload)
      | _ \<Rightarrow> throw ''snapshot account data mismatch'')"

definition snapshot_fresh :: "js \<Rightarrow> js \<Rightarrow> js \<Rightarrow> unit result" where
  "snapshot_fresh snapshot now ttlMs =
     (let captured = get snapshot ''capturedAtMonotonicMs'';
          ttl = (if ttlMs = Undefined then JNat VALIDATION_SNAPSHOT_TTL_MS else ttlMs) in
      if \<not> is_finite_number now \<or> captured_after (num_of now) captured
      then throw ''snapshot clock regression''
      else if \<not> is_finite_number ttl \<or> num_of ttl < 0
          \<or> older_than (num_of ttl) (num_of now) captured
      then throw ''snapshot expired''
      else Inr ())"

definition validateConfirmedValidationSnapshot ::
    "(bytes \<Rightarrow> string) \<Rightarrow> js \<Rightarrow> js \<Rightarrow> js \<Rightarrow> js \<Rightarrow> bytes option \<Rightarrow> js \<Rightarrow> js \<Rightarrow> nat list result" where
  "validateConfirmedValidationSnapshot sha snapshot expected chunks records localBytes now ttlMs =
     and_then (guard (get snapshot ''version'' = JStr SNAPSHOT_VERSION)
       ''validation snapshot version mismatch'') (\<lambda>_.
     and_then (for_each (\<lambda>(label, p). guard (strict_equal (get snapshot p) (get expected p))
         (''snapshot '' @ label @ '' mismatch'')) snapshot_bindings) (\<lambda>_.
     and_then (snapshot_fresh snapshot now ttlMs) (\<lambda>_.
     and_then (guard (is_safe_integer (get snapshot ''finalizedSlot'')
         \<and> 0 \<le> num_of (get snapshot ''finalizedSlot'')) ''snapshot finalized context mismatch'') (\<lambda>_.
     let binary = (case localBytes of Some bs \<Rightarrow> bs | None \<Rightarrow> []) in
     and_then (snapshot_bytes sha snapshot binary) (\<lambda>payload.
     snapshot_plan sha binary payload chunks records)))))"

section \<open>What an accepted snapshot shows\<close>

definition js_span :: "js \<Rightarrow> span" where
  "js_span c = (nat \<lfloor>num_of (get c ''index'')\<rfloor>, nat \<lfloor>num_of (get c ''offset'')\<rfloor>,
                nat \<lfloor>num_of (get c ''length'')\<rfloor>)"

definition is_confirmed :: "js \<Rightarrow> bool" where
  "is_confirmed record \<longleftrightarrow> get record ''status'' = JStr ''CONFIRMED''"

lemma safe_integer_nonneg:
  assumes "is_safe_integer v" and "0 \<le> num_of v"
  obtains n where "v = JNat n"
proof -
  from assms have "is_integer v" by (simp add: is_safe_integer_def is_integer_def split: js.splits)
  with assms(2) show thesis by (auto simp: num_of_case elim!: is_integer_nonneg intro: that)
qed

lemma snapshot_step_ok:
  assumes "snapshot_step sha binary payload index chunk record walk = Inr walk'"
    and "nextOffset walk = of_nat off"
  obtains len where "js_span chunk = (index, off, len)" "1 \<le> len" "off + len \<le> length binary"
    "nextOffset walk' = of_nat (off + len)"
    "get chunk ''sha256'' = JStr (sha (subarray binary off (off + len)))"
    "if is_confirmed record
     then \<not> confirmedPrefixEnded walk \<and> \<not> confirmedPrefixEnded walk'
       \<and> confirmedIndexes_s walk' = confirmedIndexes_s walk @ [index]
       \<and> subarray payload off (off + len) = subarray binary off (off + len)
     else confirmedPrefixEnded walk' \<and> confirmedIndexes_s walk' = confirmedIndexes_s walk"
proof -
  let ?off = "get chunk ''offset''" and ?len = "get chunk ''length''"
  note def = snapshot_step_def Let_def not_less
  from assms(1) have sl: "is_safe_integer ?len" and so: "is_safe_integer ?off"
    and l1: "1 \<le> num_of ?len" and o0: "0 \<le> num_of ?off"
    and eq: "num_of ?off = nextOffset walk" and i: "get chunk ''index'' = JNat index"
    by (simp_all add: def split: if_splits)
  from sl l1 obtain len where l: "?len = JNat len"
    by (meson safe_integer_nonneg order_trans zero_le_one)
  from so o0 obtain a where a: "?off = JNat a" by (rule safe_integer_nonneg)
  from l l1 have "1 \<le> len" by simp
  from a eq assms(2) have "a = off" by simp
  have floor: "nat \<lfloor>rat_of_nat off + rat_of_nat len\<rfloor> = off + len"
    by (metis floor_of_nat nat_int of_nat_add)
  show thesis
  proof (rule that [of len])
    show "js_span chunk = (index, off, len)" using l a i \<open>a = off\<close> by (simp add: js_span_def)
    show "1 \<le> len" by fact
    from assms(1) l a \<open>a = off\<close> have "rat_of_nat (off + len) \<le> rat_of_nat (length binary)"
      by (simp add: def split: if_splits)
    then show "off + len \<le> length binary" by (simp only: of_nat_le_iff)
    from assms(1) l a \<open>a = off\<close> floor show
      "nextOffset walk' = of_nat (off + len)"
      "get chunk ''sha256'' = JStr (sha (subarray binary off (off + len)))"
      "if is_confirmed record
       then \<not> confirmedPrefixEnded walk \<and> \<not> confirmedPrefixEnded walk'
         \<and> confirmedIndexes_s walk' = confirmedIndexes_s walk @ [index]
         \<and> subarray payload off (off + len) = subarray binary off (off + len)
       else confirmedPrefixEnded walk' \<and> confirmedIndexes_s walk' = confirmedIndexes_s walk"
      by (auto simp: def is_confirmed_def buffer_equals_def assms(2) nat_int_add split: if_splits)
  qed
qed

text \<open>The walk so far: the spans tile, the hashes are those of the binary, and the confirmed
  records are a prefix whose bytes are on chain.\<close>

lemma snapshot_loop_ok:
  assumes "snapshot_loop sha binary payload index ps walk = Inr walk'"
    and "nextOffset walk = of_nat off"
  shows "\<exists>k\<le>length ps. tiled_from index off (map (\<lambda>q. js_span (fst q)) ps)
    \<and> nextOffset walk' = of_nat (off + span_total (map (\<lambda>q. js_span (fst q)) ps))
    \<and> (\<forall>(c, r)\<in>set ps. get c ''sha256'' = JStr (sha (slice_of binary (js_span c))))
    \<and> confirmedIndexes_s walk' = confirmedIndexes_s walk @ [index..<index + k]
    \<and> (\<forall>j<length ps. is_confirmed (snd (ps ! j)) \<longleftrightarrow> j < k)
    \<and> (\<forall>(c, r)\<in>set (take k ps). slice_of payload (js_span c) = slice_of binary (js_span c))
    \<and> (confirmedPrefixEnded walk \<longrightarrow> k = 0)"
  using assms
proof (induction ps arbitrary: index walk off)
  case (Cons p ps)
  obtain chunk rcd where p: "p = (chunk, rcd)" by (cases p)
  from Cons.prems p obtain walk1 where
    step: "snapshot_step sha binary payload index chunk rcd walk = Inr walk1"
    and rest: "snapshot_loop sha binary payload (Suc index) ps walk1 = Inr walk'"
    by (auto simp: and_then_eq_Inr)
  from snapshot_step_ok [OF step Cons.prems(2)] obtain len where one:
    "js_span chunk = (index, off, len)" "1 \<le> len" "nextOffset walk1 = of_nat (off + len)"
    "get chunk ''sha256'' = JStr (sha (subarray binary off (off + len)))"
    and conf: "if is_confirmed rcd
     then \<not> confirmedPrefixEnded walk \<and> \<not> confirmedPrefixEnded walk1
       \<and> confirmedIndexes_s walk1 = confirmedIndexes_s walk @ [index]
       \<and> subarray payload off (off + len) = subarray binary off (off + len)
     else confirmedPrefixEnded walk1 \<and> confirmedIndexes_s walk1 = confirmedIndexes_s walk"
    by metis
  from Cons.IH [OF rest one(3)] obtain k where k: "k \<le> length ps"
    and tiled: "tiled_from (Suc index) (off + len) (map (\<lambda>q. js_span (fst q)) ps)"
      "nextOffset walk' = of_nat (off + len + span_total (map (\<lambda>q. js_span (fst q)) ps))"
      "\<forall>(c, r)\<in>set ps. get c ''sha256'' = JStr (sha (slice_of binary (js_span c)))"
    and idx: "confirmedIndexes_s walk' = confirmedIndexes_s walk1 @ [Suc index..<Suc index + k]"
    and stat: "\<forall>j<length ps. is_confirmed (snd (ps ! j)) \<longleftrightarrow> j < k"
    and bytes: "\<forall>(c, r)\<in>set (take k ps). slice_of payload (js_span c) = slice_of binary (js_span c)"
    and ended: "confirmedPrefixEnded walk1 \<longrightarrow> k = 0"
    by blast
  show ?case
  proof (cases "is_confirmed rcd")
    case True
    have "\<forall>j<length (p # ps). is_confirmed (snd ((p # ps) ! j)) \<longleftrightarrow> j < Suc k"
      using stat True p by (auto simp: less_Suc_eq_0_disj)
    moreover have "[index..<index + Suc k] = index # [Suc index..<Suc index + k]"
      by (simp add: upt_conv_Cons)
    ultimately show ?thesis using k tiled idx bytes True one conf p
      by (intro exI [of _ "Suc k"]) (simp add: add.assoc)
  next
    case False
    have "k = 0" using ended conf False by simp
    moreover from this have "\<forall>j<length (p # ps). is_confirmed (snd ((p # ps) ! j)) \<longleftrightarrow> j < 0"
      using stat False p by (auto simp: less_Suc_eq_0_disj)
    ultimately show ?thesis using k tiled idx one conf p False
      by (intro exI [of _ 0]) (simp add: add.assoc)
  qed
qed (auto intro: exI [of _ 0])

lemma snapshot_plan_ok:
  assumes "snapshot_plan sha binary payload chunks records = Inr confirmed"
  obtains cs rs walk where
    "chunks = JArr cs" "records = JArr rs" "length cs = length rs"
    "snapshot_loop sha binary payload 0 (zip cs rs)
      \<lparr> nextOffset = 0, confirmedPrefixEnded = False, confirmedIndexes_s = [] \<rparr> = Inr walk"
    "nextOffset walk = of_nat (length binary)" "confirmed = confirmedIndexes_s walk"
proof -
  from assms obtain cs rs where "chunks = JArr cs" "records = JArr rs"
    by (cases chunks; cases records) (auto simp: snapshot_plan_def)
  with assms that show thesis by (auto simp: snapshot_plan_def result_simps)
qed

lemma snapshot_bytes_ok:
  assumes "snapshot_bytes sha snapshot binary = Inr payload"
  obtains accountData where
    "get snapshot ''accountDataBase64'' = JStr (base64_encode accountData)"
    "get snapshot ''accountDataSha256'' = JStr (sha accountData)"
    "get snapshot ''binarySha256'' = JStr (sha binary)"
    "payload = drop BUFFER_METADATA_LENGTH accountData" "length payload = length binary"
proof -
  from assms obtain encoded where "get snapshot ''accountDataBase64'' = JStr encoded"
    by (auto simp: snapshot_bytes_def split: js.splits)
  with assms that [of "base64_decode encoded"] show thesis
    by (simp add: snapshot_bytes_def Let_def split: if_splits)
qed

lemma tiled_prefix_agrees:
  assumes "tiled_from 0 0 ss" and "\<forall>s\<in>set ss. slice_of xs s = slice_of ys s"
  shows "take (span_total ss) xs = take (span_total ss) ys"
proof -
  from assms(2) have "concat (map (slice_of xs) ss) = concat (map (slice_of ys) ss)"
    by (metis map_eq_conv)
  then show ?thesis
    using tiled_concat [OF assms(1), of xs] tiled_concat [OF assms(1), of ys]
    by (simp add: subarray_def)
qed

lemma snapshot_plan_shows:
  assumes "snapshot_plan sha binary payload (JArr cs) records = Inr confirmed"
  obtains k rs where "k \<le> length cs" "records = JArr rs" "length rs = length cs"
    "confirmed = [0..<k]" "\<forall>j<length cs. is_confirmed (rs ! j) \<longleftrightarrow> j < k"
    "tiled_from 0 0 (map js_span cs)" "span_total (map js_span cs) = length binary"
    "\<forall>c\<in>set cs. get c ''sha256'' = JStr (sha (slice_of binary (js_span c)))"
    "\<forall>c\<in>set (take k cs). slice_of payload (js_span c) = slice_of binary (js_span c)"
    "take (span_total (map js_span (take k cs))) payload
      = take (span_total (map js_span (take k cs))) binary"
proof -
  from snapshot_plan_ok [OF assms] obtain rs walk where rs: "records = JArr rs" "length cs = length rs"
    and run: "snapshot_loop sha binary payload 0 (zip cs rs)
      \<lparr> nextOffset = 0, confirmedPrefixEnded = False, confirmedIndexes_s = [] \<rparr> = Inr walk"
    and walk: "nextOffset walk = of_nat (length binary)" "confirmed = confirmedIndexes_s walk"
    by (metis js.inject(4))
  have cs: "map (\<lambda>q. js_span (fst q)) (zip cs rs) = map js_span cs"
    using map_fst_zip [OF rs(2)] map_map [of js_span fst "zip cs rs"] by (simp add: comp_def)
  from snapshot_loop_ok [OF run, of 0] cs rs obtain k where k: "k \<le> length cs"
    and tiled: "tiled_from 0 0 (map js_span cs)"
    and total: "nextOffset walk = of_nat (span_total (map js_span cs))"
    and hash: "\<forall>(c, r)\<in>set (zip cs rs). get c ''sha256'' = JStr (sha (slice_of binary (js_span c)))"
    and idx: "confirmedIndexes_s walk = [0..<k]"
    and stat: "\<forall>j<length cs. is_confirmed (rs ! j) \<longleftrightarrow> j < k"
    and bytes: "\<forall>(c, r)\<in>set (take k (zip cs rs)). slice_of payload (js_span c) = slice_of binary (js_span c)"
    by auto
  have bytes': "\<forall>c\<in>set (take k cs). slice_of payload (js_span c) = slice_of binary (js_span c)"
  proof
    fix c assume "c \<in> set (take k cs)"
    then have "c \<in> set (map fst (take k (zip cs rs)))"
      using rs by (simp add: take_zip map_fst_zip)
    with bytes show "slice_of payload (js_span c) = slice_of binary (js_span c)" by auto
  qed
  have "tiled_from 0 0 (map js_span (take k cs) @ map js_span (drop k cs))"
    using tiled by (simp flip: map_append)
  then have "tiled_from 0 0 (map js_span (take k cs))" by (simp only: tiled_append)
  then have prefix: "take (span_total (map js_span (take k cs))) payload
      = take (span_total (map js_span (take k cs))) binary"
    by (rule tiled_prefix_agrees) (use bytes' in auto)
  have hash': "\<forall>c\<in>set cs. get c ''sha256'' = JStr (sha (slice_of binary (js_span c)))"
  proof
    fix c assume "c \<in> set cs"
    then have "c \<in> set (map fst (zip cs rs))" using rs by simp
    with hash show "get c ''sha256'' = JStr (sha (slice_of binary (js_span c)))" by auto
  qed
  have "rat_of_nat (span_total (map js_span cs)) = rat_of_nat (length binary)"
    using total walk(1) by simp
  then have total': "span_total (map js_span cs) = length binary" by (simp only: of_nat_eq_iff)
  show thesis
    by (rule that [OF k rs(1) rs(2) [symmetric] _ stat tiled total' hash' bytes' prefix])
      (simp add: walk(2) idx)
qed

text \<open>The validation is a provider of \<open>chunk_tiling\<close>: the accepted plan tiles the binary.\<close>

type_synonym snapshot_inputs =
  "(bytes \<Rightarrow> string) \<times> js \<times> js \<times> js list \<times> js \<times> bytes \<times> js \<times> js"

definition snapshot_accepted :: "snapshot_inputs \<Rightarrow> bool" where
  "snapshot_accepted q =
     (case q of (sha, snapshot, expected, cs, records, binary, now, ttl) \<Rightarrow>
        returns (validateConfirmedValidationSnapshot sha snapshot expected (JArr cs) records
          (Some binary) now ttl))"

definition snapshot_spans :: "snapshot_inputs \<Rightarrow> span list" where
  "snapshot_spans q = (case q of (sha, snapshot, expected, cs, rest) \<Rightarrow> map js_span cs)"

definition snapshot_size :: "snapshot_inputs \<Rightarrow> nat" where
  "snapshot_size q =
     (case q of (sha, snapshot, expected, cs, records, binary, rest) \<Rightarrow> length binary)"

lemma accepted_snapshot:
  assumes "validateConfirmedValidationSnapshot sha snapshot expected chunks records localBytes now ttl
    = Inr confirmed"
  obtains payload where
    "\<forall>(label, p)\<in>set snapshot_bindings. strict_equal (get snapshot p) (get expected p)"
    "snapshot_fresh snapshot now ttl = Inr ()"
    "snapshot_bytes sha snapshot (case localBytes of Some bs \<Rightarrow> bs | None \<Rightarrow> []) = Inr payload"
    "snapshot_plan sha (case localBytes of Some bs \<Rightarrow> bs | None \<Rightarrow> []) payload chunks records
      = Inr confirmed"
  using assms
  by (auto simp: validateConfirmedValidationSnapshot_def result_simps Let_def split_def)

interpretation snapshot: chunk_tiling snapshot_accepted snapshot_spans snapshot_size
proof
  fix q assume "snapshot_accepted q"
  then obtain sha snap expected cs records binary now ttl confirmed
    where q: "q = (sha, snap, expected, cs, records, binary, now, ttl)"
      and ok: "validateConfirmedValidationSnapshot sha snap expected (JArr cs) records
        (Some binary) now ttl = Inr confirmed"
    by (cases q) (auto simp: snapshot_accepted_def returns_iff)
  from accepted_snapshot [OF ok] obtain payload
    where "snapshot_plan sha binary payload (JArr cs) records = Inr confirmed" by auto
  from snapshot_plan_shows [OF this] q
  have "tiled_from 0 0 (snapshot_spans q) \<and> span_total (snapshot_spans q) = snapshot_size q"
    by (auto simp: snapshot_spans_def snapshot_size_def)
  then show "tiled_from 0 0 (snapshot_spans q)" "span_total (snapshot_spans q) = snapshot_size q"
    by simp_all
qed

text \<open>An accepted snapshot is no older than the limit.\<close>

lemma snapshot_fresh_age:
  assumes "snapshot_fresh snapshot now ttl = Inr ()"
    and "get snapshot ''capturedAtMonotonicMs'' = JNum c"
  shows "\<exists>n. now = JNum n \<and> c \<le> n
    \<and> n - c \<le> (if ttl = Undefined then of_nat VALIDATION_SNAPSHOT_TTL_MS else num_of ttl)"
proof -
  from assms(1) obtain n where "now = JNum n"
    by (cases now) (auto simp: snapshot_fresh_def)
  with assms show ?thesis
    by (auto simp: snapshot_fresh_def Let_def captured_after_def older_than_def split: if_splits)
qed

end
