(* ===== verification/Safety.thy ===== *)
theory Safety imports Js_Values "HOL-Library.Sublist" begin

text \<open>
  \<open>scripts/devnet/safety.mjs\<close>: the public configuration and the endpoint it may name, where a
  signer file may lie, and the removal of secrets from public output.

  The WHATWG URL parser is the parameter \<open>parse_url\<close> and the base58 check of \<open>PublicKey\<close> is
  \<open>valid_key\<close>.  A resolved POSIX path is the list of its components; \<open>realpath\<close> and
  \<open>exists\<close> are those of a file system given as a record.
\<close>

section \<open>Endpoints and identities\<close>

definition DEVNET_RPC_URL :: string where
  "DEVNET_RPC_URL = ''https://api.devnet.solana.com''"

definition DEVNET_GENESIS_HASH :: string where
  "DEVNET_GENESIS_HASH = ''EtWTRABZaYq6iMfeYKouRu166VU2xqa1wcaWoxPkrZBG''"

definition CLASSIC_TOKEN_PROGRAM_ID :: string where
  "CLASSIC_TOKEN_PROGRAM_ID = ''TokenkegQfeZyiNwAJbNbGKPFXCWuBvf9Ss623VQ5DA''"

record url =
  protocol :: string
  username :: string
  password :: string
  hostname :: string
  pathname :: string
  search :: string
  hash :: string
  origin :: string
  href :: string

definition assertAllowedRpcUrl :: "(js \<Rightarrow> url option) \<Rightarrow> js \<Rightarrow> string \<Rightarrow> url result" where
  "assertAllowedRpcUrl parse_url v mode =
     (case parse_url v of None \<Rightarrow> throw ''an explicit Solana devnet RPC URL is required''
      | Some u \<Rightarrow>
          if username u \<noteq> [] \<or> password u \<noteq> [] \<or> search u \<noteq> [] \<or> hash u \<noteq> []
          then throw ''an explicit Solana devnet RPC URL is required''
          else if mode = ''local-test'' then
            (if protocol u = ''http:'' \<and> (hostname u = ''127.0.0.1'' \<or> hostname u = ''localhost'')
             then Inr u else throw ''local-test mode requires an explicit loopback RPC URL'')
          else if mode \<noteq> ''devnet'' \<or> protocol u \<noteq> ''https:''
              \<or> hostname u \<noteq> ''api.devnet.solana.com'' \<or> (pathname u \<noteq> ''/'' \<and> pathname u \<noteq> '''')
          then throw ''an explicit Solana devnet RPC URL is required''
          else Inr u)"

text \<open>\<open>shown\<close> is the text of a value in a template literal; only strings matter here.\<close>

fun shown :: "js \<Rightarrow> string" where
  "shown (JStr s) = s"
| "shown JNull = ''null''"
| "shown Undefined = ''undefined''"
| "shown _ = ''[value]''"

definition assertDevnetGenesis :: "js \<Rightarrow> js \<Rightarrow> unit result" where
  "assertDevnetGenesis actual expected =
     guard (strict_equal actual expected)
       (''devnet genesis hash mismatch: expected '' @ shown expected @ '', received '' @ shown actual)"

definition assertClassicTokenProgram :: "js \<Rightarrow> unit result" where
  "assertClassicTokenProgram programId =
     guard (programId = JStr CLASSIC_TOKEN_PROGRAM_ID)
       (''expected classic SPL Token Program '' @ CLASSIC_TOKEN_PROGRAM_ID)"

section \<open>The public configuration\<close>

fun keys_of :: "js \<Rightarrow> string list" where
  "keys_of (JObj kvs) = map fst kvs"
| "keys_of _ = []"

definition assertExactKeys :: "js \<Rightarrow> string list \<Rightarrow> string \<Rightarrow> unit result" where
  "assertExactKeys v expected label =
     and_then (for_each (\<lambda>k. guard (k \<in> set expected)
        (''unexpected config key \"'' @ k @ ''\" in '' @ label)) (keys_of v)) (\<lambda>_.
     for_each (\<lambda>k. guard (k \<in> set (keys_of v))
        (''missing config key \"'' @ k @ ''\" in '' @ label)) expected)"

definition assertObject :: "js \<Rightarrow> string \<Rightarrow> unit result" where
  "assertObject v label =
     guard (case v of JObj kvs \<Rightarrow> True | _ \<Rightarrow> False) (label @ '' must be an object'')"

definition validatePublicConfig :: "(js \<Rightarrow> url option) \<Rightarrow> (js \<Rightarrow> bool) \<Rightarrow> js \<Rightarrow> js result" where
  "validatePublicConfig parse_url valid_key v =
     and_then (assertObject v ''public config'') (\<lambda>_.
     and_then (assertExactKeys v [''schemaVersion'', ''cluster'', ''programId'', ''token'']
       ''public config'') (\<lambda>_.
     and_then (guard (get v ''schemaVersion'' = JNat 1) ''public config schemaVersion must be 1'') (\<lambda>_.
     let cluster = get v ''cluster''; tok = get v ''token'' in
     and_then (assertObject cluster ''cluster'') (\<lambda>_.
     and_then (assertExactKeys cluster [''name'', ''rpcUrl'', ''genesisHash''] ''cluster'') (\<lambda>_.
     and_then (guard (get cluster ''name'' = JStr ''devnet'') ''cluster name must be devnet'') (\<lambda>_.
     and_then (assertAllowedRpcUrl parse_url (get cluster ''rpcUrl'') ''devnet'') (\<lambda>_.
     and_then (assertDevnetGenesis (get cluster ''genesisHash'') (JStr DEVNET_GENESIS_HASH)) (\<lambda>_.
     and_then (guard (valid_key (get v ''programId''))
       ''programId must be a valid Solana public key'') (\<lambda>_.
     and_then (assertObject tok ''token'') (\<lambda>_.
     and_then (assertExactKeys tok [''programId'', ''displayLabel'', ''decimals''] ''token'') (\<lambda>_.
     and_then (assertClassicTokenProgram (get tok ''programId'')) (\<lambda>_.
     and_then (guard (get tok ''displayLabel'' = JStr ''DEVTEST'')
       ''test token display label must be DEVTEST'') (\<lambda>_.
     and_then (guard (get tok ''decimals'' = JNat 6) ''DEVTEST must use six decimals'') (\<lambda>_.
       Inr v))))))))))))))"

text \<open>An accepted configuration names devnet, its genesis and the classic token program, and
  nothing else.\<close>

lemma validatePublicConfig_ok:
  assumes "validatePublicConfig parse_url valid_key v = Inr w"
  shows "w = v \<and> set (keys_of v) = {''schemaVersion'', ''cluster'', ''programId'', ''token''}
    \<and> set (keys_of (get v ''cluster'')) = {''name'', ''rpcUrl'', ''genesisHash''}
    \<and> set (keys_of (get v ''token'')) = {''programId'', ''displayLabel'', ''decimals''}
    \<and> get (get v ''cluster'') ''genesisHash'' = JStr DEVNET_GENESIS_HASH
    \<and> get (get v ''token'') ''programId'' = JStr CLASSIC_TOKEN_PROGRAM_ID
    \<and> get (get v ''token'') ''decimals'' = JNat 6
    \<and> (\<exists>u. parse_url (get (get v ''cluster'') ''rpcUrl'') = Some u
        \<and> protocol u = ''https:'' \<and> hostname u = ''api.devnet.solana.com''
        \<and> username u = [] \<and> password u = [])"
proof -
  have exact: "set (keys_of x) = set expected" if "assertExactKeys x expected l = Inr ()" for x expected l
    using that by (auto simp: assertExactKeys_def result_simps)
  have allowed: "protocol u = ''https:'' \<and> hostname u = ''api.devnet.solana.com''
      \<and> username u = [] \<and> password u = [] \<and> parse_url x = Some u"
    if "assertAllowedRpcUrl parse_url x ''devnet'' = Inr u" for x u
    using that by (auto simp: assertAllowedRpcUrl_def split: option.splits if_splits)
  from assms show ?thesis
    by (auto simp: validatePublicConfig_def and_then_eq_Inr guard_eq_Inr Let_def
        assertDevnetGenesis_def assertClassicTokenProgram_def dest!: exact allowed)
qed

section \<open>Where a signer file may lie\<close>

type_synonym path_parts = "string list"

text \<open>\<open>path.resolve\<close> of an absolute path: empty and \<open>.\<close> components vanish, \<open>..\<close> drops the one
  before.\<close>

definition resolve_part :: "path_parts \<Rightarrow> string \<Rightarrow> path_parts" where
  "resolve_part acc p =
     (if p = [] \<or> p = ''.'' then acc else if p = ''..'' then butlast acc else acc @ [p])"

definition resolve :: "path_parts \<Rightarrow> path_parts" where
  "resolve ps = foldl resolve_part [] ps"

text \<open>\<open>path.relative\<close> of resolved paths: one \<open>..\<close> for every component of the base after the
  common ones, then the rest of the candidate.\<close>

fun path_relative :: "path_parts \<Rightarrow> path_parts \<Rightarrow> path_parts" where
  "path_relative (b # bs) (c # cs) =
     (if b = c then path_relative bs cs else replicate (length (b # bs)) ''..'' @ (c # cs))"
| "path_relative [] cs = cs"
| "path_relative (b # bs) [] = replicate (length (b # bs)) ''..''"

text \<open>The tests \<open>rel === ".."\<close> and \<open>rel.startsWith("../")\<close> ask whether the first component is
  \<open>..\<close>; a relative POSIX path is never absolute.\<close>

definition isOutside :: "path_parts \<Rightarrow> path_parts \<Rightarrow> bool" where
  "isOutside base candidate =
     (case path_relative base candidate of [] \<Rightarrow> False | p # ps \<Rightarrow> p = ''..'')"

record file_system =
  exists_path :: "path_parts \<Rightarrow> bool"
  realpath :: "path_parts \<Rightarrow> path_parts"

function nearestExistingParent :: "file_system \<Rightarrow> path_parts \<Rightarrow> path_parts result" where
  "nearestExistingParent fs path =
     (if exists_path fs path then Inr path
      else if path = [] then throw ''no existing parent for signer path''
      else nearestExistingParent fs (butlast path))"
  by pat_completeness auto
termination by (relation "measure (\<lambda>(fs, path). length path)") auto

declare nearestExistingParent.simps [simp del]

definition assertSignerPathContained ::
    "file_system \<Rightarrow> path_parts \<Rightarrow> path_parts \<Rightarrow> path_parts result" where
  "assertSignerPathContained fs repoRoot candidate =
     (let root = resolve repoRoot; devnet = resolve (root @ [''.devnet'']);
          resolved = resolve candidate in
      if isOutside devnet resolved then throw ''signer path must remain inside .devnet''
      else if exists_path fs devnet then
        and_then (nearestExistingParent fs (butlast resolved)) (\<lambda>existingParent.
        and_then (guard (\<not> isOutside (realpath fs devnet) (realpath fs existingParent))
            ''signer path symlink escapes .devnet'') (\<lambda>_. Inr resolved))
      else Inr resolved)"

lemma resolve_no_dots: "''..'' \<notin> set (resolve ps)"
proof -
  have "''..'' \<notin> set acc \<Longrightarrow> ''..'' \<notin> set (foldl resolve_part acc ps)" for acc
    by (induction ps arbitrary: acc) (auto simp: resolve_part_def dest: in_set_butlastD)
  then show ?thesis by (simp add: resolve_def)
qed

text \<open>The test on relative paths is the prefix order.\<close>

lemma isOutside_iff: "''..'' \<notin> set candidate \<Longrightarrow> isOutside base candidate \<longleftrightarrow> \<not> prefix base candidate"
  by (induction base candidate rule: path_relative.induct) (auto simp: isOutside_def split: list.splits)

lemma nearestExistingParent_ok:
  "nearestExistingParent fs p = Inr q \<Longrightarrow> exists_path fs q \<and> prefix q p
    \<and> (\<forall>r. prefix r p \<and> exists_path fs r \<longrightarrow> prefix r q)"
proof (induction fs p rule: nearestExistingParent.induct)
  case (1 fs p)
  show ?case
  proof (cases "exists_path fs p")
    case True
    with 1 show ?thesis by (simp add: nearestExistingParent.simps [of fs p])
  next
    case False
    with 1 have ne: "p \<noteq> []" and "nearestExistingParent fs (butlast p) = Inr q"
      by (auto simp: nearestExistingParent.simps [of fs p] split: if_splits)
    with 1 False have IH: "exists_path fs q \<and> prefix q (butlast p)
        \<and> (\<forall>r. prefix r (butlast p) \<and> exists_path fs r \<longrightarrow> prefix r q)" by blast
    have "prefix (butlast p) p" by (rule prefixeq_butlast)
    moreover have "prefix r (butlast p)" if "prefix r p" "exists_path fs r" for r
      using that False ne by (metis append_butlast_last_id prefix_snoc)
    ultimately show ?thesis using IH prefix_order.order_trans by blast
  qed
qed

text \<open>An accepted signer path lies inside \<open>.devnet\<close> as written, and the deepest existing
  directory above it lies inside the real \<open>.devnet\<close>: no symbolic link leads out.\<close>

lemma assertSignerPathContained_ok:
  assumes "assertSignerPathContained fs repoRoot candidate = Inr p"
  shows "p = resolve candidate \<and> prefix (resolve (resolve repoRoot @ [''.devnet''])) p
    \<and> (exists_path fs (resolve (resolve repoRoot @ [''.devnet''])) \<longrightarrow>
        (\<exists>q. exists_path fs q \<and> prefix q (butlast p)
          \<and> \<not> isOutside (realpath fs (resolve (resolve repoRoot @ [''.devnet'']))) (realpath fs q)))"
  using assms isOutside_iff [OF resolve_no_dots]
  by (auto simp: assertSignerPathContained_def Let_def and_then_eq_Inr guard_eq_Inr
      dest: nearestExistingParent_ok split: if_splits)

section \<open>Public output\<close>

definition SECRET_KEYS :: "string list" where
  "SECRET_KEYS = [''apikey'', ''authorization'', ''credential'', ''mnemonic'', ''passphrase'',
     ''privatekey'', ''secret'', ''secretkey'', ''seed'', ''seedphrase'']"

definition public_key_name :: "string \<Rightarrow> bool" where
  "public_key_name k \<longleftrightarrow> to_lower k \<notin> set SECRET_KEYS"

fun sanitizePublicOutput :: "js \<Rightarrow> js" where
  "sanitizePublicOutput (JArr vs) = JArr (map sanitizePublicOutput vs)"
| "sanitizePublicOutput (JObj kvs) =
     JObj (map (\<lambda>(k, v). (k, sanitizePublicOutput v)) (filter (\<lambda>(k, v). public_key_name k) kvs))"
| "sanitizePublicOutput v = v"

fun all_names :: "js \<Rightarrow> string list" where
  "all_names (JArr vs) = concat (map all_names vs)"
| "all_names (JObj kvs) = concat (map (\<lambda>(k, v). k # all_names v) kvs)"
| "all_names _ = []"

lemma sanitize_public: "k \<in> set (all_names (sanitizePublicOutput v)) \<Longrightarrow> public_key_name k"
  by (induction v rule: sanitizePublicOutput.induct) fastforce+

lemma sanitize_id: "\<forall>k\<in>set (all_names v). public_key_name k \<Longrightarrow> sanitizePublicOutput v = v"
proof (induction v rule: sanitizePublicOutput.induct)
  case (1 vs)
  then show ?case by (auto intro: map_idI)
next
  case (2 kvs)
  then have "filter (\<lambda>(k, v). public_key_name k) kvs = kvs" by (force simp: filter_id_conv)
  moreover have "map (\<lambda>(k, v). (k, sanitizePublicOutput v)) kvs = kvs"
    using 2 calculation by (intro map_idI) (auto split: prod.splits)
  ultimately show ?case by simp
qed auto

lemma sanitize_get:
  assumes "public_key_name k" and "v = JObj kvs"
  shows "get (sanitizePublicOutput v) k = sanitizePublicOutput (get v k)"
proof -
  have "map_of (map (\<lambda>(k, v). (k, sanitizePublicOutput v)) (filter (\<lambda>(k, v). public_key_name k) kvs)) k
      = map_option sanitizePublicOutput (map_of kvs k)"
    using assms(1) by (induction kvs) auto
  with assms(2) show ?thesis by (auto split: option.splits)
qed

end
