(* ===== verification/Cluster.thy ===== *)
theory Cluster imports Safety begin

text \<open>
  \<open>scripts/devnet/cluster.mjs\<close>: the attestation that an RPC endpoint is devnet, the wait for the
  on-chain clock, and the plan of bounded faucet requests.

  A connection is a record of calls with effects on a state of its own.  The wait for the clock
  is a loop that only time ends, so it is a partial function and its termination is a lemma about
  clocks that advance.
\<close>

section \<open>Attestation\<close>

record 's connection =
  rpcEndpoint :: js
  getGenesisHash :: "(js, 's) effect"
  getVersion :: "(js, 's) effect"
  getEpochInfo :: "(js, 's) effect"
  getSlot :: "(js, 's) effect"
  getTokenProgramAccount :: "(js, 's) effect"
  getBlockTime :: "js \<Rightarrow> (js, 's) effect"

text \<open>The four calls of \<open>Promise.all\<close> start in this order; a rejection of one rejects all, and its
  order among them is not observable in the error cases the code has.  \<open>owner.toBase58()\<close> needs
  an owner.\<close>

definition attestDevnet ::
    "(js \<Rightarrow> url option) \<Rightarrow> (js \<Rightarrow> bool) \<Rightarrow> 's connection \<Rightarrow> js \<Rightarrow> (js, 's) effect" where
  "attestDevnet parse_url valid_key conn publicConfig =
     then_do (lift_result (validatePublicConfig parse_url valid_key publicConfig)) (\<lambda>config.
     let cluster = get config ''cluster''; tok = get config ''token'' in
     then_do (lift_result (assertAllowedRpcUrl parse_url (get cluster ''rpcUrl'') ''devnet'')) (\<lambda>expectedUrl.
     then_do (lift_result (assertAllowedRpcUrl parse_url (rpcEndpoint conn) ''devnet'')) (\<lambda>observedUrl.
     then_do (lift_result (guard (href observedUrl = href expectedUrl)
         (''RPC endpoint mismatch: '' @ href observedUrl @ '' != '' @ href expectedUrl))) (\<lambda>_.
     then_do (getGenesisHash conn) (\<lambda>genesisHash.
     then_do (lift_result (assertDevnetGenesis genesisHash (get cluster ''genesisHash''))) (\<lambda>_.
     then_do (lift_result (assertClassicTokenProgram (get tok ''programId''))) (\<lambda>_.
     then_do (getVersion conn) (\<lambda>version.
     then_do (getEpochInfo conn) (\<lambda>epochInfo.
     then_do (getSlot conn) (\<lambda>slot.
     then_do (getTokenProgramAccount conn) (\<lambda>tokenProgramAccount.
     then_do (lift_result (guard (truthy (get tokenProgramAccount ''executable''))
         ''classic SPL Token Program is not executable'')) (\<lambda>_.
     then_do (getBlockTime conn slot) (\<lambda>blockTime.
     then_do (lift_result (guard (blockTime \<noteq> JNull)
         (''devnet did not return block time for slot '' @ shown slot))) (\<lambda>_.
     then_do (lift_result (if nullish (get tokenProgramAccount ''owner'') then Inl TypeError else Inr ())) (\<lambda>_.
     give (JObj
       [(''rpcUrl'', JStr (origin expectedUrl)), (''genesisHash'', genesisHash),
        (''version'', version), (''epochInfo'', epochInfo), (''slot'', slot),
        (''blockTime'', blockTime),
        (''tokenProgram'', JObj
          [(''id'', get tok ''programId''), (''executable'', get tokenProgramAccount ''executable''),
           (''owner'', get tokenProgramAccount ''owner'')])]))))))))))))))))"

lemma attestDevnet_ok:
  assumes "attestDevnet parse_url valid_key conn config s = (Inr att, s')"
  shows "get att ''genesisHash'' = JStr DEVNET_GENESIS_HASH
    \<and> (\<exists>u v. parse_url (rpcEndpoint conn) = Some u
        \<and> parse_url (get (get config ''cluster'') ''rpcUrl'') = Some v \<and> href u = href v
        \<and> protocol u = ''https:'' \<and> hostname u = ''api.devnet.solana.com'')
    \<and> truthy (get (get att ''tokenProgram'') ''executable'') \<and> get att ''blockTime'' \<noteq> JNull"
proof -
  have allowed: "protocol u = ''https:'' \<and> hostname u = ''api.devnet.solana.com'' \<and> parse_url x = Some u"
    if "assertAllowedRpcUrl parse_url x ''devnet'' = Inr u" for x u
    using that by (auto simp: assertAllowedRpcUrl_def split: option.splits if_splits)
  from assms have cfg: "validatePublicConfig parse_url valid_key config = Inr config"
    by (auto simp: attestDevnet_def then_do_eq_Inr dest: validatePublicConfig_ok)
  note ok = validatePublicConfig_ok [OF cfg]
  from assms cfg obtain u v slot tok s1 where
    "assertAllowedRpcUrl parse_url (get (get config ''cluster'') ''rpcUrl'') ''devnet'' = Inr v"
    "assertAllowedRpcUrl parse_url (rpcEndpoint conn) ''devnet'' = Inr u" "href u = href v"
    "get att ''genesisHash'' = JStr DEVNET_GENESIS_HASH"
    "truthy (get (get att ''tokenProgram'') ''executable'')" "get att ''blockTime'' \<noteq> JNull"
    using ok by (auto simp: attestDevnet_def Let_def then_do_eq_Inr guard_eq_Inr assertDevnetGenesis_def)
  then show ?thesis using allowed by blast
qed

section \<open>Waiting for the on-chain clock\<close>

text \<open>What the \<open>i\<close>-th turn of the loop observes: the slot, its block time (\<open>None\<close> for \<open>null\<close>)
  and the local clock read after them; an RPC failure ends the wait.\<close>

record poll_observation =
  o_slot :: js
  o_blockTime :: "rat option"
  o_now :: rat

record poll_options =
  intervalMs :: rat
  timeoutMs :: rat
  progressIntervalMs :: rat

definition default_poll_options :: poll_options where
  "default_poll_options =
     \<lparr> intervalMs = 3000, timeoutMs = 210000, progressIntervalMs = 12000 \<rparr>"

record poll_result =
  r_slot :: js
  r_blockTime :: rat
  r_polls :: nat

text \<open>\<open>polls\<close> turns are over; the second component collects the calls of \<open>onProgress\<close> and
  \<open>sleep\<close>.\<close>

datatype poll_event = On_Progress nat | Slept rat

partial_function (option) poll_loop ::
    "(nat \<Rightarrow> poll_observation result) \<Rightarrow> rat \<Rightarrow> poll_options \<Rightarrow> rat \<Rightarrow> rat \<Rightarrow> nat \<Rightarrow> poll_event list
     \<Rightarrow> (poll_result result \<times> poll_event list) option" where
  "poll_loop obs target opts started lastProgress polls evs =
     (case obs polls of Inl e \<Rightarrow> Some (Inl e, evs)
      | Inr v \<Rightarrow>
          if (case o_blockTime v of Some t \<Rightarrow> target \<le> t | None \<Rightarrow> False)
          then Some (Inr \<lparr> r_slot = o_slot v, r_blockTime = the (o_blockTime v),
                          r_polls = Suc polls \<rparr>, evs)
          else if timeoutMs opts \<le> o_now v - started
          then Some (throw (''onchain clock polling timed out after '' @ show_nat (Suc polls) @ '' polls''), evs)
          else if progressIntervalMs opts \<le> o_now v - lastProgress
          then poll_loop obs target opts started (o_now v) (Suc polls)
                 (evs @ [On_Progress (Suc polls), Slept (intervalMs opts)])
          else poll_loop obs target opts started lastProgress (Suc polls)
                 (evs @ [Slept (intervalMs opts)]))"

definition pollOnchainTime ::
    "(nat \<Rightarrow> poll_observation result) \<Rightarrow> rat \<Rightarrow> poll_options \<Rightarrow> rat
     \<Rightarrow> (poll_result result \<times> poll_event list) option" where
  "pollOnchainTime obs target opts started =
     poll_loop obs target opts started (started - progressIntervalMs opts) 0 []"

text \<open>What a returned result says, by computation induction on the loop.\<close>

definition reached_at :: "(nat \<Rightarrow> poll_observation result) \<Rightarrow> rat \<Rightarrow> nat \<Rightarrow> bool" where
  "reached_at obs target i \<longleftrightarrow>
     (\<exists>v t. obs i = Inr v \<and> o_blockTime v = Some t \<and> target \<le> t)"

definition poll_sound ::
    "(nat \<Rightarrow> poll_observation result) \<Rightarrow> rat \<Rightarrow> nat \<Rightarrow> poll_result result \<times> poll_event list \<Rightarrow> bool" where
  "poll_sound obs target polls y \<longleftrightarrow>
     (\<forall>r. fst y = Inr r \<longrightarrow>
        target \<le> r_blockTime r \<and> polls < r_polls r \<and> reached_at obs target (r_polls r - 1)
        \<and> (\<forall>i. polls \<le> i \<longrightarrow> i < r_polls r - 1 \<longrightarrow> \<not> reached_at obs target i))"

lemma poll_sound_Suc:
  assumes "poll_sound obs target (Suc polls) y" and "\<not> reached_at obs target polls"
  shows "poll_sound obs target polls y"
  using assms unfolding poll_sound_def by (metis Suc_leI le_neq_implies_less Suc_lessD)

lemma poll_sound_turn:
  assumes later: "\<And>last evs. loop obs target opts started last (Suc polls) evs = Some y \<Longrightarrow>
      poll_sound obs target (Suc polls) y"
    and turn: "(case obs polls of Inl e \<Rightarrow> Some (Inl e, evs)
      | Inr v \<Rightarrow>
          if (case o_blockTime v of Some t \<Rightarrow> target \<le> t | None \<Rightarrow> False)
          then Some (Inr \<lparr> r_slot = o_slot v, r_blockTime = the (o_blockTime v), r_polls = Suc polls \<rparr>, evs)
          else if timeoutMs opts \<le> o_now v - started then Some (Inl timed_out, evs)
          else if progressIntervalMs opts \<le> o_now v - lastProgress
          then loop obs target opts started (o_now v) (Suc polls)
                 (evs @ [On_Progress (Suc polls), Slept (intervalMs opts)])
          else loop obs target opts started lastProgress (Suc polls)
                 (evs @ [Slept (intervalMs opts)])) = Some y"
  shows "poll_sound obs target polls y"
proof (cases "obs polls")
  case (Inl e)
  with turn show ?thesis by (auto simp: poll_sound_def)
next
  case (Inr v)
  show ?thesis
  proof (cases "reached_at obs target polls")
    case True
    with turn Inr show ?thesis by (auto simp: poll_sound_def reached_at_def)
  next
    case False
    with Inr have "\<not> (case o_blockTime v of Some t \<Rightarrow> target \<le> t | None \<Rightarrow> False)"
      by (auto simp: reached_at_def split: option.splits)
    note turn' = turn [unfolded Inr sum.case if_not_P [OF this]]
    show ?thesis
    proof (cases "timeoutMs opts \<le> o_now v - started")
      case True
      with turn' show ?thesis by (auto simp: poll_sound_def)
    next
      case late: False
      obtain last evs' where "loop obs target opts started last (Suc polls) evs' = Some y"
        by (cases "progressIntervalMs opts \<le> o_now v - lastProgress")
          (use turn' late in simp_all)
      from later [OF this] False show ?thesis by (rule poll_sound_Suc)
    qed
  qed
qed

lemma poll_loop_sound:
  assumes "poll_loop obs target opts started lastProgress polls evs = Some y"
  shows "poll_sound obs target polls y"
  by (rule poll_loop.raw_induct [OF _ assms,
        where P = "\<lambda>obs target opts started lastProgress polls evs y. poll_sound obs target polls y"])
    (rule poll_sound_turn)

text \<open>The wait ends when the local clock advances by some fixed step with every turn: by then the
  target is reached or the time is over.\<close>

lemma poll_loop_ends:
  assumes "0 < step"
    and "\<And>i v. obs i = Inr v \<Longrightarrow> started + step * of_nat i \<le> o_now v"
    and "timeoutMs opts \<le> step * of_nat bound"
  shows "poll_loop obs target opts started lastProgress polls evs \<noteq> None"
proof (induction "Suc bound - polls" arbitrary: lastProgress polls evs rule: less_induct)
  case less
  show ?case
  proof (cases "polls \<le> bound")
    case True
    then have "Suc bound - Suc polls < Suc bound - polls" by simp
    note IH = less [OF this]
    show ?thesis
      by (subst poll_loop.simps) (use IH in \<open>auto split: sum.splits option.splits\<close>)
  next
    case False
    have late: "timeoutMs opts \<le> o_now v - started" if "obs polls = Inr v" for v
    proof -
      from False have "step * of_nat bound \<le> step * of_nat polls"
        using assms(1) by (intro mult_left_mono) auto
      with assms(2) [OF that] assms(3) show ?thesis by linarith
    qed
    show ?thesis
      by (subst poll_loop.simps) (use late in \<open>auto split: sum.splits option.splits\<close>)
  qed
qed

section \<open>Faucet\<close>

text \<open>Balances are integers (\<open>BigInt\<close>), amounts in SOL are numbers; \<open>Math.round\<close> rounds half up.\<close>

record faucet_policy =
  maxAttempts :: nat
  maxSolPerAttempt :: rat
  maxTotalSol :: rat

definition default_faucet_policy :: faucet_policy where
  "default_faucet_policy = \<lparr> maxAttempts = 3, maxSolPerAttempt = 2, maxTotalSol = 6 \<rparr>"

definition lamports_of :: "rat \<Rightarrow> int" where
  "lamports_of sol = \<lfloor>sol * 1000000000 + 1 / 2\<rfloor>"

text \<open>The loop, with the amounts requested so far in lamports.\<close>

function faucet_loop :: "int \<Rightarrow> nat \<Rightarrow> int \<Rightarrow> int list \<Rightarrow> int \<times> int list" where
  "faucet_loop maxPerAttempt maxAtt remaining attempts =
     (if 0 < remaining \<and> length attempts < maxAtt then
        let amt = (if maxPerAttempt < remaining then maxPerAttempt else remaining) in
        faucet_loop maxPerAttempt maxAtt (remaining - amt) (attempts @ [amt])
      else (remaining, attempts))"
  by pat_completeness auto
termination
  by (relation "measure (\<lambda>(p, m, r, as). m - length as)") auto

declare faucet_loop.simps [simp del]

definition planFaucetAttempts :: "int \<Rightarrow> int \<Rightarrow> faucet_policy \<Rightarrow> rat list result" where
  "planFaucetAttempts balance required policy =
     (if required \<le> balance then Inr []
      else let maxTotal = lamports_of (maxTotalSol policy) in
        if maxTotal < required - balance
        then throw ''required balance exceeds bounded faucet policy''
        else case faucet_loop (lamports_of (maxSolPerAttempt policy)) (maxAttempts policy)
                    (required - balance) [] of
          (remaining, attempts) \<Rightarrow>
            if 0 < remaining \<or> maxTotal < sum_list attempts
            then throw ''required balance exceeds bounded faucet policy''
            else Inr (map (\<lambda>a. of_int a / 1000000000) attempts))"

lemma faucet_loop_ok:
  assumes "faucet_loop p m remaining as = (r, bs)" and "length as \<le> m"
  shows "remaining + sum_list as = r + sum_list bs \<and> length bs \<le> m
    \<and> (\<forall>b\<in>set bs. b \<in> set as \<or> (b \<le> p \<and> (0 < p \<longrightarrow> 0 < b)))
    \<and> (0 \<le> remaining \<longrightarrow> 0 \<le> r)"
  using assms
proof (induction p m remaining as rule: faucet_loop.induct)
  case (1 p m remaining as)
  show ?case
  proof (cases "0 < remaining \<and> length as < m")
    case True
    let ?amt = "if p < remaining then p else remaining"
    from "1.prems" True have "faucet_loop p m (remaining - ?amt) (as @ [?amt]) = (r, bs)"
      by (simp add: faucet_loop.simps [of p m remaining as] Let_def)
    with "1.IH" [OF True refl] True show ?thesis by auto
  next
    case False
    with "1.prems" show ?thesis by (auto simp: faucet_loop.simps [of p m remaining as])
  qed
qed

lemma planFaucetAttempts_ok:
  assumes "planFaucetAttempts balance required policy = Inr attempts" and "balance < required"
    and "0 < lamports_of (maxSolPerAttempt policy)"
  shows "sum_list attempts * 1000000000 = of_int (required - balance)
    \<and> length attempts \<le> maxAttempts policy
    \<and> (\<forall>a\<in>set attempts. 0 < a \<and> a * 1000000000 \<le> of_int (lamports_of (maxSolPerAttempt policy)))
    \<and> required - balance \<le> lamports_of (maxTotalSol policy)"
proof -
  obtain r bs where run: "faucet_loop (lamports_of (maxSolPerAttempt policy)) (maxAttempts policy)
      (required - balance) [] = (r, bs)" by fastforce
  note loop = faucet_loop_ok [OF run]
  from assms(1,2) run have r: "\<not> 0 < r" and total: "required - balance \<le> lamports_of (maxTotalSol policy)"
    and as: "attempts = map (\<lambda>a. of_int a / 1000000000) bs"
    by (auto simp: planFaucetAttempts_def Let_def split: if_splits)
  from loop r assms(2) have s: "sum_list bs = required - balance" by auto
  have "sum_list attempts * 1000000000 = of_int (sum_list bs)"
    unfolding as by (induction bs) (auto simp: algebra_simps)
  with loop total s as assms(3) show ?thesis by auto
qed

datatype faucet_progress =
    Faucet_Funded | Faucet_Blocked | Faucet_Ready (attemptsRemaining: nat)

text \<open>\<open>attempts\<close> is \<open>None\<close> when it is not an array.\<close>

definition classifyFaucetProgress ::
    "js list option \<Rightarrow> int \<Rightarrow> int \<Rightarrow> faucet_policy \<Rightarrow> faucet_progress result" where
  "classifyFaucetProgress attempts balance required policy =
     (case attempts of None \<Rightarrow> throw ''faucet attempts must be an array''
      | Some as \<Rightarrow>
          and_then (for_each (\<lambda>a. guard (case get a ''requestedSol'' of
                JNum r \<Rightarrow> 0 < r \<and> r \<le> maxSolPerAttempt policy | _ \<Rightarrow> False)
              ''faucet attempt exceeds the per-request policy'') as) (\<lambda>_.
          if maxAttempts policy < length as
              \<or> maxTotalSol policy < sum_list (map (\<lambda>a. num_of (get a ''requestedSol'')) as)
          then throw ''faucet attempt history exceeds bounded policy''
          else if required \<le> balance then Inr Faucet_Funded
          else if maxAttempts policy \<le> length as then Inr Faucet_Blocked
          else Inr (Faucet_Ready (maxAttempts policy - length as))))"

text \<open>Another request is allowed only under the policy, and the count of requests left falls
  with every attempt recorded.\<close>

lemma classifyFaucetProgress_ready:
  assumes "classifyFaucetProgress (Some as) balance required policy = Inr (Faucet_Ready n)"
  shows "0 < n \<and> n + length as = maxAttempts policy \<and> balance < required
    \<and> sum_list (map (\<lambda>a. num_of (get a ''requestedSol'')) as) \<le> maxTotalSol policy"
  using assms by (auto simp: classifyFaucetProgress_def and_then_eq_Inr split: if_splits)

end
