(* ===== verification/Escrow_Program.thy ===== *)
theory Escrow_Program imports Prelude begin

text \<open>
  The on-chain program, \<open>programs/oss-bounty-escrow/src/lib.rs\<close> and \<open>rules.rs\<close>: the escrow
  account, the five instructions with the account constraints of their \<open>derive(Accounts)\<close>
  structs, and the transitions of the escrow's status.

  Timestamps are \<open>i64\<close> and amounts \<open>u64\<close>, kept as 64-bit words and compared as the code
  compares them.  The SPL token program and the derivation of program addresses are not in the
  repository: they are the fields of \<open>program_env\<close>.  A transaction that fails changes nothing.
  Rent and the payment of fees are not modelled.
\<close>

section \<open>Rules\<close>

type_synonym key = bytes
type_synonym i64 = "64 word"
type_synonym u64 = "64 word"

datatype EscrowStatus = Initialized | Funded | Released | Refunded | Cancelled

datatype EscrowError =
    InvalidStatus | InvalidAmount | InvalidExpiry | InvalidMaintainer | InvalidContributor
  | InvalidContributorTokenOwner | UnauthorizedSponsor | EscrowExpired | EscrowNotExpired
  | InvalidVault | InvalidExternalReference
  | Constraint string

text \<open>\<open>error_code\<close> numbers the variants from 6000 in their order; errors of the framework and of
  other programs have numbers of their own.\<close>

fun error_number :: "EscrowError \<Rightarrow> nat option" where
  "error_number InvalidStatus = Some 6000"
| "error_number InvalidAmount = Some 6001"
| "error_number InvalidExpiry = Some 6002"
| "error_number InvalidMaintainer = Some 6003"
| "error_number InvalidContributor = Some 6004"
| "error_number InvalidContributorTokenOwner = Some 6005"
| "error_number UnauthorizedSponsor = Some 6006"
| "error_number EscrowExpired = Some 6007"
| "error_number EscrowNotExpired = Some 6008"
| "error_number InvalidVault = Some 6009"
| "error_number InvalidExternalReference = Some 6010"
| "error_number (Constraint c) = None"

definition default_key :: key where
  "default_key = replicate 32 0"

definition require :: "bool \<Rightarrow> EscrowError \<Rightarrow> EscrowError + unit" where
  "require b e = (if b then Inr () else Inl e)"

lemma require_eq [simp]: "require b e = Inr u \<longleftrightarrow> b" "require b e = Inl e' \<longleftrightarrow> \<not> b \<and> e' = e"
  by (auto simp: require_def)

definition validate_initialization ::
    "bytes \<Rightarrow> u64 \<Rightarrow> i64 \<Rightarrow> i64 \<Rightarrow> key \<Rightarrow> key \<Rightarrow> EscrowError + unit" where
  "validate_initialization external_ref_hash amount now expiry maintainer contributor =
     (if external_ref_hash = replicate 32 0 then Inl InvalidExternalReference
      else if amount = 0 then Inl InvalidAmount
      else if sint expiry \<le> sint now then Inl InvalidExpiry
      else if maintainer = default_key then Inl InvalidMaintainer
      else if contributor = default_key then Inl InvalidContributor
      else Inr ())"

definition validate_sponsor :: "key \<Rightarrow> key \<Rightarrow> EscrowError + unit" where
  "validate_sponsor expected signer =
     (if signer \<noteq> expected then Inl UnauthorizedSponsor else Inr ())"

definition can_fund :: "EscrowStatus \<Rightarrow> i64 \<Rightarrow> i64 \<Rightarrow> EscrowError + EscrowStatus" where
  "can_fund status now expiry =
     (if status \<noteq> Initialized then Inl InvalidStatus
      else if sint expiry \<le> sint now then Inl EscrowExpired
      else Inr Funded)"

definition can_release :: "EscrowStatus \<Rightarrow> i64 \<Rightarrow> i64 \<Rightarrow> EscrowError + EscrowStatus" where
  "can_release status now expiry =
     (if status \<noteq> Funded then Inl InvalidStatus
      else if sint expiry \<le> sint now then Inl EscrowExpired
      else Inr Released)"

definition can_refund :: "EscrowStatus \<Rightarrow> i64 \<Rightarrow> i64 \<Rightarrow> EscrowError + EscrowStatus" where
  "can_refund status now expiry =
     (if status \<noteq> Funded then Inl InvalidStatus
      else if sint now < sint expiry then Inl EscrowNotExpired
      else Inr Refunded)"

definition can_cancel :: "EscrowStatus \<Rightarrow> EscrowError + EscrowStatus" where
  "can_cancel status = (if status \<noteq> Initialized then Inl InvalidStatus else Inr Cancelled)"

section \<open>Accounts\<close>

record Escrow =
  sponsor :: key
  maintainer :: key
  contributor :: key
  mint :: key
  vault :: key
  external_ref_hash :: bytes
  amount :: u64
  created_at :: i64
  expiry :: i64
  status :: EscrowStatus
  bump :: byte
  vault_bump :: byte

record token_account =
  ta_owner :: key
  ta_mint :: key
  ta_amount :: u64

type_synonym tokens = "key \<rightharpoonup> token_account"

datatype escrow_event =
    EscrowInitialized key Escrow
  | EscrowCancelled key key
  | EscrowFunded key key u64
  | EscrowReleased key key key u64
  | EscrowRefunded key key u64

record chain =
  escrows :: "key \<rightharpoonup> Escrow"
  token_accounts :: tokens
  clock :: i64
  events :: "escrow_event list"

text \<open>What the program uses from outside: the program addresses of an escrow and of its vault,
  the decimals of a mint account, and \<open>transfer_checked from mint to authority amount decimals\<close>
  of the token program, which returns the changed token accounts or fails.\<close>

record program_env =
  escrow_pda :: "key \<Rightarrow> bytes \<Rightarrow> key \<times> byte"
  vault_pda :: "key \<Rightarrow> key \<times> byte"
  mint_decimals :: "key \<Rightarrow> byte option"
  transfer_checked :: "key \<Rightarrow> key \<Rightarrow> key \<Rightarrow> key \<Rightarrow> u64 \<Rightarrow> byte \<Rightarrow> tokens \<Rightarrow> tokens option"

definition token_cpi ::
    "program_env \<Rightarrow> key \<Rightarrow> key \<Rightarrow> key \<Rightarrow> key \<Rightarrow> u64 \<Rightarrow> tokens \<Rightarrow> EscrowError + tokens" where
  "token_cpi env from mnt to auth amt t =
     (case mint_decimals env mnt of None \<Rightarrow> Inl (Constraint ''mint'')
      | Some decimals \<Rightarrow>
          (case transfer_checked env from mnt to auth amt decimals t of
             None \<Rightarrow> Inl (Constraint ''token program'') | Some t' \<Rightarrow> Inr t'))"

text \<open>\<open>Account<'info, TokenAccount>\<close> with \<open>token::mint\<close> and \<open>token::authority\<close>.\<close>

definition token_account_is :: "tokens \<Rightarrow> key \<Rightarrow> key \<Rightarrow> key \<Rightarrow> bool" where
  "token_account_is t k mnt auth =
     (case t k of None \<Rightarrow> False | Some a \<Rightarrow> ta_mint a = mnt \<and> ta_owner a = auth)"

section \<open>Instructions\<close>

text \<open>\<open>signers\<close> are the keys that signed the transaction; the other arguments of an instruction
  are the accounts in the order of its struct, then its data.\<close>

datatype escrow_instruction =
    Initialize_Escrow (ix_sponsor: key) (ix_mint: key) (ix_escrow: key) (ix_vault: key)
      bytes u64 i64 key key
  | Cancel (ix_sponsor: key) (ix_escrow: key)
  | Fund_Escrow (ix_sponsor: key) (ix_mint: key) key (ix_escrow: key) (ix_vault: key)
  | Release key (ix_mint: key) (ix_escrow: key) (ix_vault: key) key
  | Refund (ix_sponsor: key) (ix_mint: key) (ix_escrow: key) (ix_vault: key) key

definition initialize_escrow ::
    "program_env \<Rightarrow> key list \<Rightarrow> key \<Rightarrow> key \<Rightarrow> key \<Rightarrow> key \<Rightarrow> bytes \<Rightarrow> u64 \<Rightarrow> i64 \<Rightarrow> key \<Rightarrow> key
     \<Rightarrow> chain \<Rightarrow> EscrowError + chain" where
  "initialize_escrow env signers spn mnt esc vlt ref amt expy mtn ctr ch =
     and_then (require (spn \<in> set signers) (Constraint ''signer'')) (\<lambda>_.
     and_then (require (mint_decimals env mnt \<noteq> None) (Constraint ''mint'')) (\<lambda>_.
     and_then (require (esc = fst (escrow_pda env spn ref)) (Constraint ''seeds'')) (\<lambda>_.
     and_then (require (escrows ch esc = None \<and> token_accounts ch esc = None) (Constraint ''init'')) (\<lambda>_.
     and_then (require (vlt = fst (vault_pda env esc)) (Constraint ''seeds'')) (\<lambda>_.
     and_then (require (escrows ch vlt = None \<and> token_accounts ch vlt = None \<and> vlt \<noteq> esc)
         (Constraint ''init'')) (\<lambda>_.
     let now = clock ch in
     and_then (validate_initialization ref amt now expy mtn ctr) (\<lambda>_.
     let e = \<lparr> sponsor = spn, maintainer = mtn, contributor = ctr, mint = mnt, vault = vlt,
               external_ref_hash = ref, amount = amt, created_at = now, expiry = expy,
               status = Initialized, bump = snd (escrow_pda env spn ref),
               vault_bump = snd (vault_pda env esc) \<rparr> in
     Inr (ch\<lparr> escrows := (escrows ch)(esc \<mapsto> e),
              token_accounts := (token_accounts ch)
                (vlt \<mapsto> \<lparr> ta_owner = esc, ta_mint = mnt, ta_amount = 0 \<rparr>),
              events := events ch @ [EscrowInitialized esc e] \<rparr>))))))))"

text \<open>An escrow account of the program that is initialised.\<close>

definition escrow_account :: "chain \<Rightarrow> key \<Rightarrow> EscrowError + Escrow" where
  "escrow_account ch k =
     (case escrows ch k of None \<Rightarrow> Inl (Constraint ''escrow account'') | Some e \<Rightarrow> Inr e)"

definition cancel :: "key list \<Rightarrow> key \<Rightarrow> key \<Rightarrow> chain \<Rightarrow> EscrowError + chain" where
  "cancel signers spn esc ch =
     and_then (require (spn \<in> set signers) (Constraint ''signer'')) (\<lambda>_.
     and_then (escrow_account ch esc) (\<lambda>e.
     and_then (require (sponsor e = spn) (Constraint ''has_one'')) (\<lambda>_.
     and_then (can_cancel (status e)) (\<lambda>next_status.
     Inr (ch\<lparr> escrows := (escrows ch)(esc \<mapsto> e\<lparr> status := next_status \<rparr>),
              events := events ch @ [EscrowCancelled esc (sponsor e)] \<rparr>)))))"

definition fund_escrow ::
    "program_env \<Rightarrow> key list \<Rightarrow> key \<Rightarrow> key \<Rightarrow> key \<Rightarrow> key \<Rightarrow> key \<Rightarrow> chain \<Rightarrow> EscrowError + chain" where
  "fund_escrow env signers spn mnt spn_token esc vlt ch =
     and_then (require (spn \<in> set signers) (Constraint ''signer'')) (\<lambda>_.
     and_then (require (mint_decimals env mnt \<noteq> None) (Constraint ''mint'')) (\<lambda>_.
     and_then (escrow_account ch esc) (\<lambda>e.
     and_then (require (token_account_is (token_accounts ch) spn_token mnt spn) (Constraint ''token'')) (\<lambda>_.
     and_then (require (sponsor e = spn) (Constraint ''has_one'')) (\<lambda>_.
     and_then (require (mint e = mnt) (Constraint ''has_one'')) (\<lambda>_.
     and_then (require (vault e = vlt) InvalidVault) (\<lambda>_.
     and_then (require (token_account_is (token_accounts ch) vlt mnt esc) (Constraint ''token'')) (\<lambda>_.
     and_then (can_fund (status e) (clock ch) (expiry e)) (\<lambda>next_status.
     and_then (token_cpi env spn_token mnt vlt spn (amount e) (token_accounts ch)) (\<lambda>t.
     Inr (ch\<lparr> token_accounts := t,
              escrows := (escrows ch)(esc \<mapsto> e\<lparr> status := next_status \<rparr>),
              events := events ch @ [EscrowFunded esc (sponsor e) (amount e)] \<rparr>)))))))))))"

definition release ::
    "program_env \<Rightarrow> key list \<Rightarrow> key \<Rightarrow> key \<Rightarrow> key \<Rightarrow> key \<Rightarrow> key \<Rightarrow> chain \<Rightarrow> EscrowError + chain" where
  "release env signers mtn mnt esc vlt ctr_token ch =
     and_then (require (mtn \<in> set signers) (Constraint ''signer'')) (\<lambda>_.
     and_then (require (mint_decimals env mnt \<noteq> None) (Constraint ''mint'')) (\<lambda>_.
     and_then (escrow_account ch esc) (\<lambda>e.
     and_then (require (maintainer e = mtn) (Constraint ''has_one'')) (\<lambda>_.
     and_then (require (mint e = mnt) (Constraint ''has_one'')) (\<lambda>_.
     and_then (require (vault e = vlt) InvalidVault) (\<lambda>_.
     and_then (require (token_account_is (token_accounts ch) vlt mnt esc) (Constraint ''token'')) (\<lambda>_.
     case token_accounts ch ctr_token of None \<Rightarrow> Inl (Constraint ''token'') | Some a \<Rightarrow>
     and_then (require (ta_mint a = mnt) (Constraint ''token'')) (\<lambda>_.
     and_then (require (ta_owner a = contributor e) InvalidContributorTokenOwner) (\<lambda>_.
     and_then (can_release (status e) (clock ch) (expiry e)) (\<lambda>next_status.
     and_then (token_cpi env vlt mnt ctr_token esc (amount e) (token_accounts ch)) (\<lambda>t.
     Inr (ch\<lparr> token_accounts := t,
              escrows := (escrows ch)(esc \<mapsto> e\<lparr> status := next_status \<rparr>),
              events := events ch
                @ [EscrowReleased esc (maintainer e) (contributor e) (amount e)] \<rparr>))))))))))))"

definition refund ::
    "program_env \<Rightarrow> key list \<Rightarrow> key \<Rightarrow> key \<Rightarrow> key \<Rightarrow> key \<Rightarrow> key \<Rightarrow> chain \<Rightarrow> EscrowError + chain" where
  "refund env signers spn mnt esc vlt spn_token ch =
     and_then (require (spn \<in> set signers) (Constraint ''signer'')) (\<lambda>_.
     and_then (require (mint_decimals env mnt \<noteq> None) (Constraint ''mint'')) (\<lambda>_.
     and_then (escrow_account ch esc) (\<lambda>e.
     and_then (require (mint e = mnt) (Constraint ''has_one'')) (\<lambda>_.
     and_then (require (vault e = vlt) InvalidVault) (\<lambda>_.
     and_then (require (token_account_is (token_accounts ch) vlt mnt esc) (Constraint ''token'')) (\<lambda>_.
     and_then (require (token_account_is (token_accounts ch) spn_token mnt spn) (Constraint ''token'')) (\<lambda>_.
     and_then (validate_sponsor (sponsor e) spn) (\<lambda>_.
     and_then (can_refund (status e) (clock ch) (expiry e)) (\<lambda>next_status.
     and_then (token_cpi env vlt mnt spn_token esc (amount e) (token_accounts ch)) (\<lambda>t.
     Inr (ch\<lparr> token_accounts := t,
              escrows := (escrows ch)(esc \<mapsto> e\<lparr> status := next_status \<rparr>),
              events := events ch @ [EscrowRefunded esc (sponsor e) (amount e)] \<rparr>)))))))))))"

fun process :: "program_env \<Rightarrow> key list \<Rightarrow> escrow_instruction \<Rightarrow> chain \<Rightarrow> EscrowError + chain" where
  "process env signers (Initialize_Escrow spn mnt esc vlt ref amt expy mtn ctr) ch =
     initialize_escrow env signers spn mnt esc vlt ref amt expy mtn ctr ch"
| "process env signers (Cancel spn esc) ch = cancel signers spn esc ch"
| "process env signers (Fund_Escrow spn mnt spn_token esc vlt) ch =
     fund_escrow env signers spn mnt spn_token esc vlt ch"
| "process env signers (Release mtn mnt esc vlt ctr_token) ch =
     release env signers mtn mnt esc vlt ctr_token ch"
| "process env signers (Refund spn mnt esc vlt spn_token) ch =
     refund env signers spn mnt esc vlt spn_token ch"

section \<open>What a successful instruction did\<close>

lemmas instruction_defs =
  initialize_escrow_def cancel_def fund_escrow_def release_def refund_def

text \<open>The five ways an instruction succeeds, each with what its checks have established.\<close>

lemma process_cases [case_names init cancelled funded released refunded]:
  assumes "process env signers ix ch = Inr ch'"
  obtains (init) esc e where "escrows ch esc = None" "token_accounts ch (vault e) = None"
      "escrows ch (vault e) = None" "vault e \<noteq> esc" "esc = fst (escrow_pda env (sponsor e) (external_ref_hash e))"
      "vault e = fst (vault_pda env esc)" "sponsor e \<in> set signers" "status e = Initialized"
      "amount e \<noteq> 0" "sint (clock ch) < sint (expiry e)"
      "ch' = ch\<lparr> escrows := (escrows ch)(esc \<mapsto> e),
        token_accounts := (token_accounts ch)
          (vault e \<mapsto> \<lparr> ta_owner = esc, ta_mint = mint e, ta_amount = 0 \<rparr>),
        events := events ch @ [EscrowInitialized esc e] \<rparr>"
    | (cancelled) esc e where "escrows ch esc = Some e" "status e = Initialized"
      "sponsor e \<in> set signers"
      "ch' = ch\<lparr> escrows := (escrows ch)(esc \<mapsto> e\<lparr> status := Cancelled \<rparr>),
        events := events ch @ [EscrowCancelled esc (sponsor e)] \<rparr>"
    | (funded) esc e src t where "escrows ch esc = Some e" "status e = Initialized"
      "sponsor e \<in> set signers" "sint (clock ch) < sint (expiry e)"
      "token_account_is (token_accounts ch) src (mint e) (sponsor e)"
      "token_account_is (token_accounts ch) (vault e) (mint e) esc"
      "token_cpi env src (mint e) (vault e) (sponsor e) (amount e) (token_accounts ch) = Inr t"
      "ch' = ch\<lparr> token_accounts := t, escrows := (escrows ch)(esc \<mapsto> e\<lparr> status := Funded \<rparr>),
        events := events ch @ [EscrowFunded esc (sponsor e) (amount e)] \<rparr>"
    | (released) esc e to t where "escrows ch esc = Some e" "status e = Funded"
      "maintainer e \<in> set signers" "sint (clock ch) < sint (expiry e)"
      "token_account_is (token_accounts ch) to (mint e) (contributor e)"
      "token_account_is (token_accounts ch) (vault e) (mint e) esc"
      "token_cpi env (vault e) (mint e) to esc (amount e) (token_accounts ch) = Inr t"
      "ch' = ch\<lparr> token_accounts := t, escrows := (escrows ch)(esc \<mapsto> e\<lparr> status := Released \<rparr>),
        events := events ch @ [EscrowReleased esc (maintainer e) (contributor e) (amount e)] \<rparr>"
    | (refunded) esc e to t where "escrows ch esc = Some e" "status e = Funded"
      "sponsor e \<in> set signers" "sint (expiry e) \<le> sint (clock ch)"
      "token_account_is (token_accounts ch) to (mint e) (sponsor e)"
      "token_account_is (token_accounts ch) (vault e) (mint e) esc"
      "token_cpi env (vault e) (mint e) to esc (amount e) (token_accounts ch) = Inr t"
      "ch' = ch\<lparr> token_accounts := t, escrows := (escrows ch)(esc \<mapsto> e\<lparr> status := Refunded \<rparr>),
        events := events ch @ [EscrowRefunded esc (sponsor e) (amount e)] \<rparr>"
proof (cases ix)
  case (Initialize_Escrow spn mnt esc vlt ref amt expy mtn ctr)
  let ?e = "\<lparr> sponsor = spn, maintainer = mtn, contributor = ctr, mint = mnt, vault = vlt,
      external_ref_hash = ref, amount = amt, created_at = clock ch, expiry = expy,
      status = Initialized, bump = snd (escrow_pda env spn ref),
      vault_bump = snd (vault_pda env esc) \<rparr>"
  from assms Initialize_Escrow show thesis
    by (intro init [of esc ?e])
      (auto simp: initialize_escrow_def and_then_eq_Inr validate_initialization_def Let_def
        split: if_splits)
next
  case (Cancel spn esc)
  with assms cancelled show thesis
    by (auto simp: cancel_def and_then_eq_Inr escrow_account_def can_cancel_def
        split: if_splits option.splits)
next
  case (Fund_Escrow spn mnt spn_token esc vlt)
  with assms funded show thesis
    by (auto simp: fund_escrow_def and_then_eq_Inr escrow_account_def can_fund_def
        split: if_splits option.splits)
next
  case (Release mtn mnt esc vlt ctr_token)
  with assms obtain e a t where e: "escrows ch esc = Some e" "status e = Funded"
      "maintainer e = mtn" "mtn \<in> set signers" "sint (clock ch) < sint (expiry e)" "mint e = mnt" "vault e = vlt"
    and a: "token_accounts ch ctr_token = Some a" "ta_mint a = mnt" "ta_owner a = contributor e"
    and v: "token_account_is (token_accounts ch) vlt mnt esc"
    and t: "token_cpi env vlt mnt ctr_token esc (amount e) (token_accounts ch) = Inr t"
    and ch': "ch' = ch\<lparr> token_accounts := t,
        escrows := (escrows ch)(esc \<mapsto> e\<lparr> status := Released \<rparr>),
        events := events ch @ [EscrowReleased esc (maintainer e) (contributor e) (amount e)] \<rparr>"
    by (auto simp: release_def and_then_eq_Inr escrow_account_def can_release_def
        split: if_splits option.splits)
  show thesis
    by (rule released [of esc e ctr_token t]) (use e a v t ch' in \<open>simp_all add: token_account_is_def\<close>)
next
  case (Refund spn mnt esc vlt spn_token)
  with assms refunded show thesis
    by (auto simp: refund_def and_then_eq_Inr escrow_account_def can_refund_def validate_sponsor_def
        split: if_splits option.splits)
qed

text \<open>What the program relies on in the token program: a transfer that succeeds debits and
  credits exactly the amount, between accounts of the mint, and never overflows.\<close>

definition transfer_law :: "program_env \<Rightarrow> bool" where
  "transfer_law env \<longleftrightarrow>
     (\<forall>from mnt to auth amt d t t'. transfer_checked env from mnt to auth amt d t = Some t' \<longrightarrow>
        (\<exists>a b. t from = Some a \<and> t to = Some b \<and> ta_mint a = mnt \<and> ta_mint b = mnt
          \<and> amt \<le> ta_amount a
          \<and> (if from = to then t' = t
             else unat (ta_amount b) + unat amt < 2 ^ 64
               \<and> t' = t(from \<mapsto> a\<lparr> ta_amount := ta_amount a - amt \<rparr>,
                        to \<mapsto> b\<lparr> ta_amount := ta_amount b + amt \<rparr>))))"

text \<open>The amount in a token account.\<close>

definition balance :: "tokens \<Rightarrow> key \<Rightarrow> nat" where
  "balance t k = (case t k of None \<Rightarrow> 0 | Some a \<Rightarrow> unat (ta_amount a))"

lemma token_cpi_effect:
  assumes "transfer_law env" and "token_cpi env from mnt to auth amt t = Inr t'"
  shows "balance t' k = balance t k
      + (if k = to \<and> from \<noteq> to then unat amt else 0) - (if k = from \<and> from \<noteq> to then unat amt else 0)"
    and "unat amt \<le> balance t from"
    and "map_option (\<lambda>a. (ta_owner a, ta_mint a)) (t' k) = map_option (\<lambda>a. (ta_owner a, ta_mint a)) (t k)"
proof -
  from assms obtain d where "transfer_checked env from mnt to auth amt d t = Some t'"
    by (auto simp: token_cpi_def split: option.splits)
  with assms(1) obtain a b where ab: "t from = Some a" "t to = Some b" and le: "amt \<le> ta_amount a"
    and t': "if from = to then t' = t
       else unat (ta_amount b) + unat amt < 2 ^ 64
         \<and> t' = t(from \<mapsto> a\<lparr> ta_amount := ta_amount a - amt \<rparr>,
                  to \<mapsto> b\<lparr> ta_amount := ta_amount b + amt \<rparr>)"
    unfolding transfer_law_def by blast
  from le have sub: "unat (ta_amount a - amt) = unat (ta_amount a) - unat amt"
    by (simp add: unat_sub)
  have add: "unat (ta_amount b + amt) = unat (ta_amount b) + unat amt"
    if "unat (ta_amount b) + unat amt < 2 ^ 64" using that by (simp add: unat_word_ariths)
  show "balance t' k = balance t k
      + (if k = to \<and> from \<noteq> to then unat amt else 0) - (if k = from \<and> from \<noteq> to then unat amt else 0)"
    using ab t' sub add by (auto simp: balance_def split: if_splits)
  show "unat amt \<le> balance t from" using ab le by (simp add: balance_def word_le_nat_alt)
  show "map_option (\<lambda>a. (ta_owner a, ta_mint a)) (t' k) = map_option (\<lambda>a. (ta_owner a, ta_mint a)) (t k)"
    using ab t' by (auto split: if_splits)
qed

section \<open>The chain over time\<close>

text \<open>A program address has no private key, so no escrow is among the signers.
  Other transactions change token accounts as the token program allows: an account whose owner
  is an escrow can be debited by this program only, which signs for its own addresses.\<close>

definition foreign_tokens :: "chain \<Rightarrow> tokens \<Rightarrow> bool" where
  "foreign_tokens ch t \<longleftrightarrow>
     (\<forall>k a. token_accounts ch k = Some a \<longrightarrow> escrows ch (ta_owner a) \<noteq> None \<longrightarrow>
        (\<exists>b. t k = Some b \<and> ta_owner b = ta_owner a \<and> ta_mint b = ta_mint a
          \<and> unat (ta_amount a) \<le> unat (ta_amount b)))"

inductive chain_step :: "program_env \<Rightarrow> chain \<Rightarrow> chain \<Rightarrow> bool" for env where
  instruction: "process env signers ix ch = Inr ch' \<Longrightarrow> \<forall>k\<in>set signers. escrows ch k = None \<Longrightarrow>
    chain_step env ch ch'"
| time: "sint (clock ch) \<le> sint now \<Longrightarrow> chain_step env ch (ch\<lparr> clock := now \<rparr>)"
| others: "foreign_tokens ch t \<Longrightarrow> chain_step env ch (ch\<lparr> token_accounts := t \<rparr>)"

inductive_cases chain_stepE: "chain_step env ch ch'"

abbreviation chain_steps :: "program_env \<Rightarrow> chain \<Rightarrow> chain \<Rightarrow> bool" where
  "chain_steps env \<equiv> (chain_step env)\<^sup>*\<^sup>*"

definition no_escrows :: "chain \<Rightarrow> bool" where
  "no_escrows ch \<longleftrightarrow> (\<forall>k. escrows ch k = None) \<and> events ch = []"

subsection \<open>The life of an escrow\<close>

fun may_become :: "EscrowStatus \<Rightarrow> EscrowStatus \<Rightarrow> bool" where
  "may_become Initialized s = True"
| "may_become Funded s = (s \<in> {Funded, Released, Refunded})"
| "may_become Released s = (s = Released)"
| "may_become Refunded s = (s = Refunded)"
| "may_become Cancelled s = (s = Cancelled)"

lemma may_become_refl [simp]: "may_become s s"
  by (cases s) auto

text \<open>The life of an escrow is an order on its status, so the library's facts on orders apply.\<close>

instantiation EscrowStatus :: order
begin

definition less_eq_EscrowStatus :: "EscrowStatus \<Rightarrow> EscrowStatus \<Rightarrow> bool" where
  "less_eq_EscrowStatus s t = may_become s t"

definition less_EscrowStatus :: "EscrowStatus \<Rightarrow> EscrowStatus \<Rightarrow> bool" where
  "less_EscrowStatus s t = (may_become s t \<and> s \<noteq> t)"

instance
proof
  fix s t u :: EscrowStatus
  show "s < t \<longleftrightarrow> s \<le> t \<and> \<not> t \<le> s"
    by (cases s; cases t) (auto simp: less_eq_EscrowStatus_def less_EscrowStatus_def)
  show "s \<le> s" by (cases s) (auto simp: less_eq_EscrowStatus_def)
  show "s \<le> t \<Longrightarrow> t \<le> u \<Longrightarrow> s \<le> u"
    by (cases s; cases t) (auto simp: less_eq_EscrowStatus_def)
  show "s \<le> t \<Longrightarrow> t \<le> s \<Longrightarrow> s = t"
    by (cases s; cases t) (auto simp: less_eq_EscrowStatus_def)
qed

end

text \<open>Everything but the status is fixed when the escrow is created.\<close>

definition same_terms :: "Escrow \<Rightarrow> Escrow \<Rightarrow> bool" where
  "same_terms e e' \<longleftrightarrow> e' = e\<lparr> status := status e' \<rparr>"

lemma same_terms_trans: "same_terms e f \<Longrightarrow> same_terms f g \<Longrightarrow> same_terms e g"
  by (metis same_terms_def Escrow.update_convs(10) Escrow.surjective Escrow.select_convs(10))

lemma same_terms_refl [simp]: "same_terms e e" "same_terms e (e\<lparr> status := s \<rparr>)"
  by (simp_all add: same_terms_def)

lemma chain_step_escrow:
  assumes "chain_step env ch ch'" and "escrows ch k = Some e"
  shows "\<exists>e'. escrows ch' k = Some e' \<and> same_terms e e' \<and> status e \<le> status e'"
  using assms
proof (cases rule: chain_step.cases)
  case (instruction signers ix)
  from instruction(1) assms(2) show ?thesis
    by (cases rule: process_cases) (auto simp: less_eq_EscrowStatus_def)
qed (use assms(2) in auto)

lemma chain_steps_escrow:
  assumes "chain_steps env ch ch'" and "escrows ch k = Some e"
  shows "\<exists>e'. escrows ch' k = Some e' \<and> same_terms e e' \<and> status e \<le> status e'"
  using assms
proof (induction rule: rtranclp_induct)
  case (step y z)
  then show ?case using chain_step_escrow same_terms_trans order_trans by meson
qed auto

subsection \<open>Payouts\<close>

fun pays_out :: "key \<Rightarrow> escrow_event \<Rightarrow> bool" where
  "pays_out k (EscrowReleased k' m c a) = (k' = k)"
| "pays_out k (EscrowRefunded k' s a) = (k' = k)"
| "pays_out k _ = False"

definition payouts :: "key \<Rightarrow> chain \<Rightarrow> nat" where
  "payouts k ch = length (filter (pays_out k) (events ch))"

definition is_paid :: "EscrowStatus \<Rightarrow> bool" where
  "is_paid s \<longleftrightarrow> s = Released \<or> s = Refunded"

definition payout_inv :: "chain \<Rightarrow> bool" where
  "payout_inv ch \<longleftrightarrow>
     (\<forall>k. payouts k ch = (case escrows ch k of None \<Rightarrow> 0
        | Some e \<Rightarrow> if is_paid (status e) then 1 else 0))"

lemma payout_inv_step:
  assumes "chain_step env ch ch'" and "payout_inv ch"
  shows "payout_inv ch'"
  using assms(1)
proof (cases rule: chain_step.cases)
  case (instruction signers ix)
  from instruction(1) assms(2) show ?thesis
    by (cases rule: process_cases) (auto simp: payout_inv_def payouts_def is_paid_def split: option.splits)
qed (use assms(2) in \<open>auto simp: payout_inv_def payouts_def\<close>)

subsection \<open>Solvency\<close>

text \<open>The vault of every escrow exists, belongs to the escrow and, while the escrow is funded,
  covers its amount.\<close>

definition solvent :: "chain \<Rightarrow> bool" where
  "solvent ch \<longleftrightarrow>
     (\<forall>k e. escrows ch k = Some e \<longrightarrow> amount e \<noteq> 0 \<and>
        (\<exists>a. token_accounts ch (vault e) = Some a \<and> ta_owner a = k \<and> ta_mint a = mint e
          \<and> (status e = Funded \<longrightarrow> unat (amount e) \<le> unat (ta_amount a))))"

lemma solventI:
  assumes "\<And>k e. escrows ch k = Some e \<Longrightarrow> amount e \<noteq> 0
    \<and> map_option (\<lambda>a. (ta_owner a, ta_mint a)) (token_accounts ch (vault e)) = Some (k, mint e)
    \<and> (status e = Funded \<longrightarrow> unat (amount e) \<le> balance (token_accounts ch) (vault e))"
  shows "solvent ch"
  unfolding solvent_def
proof (intro allI impI)
  fix k e assume "escrows ch k = Some e"
  from assms [OF this] show "amount e \<noteq> 0 \<and>
        (\<exists>a. token_accounts ch (vault e) = Some a \<and> ta_owner a = k \<and> ta_mint a = mint e
          \<and> (status e = Funded \<longrightarrow> unat (amount e) \<le> unat (ta_amount a)))"
    by (cases "token_accounts ch (vault e)") (simp_all add: balance_def)
qed

lemma solventD:
  assumes "solvent ch" and "escrows ch k = Some e"
  shows "amount e \<noteq> 0"
    and "map_option (\<lambda>a. (ta_owner a, ta_mint a)) (token_accounts ch (vault e)) = Some (k, mint e)"
    and "status e = Funded \<Longrightarrow> unat (amount e) \<le> balance (token_accounts ch) (vault e)"
proof -
  from assms obtain a where "amount e \<noteq> 0" "token_accounts ch (vault e) = Some a" "ta_owner a = k"
    "ta_mint a = mint e" "status e = Funded \<longrightarrow> unat (amount e) \<le> unat (ta_amount a)"
    unfolding solvent_def by blast
  then show "amount e \<noteq> 0"
    "map_option (\<lambda>a. (ta_owner a, ta_mint a)) (token_accounts ch (vault e)) = Some (k, mint e)"
    "status e = Funded \<Longrightarrow> unat (amount e) \<le> balance (token_accounts ch) (vault e)"
    by (simp_all add: balance_def)
qed

text \<open>No two escrows share a vault, since a vault's owner is its escrow.\<close>

lemma solvent_vaults:
  assumes "solvent ch" "escrows ch k = Some e" "escrows ch k' = Some e'" "vault e = vault e'"
  shows "k = k'"
proof -
  from solventD(2) [OF assms(1,2)] solventD(2) [OF assms(1,3)]
  have "Some (k, mint e) = Some (k', mint e')" unfolding assms(4) by metis
  then show ?thesis by simp
qed

lemma solvent_update:
  assumes "solvent ch" and e: "escrows ch esc = Some e"
    and es: "escrows ch' = (escrows ch)(esc \<mapsto> e\<lparr> status := s \<rparr>)"
    and owners: "\<And>k. map_option (\<lambda>a. (ta_owner a, ta_mint a)) (token_accounts ch' k)
      = map_option (\<lambda>a. (ta_owner a, ta_mint a)) (token_accounts ch k)"
    and grow: "\<And>k f. k \<noteq> esc \<Longrightarrow> escrows ch k = Some f \<Longrightarrow>
      balance (token_accounts ch) (vault f) \<le> balance (token_accounts ch') (vault f)"
    and own: "s = Funded \<Longrightarrow> unat (amount e) \<le> balance (token_accounts ch') (vault e)"
  shows "solvent ch'"
proof (rule solventI)
  fix k f assume f: "escrows ch' k = Some f"
  show "amount f \<noteq> 0
      \<and> map_option (\<lambda>a. (ta_owner a, ta_mint a)) (token_accounts ch' (vault f)) = Some (k, mint f)
      \<and> (status f = Funded \<longrightarrow> unat (amount f) \<le> balance (token_accounts ch') (vault f))"
  proof (cases "k = esc")
    case True
    with f es have "f = e\<lparr> status := s \<rparr>" by simp
    with solventD(1,2) [OF assms(1) e] True own show ?thesis by (simp add: owners)
  next
    case False
    with f es have g: "escrows ch k = Some f" by simp
    from solventD [OF assms(1) g] grow [OF False g] show ?thesis by (auto simp: owners)
  qed
qed

text \<open>Neither a payout from one vault nor a transfer from an account of a signer lowers another
  vault.\<close>

lemma payout_spares_others:
  assumes "transfer_law env" and "solvent ch" and "escrows ch esc = Some e"
    and "token_cpi env (vault e) m dst auth amt (token_accounts ch) = Inr t"
    and "k \<noteq> esc" and "escrows ch k = Some f"
  shows "balance (token_accounts ch) (vault f) \<le> balance t (vault f)"
  using token_cpi_effect(1) [OF assms(1,4), of "vault f"] solvent_vaults [OF assms(2,3,6)] assms(5)
  by auto

lemma signer_pays_spares_vaults:
  assumes "transfer_law env" and "solvent ch" and "escrows ch own = None"
    and "token_account_is (token_accounts ch) src m own" and "escrows ch k = Some f"
    and "token_cpi env src m dst auth amt (token_accounts ch) = Inr t"
  shows "balance t (vault f) = balance (token_accounts ch) (vault f)
      + (if vault f = dst then unat amt else 0)"
proof -
  have "src \<noteq> vault f"
    using solventD(2) [OF assms(2,5)] assms(3,4,5)
    by (auto simp: token_account_is_def split: option.splits)
  then show ?thesis using token_cpi_effect(1) [OF assms(1,6), of "vault f"] by auto
qed

lemma solvent_step:
  assumes "transfer_law env" and "chain_step env ch ch'" and "solvent ch"
  shows "solvent ch'"
  using assms(2)
proof (cases rule: chain_step.cases)
  case (instruction signers ix)
  from instruction(1) show ?thesis
  proof (cases rule: process_cases)
    case (init esc e)
    show ?thesis
    proof (rule solventI)
      fix k f assume f: "escrows ch' k = Some f"
      show "amount f \<noteq> 0
        \<and> map_option (\<lambda>a. (ta_owner a, ta_mint a)) (token_accounts ch' (vault f)) = Some (k, mint f)
        \<and> (status f = Funded \<longrightarrow> unat (amount f) \<le> balance (token_accounts ch') (vault f))"
      proof (cases "k = esc")
        case True
        with init f show ?thesis by auto
      next
        case False
        with init f have g: "escrows ch k = Some f" by simp
        note old = solventD [OF assms(3) g]
        with init(2) have "vault f \<noteq> vault e" by auto
        with init old show ?thesis by (simp add: balance_def)
      qed
    qed
  next
    case (cancelled esc e)
    then show ?thesis using solventD [OF assms(3)]
      by (intro solventI) (auto split: if_splits)
  next
    case (funded esc e src t)
    with instruction(2) have none: "escrows ch (sponsor e) = None" by auto
    note pays = signer_pays_spares_vaults [OF assms(1,3) none funded(5) _ funded(7)]
    show ?thesis
      by (rule solvent_update [OF assms(3) funded(1), where s = Funded])
        (simp_all add: funded(8) token_cpi_effect(3) [OF assms(1) funded(7)] pays pays [OF funded(1)])
  next
    case (released esc e to t)
    show ?thesis
      by (rule solvent_update [OF assms(3) released(1), where s = Released])
        (simp_all add: released(8) token_cpi_effect(3) [OF assms(1) released(7)]
          payout_spares_others [OF assms(1,3) released(1,7)])
  next
    case (refunded esc e to t)
    show ?thesis
      by (rule solvent_update [OF assms(3) refunded(1), where s = Refunded])
        (simp_all add: refunded(8) token_cpi_effect(3) [OF assms(1) refunded(7)]
          payout_spares_others [OF assms(1,3) refunded(1,7)])
  qed
next
  case (time now)
  with assms(3) show ?thesis by (simp add: solvent_def)
next
  case (others t)
  show ?thesis
  proof (rule solventI)
    fix k f assume f: "escrows ch' k = Some f"
    with others(1) have g: "escrows ch k = Some f" by simp
    note old = solventD [OF assms(3) g]
    from assms(3) g obtain a where a: "token_accounts ch (vault f) = Some a" "ta_owner a = k"
      "ta_mint a = mint f" "status f = Funded \<longrightarrow> unat (amount f) \<le> unat (ta_amount a)"
      unfolding solvent_def by blast
    with others(2) g obtain b where "t (vault f) = Some b" "ta_owner b = k" "ta_mint b = mint f"
      "unat (ta_amount a) \<le> unat (ta_amount b)"
      unfolding foreign_tokens_def by (metis option.distinct(1))
    with others(1) old(1) a show "amount f \<noteq> 0
        \<and> map_option (\<lambda>a. (ta_owner a, ta_mint a)) (token_accounts ch' (vault f)) = Some (k, mint f)
        \<and> (status f = Funded \<longrightarrow> unat (amount f) \<le> balance (token_accounts ch') (vault f))"
      by (auto simp: balance_def)
  qed
qed

interpretation paid: step_invariant "chain_step env" payout_inv for env
  by unfold_locales (rule payout_inv_step)

interpretation covered: step_invariant "chain_step env" "\<lambda>ch. transfer_law env \<and> solvent ch" for env
  by unfold_locales (auto intro: solvent_step)

lemma no_escrows_payout_inv: "no_escrows ch \<Longrightarrow> payout_inv ch"
  by (simp add: no_escrows_def payout_inv_def payouts_def)

lemma no_escrows_solvent: "no_escrows ch \<Longrightarrow> solvent ch"
  by (simp add: no_escrows_def solvent_def)

lemma reachable_payouts:
  "no_escrows ch \<Longrightarrow> chain_steps env ch ch' \<Longrightarrow> payouts k ch' \<le> 1"
  using paid.run [OF _ no_escrows_payout_inv] by (auto simp: payout_inv_def split: option.splits)

subsection \<open>Release or refund\<close>

text \<open>For a funded escrow exactly one of the two is allowed, whatever the time.\<close>

lemma release_xor_refund:
  "(\<exists>s. can_release Funded now expy = Inr s) \<noteq> (\<exists>s. can_refund Funded now expy = Inr s)"
  by (auto simp: can_release_def can_refund_def)

text \<open>The amounts that move, for destinations other than the vault itself.\<close>

lemma release_moves:
  assumes "transfer_law env" and "release env signers mtn mnt esc vlt ctr_token ch = Inr ch'"
  obtains e where "escrows ch esc = Some e" "status e = Funded" "maintainer e = mtn" "mtn \<in> set signers"
    "sint (clock ch) < sint (expiry e)" "vault e = vlt"
    "escrows ch' = (escrows ch)(esc \<mapsto> e\<lparr> status := Released \<rparr>)"
    "\<exists>a. token_accounts ch ctr_token = Some a \<and> ta_owner a = contributor e"
    "unat (amount e) \<le> balance (token_accounts ch) vlt"
    "\<forall>k. balance (token_accounts ch') k = balance (token_accounts ch) k
      + (if k = ctr_token \<and> vlt \<noteq> ctr_token then unat (amount e) else 0)
      - (if k = vlt \<and> vlt \<noteq> ctr_token then unat (amount e) else 0)"
proof -
  from assms(2) obtain e a t where e: "escrows ch esc = Some e" "status e = Funded"
      "maintainer e = mtn" "mtn \<in> set signers" "sint (clock ch) < sint (expiry e)" "vault e = vlt"
    and a: "token_accounts ch ctr_token = Some a" "ta_owner a = contributor e"
    and t: "token_cpi env vlt mnt ctr_token esc (amount e) (token_accounts ch) = Inr t"
    and ch': "ch' = ch\<lparr> token_accounts := t,
        escrows := (escrows ch)(esc \<mapsto> e\<lparr> status := Released \<rparr>),
        events := events ch @ [EscrowReleased esc (maintainer e) (contributor e) (amount e)] \<rparr>"
    by (auto simp: release_def and_then_eq_Inr escrow_account_def can_release_def
        split: if_splits option.splits)
  show thesis
    by (rule that [OF e(1-6)])
      (use a ch' token_cpi_effect(1,2) [OF assms(1) t] in auto)
qed

lemma refund_moves:
  assumes "transfer_law env" and "refund env signers spn mnt esc vlt spn_token ch = Inr ch'"
  obtains e where "escrows ch esc = Some e" "status e = Funded" "sponsor e = spn" "spn \<in> set signers"
    "sint (expiry e) \<le> sint (clock ch)" "vault e = vlt"
    "escrows ch' = (escrows ch)(esc \<mapsto> e\<lparr> status := Refunded \<rparr>)"
    "token_account_is (token_accounts ch) spn_token mnt spn"
    "unat (amount e) \<le> balance (token_accounts ch) vlt"
    "\<forall>k. balance (token_accounts ch') k = balance (token_accounts ch) k
      + (if k = spn_token \<and> vlt \<noteq> spn_token then unat (amount e) else 0)
      - (if k = vlt \<and> vlt \<noteq> spn_token then unat (amount e) else 0)"
proof -
  from assms(2) obtain e t where e: "escrows ch esc = Some e" "status e = Funded"
      "sponsor e = spn" "spn \<in> set signers" "sint (expiry e) \<le> sint (clock ch)" "vault e = vlt"
    and a: "token_account_is (token_accounts ch) spn_token mnt spn"
    and t: "token_cpi env vlt mnt spn_token esc (amount e) (token_accounts ch) = Inr t"
    and ch': "ch' = ch\<lparr> token_accounts := t,
        escrows := (escrows ch)(esc \<mapsto> e\<lparr> status := Refunded \<rparr>),
        events := events ch @ [EscrowRefunded esc (sponsor e) (amount e)] \<rparr>"
    by (auto simp: refund_def and_then_eq_Inr escrow_account_def can_refund_def validate_sponsor_def
        split: if_splits option.splits)
  show thesis
    by (rule that [OF e(1-6)])
      (use a ch' token_cpi_effect(1,2) [OF assms(1) t] in auto)
qed

subsection \<open>A token program that obeys the law\<close>

definition plain_transfer ::
    "key \<Rightarrow> key \<Rightarrow> key \<Rightarrow> key \<Rightarrow> u64 \<Rightarrow> byte \<Rightarrow> tokens \<Rightarrow> tokens option" where
  "plain_transfer from mnt to auth amt d t =
     (case (t from, t to) of (Some a, Some b) \<Rightarrow>
        if ta_owner a = auth \<and> ta_mint a = mnt \<and> ta_mint b = mnt \<and> amt \<le> ta_amount a then
          (if from = to then Some t
           else if unat (ta_amount b) + unat amt < 2 ^ 64 then
             Some (t(from \<mapsto> a\<lparr> ta_amount := ta_amount a - amt \<rparr>,
                     to \<mapsto> b\<lparr> ta_amount := ta_amount b + amt \<rparr>))
           else None)
        else None
      | _ \<Rightarrow> None)"

lemma plain_transfer_law: "transfer_checked env = plain_transfer \<Longrightarrow> transfer_law env"
  by (auto simp: transfer_law_def plain_transfer_def split: option.splits if_splits)

subsection \<open>A funded escrow can be paid out\<close>

text \<open>The token program executes a transfer that its rules allow: both accounts of the mint, the
  authority the owner, the balance sufficient, no overflow at the destination.\<close>

definition transfer_served :: "program_env \<Rightarrow> bool" where
  "transfer_served env \<longleftrightarrow>
     (\<forall>from mnt to auth amt d t a b. mint_decimals env mnt = Some d \<longrightarrow> t from = Some a \<longrightarrow> t to = Some b \<longrightarrow>
        ta_owner a = auth \<longrightarrow> ta_mint a = mnt \<longrightarrow> ta_mint b = mnt \<longrightarrow> amt \<le> ta_amount a \<longrightarrow>
        unat (ta_amount b) + unat amt < 2 ^ 64 \<longrightarrow>
        transfer_checked env from mnt to auth amt d t \<noteq> None)"

lemma plain_transfer_served: "transfer_checked env = plain_transfer \<Longrightarrow> transfer_served env"
  by (auto simp: transfer_served_def plain_transfer_def)

lemma served_cpi:
  assumes "transfer_served env" and "mint_decimals env mnt \<noteq> None"
    and "t from = Some a" and "ta_owner a = auth" and "ta_mint a = mnt" and "amt \<le> ta_amount a"
    and "t to = Some b" and "ta_mint b = mnt" and "unat (ta_amount b) + unat amt < 2 ^ 64"
  shows "\<exists>t'. token_cpi env from mnt to auth amt t = Inr t'"
  using assms unfolding transfer_served_def token_cpi_def by (fastforce split: option.split)

lemma payout_possible:
  assumes "transfer_served env" and "solvent ch" and "escrows ch esc = Some e" and "status e = Funded"
    and "mint_decimals env (mint e) \<noteq> None"
    and "token_accounts ch ctr_token = Some c" and "ta_owner c = contributor e" and "ta_mint c = mint e"
    and "unat (ta_amount c) + unat (amount e) < 2 ^ 64"
    and "token_accounts ch spn_token = Some s" and "ta_owner s = sponsor e" and "ta_mint s = mint e"
    and "unat (ta_amount s) + unat (amount e) < 2 ^ 64"
  shows "\<exists>ch'. (if sint (clock ch) < sint (expiry e)
      then release env [maintainer e] (maintainer e) (mint e) esc (vault e) ctr_token ch
      else refund env [sponsor e] (sponsor e) (mint e) esc (vault e) spn_token ch) = Inr ch'"
proof -
  from assms(2-4) obtain v where v: "token_accounts ch (vault e) = Some v" "ta_owner v = esc"
    "ta_mint v = mint e" "amount e \<le> ta_amount v"
    unfolding solvent_def word_le_nat_alt by blast
  obtain t where t: "token_cpi env (vault e) (mint e) ctr_token esc (amount e) (token_accounts ch) = Inr t"
    using served_cpi [OF assms(1,5) v(1-4) assms(6,8,9)] by blast
  obtain t' where t': "token_cpi env (vault e) (mint e) spn_token esc (amount e) (token_accounts ch) = Inr t'"
    using served_cpi [OF assms(1,5) v(1-4) assms(10,12,13)] by blast
  show ?thesis
    using assms v t t' by (auto simp: release_def refund_def require_def escrow_account_def token_account_is_def
        can_release_def can_refund_def validate_sponsor_def)
qed

end
