(* ===== verification/Flow_Instructions.thy ===== *)
theory Flow_Instructions imports Loader_Codec Safety Escrow_Program begin

text \<open>
  \<open>scripts/devnet/business-flow-instructions.mjs\<close>: the instructions the acceptance flow sends to
  the escrow program and the decoders of what it reads back, against the program of
  \<open>Escrow_Program\<close>: its instruction dispatch, its account layout and its error numbers.

  A public key is the text it prints as; \<open>key_bytes\<close> are its 32 bytes and \<open>base58\<close> prints bytes
  (\<open>PublicKey\<close> of \<open>@solana/web3.js\<close>).  The token and system instructions that the module only
  forwards to are parameters.  SHA-256 is \<open>sha\<close>, here to bytes.
\<close>

section \<open>Tables\<close>

definition ESCROW_STATUS :: "string list" where
  "ESCROW_STATUS = [''Initialized'', ''Funded'', ''Released'', ''Refunded'', ''Cancelled'']"

definition ESCROW_ERROR_CODES :: "(nat \<times> string) list" where
  "ESCROW_ERROR_CODES =
     [(6000, ''InvalidStatus''), (6001, ''InvalidAmount''), (6002, ''InvalidExpiry''),
      (6003, ''InvalidMaintainer''), (6004, ''InvalidContributor''),
      (6005, ''InvalidContributorTokenOwner''), (6006, ''UnauthorizedSponsor''),
      (6007, ''EscrowExpired''), (6008, ''EscrowNotExpired''), (6009, ''InvalidVault''),
      (6010, ''InvalidExternalReference'')]"

section \<open>Encoders\<close>

record key_env =
  valid_pk :: "string \<Rightarrow> bool"
  key_bytes :: "pubkey \<Rightarrow> bytes"
  base58 :: "bytes \<Rightarrow> pubkey"
  sha256_bytes :: "bytes \<Rightarrow> bytes"

definition ascii :: "string \<Rightarrow> bytes" where
  "ascii s = map (\<lambda>c. word_of_nat (of_char c)) s"

definition discriminator :: "key_env \<Rightarrow> string \<Rightarrow> string \<Rightarrow> bytes" where
  "discriminator env namespace name =
     subarray (sha256_bytes env (ascii (namespace @ '':'' @ name))) 0 8"

definition pk :: "key_env \<Rightarrow> string \<Rightarrow> string \<Rightarrow> pubkey result" where
  "pk env v label = (if valid_pk env v then Inr v else throw (label @ '' must be a valid public key''))"

definition meta :: "key_env \<Rightarrow> string \<Rightarrow> bool \<Rightarrow> bool \<Rightarrow> account_meta result" where
  "meta env k isSigner isWritable =
     and_then (pk env k ''account'') (\<lambda>p.
       Inr \<lparr> am_pubkey = p, am_signer = isSigner, am_writable = isWritable \<rparr>)"

text \<open>Values are integers here: what \<open>BigInt\<close> made of them.  Node refuses a value out of range.\<close>

definition OUT_OF_RANGE :: string where
  "OUT_OF_RANGE = ''The value of value is out of range''"

definition encodeU64LE :: "int \<Rightarrow> bytes result" where
  "encodeU64LE v =
     (if 0 \<le> v \<and> v < 2 ^ 64 then Inr (le_bytes 8 (nat v)) else throw OUT_OF_RANGE)"

definition encodeI64LE :: "int \<Rightarrow> bytes result" where
  "encodeI64LE v =
     (if - (2 ^ 63) \<le> v \<and> v < 2 ^ 63 then Inr (le_bytes 8 (nat (v mod 2 ^ 64)))
      else throw OUT_OF_RANGE)"

definition encode32 :: "bytes \<Rightarrow> string \<Rightarrow> bytes result" where
  "encode32 bs label =
     (if length bs = 32 then Inr bs else throw (label @ '' must be 32 bytes''))"

definition TOKEN_PROGRAM_ID :: pubkey where
  "TOKEN_PROGRAM_ID = ''TokenkegQfeZyiNwAJbNbGKPFXCWuBvf9Ss623VQ5DA''"

definition SYSTEM_PROGRAM_ID :: pubkey where
  "SYSTEM_PROGRAM_ID = ''11111111111111111111111111111111''"

definition metas :: "key_env \<Rightarrow> (string \<times> bool \<times> bool) list \<Rightarrow> account_meta list result" where
  "metas env = map_result (\<lambda>(k, s, w). meta env k s w)"

record flow_accounts =
  fa_programId :: string
  fa_sponsor :: string
  fa_mint :: string
  fa_escrow :: string
  fa_vault :: string

definition buildInitializeEscrow ::
    "key_env \<Rightarrow> flow_accounts \<Rightarrow> bytes \<Rightarrow> int \<Rightarrow> int \<Rightarrow> string \<Rightarrow> string \<Rightarrow> instruction result" where
  "buildInitializeEscrow env a externalRefHash amt expy mtn ctr =
     and_then (encode32 externalRefHash ''external_ref_hash'') (\<lambda>ref.
     and_then (encodeU64LE amt) (\<lambda>amount_bytes.
     and_then (encodeI64LE expy) (\<lambda>expiry_bytes.
     and_then (pk env mtn ''maintainer'') (\<lambda>m.
     and_then (pk env ctr ''contributor'') (\<lambda>c.
     let data = discriminator env ''global'' ''initialize_escrow'' @ ref @ amount_bytes @ expiry_bytes
           @ key_bytes env m @ key_bytes env c in
     and_then (pk env (fa_programId a) ''programId'') (\<lambda>p.
     and_then (metas env [(fa_sponsor a, True, True), (fa_mint a, False, False),
         (fa_escrow a, False, True), (fa_vault a, False, True),
         (TOKEN_PROGRAM_ID, False, False), (SYSTEM_PROGRAM_ID, False, False)]) (\<lambda>ks.
     Inr \<lparr> i_program = p, i_keys = ks, i_data = data \<rparr>)))))))"

definition instruction_for ::
    "key_env \<Rightarrow> string \<Rightarrow> (string \<times> bool \<times> bool) list \<Rightarrow> string \<Rightarrow> instruction result" where
  "instruction_for env programId accounts name =
     and_then (pk env programId ''programId'') (\<lambda>p.
     and_then (metas env accounts) (\<lambda>ks.
     Inr \<lparr> i_program = p, i_keys = ks, i_data = discriminator env ''global'' name \<rparr>))"

definition buildFundEscrow :: "key_env \<Rightarrow> flow_accounts \<Rightarrow> string \<Rightarrow> instruction result" where
  "buildFundEscrow env a sponsorToken =
     instruction_for env (fa_programId a)
       [(fa_sponsor a, True, True), (fa_mint a, False, False), (sponsorToken, False, True),
        (fa_escrow a, False, True), (fa_vault a, False, True), (TOKEN_PROGRAM_ID, False, False)]
       ''fund_escrow''"

definition buildRelease :: "key_env \<Rightarrow> flow_accounts \<Rightarrow> string \<Rightarrow> string \<Rightarrow> instruction result" where
  "buildRelease env a mtn contributorToken =
     instruction_for env (fa_programId a)
       [(mtn, True, False), (fa_mint a, False, False), (fa_escrow a, False, True),
        (fa_vault a, False, True), (contributorToken, False, True), (TOKEN_PROGRAM_ID, False, False)]
       ''release''"

definition buildRefund :: "key_env \<Rightarrow> flow_accounts \<Rightarrow> string \<Rightarrow> instruction result" where
  "buildRefund env a sponsorToken =
     instruction_for env (fa_programId a)
       [(fa_sponsor a, True, False), (fa_mint a, False, False), (fa_escrow a, False, True),
        (fa_vault a, False, True), (sponsorToken, False, True), (TOKEN_PROGRAM_ID, False, False)]
       ''refund''"

definition buildCancel :: "key_env \<Rightarrow> flow_accounts \<Rightarrow> instruction result" where
  "buildCancel env a =
     instruction_for env (fa_programId a) [(fa_sponsor a, True, False), (fa_escrow a, False, True)]
       ''cancel''"

subsection \<open>Asset setup\<close>

text \<open>The builders of \<open>@solana/web3.js\<close> and \<open>@solana/spl-token\<close> that the code forwards to.\<close>

record token_builders =
  createAccount :: "pubkey \<Rightarrow> pubkey \<Rightarrow> nat \<Rightarrow> nat \<Rightarrow> pubkey \<Rightarrow> instruction"
  initializeMint2 :: "pubkey \<Rightarrow> nat \<Rightarrow> pubkey \<Rightarrow> pubkey \<Rightarrow> instruction"
  ataAddress :: "pubkey \<Rightarrow> pubkey \<Rightarrow> pubkey"
  createAta :: "pubkey \<Rightarrow> pubkey \<Rightarrow> pubkey \<Rightarrow> pubkey \<Rightarrow> instruction"
  mintTo :: "pubkey \<Rightarrow> pubkey \<Rightarrow> pubkey \<Rightarrow> int \<Rightarrow> instruction"

definition MINT_SIZE :: nat where "MINT_SIZE = 82"
definition ACCOUNT_SIZE :: nat where "ACCOUNT_SIZE = 165"

definition associatedTokenAddress ::
    "key_env \<Rightarrow> token_builders \<Rightarrow> string \<Rightarrow> string \<Rightarrow> pubkey result" where
  "associatedTokenAddress env b mnt own =
     and_then (pk env mnt ''mint'') (\<lambda>m. and_then (pk env own ''owner'') (\<lambda>w. Inr (ataAddress b m w)))"

definition buildCreateMintInstructions ::
    "key_env \<Rightarrow> token_builders \<Rightarrow> string \<Rightarrow> string \<Rightarrow> string \<Rightarrow> js \<Rightarrow> nat \<Rightarrow> instruction list result" where
  "buildCreateMintInstructions env b payer mnt mintAuthority decimals lamports =
     and_then (assertClassicTokenProgram (JStr CLASSIC_TOKEN_PROGRAM_ID)) (\<lambda>_.
     if decimals \<noteq> JNat 6 then throw ''this program's acceptance flow uses 6 decimals''
     else
     and_then (pk env payer ''payer'') (\<lambda>p.
     and_then (pk env mnt ''mint'') (\<lambda>m.
     and_then (pk env mintAuthority ''mintAuthority'') (\<lambda>ma.
     Inr [createAccount b p m MINT_SIZE lamports TOKEN_PROGRAM_ID,
          initializeMint2 b m 6 ma TOKEN_PROGRAM_ID]))))"

definition buildCreateAssociatedTokenAccount ::
    "key_env \<Rightarrow> token_builders \<Rightarrow> string \<Rightarrow> string \<Rightarrow> string \<Rightarrow> (pubkey \<times> instruction) result" where
  "buildCreateAssociatedTokenAccount env b payer own mnt =
     and_then (associatedTokenAddress env b mnt own) (\<lambda>ata.
     and_then (pk env payer ''payer'') (\<lambda>p.
     and_then (pk env own ''owner'') (\<lambda>w.
     and_then (pk env mnt ''mint'') (\<lambda>m. Inr (ata, createAta b p ata w m)))))"

definition buildMintTo ::
    "key_env \<Rightarrow> token_builders \<Rightarrow> string \<Rightarrow> string \<Rightarrow> string \<Rightarrow> int \<Rightarrow> instruction result" where
  "buildMintTo env b mnt dest mintAuthority amt =
     and_then (pk env mnt ''mint'') (\<lambda>m.
     and_then (pk env dest ''destination'') (\<lambda>d.
     and_then (pk env mintAuthority ''mintAuthority'') (\<lambda>a. Inr (mintTo b m d a amt))))"

section \<open>Decoders\<close>

record decoded_escrow =
  d_sponsor :: pubkey
  d_maintainer :: pubkey
  d_contributor :: pubkey
  d_mint :: pubkey
  d_vault :: pubkey
  d_externalRefHash :: bytes
  d_amount :: string
  d_createdAt :: string
  d_expiry :: string
  d_status :: string
  d_bump :: nat
  d_vaultBump :: nat

text \<open>\<open>readBigInt64LE\<close>: two's complement.\<close>

definition le_signed :: "bytes \<Rightarrow> int" where
  "le_signed bs =
     (let v = int (le_value bs); m = 256 ^ length bs in if 2 * v < m then v else v - m)"

definition decodeEscrow :: "key_env \<Rightarrow> bytes \<Rightarrow> decoded_escrow result" where
  "decodeEscrow env buf =
     (if length buf < 8 + 32 * 5 + 32 + 8 + 8 + 8 + 1 + 1 + 1
      then throw ''escrow account data is too small''
      else
      let readPk = (\<lambda>off. base58 env (subarray buf off (off + 32)));
          statusIndex = unat (buf ! 224) in
      if \<not> statusIndex < length ESCROW_STATUS
      then throw (''unknown escrow status index '' @ show_nat statusIndex)
      else Inr \<lparr> d_sponsor = readPk 8, d_maintainer = readPk 40, d_contributor = readPk 72,
        d_mint = readPk 104, d_vault = readPk 136, d_externalRefHash = subarray buf 168 200,
        d_amount = show_nat (le_value (subarray buf 200 208)),
        d_createdAt = show_int (le_signed (subarray buf 208 216)),
        d_expiry = show_int (le_signed (subarray buf 216 224)),
        d_status = ESCROW_STATUS ! statusIndex, d_bump = unat (buf ! 225),
        d_vaultBump = unat (buf ! 226) \<rparr>)"

definition decodeTokenAccountAmount :: "bytes \<Rightarrow> string result" where
  "decodeTokenAccountAmount buf =
     (if length buf < ACCOUNT_SIZE then throw ''token account data is too small''
      else Inr (show_nat (le_value (subarray buf 64 72))))"

definition decodeMint :: "bytes \<Rightarrow> (nat \<times> bool) result" where
  "decodeMint buf =
     (if length buf < MINT_SIZE then throw ''mint data is too small''
      else Inr (unat (buf ! 44), unat (buf ! 45) = 1))"

section \<open>How the program reads an instruction\<close>

text \<open>Anchor dispatches on the discriminator, takes the accounts in the order of the struct with
  its \<open>Signer\<close> and \<open>mut\<close> requirements, and reads the arguments in Borsh: \<open>lib.rs\<close>, the
  signatures of the handlers and the \<open>derive(Accounts)\<close> structs.\<close>

definition program_dispatch :: "key_env \<Rightarrow> instruction \<Rightarrow> (key list \<times> escrow_instruction) option" where
  "program_dispatch env ix =
     (let d = take 8 (i_data ix); args = drop 8 (i_data ix);
          k = (\<lambda>m. key_bytes env (am_pubkey m));
          signers = map k (filter am_signer (i_keys ix));
          disc = discriminator env ''global'' in
      if d = disc ''initialize_escrow'' then
        (case i_keys ix of s # m # e # v # tp # sp # ms \<Rightarrow>
           if am_signer s \<and> am_writable s \<and> am_writable e \<and> am_writable v
               \<and> am_pubkey tp = TOKEN_PROGRAM_ID \<and> am_pubkey sp = SYSTEM_PROGRAM_ID
               \<and> 112 \<le> length args
           then Some (signers, Initialize_Escrow (k s) (k m) (k e) (k v) (subarray args 0 32)
             (word_of_nat (le_value (subarray args 32 40)))
             (word_of_nat (le_value (subarray args 40 48)))
             (subarray args 48 80) (subarray args 80 112)) else None
         | _ \<Rightarrow> None)
      else if d = disc ''cancel'' then
        (case i_keys ix of s # e # ms \<Rightarrow>
           if am_signer s \<and> am_writable e then Some (signers, Cancel (k s) (k e)) else None
         | _ \<Rightarrow> None)
      else if d = disc ''fund_escrow'' then
        (case i_keys ix of s # m # st # e # v # tp # ms \<Rightarrow>
           if am_signer s \<and> am_writable s \<and> am_writable st \<and> am_writable e \<and> am_writable v
               \<and> am_pubkey tp = TOKEN_PROGRAM_ID
           then Some (signers, Fund_Escrow (k s) (k m) (k st) (k e) (k v)) else None
         | _ \<Rightarrow> None)
      else if d = disc ''release'' then
        (case i_keys ix of s # m # e # v # ct # tp # ms \<Rightarrow>
           if am_signer s \<and> am_writable e \<and> am_writable v \<and> am_writable ct
               \<and> am_pubkey tp = TOKEN_PROGRAM_ID
           then Some (signers, Release (k s) (k m) (k e) (k v) (k ct)) else None
         | _ \<Rightarrow> None)
      else if d = disc ''refund'' then
        (case i_keys ix of s # m # e # v # st # tp # ms \<Rightarrow>
           if am_signer s \<and> am_writable e \<and> am_writable v \<and> am_writable st
               \<and> am_pubkey tp = TOKEN_PROGRAM_ID
           then Some (signers, Refund (k s) (k m) (k e) (k v) (k st)) else None
         | _ \<Rightarrow> None)
      else None)"

text \<open>What is used of keys and of the hash: a key is 32 bytes that print as the key, and the
  five discriminators are eight bytes each and differ.\<close>

definition keys_lawful :: "key_env \<Rightarrow> bool" where
  "keys_lawful env \<longleftrightarrow>
     (\<forall>k. valid_pk env k \<longrightarrow> length (key_bytes env k) = 32 \<and> base58 env (key_bytes env k) = k)"

definition handler_names :: "string list" where
  "handler_names = [''initialize_escrow'', ''cancel'', ''fund_escrow'', ''release'', ''refund'']"

definition discriminators_lawful :: "key_env \<Rightarrow> bool" where
  "discriminators_lawful env \<longleftrightarrow>
     list_all (\<lambda>n. length (discriminator env ''global'' n) = 8) handler_names
     \<and> distinct (map (discriminator env ''global'') handler_names)"

lemma pk_eq_Inr [result_simps]: "pk env v label = Inr p \<longleftrightarrow> valid_pk env v \<and> p = v"
  by (auto simp: pk_def)

lemma metas_eq_Inr [result_simps]:
  "metas env xs = Inr ks \<longleftrightarrow> (\<forall>(k, s, w)\<in>set xs. valid_pk env k)
    \<and> ks = map (\<lambda>(k, s, w). \<lparr> am_pubkey = k, am_signer = s, am_writable = w \<rparr>) xs"
  by (induction xs arbitrary: ks) (auto simp: metas_def meta_def result_simps and_then_eq_Inr)

lemma instruction_for_eq_Inr [result_simps]:
  "instruction_for env p xs n = Inr ix \<longleftrightarrow> valid_pk env p \<and> (\<forall>(k, s, w)\<in>set xs. valid_pk env k)
    \<and> ix = \<lparr> i_program = p,
        i_keys = map (\<lambda>(k, s, w). \<lparr> am_pubkey = k, am_signer = s, am_writable = w \<rparr>) xs,
        i_data = discriminator env ''global'' n \<rparr>"
  by (auto simp: instruction_for_def and_then_eq_Inr result_simps)

lemma fund_dispatch:
  assumes "discriminators_lawful env" and "buildFundEscrow env a st = Inr ix"
  shows "program_dispatch env ix = Some ([key_bytes env (fa_sponsor a)],
    Fund_Escrow (key_bytes env (fa_sponsor a)) (key_bytes env (fa_mint a)) (key_bytes env st)
      (key_bytes env (fa_escrow a)) (key_bytes env (fa_vault a)))"
  using assms
  by (auto simp: buildFundEscrow_def result_simps program_dispatch_def Let_def
      discriminators_lawful_def handler_names_def)

lemma release_dispatch:
  assumes "discriminators_lawful env" and "buildRelease env a mtn ct = Inr ix"
  shows "program_dispatch env ix = Some ([key_bytes env mtn],
    Release (key_bytes env mtn) (key_bytes env (fa_mint a)) (key_bytes env (fa_escrow a))
      (key_bytes env (fa_vault a)) (key_bytes env ct))"
  using assms
  by (auto simp: buildRelease_def result_simps program_dispatch_def Let_def
      discriminators_lawful_def handler_names_def)

lemma refund_dispatch:
  assumes "discriminators_lawful env" and "buildRefund env a st = Inr ix"
  shows "program_dispatch env ix = Some ([key_bytes env (fa_sponsor a)],
    Refund (key_bytes env (fa_sponsor a)) (key_bytes env (fa_mint a)) (key_bytes env (fa_escrow a))
      (key_bytes env (fa_vault a)) (key_bytes env st))"
  using assms
  by (auto simp: buildRefund_def result_simps program_dispatch_def Let_def
      discriminators_lawful_def handler_names_def)

lemma cancel_dispatch:
  assumes "discriminators_lawful env" and "buildCancel env a = Inr ix"
  shows "program_dispatch env ix = Some ([key_bytes env (fa_sponsor a)],
    Cancel (key_bytes env (fa_sponsor a)) (key_bytes env (fa_escrow a)))"
  using assms
  by (auto simp: buildCancel_def result_simps program_dispatch_def Let_def
      discriminators_lawful_def handler_names_def)

lemma word_le_bytes_int:
  "0 \<le> v \<Longrightarrow> v < 2 ^ 64 \<Longrightarrow> (word_of_nat (le_value (le_bytes 8 (nat v))) :: 64 word) = word_of_int v"
  by simp

lemma word_le_bytes_signed:
  "(word_of_nat (le_value (le_bytes 8 (nat (v mod 2 ^ 64)))) :: 64 word) = word_of_int v"
proof -
  have "nat (v mod 2 ^ 64) < 256 ^ 8" by simp
  then have "le_value (le_bytes 8 (nat (v mod 2 ^ 64))) = nat (v mod 2 ^ 64)"
    by (rule le_value_le_bytes_id)
  then have "(word_of_nat (le_value (le_bytes 8 (nat (v mod 2 ^ 64)))) :: 64 word)
      = word_of_int (v mod 2 ^ LENGTH(64))" by simp
  then show ?thesis by (simp add: word_eq_iff_unsigned [where ?'a = int] unsigned_of_int take_bit_eq_mod)
qed

lemma initialize_dispatch:
  assumes "discriminators_lawful env" and "keys_lawful env"
    and "buildInitializeEscrow env a ref amt expy mtn ctr = Inr ix"
  shows "program_dispatch env ix = Some ([key_bytes env (fa_sponsor a)],
    Initialize_Escrow (key_bytes env (fa_sponsor a)) (key_bytes env (fa_mint a))
      (key_bytes env (fa_escrow a)) (key_bytes env (fa_vault a)) ref (word_of_int amt)
      (word_of_int expy) (key_bytes env mtn) (key_bytes env ctr))"
proof -
  from assms(3) have r: "length ref = 32" and amt: "0 \<le> amt" "amt < 2 ^ 64"
    and m: "valid_pk env mtn" and c: "valid_pk env ctr"
    and ix: "i_data ix = discriminator env ''global'' ''initialize_escrow'' @ ref
      @ le_bytes 8 (nat amt) @ le_bytes 8 (nat (expy mod 2 ^ 64)) @ key_bytes env mtn @ key_bytes env ctr"
    and ks: "i_keys ix = map (\<lambda>(k, s, w). \<lparr> am_pubkey = k, am_signer = s, am_writable = w \<rparr>)
      [(fa_sponsor a, True, True), (fa_mint a, False, False),
       (fa_escrow a, False, True), (fa_vault a, False, True),
       (TOKEN_PROGRAM_ID, False, False), (SYSTEM_PROGRAM_ID, False, False)]"
    by (auto simp: buildInitializeEscrow_def and_then_eq_Inr Let_def encode32_def encodeU64LE_def
        encodeI64LE_def result_simps split: if_splits)
  have d: "length (discriminator env ''global'' ''initialize_escrow'') = 8"
    using assms(1) by (simp add: discriminators_lawful_def handler_names_def)
  from m c assms(2) have l: "length (key_bytes env mtn) = 32" "length (key_bytes env ctr) = 32"
    by (auto simp: keys_lawful_def)
  show ?thesis
    using r amt ix ks d l word_le_bytes_int [of amt] word_le_bytes_signed [of expy]
    by (simp add: program_dispatch_def Let_def subarray_def)
qed

section \<open>The account layout\<close>

text \<open>Borsh writes the fields of \<open>Escrow\<close> in their order after the discriminator of the account;
  the status is the index of its variant.\<close>

fun status_index :: "EscrowStatus \<Rightarrow> nat" where
  "status_index Initialized = 0"
| "status_index Funded = 1"
| "status_index Released = 2"
| "status_index Refunded = 3"
| "status_index Cancelled = 4"

fun status_name :: "EscrowStatus \<Rightarrow> string" where
  "status_name Initialized = ''Initialized''"
| "status_name Funded = ''Funded''"
| "status_name Released = ''Released''"
| "status_name Refunded = ''Refunded''"
| "status_name Cancelled = ''Cancelled''"

definition borsh_escrow :: "bytes \<Rightarrow> Escrow \<Rightarrow> bytes" where
  "borsh_escrow disc e =
     disc @ sponsor e @ maintainer e @ contributor e @ mint e @ vault e @ external_ref_hash e
     @ le_bytes 8 (unat (amount e)) @ le_bytes 8 (unat (created_at e)) @ le_bytes 8 (unat (expiry e))
     @ [word_of_nat (status_index (status e)), bump e, vault_bump e]"

definition key_sized :: "bytes \<Rightarrow> Escrow \<Rightarrow> bool" where
  "key_sized disc e \<longleftrightarrow> length disc = 8
     \<and> list_all (\<lambda>k. length k = 32)
         [sponsor e, maintainer e, contributor e, mint e, vault e, external_ref_hash e]"

lemma subarray_append_left [simp]:
  "length xs \<le> a \<Longrightarrow> subarray (xs @ ys) a b = subarray ys (a - length xs) (b - length xs)"
  by (auto simp: subarray_def)

lemma subarray_append_exact [simp]: "length xs = b \<Longrightarrow> subarray (xs @ ys) 0 b = xs"
  by (simp add: subarray_def)

lemma shift_mod:
  fixes u m h :: int
  assumes "0 \<le> u" "u < m" "m = 2 * h"
  shows "(u + h) mod m - h = (if u < h then u else u - m)"
proof (cases "u < h")
  case True
  with assms show ?thesis by (simp add: mod_pos_pos_trivial)
next
  case False
  with assms have "(u + h) mod m = (u + h - m) mod m" by (intro mod_pos_geq) auto
  with False assms show ?thesis by (simp add: mod_pos_pos_trivial)
qed

lemma sint_by_cases: "sint (w :: 64 word) = (if uint w < 2 ^ 63 then uint w else uint w - 2 ^ 64)"
proof -
  have "sint w = (uint w + 2 ^ 63) mod 2 ^ 64 - 2 ^ 63"
    by (simp add: sint_uint signed_take_bit_eq_take_bit_shift take_bit_eq_mod)
  also have "\<dots> = (if uint w < 2 ^ 63 then uint w else uint w - 2 ^ 64)"
    by (rule shift_mod) (use unsigned_less [of w, where 'a = int] in simp_all)
  finally show ?thesis .
qed

lemma le_signed_word: "le_signed (le_bytes 8 (unat w)) = sint (w :: 64 word)"
proof -
  have "le_value (le_bytes 8 (unat w)) = unat w"
    using unsigned_less [of w, where 'a = nat] by simp
  then show ?thesis by (simp add: le_signed_def Let_def sint_by_cases)
qed

lemma status_names [simp]:
  "status_index s < length ESCROW_STATUS" "ESCROW_STATUS ! status_index s = status_name s"
  "unat (word_of_nat (status_index s) :: byte) = status_index s"
  by (cases s; simp add: ESCROW_STATUS_def)+

lemma decodeEscrow_borsh:
  assumes "key_sized disc e"
  shows "decodeEscrow env (borsh_escrow disc e) =
    Inr \<lparr> d_sponsor = base58 env (sponsor e), d_maintainer = base58 env (maintainer e),
      d_contributor = base58 env (contributor e), d_mint = base58 env (mint e),
      d_vault = base58 env (vault e), d_externalRefHash = external_ref_hash e,
      d_amount = show_nat (unat (amount e)), d_createdAt = show_int (sint (created_at e)),
      d_expiry = show_int (sint (expiry e)), d_status = status_name (status e),
      d_bump = unat (bump e), d_vaultBump = unat (vault_bump e) \<rparr>"
proof -
  from assms have l: "length disc = 8" "length (sponsor e) = 32" "length (maintainer e) = 32"
    "length (contributor e) = 32" "length (mint e) = 32" "length (vault e) = 32"
    "length (external_ref_hash e) = 32"
    by (simp_all add: key_sized_def)
  have amt: "le_value (le_bytes 8 (unat (amount e))) = unat (amount e)"
    using unsigned_less [of "amount e", where 'a = nat] by simp
  show ?thesis
    using l amt by (simp add: decodeEscrow_def borsh_escrow_def Let_def nth_append le_signed_word)
qed

lemma decodeEscrow_status:
  "decodeEscrow env buf = Inr d \<Longrightarrow> d_status d \<in> set ESCROW_STATUS"
  by (auto simp: decodeEscrow_def Let_def split: if_splits)

section \<open>Program errors\<close>

definition is_js_space :: "char \<Rightarrow> bool" where
  "is_js_space c = (let n = of_char c :: nat in (9 \<le> n \<and> n \<le> 13) \<or> n = 32 \<or> n = 160)"

definition is_hex_digit :: "char \<Rightarrow> bool" where
  "is_hex_digit c = is_hex_char (lower_char c)"

definition is_digit_char :: "char \<Rightarrow> bool" where
  "is_digit_char c = (let n = of_char c :: nat in 48 \<le> n \<and> n \<le> 57)"

text \<open>\<open>/lead\s*mark(class+)/.exec(line)[1]\<close>: the leftmost match, the class as long as it goes.\<close>

fun match_after :: "string \<Rightarrow> string \<Rightarrow> (char \<Rightarrow> bool) \<Rightarrow> string \<Rightarrow> string option" where
  "match_after lead mark cls [] = None"
| "match_after lead mark cls (c # cs) =
     (let rest = dropWhile is_js_space (drop (length lead) (c # cs));
          word = takeWhile cls (drop (length mark) rest) in
      if starts_with lead (c # cs) \<and> starts_with mark rest \<and> word \<noteq> []
      then Some word else match_after lead mark cls cs)"

definition error_word :: "string \<Rightarrow> string option" where
  "error_word line =
     (case match_after ''Error Code:'' '''' is_word_char line of
        Some w \<Rightarrow> Some w
      | None \<Rightarrow> match_after ''custom program error:'' ''0x'' is_hex_digit line)"

definition digit_value :: "char \<Rightarrow> nat" where
  "digit_value c = (let n = of_char (lower_char c) :: nat in if n \<le> 57 then n - 48 else n - 87)"

definition number_in_base :: "nat \<Rightarrow> string \<Rightarrow> nat" where
  "number_in_base b s = foldl (\<lambda>acc c. acc * b + digit_value c) 0 s"

text \<open>\<open>Number(s)\<close> of a text of hexadecimal digits: decimal digits, decimal digits with an
  exponent, else \<open>NaN\<close>.\<close>

definition js_Number :: "string \<Rightarrow> js" where
  "js_Number s =
     (let a = takeWhile is_digit_char s; rest = drop (length a) s in
      if rest = [] then JNat (number_in_base 10 a)
      else if a \<noteq> [] \<and> lower_char (hd rest) = CHR ''e'' \<and> tl rest \<noteq> [] \<and> list_all is_digit_char (tl rest)
        \<and> number_in_base 10 (tl rest) \<le> 300
      then JNat (number_in_base 10 a * 10 ^ number_in_base 10 (tl rest))
      else JNonFinite)"

record decoded_error =
  de_code :: js
  de_name :: js

definition lookup_error :: "js \<Rightarrow> js" where
  "lookup_error code =
     (case find (\<lambda>(n, name). code = JNat n) ESCROW_ERROR_CODES of
        Some (n, name) \<Rightarrow> JStr name | None \<Rightarrow> JNull)"

text \<open>The code of the first log line with an error; \<open>Inr name\<close> when the line has a name.\<close>

fun first_logged :: "string list \<Rightarrow> (js + string) option" where
  "first_logged [] = None"
| "first_logged (line # lines) =
     (case error_word line of
        None \<Rightarrow> first_logged lines
      | Some w \<Rightarrow>
          if \<not> list_all is_digit_char w \<and> \<not> list_all is_hex_digit w then Some (Inr w)
          else Some (Inl (if length w \<le> 4 \<and> \<not> list_all is_digit_char w
                          then JNat (number_in_base 16 w) else js_Number w)))"

text \<open>\<open>detail.Custom\<close>, when it is an integer.\<close>

definition custom_code :: "js \<Rightarrow> js option" where
  "custom_code err =
     (case get err ''InstructionError'' of
        JArr (_ # detail # _) \<Rightarrow>
          (if is_integer (get detail ''Custom'') then Some (get detail ''Custom'') else None)
      | _ \<Rightarrow> None)"

definition decodeProgramError :: "js \<Rightarrow> string list option \<Rightarrow> decoded_error" where
  "decodeProgramError err logs =
     (case custom_code err of
        Some code \<Rightarrow> \<lparr> de_code = code, de_name = lookup_error code \<rparr>
      | None \<Rightarrow>
          (case (case logs of None \<Rightarrow> None | Some ls \<Rightarrow> first_logged ls) of
             None \<Rightarrow> \<lparr> de_code = JNull, de_name = JNull \<rparr>
           | Some (Inr name) \<Rightarrow> \<lparr> de_code = JNull, de_name = JStr name \<rparr>
           | Some (Inl code) \<Rightarrow> \<lparr> de_code = code, de_name = lookup_error code \<rparr>))"

fun error_name :: "EscrowError \<Rightarrow> string" where
  "error_name InvalidStatus = ''InvalidStatus''"
| "error_name InvalidAmount = ''InvalidAmount''"
| "error_name InvalidExpiry = ''InvalidExpiry''"
| "error_name InvalidMaintainer = ''InvalidMaintainer''"
| "error_name InvalidContributor = ''InvalidContributor''"
| "error_name InvalidContributorTokenOwner = ''InvalidContributorTokenOwner''"
| "error_name UnauthorizedSponsor = ''UnauthorizedSponsor''"
| "error_name EscrowExpired = ''EscrowExpired''"
| "error_name EscrowNotExpired = ''EscrowNotExpired''"
| "error_name InvalidVault = ''InvalidVault''"
| "error_name InvalidExternalReference = ''InvalidExternalReference''"
| "error_name (Constraint c) = c"

lemma lookup_error_number:
  "error_number e = Some n \<Longrightarrow> lookup_error (JNat n) = JStr (error_name e)"
  by (cases e) (auto simp: lookup_error_def ESCROW_ERROR_CODES_def)

text \<open>An error object of the program decodes to the name of the variant.\<close>

lemma decodeProgramError_custom:
  assumes "error_number e = Some n"
    and "err = JObj [(''InstructionError'', JArr [i, JObj [(''Custom'', JNat n)]])]"
  shows "decodeProgramError err logs = \<lparr> de_code = JNat n, de_name = JStr (error_name e) \<rparr>"
  using lookup_error_number [OF assms(1)] assms(2)
  by (simp add: decodeProgramError_def custom_code_def)

text \<open>A hexadecimal code whose digits are all decimal is read as a decimal number, so the first
  ten errors are not recognised in the log line of the runtime.\<close>

lemma hex_log_misread:
  "decodeProgramError JNull (Some [''Program failed: custom program error: 0x1770''])
     = \<lparr> de_code = JNat 1770, de_name = JNull \<rparr>"
  by (simp add: decodeProgramError_def custom_code_def error_word_def is_word_char_def
      is_js_space_def is_hex_digit_def is_hex_char_def is_digit_char_def js_Number_def
      number_in_base_def digit_value_def lookup_error_def ESCROW_ERROR_CODES_def)

end
