(* ===== verification/Flow_Runner.thy ===== *)
theory Flow_Runner imports Flow_Instructions Durable_Json begin

text \<open>
  \<open>scripts/devnet/business-flow-runner.mjs\<close>: the read-only plan of the acceptance flows (program
  addresses, expiry, funding, ceiling, manifest) and the authorisation that an execution needs.

  The search for a program address is \<open>find_pda\<close>, \<open>JSON.stringify\<close> is \<open>stringify\<close>; an RPC
  adapter is a record of calls with effects on a state of its own.  A plan is a record with the
  fields that the code puts in its object; their names are all public, so the sanitising of the
  result changes nothing.
\<close>

section \<open>Flows\<close>

record flow_definition =
  fd_steps :: "string list"
  fd_liveWrites :: nat
  fd_requiresExpiryWait :: bool

definition FLOW_DEFINITIONS :: "(string \<times> flow_definition) list" where
  "FLOW_DEFINITIONS =
     [(''release'', \<lparr> fd_steps = [''initialize'', ''fund'', ''release''], fd_liveWrites = 3,
        fd_requiresExpiryWait = False \<rparr>),
      (''refund'', \<lparr> fd_steps = [''initialize'', ''fund'', ''refund''], fd_liveWrites = 3,
        fd_requiresExpiryWait = True \<rparr>),
      (''cancel'', \<lparr> fd_steps = [''initialize'', ''cancel''], fd_liveWrites = 2,
        fd_requiresExpiryWait = False \<rparr>)]"

definition flow_def :: "string \<Rightarrow> flow_definition option" where
  "flow_def flow = map_of FLOW_DEFINITIONS flow"

definition FLOW_NAMES :: "string list" where
  "FLOW_NAMES = map fst FLOW_DEFINITIONS"

definition NEGATIVE_CHECKS :: "(string \<times> string \<times> string) list" where
  "NEGATIVE_CHECKS =
     [(''unauthorized_release'', ''simulate'', ''ConstraintHasOne''),
      (''refund_before_expiry'', ''simulate'', ''EscrowNotExpired''),
      (''release_at_or_after_expiry'', ''simulate'', ''EscrowExpired'')]"

lemma flow_def_names: "flow_def f \<noteq> None \<longleftrightarrow> f \<in> set FLOW_NAMES"
  by (auto simp: flow_def_def FLOW_NAMES_def FLOW_DEFINITIONS_def)

lemma flow_def_steps: "flow_def f = Some d \<Longrightarrow> length (fd_steps d) = fd_liveWrites d"
  by (auto simp: flow_def_def FLOW_DEFINITIONS_def split: if_splits)

definition unknown_flow :: "string \<Rightarrow> string" where
  "unknown_flow flow = ''unknown flow \"'' @ flow @ ''\"''"

section \<open>Program addresses\<close>

record runner_env = key_env +
  find_pda :: "bytes list \<Rightarrow> pubkey \<Rightarrow> pubkey"
  stringify :: "js \<Rightarrow> string"

definition hex_digit :: "nat \<Rightarrow> char" where
  "hex_digit d = (if d < 10 then char_of (48 + d) else char_of (87 + d))"

definition hex_text :: "bytes \<Rightarrow> string" where
  "hex_text bs = concat (map (\<lambda>b. [hex_digit (unat b div 16), hex_digit (unat b mod 16)]) bs)"

definition instructionDiscriminator :: "'a key_env_scheme \<Rightarrow> string \<Rightarrow> bytes" where
  "instructionDiscriminator env name = subarray (sha256_bytes env (ascii (''global:'' @ name))) 0 8"

definition assertPublicKey :: "'a key_env_scheme \<Rightarrow> string \<Rightarrow> string \<Rightarrow> pubkey result" where
  "assertPublicKey env v label =
     (if valid_pk env v then Inr v else throw (label @ '' must be a valid Solana public key''))"

definition normalizeRefHash :: "bytes \<Rightarrow> bytes result" where
  "normalizeRefHash bs =
     (if length bs \<noteq> 32 then throw ''external reference hash must be 32 bytes''
      else if list_all (\<lambda>b. b = 0) bs then throw ''external reference hash must not be all zeros''
      else Inr bs)"

definition deriveEscrowPda :: "'a runner_env_scheme \<Rightarrow> string \<Rightarrow> string \<Rightarrow> bytes \<Rightarrow> pubkey result" where
  "deriveEscrowPda env programId spn externalRefHash =
     and_then (normalizeRefHash externalRefHash) (\<lambda>bs.
     and_then (assertPublicKey env spn ''sponsor'') (\<lambda>s.
     and_then (assertPublicKey env programId ''programId'') (\<lambda>p.
     Inr (find_pda env [ascii ''escrow'', key_bytes env s, bs] p))))"

definition deriveVaultPda :: "'a runner_env_scheme \<Rightarrow> string \<Rightarrow> pubkey \<Rightarrow> pubkey result" where
  "deriveVaultPda env programId esc =
     and_then (assertPublicKey env esc ''escrow'') (\<lambda>e.
     and_then (assertPublicKey env programId ''programId'') (\<lambda>p.
     Inr (find_pda env [ascii ''vault'', key_bytes env e] p)))"

record external_ref =
  er_flow :: string
  er_label :: string
  er_hash :: bytes

definition externalReference :: "'a key_env_scheme \<Rightarrow> string \<Rightarrow> string \<Rightarrow> external_ref result" where
  "externalReference env flow uniquenessToken =
     (if flow \<notin> set FLOW_NAMES then throw (unknown_flow flow)
      else if uniquenessToken = [] then throw ''a non-empty uniqueness token is required''
      else let label = ''r4-business-flow:'' @ flow @ '':'' @ uniquenessToken in
        Inr \<lparr> er_flow = flow, er_label = label, er_hash = sha256_bytes env (ascii label) \<rparr>)"

record flow_instance =
  fi_flow :: string
  fi_externalRefLabel :: string
  fi_externalRefHash :: bytes
  fi_escrow :: pubkey
  fi_vault :: pubkey

fun flow_instances ::
    "'a runner_env_scheme \<Rightarrow> string \<Rightarrow> string \<Rightarrow> string \<Rightarrow> bytes list \<Rightarrow> string list
     \<Rightarrow> flow_instance list result" where
  "flow_instances env token programId spn seen [] = Inr []"
| "flow_instances env token programId spn seen (flow # flows) =
     and_then (externalReference env flow (token @ '':'' @ flow)) (\<lambda>ref.
     if er_hash ref \<in> set seen then throw ''external references must be unique per instance''
     else
     and_then (deriveEscrowPda env programId spn (er_hash ref)) (\<lambda>esc.
     and_then (deriveVaultPda env programId esc) (\<lambda>vlt.
     and_then (flow_instances env token programId spn (er_hash ref # seen) flows) (\<lambda>rest.
     Inr (\<lparr> fi_flow = flow, fi_externalRefLabel = er_label ref, fi_externalRefHash = er_hash ref,
            fi_escrow = esc, fi_vault = vlt \<rparr> # rest)))))"

definition deriveFlowInstances ::
    "'a runner_env_scheme \<Rightarrow> string list \<Rightarrow> string \<Rightarrow> string \<Rightarrow> string \<Rightarrow> flow_instance list result" where
  "deriveFlowInstances env flows token programId spn =
     flow_instances env token programId spn [] flows"

lemma flow_instances_ok:
  assumes "flow_instances env token programId spn seen flows = Inr is"
  shows "map fi_flow is = flows \<and> distinct (map fi_externalRefHash is)
    \<and> set seen \<inter> set (map fi_externalRefHash is) = {}
    \<and> (\<forall>i\<in>set is. fi_externalRefHash i = sha256_bytes env (ascii (fi_externalRefLabel i))
        \<and> deriveEscrowPda env programId spn (fi_externalRefHash i) = Inr (fi_escrow i)
        \<and> deriveVaultPda env programId (fi_escrow i) = Inr (fi_vault i))"
  using assms
proof (induction flows arbitrary: seen "is")
  case (Cons flow flows)
  from Cons.prems obtain ref esc vlt rest where
    "externalReference env flow (token @ '':'' @ flow) = Inr ref" "er_hash ref \<notin> set seen"
    "deriveEscrowPda env programId spn (er_hash ref) = Inr esc"
    "deriveVaultPda env programId esc = Inr vlt"
    and rest: "flow_instances env token programId spn (er_hash ref # seen) flows = Inr rest"
    and "is = \<lparr> fi_flow = flow, fi_externalRefLabel = er_label ref, fi_externalRefHash = er_hash ref,
            fi_escrow = esc, fi_vault = vlt \<rparr> # rest"
    by (auto simp: and_then_eq_Inr split: if_splits)
  moreover from this(1) have "er_hash ref = sha256_bytes env (ascii (er_label ref))"
    by (auto simp: externalReference_def Let_def split: if_splits)
  ultimately show ?case using Cons.IH [OF rest] by auto
qed simp

section \<open>Expiry\<close>

record expiry_options =
  initFundBufferSeconds :: js
  refundExpiryLeadSeconds :: js
  pollIntervalMs :: js
  waitTimeoutMs :: js

definition default_expiry_options :: expiry_options where
  "default_expiry_options =
     \<lparr> initFundBufferSeconds = JNat 45, refundExpiryLeadSeconds = JNat 20,
       pollIntervalMs = JNat 3000, waitTimeoutMs = JNat 120000 \<rparr>"

record wait_plan =
  targetSeconds :: rat
  wp_pollIntervalMs :: rat
  wp_timeoutMs :: rat

record expiry_plan =
  chainTimeSeconds :: rat
  releaseExpiry :: rat
  refundExpiry :: rat
  wait :: wait_plan

definition assert_counts :: "(js \<Rightarrow> bool) \<Rightarrow> string \<Rightarrow> (string \<times> js) list \<Rightarrow> unit result" where
  "assert_counts accepts words entries =
     for_each (\<lambda>(k, v). guard (is_integer v \<and> accepts v) (k @ '' must be a '' @ words)) entries"

definition planExpiry :: "js \<Rightarrow> expiry_options \<Rightarrow> expiry_plan result" where
  "planExpiry chainTime opts =
     and_then (guard (case chainTime of JNum t \<Rightarrow> 0 < t | _ \<Rightarrow> False)
       ''authoritative chain time is required'') (\<lambda>_.
     and_then (assert_counts (\<lambda>v. 0 < num_of v) ''positive integer''
       [(''initFundBufferSeconds'', initFundBufferSeconds opts),
        (''refundExpiryLeadSeconds'', refundExpiryLeadSeconds opts),
        (''pollIntervalMs'', pollIntervalMs opts), (''waitTimeoutMs'', waitTimeoutMs opts)]) (\<lambda>_.
     let now = num_of chainTime; lead = num_of (refundExpiryLeadSeconds opts);
         timeout = num_of (waitTimeoutMs opts) in
     if lead < 10 then throw ''refund expiry lead is too fragile''
     else if timeout \<le> lead * 1000 then throw ''wait timeout must exceed the refund expiry lead''
     else Inr
       \<lparr> chainTimeSeconds = now,
         releaseExpiry = now + num_of (initFundBufferSeconds opts) + 3600,
         refundExpiry = now + lead,
         wait = \<lparr> targetSeconds = now + lead, wp_pollIntervalMs = num_of (pollIntervalMs opts),
                  wp_timeoutMs = timeout \<rparr> \<rparr>))"

lemma planExpiry_ok:
  assumes "planExpiry chainTime opts = Inr plan"
  shows "chainTime = JNum (chainTimeSeconds plan)
    \<and> chainTimeSeconds plan + 10 \<le> refundExpiry plan
    \<and> chainTimeSeconds plan + 3600 < releaseExpiry plan
    \<and> targetSeconds (wait plan) = refundExpiry plan
    \<and> (refundExpiry plan - chainTimeSeconds plan) * 1000 < wp_timeoutMs (wait plan)
    \<and> 0 < wp_pollIntervalMs (wait plan)"
  using assms
  by (auto simp: planExpiry_def and_then_eq_Inr guard_eq_Inr assert_counts_def Let_def
      split: if_splits js.splits)

datatype wait_reason = REACHED | TIMEOUT_STOP | WAITING

definition waitReached :: "rat \<Rightarrow> rat \<Rightarrow> rat \<Rightarrow> rat \<Rightarrow> wait_reason" where
  "waitReached chainTime target elapsedMs timeoutMs =
     (if target \<le> chainTime then REACHED else if timeoutMs \<le> elapsedMs then TIMEOUT_STOP
      else WAITING)"

section \<open>Funding\<close>

record funding_inputs =
  mintRent :: js
  tokenAccountRent :: js
  escrowRent :: js
  feePerTransaction :: js
  setupWrites :: js
  flowLiveWrites :: js
  tokenAccountCount :: js
  safetyReserveLamports :: js

record funding_plan =
  recoverableRent :: rat
  permanentFees :: rat
  totalWrites :: rat
  fp_safetyReserveLamports :: rat
  requiredLamports :: rat

definition computeFundingPlan :: "funding_inputs \<Rightarrow> funding_plan result" where
  "computeFundingPlan i =
     and_then (assert_counts (\<lambda>v. 0 \<le> num_of v) ''nonnegative integer''
       [(''mintRent'', mintRent i), (''tokenAccountRent'', tokenAccountRent i),
        (''escrowRent'', escrowRent i), (''feePerTransaction'', feePerTransaction i),
        (''setupWrites'', setupWrites i), (''flowLiveWrites'', flowLiveWrites i),
        (''tokenAccountCount'', tokenAccountCount i),
        (''safetyReserveLamports'', safetyReserveLamports i)]) (\<lambda>_.
     let rent = num_of (mintRent i) + num_of (escrowRent i)
           + num_of (tokenAccountRent i) * num_of (tokenAccountCount i);
         writes = num_of (setupWrites i) + num_of (flowLiveWrites i);
         fees = writes * num_of (feePerTransaction i) in
     Inr \<lparr> recoverableRent = rent, permanentFees = fees, totalWrites = writes,
           fp_safetyReserveLamports = num_of (safetyReserveLamports i),
           requiredLamports = rent + fees + num_of (safetyReserveLamports i) \<rparr>)"

lemma computeFundingPlan_ok:
  assumes "computeFundingPlan i = Inr f"
  shows "requiredLamports f = recoverableRent f + permanentFees f + fp_safetyReserveLamports f
    \<and> 0 \<le> recoverableRent f \<and> 0 \<le> permanentFees f \<and> fp_safetyReserveLamports f \<le> requiredLamports f
    \<and> permanentFees f = totalWrites f * num_of (feePerTransaction i)
    \<and> totalWrites f = num_of (setupWrites i) + num_of (flowLiveWrites i)"
  using assms
  by (auto simp: computeFundingPlan_def and_then_eq_Inr assert_counts_def guard_eq_Inr Let_def)

section \<open>Identities and ceiling\<close>

definition assertNotDeploymentAuthority :: "string \<Rightarrow> string \<Rightarrow> string \<Rightarrow> unit result" where
  "assertNotDeploymentAuthority key auth role =
     guard (key \<noteq> auth) (role @ '' must not be the deployment/upgrade authority ('' @ auth @ '')'')"

definition PROGRAMDATA_METADATA_OFFSET :: nat where
  "PROGRAMDATA_METADATA_OFFSET = 45"

definition UPGRADEABLE_LOADER :: pubkey where
  "UPGRADEABLE_LOADER = ''BPFLoaderUpgradeab1e11111111111111111111111''"

definition parseUpgradeAuthorityFromProgramData ::
    "'a key_env_scheme \<Rightarrow> bytes \<Rightarrow> pubkey option result" where
  "parseUpgradeAuthorityFromProgramData env buf =
     (if length buf < PROGRAMDATA_METADATA_OFFSET
      then throw ''program data account is too small to be ProgramData''
      else if le_value (subarray buf 0 4) \<noteq> 3 then throw ''account is not a ProgramData account''
      else Inr (if buf ! 12 \<noteq> 0 then Some (base58 env (subarray buf 13 45)) else None))"

fun computeTransactionCeiling :: "string list \<Rightarrow> nat result" where
  "computeTransactionCeiling [] = Inr 0"
| "computeTransactionCeiling (flow # flows) =
     (case flow_def flow of None \<Rightarrow> throw (unknown_flow flow)
      | Some d \<Rightarrow> and_then (computeTransactionCeiling flows) (\<lambda>n. Inr (fd_liveWrites d + n)))"

text \<open>The ceiling is the number of steps of the flows.\<close>

definition flow_steps :: "string list \<Rightarrow> (string \<times> string) list" where
  "flow_steps flows =
     concat (map (\<lambda>flow. case flow_def flow of None \<Rightarrow> []
        | Some d \<Rightarrow> map (\<lambda>step. (flow, step)) (fd_steps d)) flows)"

lemma ceiling_counts_steps:
  "computeTransactionCeiling flows = Inr n \<Longrightarrow> n = length (flow_steps flows)"
  by (induction flows arbitrary: n)
    (auto simp: flow_steps_def and_then_eq_Inr flow_def_steps split: option.splits)

section \<open>The manifest\<close>

record manifest =
  m_cluster :: string
  m_genesisHash :: js
  m_programId :: pubkey
  m_programDataAddress :: pubkey
  m_upgradeAuthority :: pubkey
  m_flows :: "string list"
  m_uniquenessToken :: string
  m_instances :: "flow_instance list"
  m_transactionCeiling :: nat
  m_amount :: js
  m_decimals :: js

text \<open>The object that \<open>buildManifest\<close> freezes, property by property.\<close>

definition buildManifest :: "manifest \<Rightarrow> js" where
  "buildManifest m = JObj
     [(''schema'', JStr ''R4_BUSINESS_FLOW_MANIFEST_V1''),
      (''cluster'', JStr (m_cluster m)), (''genesisHash'', m_genesisHash m),
      (''programId'', JStr (m_programId m)),
      (''programDataAddress'', JStr (m_programDataAddress m)),
      (''upgradeAuthority'', JStr (m_upgradeAuthority m)),
      (''tokenProgram'', JStr CLASSIC_TOKEN_PROGRAM_ID),
      (''flows'', JArr (map JStr (m_flows m))),
      (''uniquenessToken'', JStr (m_uniquenessToken m)),
      (''instances'', JArr (map (\<lambda>i. JObj
         [(''flow'', JStr (fi_flow i)), (''externalRefLabel'', JStr (fi_externalRefLabel i)),
          (''escrow'', JStr (fi_escrow i)), (''vault'', JStr (fi_vault i))]) (m_instances m))),
      (''transactionCeiling'', JNat (m_transactionCeiling m)),
      (''negativeChecks'', JArr (map (\<lambda>(i, mode, e). JObj [(''id'', JStr i), (''mode'', JStr mode)])
         NEGATIVE_CHECKS)),
      (''amount'', m_amount m), (''decimals'', m_decimals m)]"

definition manifestHash :: "'a runner_env_scheme \<Rightarrow> js \<Rightarrow> string" where
  "manifestHash env m =
     hex_text (sha256_bytes env (ascii (''R4_BUSINESS_FLOW_MANIFEST_V1'' @ [CHR 0x00]
       @ canonicalJson (stringify env) m)))"

section \<open>Plan mode\<close>

record account_info =
  ai_owner :: pubkey
  ai_executable :: bool
  ai_data :: bytes

text \<open>\<open>exposed\<close> lists the methods an RPC adapter has.\<close>

record 's plan_rpc =
  exposed :: "string list"
  rpc_getGenesisHash :: "(js, 's) effect"
  rpc_getAccountInfo :: "pubkey \<Rightarrow> (account_info option, 's) effect"
  rpc_getBalance :: "pubkey \<Rightarrow> (rat, 's) effect"

definition FORBIDDEN_RPC_METHODS :: "string list" where
  "FORBIDDEN_RPC_METHODS =
     [''sendTransaction'', ''sendRawTransaction'', ''signTransaction'', ''requestAirdrop'',
      ''confirmTransaction'']"

record identities =
  id_sponsor :: string
  id_maintainer :: string
  id_contributor :: string

definition by_role :: "identities \<Rightarrow> (string \<times> string) list" where
  "by_role i = [(''sponsor'', id_sponsor i), (''maintainer'', id_maintainer i),
     (''contributor'', id_contributor i)]"

text \<open>The request after the defaults of its destructuring.\<close>

record plan_request =
  rq_rpcUrl :: js
  rq_expectedProgramId :: string
  rq_identities :: identities
  rq_flows :: "string list"
  rq_uniquenessToken :: js
  rq_amount :: js
  rq_decimals :: js
  rq_mintRent :: js
  rq_tokenAccountRent :: js
  rq_escrowRent :: js
  rq_feePerTransaction :: js
  rq_safetyReserveLamports :: js
  rq_nowMs :: rat

record flow_plan =
  p_createdAtMs :: rat
  p_manifest :: manifest
  p_manifestHash :: string
  p_tokenProgram :: string
  p_upgradeAuthority :: pubkey
  p_identities :: identities
  p_balances :: "(string \<times> rat) list"
  p_funding :: funding_plan
  p_fundingSufficient :: bool
  p_transactionCeiling :: nat
  p_negativeChecks :: "(string \<times> string \<times> string) list"
  p_sanitizedTransactionPlan :: "(string \<times> string \<times> bytes) list"
  p_notes :: "string list"

fun read_balances :: "'s plan_rpc \<Rightarrow> (string \<times> string) list \<Rightarrow> ((string \<times> rat) list, 's) effect" where
  "read_balances rpc [] = give []"
| "read_balances rpc ((role, key) # roles) =
     then_do (rpc_getBalance rpc key) (\<lambda>b.
     then_do (read_balances rpc roles) (\<lambda>bs. give ((role, b) # bs)))"

text \<open>The authoritative reads: the program account, its program data and the upgrade authority.\<close>

definition read_program ::
    "'a runner_env_scheme \<Rightarrow> string \<Rightarrow> 's plan_rpc \<Rightarrow> (pubkey \<times> pubkey \<times> pubkey, 's) effect" where
  "read_program env expectedProgramId rpc =
     then_do (lift_result (assertPublicKey env expectedProgramId ''expectedProgramId'')) (\<lambda>programId.
     then_do (rpc_getAccountInfo rpc programId) (\<lambda>programInfo.
     case programInfo of None \<Rightarrow> fail ''deployed program account is absent''
     | Some info \<Rightarrow>
         if ai_owner info \<noteq> UPGRADEABLE_LOADER
         then fail ''program account is not owned by the upgradeable loader''
         else if \<not> ai_executable info then fail ''program account is not executable''
         else
         let programDataAddress = base58 env (subarray (ai_data info) 4 36);
             derived = find_pda env [key_bytes env programId] UPGRADEABLE_LOADER in
         if derived \<noteq> programDataAddress
         then fail ''program does not link to the expected ProgramData PDA''
         else
         then_do (rpc_getAccountInfo rpc programDataAddress) (\<lambda>pdInfo.
         case pdInfo of None \<Rightarrow> fail ''ProgramData account is absent''
         | Some pd \<Rightarrow>
             then_do (lift_result (parseUpgradeAuthorityFromProgramData env (ai_data pd))) (\<lambda>auth.
             case auth of None \<Rightarrow> fail ''program is immutable; expected a retained authority''
             | Some a \<Rightarrow> give (programId, programDataAddress, a)))))"

definition check_identities ::
    "'a runner_env_scheme \<Rightarrow> identities \<Rightarrow> pubkey \<Rightarrow> unit result" where
  "check_identities env ids auth =
     for_each (\<lambda>(role, key). and_then (assertPublicKey env key role) (\<lambda>k.
       assertNotDeploymentAuthority k auth role)) (by_role ids)"

text \<open>The code plans for seven setup writes and three token accounts.\<close>

definition plan_funding :: "plan_request \<Rightarrow> nat \<Rightarrow> funding_plan result" where
  "plan_funding rq ceil = computeFundingPlan
     \<lparr> mintRent = rq_mintRent rq, tokenAccountRent = rq_tokenAccountRent rq,
       escrowRent = rq_escrowRent rq, feePerTransaction = rq_feePerTransaction rq,
       setupWrites = JNat 7, flowLiveWrites = JNat ceil, tokenAccountCount = JNat 3,
       safetyReserveLamports = rq_safetyReserveLamports rq \<rparr>"

definition assemble_plan ::
    "'a runner_env_scheme \<Rightarrow> plan_request \<Rightarrow> js \<Rightarrow> pubkey \<times> pubkey \<times> pubkey \<Rightarrow> flow_instance list
     \<Rightarrow> (string \<times> rat) list \<Rightarrow> nat \<Rightarrow> funding_plan \<Rightarrow> flow_plan" where
  "assemble_plan env rq genesis program instances balances ceil funding =
     (case program of (programId, programDataAddress, auth) \<Rightarrow>
      let enough = (case map_of balances ''sponsor'' of
            Some b \<Rightarrow> requiredLamports funding \<le> b | None \<Rightarrow> False);
          m = \<lparr> m_cluster = ''devnet'', m_genesisHash = genesis, m_programId = programId,
                m_programDataAddress = programDataAddress, m_upgradeAuthority = auth,
                m_flows = rq_flows rq,
                m_uniquenessToken = (case rq_uniquenessToken rq of JStr s \<Rightarrow> s | _ \<Rightarrow> []),
                m_instances = instances, m_transactionCeiling = ceil,
                m_amount = rq_amount rq, m_decimals = rq_decimals rq \<rparr> in
      \<lparr> p_createdAtMs = rq_nowMs rq, p_manifest = m,
        p_manifestHash = manifestHash env (buildManifest m),
        p_tokenProgram = CLASSIC_TOKEN_PROGRAM_ID, p_upgradeAuthority = auth,
        p_identities = rq_identities rq, p_balances = balances, p_funding = funding,
        p_fundingSufficient = enough, p_transactionCeiling = ceil,
        p_negativeChecks = NEGATIVE_CHECKS,
        p_sanitizedTransactionPlan =
          map (\<lambda>(flow, step). (flow, step, instructionDiscriminator env step)) (flow_steps (rq_flows rq)),
        p_notes = (if enough then [] else
          [''BLOCKED_FUNDING: sponsor balance is below the required lamports; do not airdrop automatically'']) \<rparr>)"

definition buildPlan :: "'a runner_env_scheme \<Rightarrow> plan_request \<Rightarrow> 's plan_rpc \<Rightarrow> (flow_plan, 's) effect" where
  "buildPlan env rq rpc =
     then_do (lift_result (guard (rq_rpcUrl rq = JStr DEVNET_RPC_URL)
       ''plan requires the exact devnet RPC URL'')) (\<lambda>_.
     then_do (lift_result (for_each (\<lambda>m. guard (m \<notin> set (exposed rpc))
       (''plan-mode rpc adapter must not expose '' @ m)) FORBIDDEN_RPC_METHODS)) (\<lambda>_.
     then_do (lift_result (for_each (\<lambda>f. guard (f \<in> set FLOW_NAMES) (unknown_flow f)) (rq_flows rq))) (\<lambda>_.
     case rq_uniquenessToken rq of JStr (c # cs) \<Rightarrow>
       then_do (rpc_getGenesisHash rpc) (\<lambda>genesis.
       then_do (lift_result (assertDevnetGenesis genesis (JStr DEVNET_GENESIS_HASH))) (\<lambda>_.
       then_do (read_program env (rq_expectedProgramId rq) rpc) (\<lambda>program.
       then_do (lift_result (check_identities env (rq_identities rq) (snd (snd program)))) (\<lambda>_.
       then_do (lift_result (deriveFlowInstances env (rq_flows rq) (c # cs) (fst program)
           (id_sponsor (rq_identities rq)))) (\<lambda>instances.
       then_do (read_balances rpc (by_role (rq_identities rq))) (\<lambda>balances.
       then_do (lift_result (computeTransactionCeiling (rq_flows rq))) (\<lambda>ceil.
       then_do (lift_result (plan_funding rq ceil)) (\<lambda>funding.
       give (assemble_plan env rq genesis program instances balances ceil funding)))))))))
     | _ \<Rightarrow> fail ''a uniqueness token is required'')))"

lemma read_program_ok:
  assumes "read_program env p rpc s = (Inr (programId, pd, auth), s')"
  shows "programId = p \<and> valid_pk env p
    \<and> find_pda env [key_bytes env p] UPGRADEABLE_LOADER = pd"
  using assms
  by (auto simp: read_program_def then_do_eq_Inr assertPublicKey_def Let_def
      split: option.splits if_splits)

text \<open>What a plan promises.\<close>

lemma buildPlan_ok:
  assumes "buildPlan env rq rpc s = (Inr plan, s')"
  shows "m_genesisHash (p_manifest plan) = JStr DEVNET_GENESIS_HASH
    \<and> p_identities plan = rq_identities rq
    \<and> (\<forall>(role, key)\<in>set (by_role (p_identities plan)). key \<noteq> p_upgradeAuthority plan)
    \<and> p_transactionCeiling plan = length (flow_steps (m_flows (p_manifest plan)))
    \<and> map fi_flow (m_instances (p_manifest plan)) = m_flows (p_manifest plan)
    \<and> distinct (map fi_externalRefHash (m_instances (p_manifest plan)))
    \<and> set (m_flows (p_manifest plan)) \<subseteq> set FLOW_NAMES
    \<and> p_manifestHash plan = manifestHash env (buildManifest (p_manifest plan))
    \<and> set (exposed rpc) \<inter> set FORBIDDEN_RPC_METHODS = {}
    \<and> p_tokenProgram plan = CLASSIC_TOKEN_PROGRAM_ID
    \<and> p_upgradeAuthority plan = m_upgradeAuthority (p_manifest plan)
    \<and> p_transactionCeiling plan = m_transactionCeiling (p_manifest plan)"
proof -
  from assms obtain c cs genesis program instances balances ceil funding s1 s2 where
    token: "rq_uniquenessToken rq = JStr (c # cs)"
    and exp: "for_each (\<lambda>m. guard (m \<notin> set (exposed rpc))
       (''plan-mode rpc adapter must not expose '' @ m)) FORBIDDEN_RPC_METHODS = Inr ()"
    and fl: "for_each (\<lambda>f. guard (f \<in> set FLOW_NAMES) (unknown_flow f)) (rq_flows rq) = Inr ()"
    and gen: "assertDevnetGenesis genesis (JStr DEVNET_GENESIS_HASH) = Inr ()"
    and ids: "check_identities env (rq_identities rq) (snd (snd program)) = Inr ()"
    and ins: "deriveFlowInstances env (rq_flows rq) (c # cs) (fst program) (id_sponsor (rq_identities rq))
        = Inr instances"
    and ceil_eq: "computeTransactionCeiling (rq_flows rq) = Inr ceil"
    and plan: "plan = assemble_plan env rq genesis program instances balances ceil funding"
    by (auto simp: buildPlan_def then_do_eq_Inr split: js.splits list.splits)
  obtain programId pd auth where pr: "program = (programId, pd, auth)" by (cases program)
  from ids pr have "\<forall>(role, key)\<in>set (by_role (rq_identities rq)). key \<noteq> auth"
    by (auto simp: check_identities_def for_each_eq_Inr and_then_eq_Inr assertPublicKey_def
        assertNotDeploymentAuthority_def guard_eq_Inr split: if_splits)
  moreover from gen have "genesis = JStr DEVNET_GENESIS_HASH"
    by (simp add: assertDevnetGenesis_def guard_eq_Inr)
  moreover from exp have "set (exposed rpc) \<inter> set FORBIDDEN_RPC_METHODS = {}"
    unfolding for_each_eq_Inr guard_eq_Inr by blast
  moreover from fl have "set (rq_flows rq) \<subseteq> set FLOW_NAMES"
    unfolding for_each_eq_Inr guard_eq_Inr by blast
  moreover note flow_instances_ok [OF ins [unfolded deriveFlowInstances_def]]
    ceiling_counts_steps [OF ceil_eq]
  ultimately show ?thesis unfolding plan assemble_plan_def pr Let_def by simp
qed

section \<open>Authorisation\<close>

definition authorization_fields :: "string list" where
  "authorization_fields =
     [''manifestHash'', ''expectedGenesisHash'', ''expectedProgramId'', ''executionId'',
      ''transactionCeiling'', ''enabledFlows'', ''identityAssertions'', ''acknowledgeDevnet'']"

record grant =
  g_executionId :: js
  g_enabledFlows :: "string list"
  g_transactionCeiling :: nat

text \<open>\<open>[...v]\<close>: the elements of an array, the characters of a string; other values do not
  iterate.\<close>

fun spread_list :: "js \<Rightarrow> js list result" where
  "spread_list (JArr vs) = Inr vs"
| "spread_list (JStr s) = Inr (map (\<lambda>c. JStr [c]) s)"
| "spread_list _ = Inl TypeError"

definition planned_flow :: "flow_plan \<Rightarrow> js \<Rightarrow> string result" where
  "planned_flow plan v =
     (case v of JStr f \<Rightarrow>
        (if f \<in> set (m_flows (p_manifest plan)) then Inr f
         else throw (''flow \"'' @ f @ ''\" is not in the plan''))
      | _ \<Rightarrow> throw ''flow is not in the plan'')"

definition assert_identities :: "flow_plan \<Rightarrow> js \<Rightarrow> unit result" where
  "assert_identities plan asserted =
     for_each (\<lambda>(role, key).
       and_then (guard (get asserted role = JStr key) (''identity assertion mismatch for '' @ role)) (\<lambda>_.
       assertNotDeploymentAuthority key (p_upgradeAuthority plan) role)) (by_role (p_identities plan))"

definition authorizeExecution :: "flow_plan \<Rightarrow> js \<Rightarrow> grant result" where
  "authorizeExecution plan auth =
     and_then (for_each (\<lambda>k. guard (\<not> nullish (get auth k) \<and> get auth k \<noteq> JStr '''')
       (''execute authorization is missing \"'' @ k @ ''\"'')) authorization_fields) (\<lambda>_.
     and_then (guard (get auth ''acknowledgeDevnet'' = JStr ''R4_DEVNET_BUSINESS_FLOW'')
       ''explicit devnet acknowledgement is required'') (\<lambda>_.
     and_then (guard (get auth ''manifestHash'' = JStr (p_manifestHash plan))
       ''stale or mismatched manifest hash'') (\<lambda>_.
     and_then (guard (strict_equal (get auth ''expectedGenesisHash'') (m_genesisHash (p_manifest plan)))
       ''cluster/genesis hash mismatch'') (\<lambda>_.
     and_then (guard (get auth ''expectedGenesisHash'' = JStr DEVNET_GENESIS_HASH)
       ''execute authorization must target devnet genesis'') (\<lambda>_.
     and_then (guard (get auth ''expectedProgramId'' = JStr (m_programId (p_manifest plan)))
       ''program ID mismatch'') (\<lambda>_.
     and_then (guard (get auth ''transactionCeiling'' = JNat (p_transactionCeiling plan))
       ''transaction ceiling mismatch'') (\<lambda>_.
     and_then (spread_list (get auth ''enabledFlows'')) (\<lambda>vs.
     and_then (map_result (planned_flow plan) vs) (\<lambda>enabled.
     and_then (assert_identities plan (get auth ''identityAssertions'')) (\<lambda>_.
     Inr \<lparr> g_executionId = get auth ''executionId'', g_enabledFlows = enabled,
           g_transactionCeiling = p_transactionCeiling plan \<rparr>))))))))))"

lemma authorizeExecution_ok:
  assumes "authorizeExecution plan auth = Inr g"
  shows "get auth ''manifestHash'' = JStr (p_manifestHash plan)
    \<and> get auth ''expectedGenesisHash'' = JStr DEVNET_GENESIS_HASH
    \<and> m_genesisHash (p_manifest plan) = JStr DEVNET_GENESIS_HASH
    \<and> get auth ''expectedProgramId'' = JStr (m_programId (p_manifest plan))
    \<and> get auth ''acknowledgeDevnet'' = JStr ''R4_DEVNET_BUSINESS_FLOW''
    \<and> g_executionId g = get auth ''executionId''
    \<and> g_transactionCeiling g = p_transactionCeiling plan
    \<and> set (g_enabledFlows g) \<subseteq> set (m_flows (p_manifest plan))
    \<and> (\<forall>(role, key)\<in>set (by_role (p_identities plan)).
         get (get auth ''identityAssertions'') role = JStr key \<and> key \<noteq> p_upgradeAuthority plan)"
proof -
  have pf: "f \<in> set (m_flows (p_manifest plan))" if "planned_flow plan v = Inr f" for v f
    using that by (auto simp: planned_flow_def split: js.splits if_splits)
  have enabled: "set fs \<subseteq> set (m_flows (p_manifest plan))"
    if "map_result (planned_flow plan) vs = Inr fs" for vs fs
    using that pf unfolding map_result_eq_Inr by (induction rule: list_all2_induct) auto
  from assms obtain vs fs where
    a: "get auth ''manifestHash'' = JStr (p_manifestHash plan)"
      "get auth ''expectedGenesisHash'' = JStr DEVNET_GENESIS_HASH"
      "strict_equal (get auth ''expectedGenesisHash'') (m_genesisHash (p_manifest plan))"
      "get auth ''expectedProgramId'' = JStr (m_programId (p_manifest plan))"
      "get auth ''acknowledgeDevnet'' = JStr ''R4_DEVNET_BUSINESS_FLOW''"
    and fs: "map_result (planned_flow plan) vs = Inr fs"
    and ids: "assert_identities plan (get auth ''identityAssertions'') = Inr ()"
    and g: "g = \<lparr> g_executionId = get auth ''executionId'', g_enabledFlows = fs,
           g_transactionCeiling = p_transactionCeiling plan \<rparr>"
    by (auto simp: authorizeExecution_def and_then_eq_Inr guard_eq_Inr)
  from a(2,3) have "m_genesisHash (p_manifest plan) = JStr DEVNET_GENESIS_HASH"
    using strict_equal_imp_eq by metis
  moreover from ids have "\<forall>(role, key)\<in>set (by_role (p_identities plan)).
         get (get auth ''identityAssertions'') role = JStr key \<and> key \<noteq> p_upgradeAuthority plan"
    by (auto simp: assert_identities_def for_each_eq_Inr and_then_eq_Inr guard_eq_Inr
        assertNotDeploymentAuthority_def)
  ultimately show ?thesis using a enabled [OF fs] g by simp
qed

section \<open>Execution of the flows through injected dependencies\<close>

type_synonym flow_step = "string \<times> string"

record 's flow_deps =
  signAndSend :: "flow_step \<Rightarrow> (js, 's) effect"
  readAccount :: "flow_step \<Rightarrow> (js, 's) effect"

datatype run_status = RUN_STOPPED string | RUN_COMPLETE

record run_report =
  rr_status :: run_status
  rr_sent :: nat
  rr_evidence :: "js list"

definition evidence_entry :: "flow_step \<Rightarrow> string \<Rightarrow> (string \<times> js) list \<Rightarrow> js" where
  "evidence_entry step st more_fields =
     JObj (spread_with [(''flow'', JStr (fst step)), (''instruction'', JStr (snd step)),
       (''status'', JStr st)] more_fields)"

fun error_text :: "js_error \<Rightarrow> string" where
  "error_text (Error m) = m"
| "error_text TypeError = ''TypeError''"

text \<open>A failed send is evidence and a stop; the exception of a failed read leaves the function.\<close>

fun run_steps ::
    "'s flow_deps \<Rightarrow> nat \<Rightarrow> flow_step list \<Rightarrow> nat \<Rightarrow> js list \<Rightarrow> (run_report, 's) effect" where
  "run_steps deps ceil [] sent evidence =
     give \<lparr> rr_status = RUN_COMPLETE, rr_sent = sent, rr_evidence = evidence \<rparr>"
| "run_steps deps ceil (step # steps) sent evidence =
     (if ceil \<le> sent then fail ''transaction ceiling reached''
      else (\<lambda>s. case signAndSend deps step s of
        (Inl e, s') \<Rightarrow>
          (Inr \<lparr> rr_status = RUN_STOPPED ''STEP_FAILED'', rr_sent = sent,
                 rr_evidence = evidence
                   @ [evidence_entry step ''FAILED'' [(''error'', JStr (error_text e))]] \<rparr>, s')
      | (Inr outcome, s') \<Rightarrow>
          then_do (readAccount deps step) (\<lambda>post.
            if truthy (get post ''expectedStatus'')
                \<and> \<not> strict_equal (get post ''observedStatus'') (get post ''expectedStatus'')
            then give \<lparr> rr_status = RUN_STOPPED ''UNEXPECTED_STATE'', rr_sent = Suc sent,
                rr_evidence = evidence @ [evidence_entry step ''UNEXPECTED_STATE''
                  (own_fields (sanitizePublicOutput post))] \<rparr>
            else run_steps deps ceil steps (Suc sent)
              (evidence @ [evidence_entry step ''CONFIRMED''
                 (own_fields (sanitizePublicOutput outcome)
                  @ own_fields (sanitizePublicOutput post))])) s'))"

definition executeBusinessFlows ::
    "flow_plan \<Rightarrow> js \<Rightarrow> 's flow_deps option \<Rightarrow> (run_report, 's) effect" where
  "executeBusinessFlows plan auth deps =
     then_do (lift_result (authorizeExecution plan auth)) (\<lambda>g.
     case deps of
       None \<Rightarrow> fail ''execute requires injected signAndSend and readAccount dependencies''
     | Some d \<Rightarrow>
         then_do (lift_result (assertClassicTokenProgram (JStr (p_tokenProgram plan)))) (\<lambda>_.
         let steps = flow_steps (g_enabledFlows g) in
         if g_transactionCeiling g * 2 < length steps
         then fail ''planned steps exceed the authorized ceiling''
         else run_steps d (g_transactionCeiling g) steps 0 []))"

text \<open>Dependencies that keep a lg of the steps they were asked to send.\<close>

definition logging :: "'s flow_deps \<Rightarrow> ('s \<times> flow_step list) flow_deps" where
  "logging deps =
     \<lparr> signAndSend = (\<lambda>step (s, lg). case signAndSend deps step s of (r, s') \<Rightarrow> (r, (s', lg @ [step]))),
       readAccount = (\<lambda>step (s, lg). case readAccount deps step s of (r, s') \<Rightarrow> (r, (s', lg))) \<rparr>"

lemma run_steps_log:
  assumes "run_steps (logging deps) ceil steps sent evidence (s, lg) = (r, (s', lg'))"
  shows "\<exists>k\<le>length steps. lg' = lg @ take k steps \<and> (sent \<le> ceil \<longrightarrow> sent + k \<le> ceil)
    \<and> (\<forall>rep. r = Inr rep \<longrightarrow> (rr_status rep = RUN_COMPLETE \<longrightarrow> k = length steps \<and> rr_sent rep = sent + k)
        \<and> rr_sent rep \<le> sent + k \<and> sent + k \<le> Suc (rr_sent rep)
        \<and> length (rr_evidence rep) = length evidence + k)"
  using assms
proof (induction steps arbitrary: sent evidence s lg)
  case (Cons step steps)
  show ?case
  proof (cases "ceil \<le> sent")
    case True
    with Cons.prems show ?thesis by (auto intro: exI [of _ 0])
  next
    case False
    obtain res s1 where sd: "signAndSend deps step s = (res, s1)" by fastforce
    then have lsd: "signAndSend (logging deps) step (s, lg) = (res, (s1, lg @ [step]))"
      by (simp add: logging_def)
    show ?thesis
    proof (cases res)
      case (Inl e)
      with Cons.prems lsd False show ?thesis by (auto intro!: exI [of _ 1])
    next
      case (Inr outcome)
      obtain rd s2 where "readAccount deps step s1 = (rd, s2)" by fastforce
      then have lrd: "readAccount (logging deps) step (s1, lg @ [step]) = (rd, (s2, lg @ [step]))"
        by (simp add: logging_def)
      show ?thesis
      proof (cases rd)
        case (Inl e)
        with Cons.prems lsd Inr lrd False show ?thesis by (auto intro!: exI [of _ 1])
      next
        case post: (Inr post)
        show ?thesis
        proof (cases "truthy (get post ''expectedStatus'')
            \<and> \<not> strict_equal (get post ''observedStatus'') (get post ''expectedStatus'')")
          case True
          with Cons.prems lsd Inr lrd post False show ?thesis by (auto intro!: exI [of _ 1])
        next
          case ok: False
          from Cons.prems lsd Inr lrd post False ok
          have run: "run_steps (logging deps) ceil steps (Suc sent)
              (evidence @ [evidence_entry step ''CONFIRMED'' (own_fields (sanitizePublicOutput outcome)
                 @ own_fields (sanitizePublicOutput post))]) (s2, lg @ [step]) = (r, (s', lg'))"
            by (auto split: if_splits)
          from Cons.IH [OF run] obtain k where "k \<le> length steps" "lg' = (lg @ [step]) @ take k steps"
            "Suc sent \<le> ceil \<longrightarrow> Suc sent + k \<le> ceil"
            "\<forall>rep. r = Inr rep \<longrightarrow> (rr_status rep = RUN_COMPLETE \<longrightarrow> k = length steps \<and> rr_sent rep = Suc sent + k)
              \<and> rr_sent rep \<le> Suc sent + k \<and> Suc sent + k \<le> Suc (rr_sent rep)
              \<and> length (rr_evidence rep) = Suc (length evidence) + k"
            by auto
          with False show ?thesis by (intro exI [of _ "Suc k"]) auto
        qed
      qed
    qed
  qed
qed (auto intro: exI [of _ 0])

lemma executeBusinessFlows_log:
  assumes "executeBusinessFlows plan auth (Some (logging deps)) (s, []) = (r, (s', lg))"
  shows "length lg \<le> p_transactionCeiling plan
    \<and> (\<forall>g. authorizeExecution plan auth = Inr g \<longrightarrow> (\<exists>k. lg = take k (flow_steps (g_enabledFlows g))))
    \<and> (\<forall>rep. r = Inr rep \<longrightarrow> length (rr_evidence rep) = length lg
        \<and> (rr_status rep = RUN_COMPLETE \<longrightarrow> (\<exists>g. authorizeExecution plan auth = Inr g
              \<and> lg = flow_steps (g_enabledFlows g) \<and> rr_sent rep = length lg)))"
proof (cases "authorizeExecution plan auth")
  case (Inl e)
  with assms show ?thesis by (auto simp: executeBusinessFlows_def)
next
  case (Inr g)
  note ceil = authorizeExecution_ok [OF Inr]
  show ?thesis
  proof (cases "assertClassicTokenProgram (JStr (p_tokenProgram plan)) = Inr ()
      \<and> length (flow_steps (g_enabledFlows g)) \<le> g_transactionCeiling g * 2")
    case False
    with assms Inr show ?thesis
      by (cases "assertClassicTokenProgram (JStr (p_tokenProgram plan))")
        (auto simp: executeBusinessFlows_def Let_def)
  next
    case True
    with assms Inr have run: "run_steps (logging deps) (g_transactionCeiling g)
        (flow_steps (g_enabledFlows g)) 0 [] (s, []) = (r, (s', lg))"
      by (simp add: executeBusinessFlows_def Let_def)
    from run_steps_log [OF this] obtain k where k: "k \<le> length (flow_steps (g_enabledFlows g))"
      "lg = take k (flow_steps (g_enabledFlows g))" "k \<le> g_transactionCeiling g"
      "\<forall>rep. r = Inr rep \<longrightarrow>
        (rr_status rep = RUN_COMPLETE \<longrightarrow> k = length (flow_steps (g_enabledFlows g)) \<and> rr_sent rep = k)
        \<and> length (rr_evidence rep) = k"
      by auto
    with Inr ceil show ?thesis by auto
  qed
qed

text \<open>When the read after a send throws, the evidence of the steps before it is lost.\<close>

lemma read_failure_loses_evidence:
  assumes "sent < ceil" and "signAndSend deps step s = (Inr outcome, s1)"
    and "readAccount deps step s1 = (Inl e, s2)"
  shows "run_steps deps ceil (step # steps) sent evidence s = (Inl e, s2)"
  using assms by simp

end
