(* ===== verification/Flow_Execution.thy ===== *)
theory Flow_Execution imports Flow_Runner begin

text \<open>
  \<open>scripts/devnet/business-flow-execution.mjs\<close>: the driver of the acceptance matrix.  It reserves
  the execution identifier, rechecks the chain, and then sends the setup and the steps of every
  enabled flow one after the other, each confirmed and verified before the next, with read-only
  simulations of forbidden instructions and a bounded wait for the refund's expiry in between.

  The adapter (\<open>business-flow-adapter.mjs\<close>, or a fake) and the clock are a record of calls with
  effects on a state of their own.  \<open>r_trace\<close> lists the sends, simulations and waits of a run in
  their order; nothing in the code depends on it.  Receipts are best effort, as in the code: a
  receipt that cannot be written is ignored.
\<close>

section \<open>The adapter\<close>

record tx_request =
  tx_instructions :: "instruction list"
  tx_feePayerRole :: string
  tx_signerRoles :: "string list"

record sent_tx =
  st_signature :: js
  st_blockhash :: js
  st_lastValidBlockHeight :: js

record simulation =
  sim_err :: js
  sim_logs :: "string list option"
  sim_units :: js

text \<open>What the file of execution identifiers holds: nothing, text that does not parse, or a value.\<close>

datatype stored_ids = No_File | Unreadable | Stored js

datatype outcome =
    NOT_STARTED | CONFIRMED_SUCCESS | CONFIRMED_FAILED | CONFIRMATION_UNKNOWN | PARTIAL_SUCCESS
  | STOPPED_ON_STATE_MISMATCH | STOPPED_ON_SIMULATION | STOPPED_ON_EXPIRY_TIMEOUT
  | RUNNING | COMPLETE

datatype verification =
    Status_Check (v_ok: bool) (v_observed: string) (v_expected: string)
  | Delta_Check (v_ok: bool) (v_delta: int) (v_expected_delta: int)

datatype evidence_detail = No_Detail | Send_Error string | Chain_Error js | Verified verification

record evidence_item =
  e_id :: string
  e_signature :: js
  e_outcome :: outcome
  e_detail :: evidence_detail

datatype step_log =
    Send_Log string string "string list" outcome js
  | Wait_Log string wait_reason

record simulation_log =
  sl_id :: string
  sl_status :: string
  sl_decoded :: "decoded_error option"

record full_ceiling =
  c_setupWrites :: nat
  c_flowWrites :: nat
  c_totalWrites :: nat
  c_simulations :: nat

datatype receipt =
    Evidence_Receipt js "evidence_item list" full_ceiling
  | Matrix_Receipt js "step_log list" "simulation_log list" "string option" "string option" outcome

record 's flow_adapter =
  signerPublicKeys :: "(string \<times> string) list"
  ad_readAccount :: "pubkey \<Rightarrow> (account_info option, 's) effect"
  ad_readBalance :: "pubkey \<Rightarrow> (rat, 's) effect"
  ad_rent :: "nat \<Rightarrow> (nat, 's) effect"
  ad_getChainTime :: "(js, 's) effect"
  ad_simulate :: "tx_request \<Rightarrow> (simulation, 's) effect"
  ad_send :: "tx_request \<Rightarrow> (sent_tx, 's) effect"
  ad_confirm :: "sent_tx \<Rightarrow> (js, 's) effect"
  ad_signatureStatus :: "js \<Rightarrow> (js, 's) effect"
  ad_writeReceipt :: "receipt \<Rightarrow> (unit, 's) effect"
  ad_readIds :: "(stored_ids, 's) effect"
  ad_makeDir :: "(unit, 's) effect"
  ad_writeIds :: "js \<Rightarrow> (unit, 's) effect"
  ad_now :: "(rat, 's) effect"
  ad_sleep :: "rat \<Rightarrow> (unit, 's) effect"

section \<open>Ceiling, replay store and freshness\<close>

definition SETUP_TRANSACTION_COUNT :: nat where
  "SETUP_TRANSACTION_COUNT = 4"

definition computeFullCeiling :: "string list \<Rightarrow> full_ceiling result" where
  "computeFullCeiling flows =
     and_then (computeTransactionCeiling flows) (\<lambda>flowWrites.
     Inr \<lparr> c_setupWrites = SETUP_TRANSACTION_COUNT, c_flowWrites = flowWrites,
           c_totalWrites = SETUP_TRANSACTION_COUNT + flowWrites, c_simulations = 3 \<rparr>)"

text \<open>The identifiers already used; a file that does not parse, or holds no array, counts as
  empty.\<close>

fun used_ids :: "stored_ids \<Rightarrow> js list" where
  "used_ids (Stored (JArr vs)) = vs"
| "used_ids _ = []"

definition reserveExecutionId :: "'s flow_adapter \<Rightarrow> js \<Rightarrow> (nat, 's) effect" where
  "reserveExecutionId ad executionId =
     (case executionId of JStr (c # cs) \<Rightarrow>
        then_do (ad_readIds ad) (\<lambda>stored.
        then_do (if stored = No_File then ad_makeDir ad else give ()) (\<lambda>_.
        if executionId \<in> set (used_ids stored)
        then fail (''execution ID \"'' @ (c # cs) @ ''\" has already been reserved'')
        else
          let ids = used_ids stored @ [executionId] in
          then_do (ad_writeIds ad (JArr ids)) (\<lambda>_. give (length ids))))
      | _ \<Rightarrow> fail ''a non-empty execution ID is required'')"

definition assertPlanFresh :: "flow_plan \<Rightarrow> rat \<Rightarrow> rat \<Rightarrow> rat result" where
  "assertPlanFresh plan nowMs ttlMs =
     (if p_createdAtMs plan = 0 then throw ''plan is missing a creation timestamp''
      else if ttlMs \<le> 0 then throw ''valid nowMs and positive ttlMs are required''
      else
      let age = nowMs - p_createdAtMs plan in
      if age < 0 then throw ''plan creation timestamp is in the future''
      else if ttlMs < age then throw ''plan is stale''
      else Inr age)"

section \<open>Rechecks\<close>

definition referenceHashFor :: "'a key_env_scheme \<Rightarrow> flow_instance \<Rightarrow> bytes" where
  "referenceHashFor env i = sha256_bytes env (ascii (fi_externalRefLabel i))"

fun recheck_instances ::
    "'a runner_env_scheme \<Rightarrow> flow_plan \<Rightarrow> 's flow_adapter \<Rightarrow> flow_instance list \<Rightarrow> (unit, 's) effect" where
  "recheck_instances env plan ad [] = give ()"
| "recheck_instances env plan ad (i # is) =
     (let programId = m_programId (p_manifest plan) in
      then_do (lift_result (deriveEscrowPda env programId (id_sponsor (p_identities plan))
          (referenceHashFor env i))) (\<lambda>esc.
      if esc \<noteq> fi_escrow i then fail ''escrow PDA re-derivation mismatch''
      else
      then_do (lift_result (deriveVaultPda env programId esc)) (\<lambda>vlt.
      if vlt \<noteq> fi_vault i then fail ''vault PDA re-derivation mismatch''
      else
      then_do (ad_readAccount ad (fi_escrow i)) (\<lambda>existing.
      if existing \<noteq> None then fail (''escrow '' @ fi_escrow i @ '' already exists (collision)'')
      else recheck_instances env plan ad is))))"

definition recheckOnChainBeforeExecution ::
    "'a runner_env_scheme \<Rightarrow> flow_plan \<Rightarrow> 's flow_adapter \<Rightarrow> (pubkey \<times> rat, 's) effect" where
  "recheckOnChainBeforeExecution env plan ad =
     then_do (ad_readAccount ad (m_programId (p_manifest plan))) (\<lambda>programInfo.
     case programInfo of None \<Rightarrow> fail ''program is no longer executable''
     | Some info \<Rightarrow>
         if \<not> ai_executable info then fail ''program is no longer executable''
         else if ai_owner info \<noteq> UPGRADEABLE_LOADER then fail ''program owner changed''
         else
         let pdAddr = base58 env (subarray (ai_data info) 4 36) in
         if pdAddr \<noteq> m_programDataAddress (p_manifest plan) then fail ''ProgramData linkage changed''
         else
         then_do (recheck_instances env plan ad (m_instances (p_manifest plan))) (\<lambda>_.
         then_do (ad_readBalance ad (id_sponsor (p_identities plan))) (\<lambda>sponsorBalance.
         if sponsorBalance < requiredLamports (p_funding plan)
         then fail ''sponsor funding insufficient at execution time''
         else give (pdAddr, sponsorBalance))))"

section \<open>Negative simulations\<close>

record negative_case =
  nc_id :: string
  nc_expected :: "js list"
  nc_build :: "instruction result"
  nc_feePayerRole :: string
  nc_signerRoles :: "string list"

text \<open>An error is expected when its name is listed, or when \<open>null\<close> is listed.\<close>

definition expected_error :: "js list \<Rightarrow> decoded_error \<Rightarrow> bool" where
  "expected_error expected d \<longleftrightarrow> de_name d \<in> set expected \<or> JNull \<in> set expected"

datatype simulations_report =
    Simulations_Failed string "simulation_log list" | Simulations_Pass "simulation_log list"

fun negative_simulations ::
    "'s flow_adapter \<Rightarrow> negative_case list \<Rightarrow> simulation_log list \<Rightarrow> (simulations_report, 's) effect" where
  "negative_simulations ad [] results = give (Simulations_Pass results)"
| "negative_simulations ad (c # cs) results =
     then_do (lift_result (nc_build c)) (\<lambda>ix.
     then_do (ad_simulate ad \<lparr> tx_instructions = [ix], tx_feePayerRole = nc_feePayerRole c,
         tx_signerRoles = nc_signerRoles c \<rparr>) (\<lambda>sim.
     if \<not> truthy (sim_err sim)
     then give (Simulations_Failed (nc_id c @ '' simulation unexpectedly succeeded'')
       (results @ [\<lparr> sl_id = nc_id c, sl_status = ''UNEXPECTED_SUCCESS'', sl_decoded = None \<rparr>]))
     else
     let d = decodeProgramError (sim_err sim) (sim_logs sim); ok = expected_error (nc_expected c) d;
         results' = results @ [\<lparr> sl_id = nc_id c,
           sl_status = (if ok then ''EXPECTED_ERROR'' else ''UNEXPECTED_ERROR''), sl_decoded = Some d \<rparr>] in
     if \<not> ok
     then give (Simulations_Failed (nc_id c @ '' produced '' @ shown (coalesce (de_name d) (JStr ''unknown error'')))
       results')
     else negative_simulations ad cs results'))"

record simulation_context =
  sc_accounts :: flow_accounts
  sc_identities :: identities
  sc_attacker :: "string option"
  sc_fundedEscrow :: string
  sc_fundedVault :: string
  sc_expiredEscrow :: string
  sc_expiredVault :: string
  sc_sponsorToken :: string
  sc_contributorToken :: string

definition runNegativeSimulations ::
    "key_env \<Rightarrow> simulation_context \<Rightarrow> 's flow_adapter \<Rightarrow> (simulations_report, 's) effect" where
  "runNegativeSimulations env cx ad =
     (let ids = sc_identities cx;
          accounts_of = (\<lambda>esc vlt. (sc_accounts cx)\<lparr> fa_sponsor := id_sponsor ids, fa_escrow := esc, fa_vault := vlt \<rparr>) in
      negative_simulations ad
       [\<lparr> nc_id = ''unauthorized_release'',
          nc_expected = [JStr ''InvalidContributorTokenOwner'', JStr ''ConstraintHasOne'', JNull],
          nc_build = buildRelease env (accounts_of (sc_fundedEscrow cx) (sc_fundedVault cx))
            (case sc_attacker cx of Some a \<Rightarrow> a | None \<Rightarrow> id_contributor ids) (sc_contributorToken cx),
          nc_feePayerRole = ''sponsor'', nc_signerRoles = [''contributor''] \<rparr>,
        \<lparr> nc_id = ''refund_before_expiry'', nc_expected = [JStr ''EscrowNotExpired''],
          nc_build = buildRefund env (accounts_of (sc_fundedEscrow cx) (sc_fundedVault cx)) (sc_sponsorToken cx),
          nc_feePayerRole = ''sponsor'', nc_signerRoles = [''sponsor''] \<rparr>,
        \<lparr> nc_id = ''release_at_or_after_expiry'', nc_expected = [JStr ''EscrowExpired''],
          nc_build = buildRelease env (accounts_of (sc_expiredEscrow cx) (sc_expiredVault cx))
            (id_maintainer ids) (sc_contributorToken cx),
          nc_feePayerRole = ''sponsor'', nc_signerRoles = [''maintainer''] \<rparr>] [])"

section \<open>Waiting for expiry\<close>

text \<open>The loop polls until the wait is decided.  The model polls at most \<open>fuel\<close> times and then
  throws \<open>STILL_WAITING\<close>, after which nothing else happens, as in a code that still waits.\<close>

definition STILL_WAITING :: string where
  "STILL_WAITING = ''still waiting for expiry''"

text \<open>The chain time of an adapter is a number; anything else compares like a time before every
  target.\<close>

definition chain_time :: "js \<Rightarrow> rat" where
  "chain_time v = num_of v"

fun wait_loop :: "nat \<Rightarrow> wait_plan \<Rightarrow> 's flow_adapter \<Rightarrow> rat \<Rightarrow> (wait_reason, 's) effect" where
  "wait_loop 0 wp ad start = fail STILL_WAITING"
| "wait_loop (Suc fuel) wp ad start =
     then_do (ad_getChainTime ad) (\<lambda>t.
     then_do (ad_now ad) (\<lambda>now.
     let decision = waitReached (chain_time t) (targetSeconds wp) (now - start) (wp_timeoutMs wp) in
     if decision \<noteq> WAITING then give decision
     else then_do (ad_sleep ad (wp_pollIntervalMs wp)) (\<lambda>_. wait_loop fuel wp ad start)))"

definition waitForExpiry :: "nat \<Rightarrow> wait_plan \<Rightarrow> 's flow_adapter \<Rightarrow> (wait_reason, 's) effect" where
  "waitForExpiry fuel wp ad = then_do (ad_now ad) (wait_loop fuel wp ad)"

lemma wait_loop_never_waiting: "wait_loop fuel wp ad start s = (Inr r, s') \<Longrightarrow> r \<noteq> WAITING"
  by (induction fuel arbitrary: s) (auto simp: then_do_eq_Inr Let_def split: if_splits)

section \<open>Verification of the state after a step\<close>

definition verifyEscrowStatus :: "'a key_env_scheme \<Rightarrow> bytes \<Rightarrow> string \<Rightarrow> verification result" where
  "verifyEscrowStatus env data expected =
     and_then (decodeEscrow (key_env.truncate env) data) (\<lambda>d.
       Inr (Status_Check (d_status d = expected) (d_status d) expected))"

text \<open>Amounts are the decimal texts of the decoder.\<close>

definition verifyTokenDelta :: "string \<Rightarrow> string \<Rightarrow> int \<Rightarrow> verification" where
  "verifyTokenDelta before_amount after_amount expected =
     (let delta = int (number_in_base 10 after_amount) - int (number_in_base 10 before_amount)
      in Delta_Check (delta = expected) delta expected)"

definition assertSignersExcludeAuthority :: "'s flow_adapter \<Rightarrow> string \<Rightarrow> unit result" where
  "assertSignersExcludeAuthority ad auth =
     for_each (\<lambda>(role, key). assertNotDeploymentAuthority key auth role) (signerPublicKeys ad)"

section \<open>One guarded send\<close>

datatype matrix_event = Ev_Sent string | Ev_Simulated string | Ev_Waited wait_reason

record 's run =
  world :: 's
  r_sent :: nat
  r_evidence :: "evidence_item list"
  r_steps :: "step_log list"
  r_sims :: "simulation_log list"
  r_pending :: "string option"
  r_stopReason :: "string option"
  r_status :: outcome
  r_trace :: "matrix_event list"

definition lift_world :: "('a, 's) effect \<Rightarrow> ('a, 's run) effect" where
  "lift_world m w = (case m (world w) of (r, s') \<Rightarrow> (r, w\<lparr> world := s' \<rparr>))"

definition best_effort :: "(unit, 's) effect \<Rightarrow> (unit, 's) effect" where
  "best_effort m s = (Inr (), snd (m s))"

definition happens :: "matrix_event \<Rightarrow> (unit, 's run) effect" where
  "happens ev w = (Inr (), w\<lparr> r_trace := r_trace w @ [ev] \<rparr>)"

text \<open>What a step needs besides the state: the adapter, the grant, the ceiling, the plan, and the
  accounts and amounts derived before the first send.\<close>

record 's matrix =
  mx_ad :: "'s flow_adapter"
  mx_grant :: grant
  mx_ceiling :: full_ceiling
  mx_env :: runner_env
  mx_builders :: token_builders
  mx_plan :: flow_plan
  mx_mint :: string
  mx_mintAuthority :: string
  mx_sponsorToken :: string
  mx_contributorToken :: string
  mx_amount :: int
  mx_decimals :: js
  mx_mintLamports :: nat
  mx_fuel :: nat

record step_result =
  sr_stop :: bool
  sr_outcome :: outcome
  sr_signature :: js

definition stopped :: "outcome \<Rightarrow> step_result" where
  "stopped oc = \<lparr> sr_stop = True, sr_outcome = oc, sr_signature = Undefined \<rparr>"

definition record_entry :: "'s matrix \<Rightarrow> evidence_item \<Rightarrow> (unit, 's run) effect" where
  "record_entry mx item w =
     (let w1 = w\<lparr> r_evidence := r_evidence w @ [item] \<rparr> in
      best_effort (lift_world (ad_writeReceipt (mx_ad mx)
        (Evidence_Receipt (g_executionId (mx_grant mx)) (r_evidence w1) (mx_ceiling mx)))) w1)"

definition evidence_of :: "string \<Rightarrow> js \<Rightarrow> outcome \<Rightarrow> evidence_detail \<Rightarrow> evidence_item" where
  "evidence_of step_id sg oc d = \<lparr> e_id = step_id, e_signature = sg, e_outcome = oc, e_detail = d \<rparr>"

text \<open>The status lookup after a failed confirmation; a lookup that throws is \<open>null\<close>.\<close>

definition lookup_status :: "'s matrix \<Rightarrow> js \<Rightarrow> (js, 's run) effect" where
  "lookup_status mx sg w =
     (case lift_world (ad_signatureStatus (mx_ad mx) sg) w of
        (Inr v, w1) \<Rightarrow> (Inr v, w1) | (Inl e, w1) \<Rightarrow> (Inr JNull, w1))"

definition status_outcome :: "js \<Rightarrow> outcome" where
  "status_outcome st =
     (if truthy (get st ''err'') then CONFIRMED_FAILED
      else if truthy st then CONFIRMED_SUCCESS else CONFIRMATION_UNKNOWN)"

definition confirm_sent :: "'s matrix \<Rightarrow> string \<Rightarrow> sent_tx \<Rightarrow> (step_result option, 's run) effect" where
  "confirm_sent mx step_id out w =
     (case lift_world (ad_confirm (mx_ad mx) out) w of
        (Inr confirmed, w1) \<Rightarrow>
          (let err = get (get confirmed ''value'') ''err'' in
           if truthy err
           then then_do (record_entry mx (evidence_of step_id (st_signature out) CONFIRMED_FAILED (Chain_Error err)))
             (\<lambda>_. give (Some (stopped CONFIRMED_FAILED))) w1
           else (Inr None, w1))
      | (Inl e, w1) \<Rightarrow>
          then_do (lookup_status mx (st_signature out)) (\<lambda>st.
          then_do (record_entry mx (evidence_of step_id (st_signature out) (status_outcome st) No_Detail)) (\<lambda>_.
          give (if status_outcome st \<noteq> CONFIRMED_SUCCESS then Some (stopped (status_outcome st))
                else None))) w1)"

definition verify_sent ::
    "'s matrix \<Rightarrow> string \<Rightarrow> sent_tx \<Rightarrow> (verification, 's run) effect option \<Rightarrow> (step_result, 's run) effect" where
  "verify_sent mx step_id out verify =
     (let success = \<lparr> sr_stop = False, sr_outcome = CONFIRMED_SUCCESS, sr_signature = st_signature out \<rparr> in
      case verify of
        None \<Rightarrow>
          then_do (record_entry mx (evidence_of step_id (st_signature out) CONFIRMED_SUCCESS No_Detail))
            (\<lambda>_. give success)
      | Some check \<Rightarrow>
          then_do check (\<lambda>v.
          if \<not> v_ok v
          then then_do (record_entry mx
              (evidence_of step_id (st_signature out) STOPPED_ON_STATE_MISMATCH (Verified v)))
            (\<lambda>_. give (stopped STOPPED_ON_STATE_MISMATCH))
          else then_do (record_entry mx (evidence_of step_id (st_signature out) CONFIRMED_SUCCESS (Verified v)))
            (\<lambda>_. give success)))"

definition sendStep ::
    "'s matrix \<Rightarrow> string \<Rightarrow> tx_request \<Rightarrow> (verification, 's run) effect option \<Rightarrow> (step_result, 's run) effect" where
  "sendStep mx step_id tx verify w =
     (if c_totalWrites (mx_ceiling mx) \<le> r_sent w then (throw ''full transaction ceiling reached'', w)
      else case then_do (happens (Ev_Sent step_id)) (\<lambda>_. lift_world (ad_send (mx_ad mx) tx)) w of
        (Inl e, w1) \<Rightarrow>
          then_do (record_entry mx (evidence_of step_id Undefined CONFIRMATION_UNKNOWN (Send_Error (error_text e))))
            (\<lambda>_. give (stopped CONFIRMATION_UNKNOWN)) w1
      | (Inr out, w1) \<Rightarrow>
          then_do (confirm_sent mx step_id out) (\<lambda>failure.
            case failure of Some r \<Rightarrow> give r | None \<Rightarrow> verify_sent mx step_id out verify)
          (w1\<lparr> r_sent := Suc (r_sent w1) \<rparr>))"

section \<open>Steps of the matrix\<close>

record report =
  rp_status :: outcome
  rp_stopReason :: "string option"
  rp_steps :: "step_log list"
  rp_sims :: "simulation_log list"
  rp_pending :: "string option"

definition report_of :: "'s run \<Rightarrow> report" where
  "report_of w = \<lparr> rp_status = r_status w, rp_stopReason = r_stopReason w, rp_steps = r_steps w,
     rp_sims = r_sims w, rp_pending = r_pending w \<rparr>"

definition writeMatrixReceipt :: "'s matrix \<Rightarrow> (unit, 's run) effect" where
  "writeMatrixReceipt mx w =
     best_effort (lift_world (ad_writeReceipt (mx_ad mx)
       (Matrix_Receipt (g_executionId (mx_grant mx)) (r_steps w) (r_sims w) (r_pending w)
          (r_stopReason w) (r_status w)))) w"

definition update :: "('s run \<Rightarrow> 's run) \<Rightarrow> (unit, 's run) effect" where
  "update f w = (Inr (), f w)"

definition stop :: "'s matrix \<Rightarrow> string \<Rightarrow> outcome \<Rightarrow> (report option, 's run) effect" where
  "stop mx reason st =
     then_do (update (\<lambda>w. w\<lparr> r_stopReason := Some reason, r_status := st, r_pending := None \<rparr>)) (\<lambda>_.
     then_do (writeMatrixReceipt mx) (\<lambda>_. (\<lambda>w. (Inr (Some (report_of w)), w))))"

fun outcome_text :: "outcome \<Rightarrow> string" where
  "outcome_text NOT_STARTED = ''NOT_STARTED''"
| "outcome_text CONFIRMED_SUCCESS = ''CONFIRMED_SUCCESS''"
| "outcome_text CONFIRMED_FAILED = ''CONFIRMED_FAILED''"
| "outcome_text CONFIRMATION_UNKNOWN = ''CONFIRMATION_UNKNOWN''"
| "outcome_text PARTIAL_SUCCESS = ''PARTIAL_SUCCESS''"
| "outcome_text STOPPED_ON_STATE_MISMATCH = ''STOPPED_ON_STATE_MISMATCH''"
| "outcome_text STOPPED_ON_SIMULATION = ''STOPPED_ON_SIMULATION''"
| "outcome_text STOPPED_ON_EXPIRY_TIMEOUT = ''STOPPED_ON_EXPIRY_TIMEOUT''"
| "outcome_text RUNNING = ''RUNNING''"
| "outcome_text COMPLETE = ''COMPLETE''"

text \<open>A step either goes on (\<open>None\<close>) or ends the matrix with a report.  A send: the pending marker,
  the guarded send, its log entry, and the stop under the step's reason.  The instructions are
  built before anything else happens.\<close>

definition send ::
    "'s matrix \<Rightarrow> string \<Rightarrow> string \<Rightarrow> instruction list result \<Rightarrow> string \<Rightarrow> string list
     \<Rightarrow> (verification, 's run) effect option \<Rightarrow> (report option, 's run) effect" where
  "send mx step_id reason built feePayerRole signerRoles verify =
     then_do (lift_result built) (\<lambda>ixs.
     then_do (update (\<lambda>w. w\<lparr> r_pending := Some step_id \<rparr>)) (\<lambda>_.
     then_do (writeMatrixReceipt mx) (\<lambda>_.
     then_do (sendStep mx step_id \<lparr> tx_instructions = ixs, tx_feePayerRole = feePayerRole,
         tx_signerRoles = signerRoles \<rparr> verify) (\<lambda>r.
     then_do (update (\<lambda>w. w\<lparr> r_steps := r_steps w @ [Send_Log step_id feePayerRole signerRoles (sr_outcome r)
         (coalesce (sr_signature r) JNull)], r_pending := None \<rparr>)) (\<lambda>_.
     then_do (writeMatrixReceipt mx) (\<lambda>_.
     if sr_stop r then stop mx (reason @ '':'' @ outcome_text (sr_outcome r)) (sr_outcome r)
     else give None))))))"

text \<open>A simulation of an instruction that must fail, and its guard.\<close>

definition simulate ::
    "'s matrix \<Rightarrow> string \<Rightarrow> instruction result \<Rightarrow> string list \<Rightarrow> js list \<Rightarrow> (report option, 's run) effect" where
  "simulate mx step_id built signerRoles expected =
     then_do (update (\<lambda>w. w\<lparr> r_pending := Some step_id \<rparr>)) (\<lambda>_.
     then_do (writeMatrixReceipt mx) (\<lambda>_.
     then_do (lift_result built) (\<lambda>ix.
     then_do (happens (Ev_Simulated step_id)) (\<lambda>_.
     then_do (lift_world (ad_simulate (mx_ad mx) \<lparr> tx_instructions = [ix],
         tx_feePayerRole = ''sponsor'', tx_signerRoles = signerRoles \<rparr>)) (\<lambda>sim.
     then_do (update (\<lambda>w. w\<lparr> r_pending := None \<rparr>)) (\<lambda>_.
     if \<not> truthy (sim_err sim) then
       then_do (update (\<lambda>w. w\<lparr> r_sims := r_sims w
         @ [\<lparr> sl_id = step_id, sl_status = ''UNEXPECTED_SUCCESS'', sl_decoded = None \<rparr>] \<rparr>)) (\<lambda>_.
       then_do (writeMatrixReceipt mx) (\<lambda>_.
       stop mx (''SIMULATION_UNEXPECTED_SUCCESS:'' @ step_id) STOPPED_ON_SIMULATION))
     else
       let d = decodeProgramError (sim_err sim) (sim_logs sim); ok = expected_error expected d in
       then_do (update (\<lambda>w. w\<lparr> r_sims := r_sims w @ [\<lparr> sl_id = step_id,
           sl_status = (if ok then ''EXPECTED_ERROR'' else ''UNEXPECTED_ERROR''),
           sl_decoded = Some d \<rparr>] \<rparr>)) (\<lambda>_.
       then_do (writeMatrixReceipt mx) (\<lambda>_.
       if ok then give None
       else stop mx (''SIMULATION_UNEXPECTED_ERROR:'' @ step_id) STOPPED_ON_SIMULATION))))))))"

definition wait_for_refund :: "'s matrix \<Rightarrow> wait_plan \<Rightarrow> (report option, 's run) effect" where
  "wait_for_refund mx wp =
     then_do (update (\<lambda>w. w\<lparr> r_pending := Some ''refund:wait_expiry'' \<rparr>)) (\<lambda>_.
     then_do (writeMatrixReceipt mx) (\<lambda>_.
     then_do (lift_world (waitForExpiry (mx_fuel mx) wp (mx_ad mx))) (\<lambda>reason.
     then_do (happens (Ev_Waited reason)) (\<lambda>_.
     then_do (update (\<lambda>w. w\<lparr> r_steps := r_steps w @ [Wait_Log ''refund:wait_expiry'' reason],
         r_pending := None \<rparr>)) (\<lambda>_.
     then_do (writeMatrixReceipt mx) (\<lambda>_.
     if reason \<noteq> REACHED then stop mx ''REFUND_EXPIRY_WAIT_TIMEOUT'' STOPPED_ON_EXPIRY_TIMEOUT
     else give None))))))"

definition account_data :: "'s matrix \<Rightarrow> string \<Rightarrow> string \<Rightarrow> (bytes, 's run) effect" where
  "account_data mx what address =
     then_do (lift_world (ad_readAccount (mx_ad mx) address)) (\<lambda>info.
     case info of None \<Rightarrow> fail (what @ '' '' @ address @ '' is absent at verification time'')
     | Some i \<Rightarrow> give (ai_data i))"

definition tokenAmount :: "'s matrix \<Rightarrow> string \<Rightarrow> (string, 's run) effect" where
  "tokenAmount mx ata =
     then_do (account_data mx ''token account'' ata) (\<lambda>d. lift_result (decodeTokenAccountAmount d))"

definition verifyStatus :: "'s matrix \<Rightarrow> string \<Rightarrow> string \<Rightarrow> (verification, 's run) effect" where
  "verifyStatus mx esc expected =
     then_do (account_data mx ''escrow'' esc) (\<lambda>d. lift_result (verifyEscrowStatus (mx_env mx) d expected))"

definition verify_payout ::
    "'s matrix \<Rightarrow> string \<Rightarrow> string \<Rightarrow> string \<Rightarrow> string \<Rightarrow> (verification, 's run) effect" where
  "verify_payout mx esc expected ata before_amount =
     then_do (verifyStatus mx esc expected) (\<lambda>st.
     if \<not> v_ok st then give st
     else then_do (tokenAmount mx ata) (\<lambda>after_amount.
       give (verifyTokenDelta before_amount after_amount (mx_amount mx))))"

text \<open>Steps in turn, as long as each goes on.\<close>

fun in_turn :: "(report option, 's) effect list \<Rightarrow> (report option, 's) effect" where
  "in_turn [] = give None"
| "in_turn (m # ms) =
     then_do m (\<lambda>r. case r of Some rep \<Rightarrow> give (Some rep) | None \<Rightarrow> in_turn ms)"

section \<open>The matrix\<close>

abbreviation keys :: "'s matrix \<Rightarrow> key_env" where
  "keys mx \<equiv> key_env.truncate (mx_env mx)"

definition ids :: "'s matrix \<Rightarrow> identities" where
  "ids mx = p_identities (mx_plan mx)"

definition flow_accounts_of :: "'s matrix \<Rightarrow> flow_instance \<Rightarrow> flow_accounts" where
  "flow_accounts_of mx i =
     \<lparr> fa_programId = m_programId (p_manifest (mx_plan mx)), fa_sponsor = id_sponsor (ids mx),
       fa_mint = mx_mint mx, fa_escrow = fi_escrow i, fa_vault = fi_vault i \<rparr>"

definition one :: "instruction result \<Rightarrow> instruction list result" where
  "one r = and_then r (\<lambda>ix. Inr [ix])"

definition setup_steps :: "'s matrix \<Rightarrow> (report option, 's run) effect list" where
  "setup_steps mx =
     (let spn = id_sponsor (ids mx); ctr = id_contributor (ids mx); b = mx_builders mx in
      [send mx ''setup:create_mint'' ''SETUP_FAILED:create_mint''
         (buildCreateMintInstructions (keys mx) b spn (mx_mint mx) (mx_mintAuthority mx)
            (mx_decimals mx) (mx_mintLamports mx)) ''sponsor'' [''mint''] None,
       send mx ''setup:sponsor_ata'' ''SETUP_FAILED:sponsor_ata''
         (and_then (buildCreateAssociatedTokenAccount (keys mx) b spn spn (mx_mint mx))
            (\<lambda>(ata, ix). Inr [ix])) ''sponsor'' [] None,
       send mx ''setup:contributor_ata'' ''SETUP_FAILED:contributor_ata''
         (and_then (buildCreateAssociatedTokenAccount (keys mx) b spn ctr (mx_mint mx))
            (\<lambda>(ata, ix). Inr [ix])) ''sponsor'' [] None,
       send mx ''setup:mint_tokens'' ''SETUP_FAILED:mint_tokens''
         (one (buildMintTo (keys mx) b (mx_mint mx) (mx_sponsorToken mx) (mx_mintAuthority mx)
            (mx_amount mx * int (max 1 (length (g_enabledFlows (mx_grant mx)))))))
         ''sponsor'' [''mintAuthority''] None])"

text \<open>\<open>BigInt\<close> of a number that is not an integer throws.\<close>

definition big_int :: "rat \<Rightarrow> int result" where
  "big_int r = (if of_int \<lfloor>r\<rfloor> = r then Inr \<lfloor>r\<rfloor>
     else throw ''The number cannot be converted to a BigInt because it is not an integer'')"

definition send_initialize ::
    "'s matrix \<Rightarrow> string \<Rightarrow> string \<Rightarrow> flow_instance \<Rightarrow> rat \<Rightarrow> (report option, 's run) effect" where
  "send_initialize mx step_id reason i expy =
     send mx step_id reason
       (and_then (big_int expy) (\<lambda>e.
        one (buildInitializeEscrow (keys mx) (flow_accounts_of mx i) (referenceHashFor (mx_env mx) i)
          (mx_amount mx) e (id_maintainer (ids mx)) (id_contributor (ids mx)))))
       ''sponsor'' [''sponsor''] (Some (verifyStatus mx (fi_escrow i) ''Initialized''))"

definition send_fund ::
    "'s matrix \<Rightarrow> string \<Rightarrow> string \<Rightarrow> flow_instance \<Rightarrow> (report option, 's run) effect" where
  "send_fund mx step_id reason i =
     send mx step_id reason
       (one (buildFundEscrow (keys mx) (flow_accounts_of mx i) (mx_sponsorToken mx)))
       ''sponsor'' [''sponsor''] (Some (verifyStatus mx (fi_escrow i) ''Funded''))"

definition release_steps ::
    "'s matrix \<Rightarrow> expiry_plan \<Rightarrow> flow_instance \<Rightarrow> (report option, 's run) effect list" where
  "release_steps mx expy i =
     (let a = flow_accounts_of mx i in
      [send_initialize mx ''release:initialize'' ''RELEASE_FAILED:initialize'' i (releaseExpiry expy),
       send_fund mx ''release:fund'' ''RELEASE_FAILED:fund'' i,
       simulate mx ''unauthorized_release''
         (buildRelease (keys mx) a (id_contributor (ids mx)) (mx_contributorToken mx))
         [''contributor''] [JStr ''InvalidContributorTokenOwner'', JStr ''ConstraintHasOne'', JNull],
       then_do (tokenAmount mx (mx_contributorToken mx)) (\<lambda>before_amount.
         send mx ''release:release'' ''RELEASE_FAILED:release''
           (one (buildRelease (keys mx) a (id_maintainer (ids mx)) (mx_contributorToken mx)))
           ''maintainer'' [''maintainer'']
           (Some (verify_payout mx (fi_escrow i) ''Released'' (mx_contributorToken mx) before_amount)))])"

definition refund_steps ::
    "'s matrix \<Rightarrow> expiry_plan \<Rightarrow> flow_instance \<Rightarrow> (report option, 's run) effect list" where
  "refund_steps mx expy i =
     (let a = flow_accounts_of mx i in
      [send_initialize mx ''refund:initialize'' ''REFUND_FAILED:initialize'' i (refundExpiry expy),
       send_fund mx ''refund:fund'' ''REFUND_FAILED:fund'' i,
       simulate mx ''refund_before_expiry'' (buildRefund (keys mx) a (mx_sponsorToken mx))
         [''sponsor''] [JStr ''EscrowNotExpired''],
       wait_for_refund mx (wait expy),
       simulate mx ''release_at_or_after_expiry''
         (buildRelease (keys mx) a (id_maintainer (ids mx)) (mx_contributorToken mx))
         [''maintainer''] [JStr ''EscrowExpired''],
       then_do (tokenAmount mx (mx_sponsorToken mx)) (\<lambda>before_amount.
         send mx ''refund:refund'' ''REFUND_FAILED:refund''
           (one (buildRefund (keys mx) a (mx_sponsorToken mx))) ''sponsor'' [''sponsor'']
           (Some (verify_payout mx (fi_escrow i) ''Refunded'' (mx_sponsorToken mx) before_amount)))])"

definition cancel_steps ::
    "'s matrix \<Rightarrow> expiry_plan \<Rightarrow> flow_instance \<Rightarrow> (report option, 's run) effect list" where
  "cancel_steps mx expy i =
     [send_initialize mx ''cancel:initialize'' ''CANCEL_FAILED:initialize'' i (releaseExpiry expy),
      send mx ''cancel:cancel'' ''CANCEL_FAILED:cancel''
        (one (buildCancel (keys mx) (flow_accounts_of mx i))) ''sponsor'' [''sponsor'']
        (Some (verifyStatus mx (fi_escrow i) ''Cancelled''))]"

definition instanceForFlow :: "flow_plan \<Rightarrow> string \<Rightarrow> flow_instance result" where
  "instanceForFlow plan flow =
     (case find (\<lambda>i. fi_flow i = flow) (m_instances (p_manifest plan)) of
        Some i \<Rightarrow> Inr i | None \<Rightarrow> throw (''plan has no instance for flow \"'' @ flow @ ''\"''))"

text \<open>The block of a flow: nothing unless the flow is enabled.\<close>

definition flow_block ::
    "'s matrix \<Rightarrow> string \<Rightarrow> (flow_instance \<Rightarrow> (report option, 's run) effect list)
     \<Rightarrow> (report option, 's run) effect" where
  "flow_block mx flow steps =
     (if flow \<in> set (g_enabledFlows (mx_grant mx)) then
        then_do (lift_result (instanceForFlow (mx_plan mx) flow)) (\<lambda>i. in_turn (steps i))
      else give None)"

definition run_matrix :: "'s matrix \<Rightarrow> (report, 's run) effect" where
  "run_matrix mx =
     then_do (in_turn (setup_steps mx)) (\<lambda>r. case r of Some rep \<Rightarrow> give rep | None \<Rightarrow>
     then_do (lift_world (ad_getChainTime (mx_ad mx))) (\<lambda>t.
     then_do (lift_result (planExpiry t default_expiry_options)) (\<lambda>expy.
     then_do (in_turn [flow_block mx ''release'' (release_steps mx expy),
                       flow_block mx ''refund'' (refund_steps mx expy),
                       flow_block mx ''cancel'' (cancel_steps mx expy)]) (\<lambda>r.
     case r of Some rep \<Rightarrow> give rep | None \<Rightarrow>
     then_do (update (\<lambda>w. w\<lparr> r_status := COMPLETE \<rparr>)) (\<lambda>_.
     then_do (writeMatrixReceipt mx) (\<lambda>_. (\<lambda>w. (Inr (report_of w), w))))))))"

section \<open>The entry points\<close>

record execution_options =
  o_nowMs :: "rat option"
  o_ttlMs :: "rat option"
  o_mintLamports :: "nat option"
  o_fuel :: nat

definition runAcceptanceMatrix ::
    "'a runner_env_scheme \<Rightarrow> flow_plan \<Rightarrow> js \<Rightarrow> 's flow_adapter \<Rightarrow> execution_options
     \<Rightarrow> (grant \<times> full_ceiling, 's) effect" where
  "runAcceptanceMatrix env plan auth ad opts =
     then_do (lift_result (authorizeExecution plan auth)) (\<lambda>g.
     then_do (case o_nowMs opts of Some t \<Rightarrow> give t | None \<Rightarrow> ad_now ad) (\<lambda>nowMs.
     then_do (lift_result (assertPlanFresh plan nowMs (case o_ttlMs opts of Some t \<Rightarrow> t | None \<Rightarrow> 300000))) (\<lambda>_.
     then_do (lift_result (assertSignersExcludeAuthority ad (p_upgradeAuthority plan))) (\<lambda>_.
     then_do (reserveExecutionId ad (g_executionId g)) (\<lambda>_.
     then_do (recheckOnChainBeforeExecution env plan ad) (\<lambda>_.
     then_do (lift_result (computeFullCeiling (g_enabledFlows g))) (\<lambda>ceil.
     give (g, ceil))))))))"

text \<open>\<open>Number(plan.manifest.amount)\<close>: numbers and decimal texts; other values are refused by the
  test that follows.\<close>

definition plan_amount :: "js \<Rightarrow> int result" where
  "plan_amount v =
     (let n = (case v of JNum r \<Rightarrow> JNum r
        | JBool True \<Rightarrow> JNat 1
        | JStr s \<Rightarrow> (if s \<noteq> [] \<and> list_all is_digit_char s then JNat (number_in_base 10 s) else JNonFinite)
        | _ \<Rightarrow> JNonFinite) in
      if is_integer n \<and> 0 < num_of n then Inr \<lfloor>num_of n\<rfloor>
      else throw ''plan amount must be a positive integer'')"

definition signer_key :: "'s flow_adapter \<Rightarrow> string \<Rightarrow> string \<Rightarrow> string result" where
  "signer_key ad role message =
     (case map_of (signerPublicKeys ad) role of Some (c # cs) \<Rightarrow> Inr (c # cs) | _ \<Rightarrow> throw message)"

definition start_run :: "'s \<Rightarrow> 's run" where
  "start_run s = \<lparr> world = s, r_sent = 0, r_evidence = [], r_steps = [], r_sims = [],
     r_pending = None, r_stopReason = None, r_status = RUNNING, r_trace = [] \<rparr>"

text \<open>Everything before the first send: the checks, then the accounts the steps share.\<close>

definition prepare_matrix ::
    "runner_env \<Rightarrow> token_builders \<Rightarrow> flow_plan \<Rightarrow> js \<Rightarrow> 's flow_adapter \<Rightarrow> execution_options
     \<Rightarrow> ('s matrix, 's) effect" where
  "prepare_matrix env b plan auth ad opts =
     then_do (runAcceptanceMatrix env plan auth ad opts) (\<lambda>(g, ceil).
     then_do (lift_result (signer_key ad ''mint''
       ''adapter must expose an ephemeral mint signer public key'')) (\<lambda>mnt.
     then_do (lift_result (signer_key ad ''mintAuthority''
       ''adapter must expose a mintAuthority signer public key'')) (\<lambda>mintAuthority.
     then_do (lift_result (plan_amount (m_amount (p_manifest plan)))) (\<lambda>amt.
     then_do (case o_mintLamports opts of Some n \<Rightarrow> give n | None \<Rightarrow> ad_rent ad MINT_SIZE) (\<lambda>lamports.
     then_do (lift_result (associatedTokenAddress (key_env.truncate env) b mnt
       (id_sponsor (p_identities plan)))) (\<lambda>spn_token.
     then_do (lift_result (associatedTokenAddress (key_env.truncate env) b mnt
       (id_contributor (p_identities plan)))) (\<lambda>ctr_token.
     give \<lparr> mx_ad = ad, mx_grant = g, mx_ceiling = ceil, mx_env = env, mx_builders = b,
            mx_plan = plan, mx_mint = mnt, mx_mintAuthority = mintAuthority,
            mx_sponsorToken = spn_token, mx_contributorToken = ctr_token, mx_amount = amt,
            mx_decimals = m_decimals (p_manifest plan), mx_mintLamports = lamports,
            mx_fuel = o_fuel opts \<rparr>)))))))"

text \<open>The result with the run that led to it; \<open>None\<close> when the matrix was refused before it began.\<close>

definition executeFullMatrix ::
    "runner_env \<Rightarrow> token_builders \<Rightarrow> flow_plan \<Rightarrow> js \<Rightarrow> 's flow_adapter \<Rightarrow> execution_options \<Rightarrow> 's
     \<Rightarrow> report result \<times> 's run" where
  "executeFullMatrix env b plan auth ad opts s =
     (case prepare_matrix env b plan auth ad opts s of
        (Inl e, s') \<Rightarrow> (Inl e, start_run s')
      | (Inr mx, s') \<Rightarrow> run_matrix mx (start_run s'))"

section \<open>What a run does, in its order\<close>

text \<open>Calls that leave the trace and the step log alone.\<close>

definition quiet :: "('a, 's run) effect \<Rightarrow> bool" where
  "quiet m \<longleftrightarrow> (\<forall>tr st. keeps (\<lambda>w. r_trace w = tr \<and> r_steps w = st) m)"

lemma quietD: "quiet m \<Longrightarrow> m w = (r, w') \<Longrightarrow> r_trace w' = r_trace w \<and> r_steps w' = r_steps w"
  by (auto simp: quiet_def keeps_def)

lemma quietI: "(\<And>w r w'. m w = (r, w') \<Longrightarrow> r_trace w' = r_trace w \<and> r_steps w' = r_steps w) \<Longrightarrow> quiet m"
  by (auto simp: quiet_def keeps_def)

named_theorems quiet_intros \<open>calls that leave the trace and the step log alone\<close>

lemma quiet_then [quiet_intros]: "quiet m \<Longrightarrow> (\<And>x. quiet (f x)) \<Longrightarrow> quiet (then_do m f)"
  unfolding quiet_def by (auto intro: keeps_intros)

lemma quiet_plain [quiet_intros]:
  "quiet (give x)" "quiet (fail e)" "quiet (lift_result res)"
  by (simp_all add: quiet_def keeps_intros)

lemma quiet_world [quiet_intros]: "quiet (lift_world m)"
  by (rule quietI) (auto simp: lift_world_def split: prod.splits)

lemma quiet_record [quiet_intros]: "quiet (record_entry mx item)"
  by (rule quietI)
    (auto simp: record_entry_def best_effort_def lift_world_def Let_def split: prod.splits)

lemma quiet_receipt [quiet_intros]: "quiet (writeMatrixReceipt mx)"
  by (rule quietI) (auto simp: writeMatrixReceipt_def best_effort_def lift_world_def split: prod.splits)

lemma quiet_stop [quiet_intros]: "quiet (stop mx reason st)"
  unfolding stop_def
  by (intro quiet_then quiet_receipt) (auto intro!: quietI simp: update_def)

lemma quiet_account_data [quiet_intros]: "quiet (account_data mx what address)"
  unfolding account_data_def by (auto intro!: quiet_intros split: option.split)

lemma quiet_tokenAmount [quiet_intros]: "quiet (tokenAmount mx ata)"
  unfolding tokenAmount_def by (intro quiet_intros)

lemma quiet_verifyStatus [quiet_intros]: "quiet (verifyStatus mx esc expected)"
  unfolding verifyStatus_def by (intro quiet_intros)

lemma quiet_verify_payout [quiet_intros]: "quiet (verify_payout mx esc expected ata before_amount)"
  unfolding verify_payout_def by (auto intro!: quiet_intros)

lemma quiet_confirm [quiet_intros]: "quiet (confirm_sent mx step_id out)"
proof (rule quietI)
  fix w :: "'a run" and r w'
  assume run: "confirm_sent mx step_id out w = (r, w')"
  obtain res w1 where c: "lift_world (ad_confirm (mx_ad mx) out) w = (res, w1)" by fastforce
  have q: "quiet (then_do (lookup_status mx (st_signature out)) (\<lambda>st.
      then_do (record_entry mx (evidence_of step_id (st_signature out) (status_outcome st) No_Detail)) (\<lambda>_.
      give (if status_outcome st \<noteq> CONFIRMED_SUCCESS then Some (stopped (status_outcome st)) else None))))"
  proof (intro quiet_intros)
    show "quiet (lookup_status mx (st_signature out))"
      by (rule quietI) (auto simp: lookup_status_def lift_world_def split: prod.splits sum.splits)
  qed
  have q': "quiet (then_do (record_entry mx item) (\<lambda>_. give v))" for item and v :: "step_result option"
    by (intro quiet_intros)
  from run c quietD [OF quiet_world c] show "r_trace w' = r_trace w \<and> r_steps w' = r_steps w"
    by (auto simp: confirm_sent_def Let_def dest!: quietD [OF q] quietD [OF q'] split: sum.splits if_splits)
qed

lemma quiet_verify_sent [quiet_intros]:
  "(\<And>check. verify = Some check \<Longrightarrow> quiet check) \<Longrightarrow> quiet (verify_sent mx step_id out verify)"
  unfolding verify_sent_def Let_def by (auto intro!: quiet_intros split: option.split)

lemma verify_sent_outcome:
  "verify_sent mx step_id out verify w = (Inr r, w') \<Longrightarrow> \<not> sr_stop r \<Longrightarrow> sr_outcome r = CONFIRMED_SUCCESS"
  by (auto simp: verify_sent_def then_do_eq_Inr stopped_def Let_def split: option.splits if_splits)

text \<open>A guarded send: refused by the ceiling without effect, or one call of the adapter's \<open>send\<close>;
  a step that goes on was confirmed.\<close>

lemma sendStep_sends:
  assumes run: "sendStep mx step_id tx verify w = (r, w')"
    and quiet: "\<And>check. verify = Some check \<Longrightarrow> quiet check"
  shows "r_steps w' = r_steps w
    \<and> (r_trace w' = r_trace w @ [Ev_Sent step_id]
       \<or> (r_trace w' = r_trace w \<and> (\<exists>e. r = Inl e) \<and> c_totalWrites (mx_ceiling mx) \<le> r_sent w))
    \<and> (\<forall>res. r = Inr res \<longrightarrow> \<not> sr_stop res \<longrightarrow> sr_outcome res = CONFIRMED_SUCCESS)"
proof (cases "c_totalWrites (mx_ceiling mx) \<le> r_sent w")
  case True
  with run show ?thesis by (auto simp: sendStep_def)
next
  case False
  let ?m = "then_do (happens (Ev_Sent step_id)) (\<lambda>_. lift_world (ad_send (mx_ad mx) tx))"
  obtain res w1 where c: "?m w = (res, w1)" by fastforce
  then have w1: "r_trace w1 = r_trace w @ [Ev_Sent step_id] \<and> r_steps w1 = r_steps w"
    by (auto simp: then_do_def happens_def lift_world_def split: prod.splits)
  show ?thesis
  proof (cases res)
    case (Inl e)
    let ?rest = "then_do (record_entry mx (evidence_of step_id Undefined CONFIRMATION_UNKNOWN
        (Send_Error (error_text e)))) (\<lambda>_. give (stopped CONFIRMATION_UNKNOWN))"
    have q: "quiet ?rest" by (intro quiet_intros)
    from run c Inl False have rest: "?rest w1 = (r, w')" by (simp add: sendStep_def)
    then have "r = Inr x \<Longrightarrow> sr_stop x" for x by (auto simp: then_do_eq_Inr stopped_def)
    with quietD [OF q rest] w1 show ?thesis by auto
  next
    case (Inr out)
    let ?rest = "then_do (confirm_sent mx step_id out) (\<lambda>failure.
            case failure of Some r \<Rightarrow> give r | None \<Rightarrow> verify_sent mx step_id out verify)"
    have q: "quiet ?rest"
      using quiet by (auto intro!: quiet_intros split: option.split)
    from run c Inr False have rest: "?rest (w1\<lparr> r_sent := Suc (r_sent w1) \<rparr>) = (r, w')"
      by (simp add: sendStep_def)
    have "sr_outcome x = CONFIRMED_SUCCESS" if "r = Inr x" "\<not> sr_stop x" for x
    proof -
      from rest that(1) obtain failure w2 where "confirm_sent mx step_id out (w1\<lparr> r_sent := Suc (r_sent w1) \<rparr>)
          = (Inr failure, w2)"
        and f: "(case failure of Some r \<Rightarrow> give r | None \<Rightarrow> verify_sent mx step_id out verify) w2 = (Inr x, w')"
        by (auto simp: then_do_eq_Inr)
      then have "failure = None \<or> (\<exists>oc. failure = Some (stopped oc))"
        by (auto simp: confirm_sent_def then_do_eq_Inr Let_def split: prod.splits sum.splits if_splits)
      with f that(2) verify_sent_outcome show ?thesis by (auto simp: stopped_def)
    qed
    with quietD [OF q rest] w1 show ?thesis by auto
  qed
qed

subsection \<open>Scripts\<close>

text \<open>A run that ended early played a prefix of its script, or left it at a wait that was not
  reached.\<close>

definition cut :: "matrix_event list \<Rightarrow> matrix_event list \<Rightarrow> bool" where
  "cut script evs \<longleftrightarrow>
     (\<exists>k. evs = take k script)
     \<or> (\<exists>k reason. k < length script \<and> script ! k = Ev_Waited REACHED
          \<and> evs = take k script @ [Ev_Waited reason])"

lemma cut_append_left: "cut es evs \<Longrightarrow> cut (es @ es') evs"
proof -
  assume "cut es evs"
  then consider k where "evs = take k es" | k reason where "k < length es" "es ! k = Ev_Waited REACHED"
      "evs = take k es @ [Ev_Waited reason]"
    unfolding cut_def by blast
  then show ?thesis
  proof cases
    case 1
    then have "evs = take (min k (length es)) (es @ es')" by (simp add: min_def)
    then show ?thesis unfolding cut_def by blast
  next
    case 2
    then show ?thesis unfolding cut_def
      by (intro disjI2 exI [of _ k] exI [of _ reason]) (simp add: nth_append)
  qed
qed

lemma cut_append_right: "cut es' evs \<Longrightarrow> cut (es @ es') (es @ evs)"
proof -
  assume "cut es' evs"
  then consider k where "evs = take k es'" | k reason where "k < length es'" "es' ! k = Ev_Waited REACHED"
      "evs = take k es' @ [Ev_Waited reason]"
    unfolding cut_def by blast
  then show ?thesis
  proof cases
    case 1
    then have "es @ evs = take (length es + k) (es @ es')" by simp
    then show ?thesis unfolding cut_def by blast
  next
    case 2
    then show ?thesis unfolding cut_def
      by (intro disjI2 exI [of _ "length es + k"] exI [of _ reason]) (simp add: nth_append)
  qed
qed

lemma cut_Nil [simp]: "cut es []"
  unfolding cut_def by (intro disjI1 exI [of _ 0]) simp

lemma cut_refl [simp]: "cut es es"
  unfolding cut_def by (intro disjI1 exI [of _ "length es"]) simp

fun log_ok :: "step_log \<Rightarrow> bool" where
  "log_ok (Send_Log i fee signers oc sg) = (oc = CONFIRMED_SUCCESS)"
| "log_ok (Wait_Log i reason) = (reason = REACHED)"

definition all_confirmed :: "'s run \<Rightarrow> bool" where
  "all_confirmed w \<longleftrightarrow> list_all log_ok (r_steps w)"

text \<open>A step plays a script: it appends the whole script when it goes on, and then every logged
  step is still confirmed; it appends a cut of the script when it stops or throws.\<close>

definition plays :: "matrix_event list \<Rightarrow> (report option, 's run) effect \<Rightarrow> bool" where
  "plays script m \<longleftrightarrow>
     (\<forall>w r w'. m w = (r, w') \<longrightarrow>
        (\<exists>evs. r_trace w' = r_trace w @ evs
          \<and> (if r = Inr None then evs = script \<and> (all_confirmed w \<longrightarrow> all_confirmed w')
             else cut script evs \<and> (\<forall>rep. r = Inr (Some rep) \<longrightarrow> rp_status rep \<noteq> COMPLETE))))"

lemma playsI:
  assumes "\<And>w r w'. m w = (r, w') \<Longrightarrow> \<exists>evs. r_trace w' = r_trace w @ evs
          \<and> (if r = Inr None then evs = script \<and> (all_confirmed w \<longrightarrow> all_confirmed w')
             else cut script evs \<and> (\<forall>rep. r = Inr (Some rep) \<longrightarrow> rp_status rep \<noteq> COMPLETE))"
  shows "plays script m"
  using assms by (simp add: plays_def)

lemma playsD:
  assumes "plays script m" and "m w = (r, w')"
  obtains evs where "r_trace w' = r_trace w @ evs"
    "r = Inr None \<Longrightarrow> evs = script" "r = Inr None \<Longrightarrow> all_confirmed w \<Longrightarrow> all_confirmed w'"
    "r \<noteq> Inr None \<Longrightarrow> cut script evs"
    "\<And>rep. r = Inr (Some rep) \<Longrightarrow> rp_status rep \<noteq> COMPLETE"
  using assms unfolding plays_def by (cases "r = Inr None") fastforce+

text \<open>A quiet beginning does not change the script.\<close>

lemma plays_quiet_then:
  assumes "quiet m" and "\<And>x. plays script (f x)"
  shows "plays script (then_do m f)"
proof (rule playsI)
  fix w r w' assume "then_do m f w = (r, w')"
  then show "\<exists>evs. r_trace w' = r_trace w @ evs
          \<and> (if r = Inr None then evs = script \<and> (all_confirmed w \<longrightarrow> all_confirmed w')
             else cut script evs \<and> (\<forall>rep. r = Inr (Some rep) \<longrightarrow> rp_status rep \<noteq> COMPLETE))"
  proof (cases rule: then_do_cases)
    case (throws e)
    with quietD [OF assms(1)] show ?thesis by (auto intro!: exI [of _ "[]"])
  next
    case (returns x w1)
    note q = quietD [OF assms(1) returns(1)]
    from assms(2) [of x] returns(2) show ?thesis
      by (rule playsD) (use q in \<open>auto simp: all_confirmed_def\<close>)
  qed
qed

lemma plays_in_turn:
  "list_all2 plays scripts ms \<Longrightarrow> plays (concat scripts) (in_turn ms)"
proof (induction rule: list_all2_induct)
  case Nil
  show ?case by (rule playsI) (auto intro!: exI [of _ "[]"])
next
  case (Cons script scripts m ms)
  show ?case
  proof (rule playsI)
    fix w r w' assume "in_turn (m # ms) w = (r, w')"
    then have run: "then_do m (\<lambda>r. case r of Some rep \<Rightarrow> give (Some rep) | None \<Rightarrow> in_turn ms) w = (r, w')"
      by simp
    show "\<exists>evs. r_trace w' = r_trace w @ evs
          \<and> (if r = Inr None then evs = concat (script # scripts) \<and> (all_confirmed w \<longrightarrow> all_confirmed w')
             else cut (concat (script # scripts)) evs
               \<and> (\<forall>rep. r = Inr (Some rep) \<longrightarrow> rp_status rep \<noteq> COMPLETE))"
      using run
    proof (cases rule: then_do_cases)
      case (throws e)
      from Cons.hyps(1) throws(1) show ?thesis
        by (rule playsD) (use throws(2) in \<open>auto intro: cut_append_left\<close>)
    next
      case (returns x w1)
      show ?thesis
      proof (cases x)
        case (Some rep)
        from Cons.hyps(1) returns(1) show ?thesis
          by (rule playsD) (use returns(2) Some in \<open>auto intro: cut_append_left\<close>)
      next
        case None
        with returns(2) have rest: "in_turn ms w1 = (r, w')" by simp
        from Cons.hyps(1) returns(1) obtain evs where first: "r_trace w1 = r_trace w @ script"
          "all_confirmed w \<Longrightarrow> all_confirmed w1"
          by (rule playsD) (use None in auto)
        from Cons.IH rest show ?thesis
          by (rule playsD) (use first in \<open>auto intro: cut_append_right\<close>)
      qed
    qed
  qed
qed

lemma stop_report:
  assumes "stop mx reason st w = (r, w')"
  shows "\<exists>rep. r = Inr (Some rep) \<and> rp_status rep = st \<and> rp_stopReason rep = Some reason"
  using assms
  by (auto simp: stop_def update_def then_do_def writeMatrixReceipt_def best_effort_def lift_world_def
      report_of_def split: prod.splits)

lemma stop_ends:
  assumes "stop mx reason st w = (r, w')"
  shows "r_trace w' = r_trace w \<and> r \<noteq> Inr None \<and> (\<forall>rep. r = Inr (Some rep) \<longrightarrow> rp_status rep = st)"
  using stop_report [OF assms] quietD [OF quiet_stop assms] by auto

lemma sendStep_stop_outcome:
  assumes "sendStep mx step_id tx verify w = (Inr res, w')" and "sr_stop res"
  shows "sr_outcome res \<notin> {COMPLETE, RUNNING, CONFIRMED_SUCCESS}"
proof -
  let ?m = "then_do (happens (Ev_Sent step_id)) (\<lambda>_. lift_world (ad_send (mx_ad mx) tx))"
  obtain r1 w1 where c: "?m w = (r1, w1)" by fastforce
  show ?thesis
  proof (cases r1)
    case (Inl e)
    with assms c show ?thesis
      by (auto simp: sendStep_def then_do_eq_Inr stopped_def split: if_splits)
  next
    case (Inr out)
    with assms c obtain failure w2 where
      f: "confirm_sent mx step_id out (w1\<lparr> r_sent := Suc (r_sent w1) \<rparr>) = (Inr failure, w2)"
      and rest: "(case failure of Some r \<Rightarrow> give r | None \<Rightarrow> verify_sent mx step_id out verify) w2 = (Inr res, w')"
      by (auto simp: sendStep_def then_do_eq_Inr split: if_splits)
    from f have "failure = None \<or> (\<exists>oc. failure = Some (stopped oc)
        \<and> oc \<notin> {COMPLETE, RUNNING, CONFIRMED_SUCCESS})"
      by (auto simp: confirm_sent_def then_do_eq_Inr status_outcome_def Let_def
          split: prod.splits sum.splits if_splits)
    moreover have "sr_outcome res \<notin> {COMPLETE, RUNNING, CONFIRMED_SUCCESS}"
      if "verify_sent mx step_id out verify w2 = (Inr res, w')"
      using that assms(2)
      by (auto simp: verify_sent_def then_do_eq_Inr stopped_def Let_def split: option.splits if_splits)
    ultimately show ?thesis using rest by (auto simp: stopped_def)
  qed
qed

lemma plays_give: "plays [] (give None)"
  by (rule playsI) auto

lemma plays_after:
  assumes "plays script m"
  shows "plays ([ev] @ script) (then_do (happens ev) (\<lambda>_. m))"
proof (rule playsI)
  fix w r w' assume "then_do (happens ev) (\<lambda>_. m) w = (r, w')"
  then have run: "m (w\<lparr> r_trace := r_trace w @ [ev] \<rparr>) = (r, w')"
    by (simp add: then_do_def happens_def)
  from assms run show "\<exists>evs. r_trace w' = r_trace w @ evs
      \<and> (if r = Inr None then evs = [ev] @ script \<and> (all_confirmed w \<longrightarrow> all_confirmed w')
         else cut ([ev] @ script) evs \<and> (\<forall>rep. r = Inr (Some rep) \<longrightarrow> rp_status rep \<noteq> COMPLETE))"
  proof (rule playsD)
    fix evs assume *: "r_trace w' = r_trace (w\<lparr>r_trace := r_trace w @ [ev]\<rparr>) @ evs"
      "r = Inr None \<Longrightarrow> evs = script"
      "r = Inr None \<Longrightarrow> all_confirmed (w\<lparr>r_trace := r_trace w @ [ev]\<rparr>) \<Longrightarrow> all_confirmed w'"
      "r \<noteq> Inr None \<Longrightarrow> cut script evs" "\<And>rep. r = Inr (Some rep) \<Longrightarrow> rp_status rep \<noteq> COMPLETE"
    then show ?thesis
      using cut_append_right [of script evs "[ev]"]
      by (intro exI [of _ "[ev] @ evs"]) (auto simp: all_confirmed_def)
  qed
qed

lemma plays_stop:
  assumes "st \<noteq> COMPLETE"
  shows "plays script (stop mx reason st)"
proof (rule playsI)
  fix w r w' assume "stop mx reason st w = (r, w')"
  from stop_ends [OF this] assms show "\<exists>evs. r_trace w' = r_trace w @ evs
      \<and> (if r = Inr None then evs = script \<and> (all_confirmed w \<longrightarrow> all_confirmed w')
         else cut script evs \<and> (\<forall>rep. r = Inr (Some rep) \<longrightarrow> rp_status rep \<noteq> COMPLETE))"
    by (intro exI [of _ "[]"]) auto
qed

text \<open>Marking, logging and writing a receipt, before and after the call a step is about.\<close>

lemma quiet_update_pending [quiet_intros]: "quiet (update (\<lambda>w. w\<lparr> r_pending := p \<rparr>))"
  by (rule quietI) (auto simp: update_def)

lemma quiet_update_sims [quiet_intros]: "quiet (update (\<lambda>w. w\<lparr> r_sims := f w \<rparr>))"
  by (rule quietI) (auto simp: update_def)

lemma receipt_plain: "writeMatrixReceipt mx w = (r, w') \<Longrightarrow> r = Inr ()"
  by (auto simp: writeMatrixReceipt_def best_effort_def)

lemma plays_send:
  assumes "\<And>check. verify = Some check \<Longrightarrow> quiet check"
  shows "plays [Ev_Sent step_id] (send mx step_id reason built fee signers verify)"
  unfolding send_def
proof (rule plays_quiet_then, rule quiet_plain, rule plays_quiet_then, rule quiet_update_pending,
    rule plays_quiet_then, rule quiet_receipt)
  fix ixs
  let ?tx = "\<lparr> tx_instructions = ixs, tx_feePayerRole = fee, tx_signerRoles = signers \<rparr>"
  let ?rest = "\<lambda>r. then_do (update (\<lambda>w. w\<lparr> r_steps := r_steps w @ [Send_Log step_id fee signers (sr_outcome r)
         (coalesce (sr_signature r) JNull)], r_pending := None \<rparr>)) (\<lambda>_.
     then_do (writeMatrixReceipt mx) (\<lambda>_.
     if sr_stop r then stop mx (reason @ '':'' @ outcome_text (sr_outcome r)) (sr_outcome r)
     else give None))"
  show "plays [Ev_Sent step_id] (then_do (sendStep mx step_id ?tx verify) ?rest)"
  proof (rule playsI)
    fix w r w' assume "then_do (sendStep mx step_id ?tx verify) ?rest w = (r, w')"
    then show "\<exists>evs. r_trace w' = r_trace w @ evs
          \<and> (if r = Inr None then evs = [Ev_Sent step_id] \<and> (all_confirmed w \<longrightarrow> all_confirmed w')
             else cut [Ev_Sent step_id] evs \<and> (\<forall>rep. r = Inr (Some rep) \<longrightarrow> rp_status rep \<noteq> COMPLETE))"
    proof (cases rule: then_do_cases)
      case (throws e)
      from sendStep_sends [OF throws(1) assms] show ?thesis
        using throws(2) by auto
    next
      case (returns res w1)
      note sent = sendStep_sends [OF returns(1) assms]
      let ?w2 = "w1\<lparr> r_steps := r_steps w1 @ [Send_Log step_id fee signers (sr_outcome res)
         (coalesce (sr_signature res) JNull)], r_pending := None \<rparr>"
      obtain u w3 where rc: "writeMatrixReceipt mx ?w2 = (Inr u, w3)"
        using receipt_plain [of mx ?w2] by (cases "writeMatrixReceipt mx ?w2") auto
      note q = quietD [OF quiet_receipt rc]
      from returns(2) rc have fin: "(if sr_stop res
          then stop mx (reason @ '':'' @ outcome_text (sr_outcome res)) (sr_outcome res) else give None) w3
          = (r, w')"
        by (simp add: update_def then_do_def)
      show ?thesis
      proof (cases "sr_stop res")
        case True
        with fin have st: "stop mx (reason @ '':'' @ outcome_text (sr_outcome res)) (sr_outcome res) w3 = (r, w')"
          by simp
        have "sr_outcome res \<noteq> COMPLETE"
          using sendStep_stop_outcome [OF returns(1) True] by simp
        with stop_ends [OF st] sent q show ?thesis by (intro exI [of _ "[Ev_Sent step_id]"]) auto
      next
        case False
        with fin have "r = Inr None" "w' = w3" by simp_all
        with sent q False show ?thesis
          by (intro exI [of _ "[Ev_Sent step_id]"]) (auto simp: all_confirmed_def)
      qed
    qed
  qed
qed

lemma plays_simulate: "plays [Ev_Simulated step_id] (simulate mx step_id built signers expected)"
  unfolding simulate_def
proof (rule plays_quiet_then, rule quiet_update_pending, rule plays_quiet_then, rule quiet_receipt,
    rule plays_quiet_then, rule quiet_plain)
  fix ix
  let ?tx = "\<lparr> tx_instructions = [ix], tx_feePayerRole = ''sponsor'', tx_signerRoles = signers \<rparr>"
  let ?judge = "\<lambda>sim. then_do (update (\<lambda>w. w\<lparr> r_pending := None \<rparr>)) (\<lambda>_.
     if \<not> truthy (sim_err sim) then
       then_do (update (\<lambda>w. w\<lparr> r_sims := r_sims w
         @ [\<lparr> sl_id = step_id, sl_status = ''UNEXPECTED_SUCCESS'', sl_decoded = None \<rparr>] \<rparr>)) (\<lambda>_.
       then_do (writeMatrixReceipt mx) (\<lambda>_.
       stop mx (''SIMULATION_UNEXPECTED_SUCCESS:'' @ step_id) STOPPED_ON_SIMULATION))
     else
       let d = decodeProgramError (sim_err sim) (sim_logs sim); ok = expected_error expected d in
       then_do (update (\<lambda>w. w\<lparr> r_sims := r_sims w @ [\<lparr> sl_id = step_id,
           sl_status = (if ok then ''EXPECTED_ERROR'' else ''UNEXPECTED_ERROR''),
           sl_decoded = Some d \<rparr>] \<rparr>)) (\<lambda>_.
       then_do (writeMatrixReceipt mx) (\<lambda>_.
       if ok then give None
       else stop mx (''SIMULATION_UNEXPECTED_ERROR:'' @ step_id) STOPPED_ON_SIMULATION)))"
  have judged: "plays [] (?judge sim)" for sim
    unfolding Let_def by (auto intro!: plays_quiet_then quiet_intros plays_give plays_stop)
  have "plays ([Ev_Simulated step_id] @ []) (then_do (happens (Ev_Simulated step_id)) (\<lambda>_.
      then_do (lift_world (ad_simulate (mx_ad mx) ?tx)) ?judge))"
    by (rule plays_after) (intro plays_quiet_then quiet_intros judged)
  then show "plays [Ev_Simulated step_id] (then_do (happens (Ev_Simulated step_id)) (\<lambda>_.
      then_do (lift_world (ad_simulate (mx_ad mx) ?tx)) ?judge))" by simp
qed

lemma plays_wait: "plays [Ev_Waited REACHED] (wait_for_refund mx wp)"
  unfolding wait_for_refund_def
proof (rule plays_quiet_then, rule quiet_update_pending, rule plays_quiet_then, rule quiet_receipt,
    rule plays_quiet_then, rule quiet_world, rule playsI)
  fix reason w r w'
  let ?log = "\<lambda>w. w\<lparr> r_steps := r_steps w @ [Wait_Log ''refund:wait_expiry'' reason], r_pending := None \<rparr>"
  let ?last = "if reason \<noteq> REACHED then stop mx ''REFUND_EXPIRY_WAIT_TIMEOUT'' STOPPED_ON_EXPIRY_TIMEOUT
      else give None"
  assume run: "then_do (happens (Ev_Waited reason)) (\<lambda>_. then_do (update ?log) (\<lambda>_.
     then_do (writeMatrixReceipt mx) (\<lambda>_. ?last))) w = (r, w')"
  let ?w2 = "?log (w\<lparr> r_trace := r_trace w @ [Ev_Waited reason] \<rparr>)"
  obtain u w3 where rc: "writeMatrixReceipt mx ?w2 = (Inr u, w3)"
    using receipt_plain [of mx ?w2] by (cases "writeMatrixReceipt mx ?w2") auto
  note q = quietD [OF quiet_receipt rc]
  from run rc have fin: "?last w3 = (r, w')"
    by (simp add: then_do_def happens_def update_def)
  show "\<exists>evs. r_trace w' = r_trace w @ evs
      \<and> (if r = Inr None then evs = [Ev_Waited REACHED] \<and> (all_confirmed w \<longrightarrow> all_confirmed w')
         else cut [Ev_Waited REACHED] evs \<and> (\<forall>rep. r = Inr (Some rep) \<longrightarrow> rp_status rep \<noteq> COMPLETE))"
  proof (cases "reason = REACHED")
    case True
    with fin q show ?thesis by (auto simp: all_confirmed_def)
  next
    case False
    with fin have st: "stop mx ''REFUND_EXPIRY_WAIT_TIMEOUT'' STOPPED_ON_EXPIRY_TIMEOUT w3 = (r, w')" by simp
    have "cut [Ev_Waited REACHED] [Ev_Waited reason]"
      unfolding cut_def by (intro disjI2 exI [of _ 0] exI [of _ reason]) simp
    with stop_ends [OF st] q show ?thesis by (intro exI [of _ "[Ev_Waited reason]"]) auto
  qed
qed

definition setup_script :: "matrix_event list" where
  "setup_script = map Ev_Sent [''setup:create_mint'', ''setup:sponsor_ata'', ''setup:contributor_ata'',
     ''setup:mint_tokens'']"

definition release_script :: "matrix_event list" where
  "release_script = [Ev_Sent ''release:initialize'', Ev_Sent ''release:fund'',
     Ev_Simulated ''unauthorized_release'', Ev_Sent ''release:release'']"

definition refund_script :: "matrix_event list" where
  "refund_script = [Ev_Sent ''refund:initialize'', Ev_Sent ''refund:fund'',
     Ev_Simulated ''refund_before_expiry'', Ev_Waited REACHED,
     Ev_Simulated ''release_at_or_after_expiry'', Ev_Sent ''refund:refund'']"

definition cancel_script :: "matrix_event list" where
  "cancel_script = [Ev_Sent ''cancel:initialize'', Ev_Sent ''cancel:cancel'']"

definition flow_script :: "string list \<Rightarrow> string \<Rightarrow> matrix_event list \<Rightarrow> matrix_event list" where
  "flow_script enabled flow script = (if flow \<in> set enabled then script else [])"

definition matrix_script :: "string list \<Rightarrow> matrix_event list" where
  "matrix_script enabled =
     setup_script @ flow_script enabled ''release'' release_script
       @ flow_script enabled ''refund'' refund_script @ flow_script enabled ''cancel'' cancel_script"

lemma plays_setup: "plays setup_script (in_turn (setup_steps mx))"
proof -
  have "list_all2 plays [[Ev_Sent ''setup:create_mint''], [Ev_Sent ''setup:sponsor_ata''],
      [Ev_Sent ''setup:contributor_ata''], [Ev_Sent ''setup:mint_tokens'']] (setup_steps mx)"
    unfolding setup_steps_def Let_def by (auto intro!: plays_send)
  from plays_in_turn [OF this] show ?thesis by (simp add: setup_script_def)
qed

lemma plays_verified_send:
  "quiet check \<Longrightarrow> plays [Ev_Sent step_id] (send mx step_id reason built fee signers (Some check))"
  by (rule plays_send) simp

lemmas plays_steps = plays_verified_send plays_simulate plays_wait quiet_verifyStatus
  quiet_verify_payout

lemma plays_initialize: "plays [Ev_Sent step_id] (send_initialize mx step_id reason i expy)"
  unfolding send_initialize_def by (intro plays_steps)

lemma plays_fund: "plays [Ev_Sent step_id] (send_fund mx step_id reason i)"
  unfolding send_fund_def by (intro plays_steps)

lemma plays_release: "plays release_script (in_turn (release_steps mx expy i))"
proof -
  have "list_all2 plays [[Ev_Sent ''release:initialize''], [Ev_Sent ''release:fund''],
      [Ev_Simulated ''unauthorized_release''], [Ev_Sent ''release:release'']] (release_steps mx expy i)"
    unfolding release_steps_def Let_def
    by (auto intro!: plays_steps plays_initialize plays_fund
        plays_quiet_then [OF quiet_tokenAmount])
  from plays_in_turn [OF this] show ?thesis by (simp add: release_script_def)
qed

lemma plays_refund: "plays refund_script (in_turn (refund_steps mx expy i))"
proof -
  have "list_all2 plays [[Ev_Sent ''refund:initialize''], [Ev_Sent ''refund:fund''],
      [Ev_Simulated ''refund_before_expiry''], [Ev_Waited REACHED],
      [Ev_Simulated ''release_at_or_after_expiry''], [Ev_Sent ''refund:refund'']] (refund_steps mx expy i)"
    unfolding refund_steps_def Let_def
    by (auto intro!: plays_steps plays_initialize plays_fund
        plays_quiet_then [OF quiet_tokenAmount])
  from plays_in_turn [OF this] show ?thesis by (simp add: refund_script_def)
qed

lemma plays_cancel: "plays cancel_script (in_turn (cancel_steps mx expy i))"
proof -
  have "list_all2 plays [[Ev_Sent ''cancel:initialize''], [Ev_Sent ''cancel:cancel'']]
      (cancel_steps mx expy i)"
    unfolding cancel_steps_def by (auto intro!: plays_steps plays_initialize)
  from plays_in_turn [OF this] show ?thesis by (simp add: cancel_script_def)
qed

lemma plays_block:
  "(\<And>i. plays script (in_turn (steps i))) \<Longrightarrow>
   plays (flow_script (g_enabledFlows (mx_grant mx)) flow script) (flow_block mx flow steps)"
  unfolding flow_block_def flow_script_def
  by (auto intro!: plays_quiet_then quiet_plain plays_give)

lemma plays_flows:
  "plays (flow_script (g_enabledFlows (mx_grant mx)) ''release'' release_script
     @ flow_script (g_enabledFlows (mx_grant mx)) ''refund'' refund_script
     @ flow_script (g_enabledFlows (mx_grant mx)) ''cancel'' cancel_script)
   (in_turn [flow_block mx ''release'' (release_steps mx expy),
             flow_block mx ''refund'' (refund_steps mx expy),
             flow_block mx ''cancel'' (cancel_steps mx expy)])"
proof -
  let ?en = "g_enabledFlows (mx_grant mx)"
  have "list_all2 plays [flow_script ?en ''release'' release_script,
      flow_script ?en ''refund'' refund_script, flow_script ?en ''cancel'' cancel_script]
      [flow_block mx ''release'' (release_steps mx expy), flow_block mx ''refund'' (refund_steps mx expy),
       flow_block mx ''cancel'' (cancel_steps mx expy)]"
    by (auto intro!: plays_block plays_release plays_refund plays_cancel)
  from plays_in_turn [OF this] show ?thesis by simp
qed

text \<open>The whole matrix: a cut of the script, and all of it with every step confirmed when the
  report says \<open>COMPLETE\<close>.\<close>

lemma run_matrix_script:
  assumes "run_matrix mx w = (r, w')" and "r_trace w = []" and "all_confirmed w"
  shows "cut (matrix_script (g_enabledFlows (mx_grant mx))) (r_trace w')
    \<and> (\<forall>rep. r = Inr rep \<longrightarrow> rp_status rep = COMPLETE \<longrightarrow>
         r_trace w' = matrix_script (g_enabledFlows (mx_grant mx)) \<and> list_all log_ok (rp_steps rep))"
  using assms(1) unfolding run_matrix_def
proof (cases rule: then_do_cases)
  case (throws e)
  from plays_setup throws(1) show ?thesis
    by (rule playsD) (use throws(2) assms(2) in \<open>auto simp: matrix_script_def intro: cut_append_left\<close>)
next
  case (returns x w1)
  show ?thesis
  proof (cases x)
    case (Some rep)
    from plays_setup returns(1) show ?thesis
      by (rule playsD)
        (use returns(2) Some assms(2) in \<open>auto simp: matrix_script_def intro: cut_append_left\<close>)
  next
    case None
    from plays_setup returns(1) have w1: "r_trace w1 = setup_script \<and> all_confirmed w1"
      by (rule playsD) (use None assms(2,3) in auto)
    from returns(2) None have rest: "then_do (lift_world (ad_getChainTime (mx_ad mx))) (\<lambda>t.
     then_do (lift_result (planExpiry t default_expiry_options)) (\<lambda>expy.
     then_do (in_turn [flow_block mx ''release'' (release_steps mx expy),
                       flow_block mx ''refund'' (refund_steps mx expy),
                       flow_block mx ''cancel'' (cancel_steps mx expy)]) (\<lambda>r.
     case r of Some rep \<Rightarrow> give rep | None \<Rightarrow>
     then_do (update (\<lambda>w. w\<lparr> r_status := COMPLETE \<rparr>)) (\<lambda>_.
     then_do (writeMatrixReceipt mx) (\<lambda>_. (\<lambda>w. (Inr (report_of w), w))))))) w1 = (r, w')"
      by simp
    have setup_only: ?thesis if "r_trace w' = setup_script" "\<exists>e. r = Inl e"
      using that by (auto simp: matrix_script_def intro: cut_append_left)
    from rest show ?thesis
    proof (cases rule: then_do_cases)
      case (throws e)
      with quietD [OF quiet_world throws(1)] w1 show ?thesis by (intro setup_only) auto
    next
      case (returns t w2)
      note w2 = quietD [OF quiet_world returns(1)]
      show ?thesis
      proof (cases "planExpiry t default_expiry_options")
        case (Inl e)
        with returns(2) w1 w2 show ?thesis by (intro setup_only) (auto simp: then_do_def)
      next
        case (Inr expy)
        let ?flows = "in_turn [flow_block mx ''release'' (release_steps mx expy),
                       flow_block mx ''refund'' (refund_steps mx expy),
                       flow_block mx ''cancel'' (cancel_steps mx expy)]"
        obtain r3 w3 where fl: "?flows w2 = (r3, w3)" by fastforce
        from plays_flows fl obtain evs where evs: "r_trace w3 = r_trace w2 @ evs"
          and ok: "r3 = Inr None \<Longrightarrow> evs = flow_script (g_enabledFlows (mx_grant mx)) ''release'' release_script
             @ flow_script (g_enabledFlows (mx_grant mx)) ''refund'' refund_script
             @ flow_script (g_enabledFlows (mx_grant mx)) ''cancel'' cancel_script"
          and conf: "r3 = Inr None \<Longrightarrow> all_confirmed w2 \<Longrightarrow> all_confirmed w3"
          and cutoff: "r3 \<noteq> Inr None \<Longrightarrow> cut (flow_script (g_enabledFlows (mx_grant mx)) ''release'' release_script
             @ flow_script (g_enabledFlows (mx_grant mx)) ''refund'' refund_script
             @ flow_script (g_enabledFlows (mx_grant mx)) ''cancel'' cancel_script) evs"
          and status: "\<And>rep. r3 = Inr (Some rep) \<Longrightarrow> rp_status rep \<noteq> COMPLETE"
          by (rule playsD) blast
        show ?thesis
        proof (cases "r3 = Inr None")
          case True
          let ?w4 = "w3\<lparr> r_status := COMPLETE \<rparr>"
          obtain u w5 where rc: "writeMatrixReceipt mx ?w4 = (Inr u, w5)"
            using receipt_plain [of mx ?w4] by (cases "writeMatrixReceipt mx ?w4") auto
          note q = quietD [OF quiet_receipt rc]
          from returns(2) Inr fl True rc have "r = Inr (report_of w5)" "w' = w5"
            by (auto simp: then_do_def update_def)
          with q evs ok [OF True] conf [OF True] w1 w2 show ?thesis
            by (auto simp: matrix_script_def report_of_def all_confirmed_def)
        next
          case False
          with returns(2) Inr fl have "w' = w3" "(\<exists>e. r = Inl e) \<or> (\<exists>rep. r3 = Inr (Some rep) \<and> r = Inr rep)"
            by (auto simp: then_do_def split: sum.splits option.splits)
          with cutoff [OF False] status evs w1 w2 show ?thesis
            by (auto simp: matrix_script_def intro: cut_append_right)
        qed
      qed
    qed
  qed
qed

section \<open>What follows for an execution\<close>

definition is_sent :: "matrix_event \<Rightarrow> bool" where
  "is_sent ev = (case ev of Ev_Sent i \<Rightarrow> True | _ \<Rightarrow> False)"

definition sends_of :: "matrix_event list \<Rightarrow> matrix_event list" where
  "sends_of tr = filter is_sent tr"

lemma cut_sends: "cut script evs \<Longrightarrow> \<exists>k. sends_of evs = sends_of (take k script)"
  unfolding cut_def sends_of_def
  by (elim disjE exE) (force simp: is_sent_def)+

lemma sends_of_take: "\<exists>n. sends_of (take k script) = take n (sends_of script)"
  unfolding sends_of_def
  by (metis append_take_drop_id filter_append append_eq_conv_conj)

lemma ceiling_covers:
  assumes "computeTransactionCeiling flows = Inr n"
  shows "(if ''release'' \<in> set flows then 3 else 0) + (if ''refund'' \<in> set flows then 3 else 0)
    + (if ''cancel'' \<in> set flows then 2 else 0) \<le> n"
  using assms
proof (induction flows arbitrary: n)
  case (Cons f fs)
  then obtain d m where f: "flow_def f = Some d" and "computeTransactionCeiling fs = Inr m"
    and "n = fd_liveWrites d + m"
    by (auto simp: and_then_eq_Inr split: option.splits)
  with Cons.IH [of m] show ?case
    by (auto simp: flow_def_def FLOW_DEFINITIONS_def split: if_splits)
qed simp

lemma script_within_ceiling:
  assumes "computeFullCeiling flows = Inr c"
  shows "length (sends_of (matrix_script flows)) \<le> c_totalWrites c"
proof -
  from assms obtain n where n: "computeTransactionCeiling flows = Inr n"
    and c: "c_totalWrites c = 4 + n"
    by (auto simp: computeFullCeiling_def and_then_eq_Inr SETUP_TRANSACTION_COUNT_def)
  have "length (sends_of (matrix_script flows)) =
      4 + ((if ''release'' \<in> set flows then 3 else 0) + (if ''refund'' \<in> set flows then 3 else 0)
        + (if ''cancel'' \<in> set flows then 2 else 0))"
    by (simp add: sends_of_def matrix_script_def setup_script_def flow_script_def release_script_def
        refund_script_def cancel_script_def is_sent_def)
  with ceiling_covers [OF n] c show ?thesis by simp
qed

lemma script_distinct: "distinct (matrix_script flows)"
  by (auto simp: matrix_script_def setup_script_def flow_script_def release_script_def
      refund_script_def cancel_script_def)

lemma prepare_matrix_grant:
  assumes "prepare_matrix env b plan auth ad opts s = (Inr mx, s')"
  shows "authorizeExecution plan auth = Inr (mx_grant mx)
    \<and> computeFullCeiling (g_enabledFlows (mx_grant mx)) = Inr (mx_ceiling mx) \<and> mx_ad mx = ad"
  using assms
  by (auto simp: prepare_matrix_def runAcceptanceMatrix_def then_do_eq_Inr)

text \<open>An execution that was refused sent nothing; one that ran played its script as far as it got.\<close>

lemma executeFullMatrix_cases:
  assumes "executeFullMatrix env b plan auth ad opts s = (r, w')"
  obtains (refused) e where "r = Inl e" "r_trace w' = []"
    | (ran) g c where "authorizeExecution plan auth = Inr g"
      "computeFullCeiling (g_enabledFlows g) = Inr c"
      "cut (matrix_script (g_enabledFlows g)) (r_trace w')"
      "\<forall>rep. r = Inr rep \<longrightarrow> rp_status rep = COMPLETE \<longrightarrow>
         r_trace w' = matrix_script (g_enabledFlows g) \<and> list_all log_ok (rp_steps rep)"
proof (cases "prepare_matrix env b plan auth ad opts s")
  case (Pair res s1)
  show thesis
  proof (cases res)
    case (Inl e)
    with assms Pair refused show thesis by (auto simp: executeFullMatrix_def start_run_def)
  next
    case (Inr mx)
    with Pair have p: "prepare_matrix env b plan auth ad opts s = (Inr mx, s1)" by simp
    with assms have run: "run_matrix mx (start_run s1) = (r, w')" by (simp add: executeFullMatrix_def)
    from prepare_matrix_grant [OF p] run_matrix_script [OF run] ran show thesis
      by (simp add: start_run_def all_confirmed_def)
  qed
qed

lemma execution_sends:
  assumes "executeFullMatrix env b plan auth ad opts s = (r, w')"
    and "authorizeExecution plan auth = Inr g" and "computeFullCeiling (g_enabledFlows g) = Inr c"
  shows "\<exists>n. sends_of (r_trace w') = take n (sends_of (matrix_script (g_enabledFlows g)))"
    and "length (sends_of (r_trace w')) \<le> c_totalWrites c"
    and "distinct (sends_of (r_trace w'))"
proof -
  have "\<exists>n. sends_of (r_trace w') = take n (sends_of (matrix_script (g_enabledFlows g)))"
    using assms(1)
  proof (cases rule: executeFullMatrix_cases)
    case (refused e)
    then show ?thesis by (auto simp: sends_of_def intro!: exI [of _ 0])
  next
    case (ran g' c')
    with assms(2) cut_sends sends_of_take show ?thesis by (metis sum.inject(2))
  qed
  then obtain n where n: "sends_of (r_trace w') = take n (sends_of (matrix_script (g_enabledFlows g)))" ..
  then show "\<exists>n. sends_of (r_trace w') = take n (sends_of (matrix_script (g_enabledFlows g)))" ..
  from n script_within_ceiling [OF assms(3)] show "length (sends_of (r_trace w')) \<le> c_totalWrites c"
    by simp
  from n script_distinct [of "g_enabledFlows g"] show "distinct (sends_of (r_trace w'))"
    by (simp add: sends_of_def)
qed

lemma nth_middle_part:
  assumes "i < length (pre @ mid @ post)" "(pre @ mid @ post) ! i = x" "x \<notin> set pre" "x \<notin> set post"
  shows "\<exists>j<length mid. i = length pre + j \<and> mid ! j = x"
proof -
  from assms(2,3) have "\<not> i < length pre" by (auto simp: nth_append)
  then obtain j where j: "i = length pre + j" using le_Suc_ex not_less by blast
  with assms(1,2,4) have "j < length mid" by (cases "j < length mid") (auto simp: nth_append)
  with assms(2) j show ?thesis by (auto simp: nth_append)
qed

text \<open>The refund is sent only after a wait that reached the expiry.\<close>

lemma refund_position:
  assumes "cut (matrix_script flows) tr" and "i < length tr" and "tr ! i = Ev_Sent ''refund:refund''"
  shows "2 \<le> i \<and> tr ! (i - 2) = Ev_Waited REACHED"
proof -
  let ?x = "Ev_Sent ''refund:refund''"
  let ?pre = "setup_script @ flow_script flows ''release'' release_script"
  let ?mid = "flow_script flows ''refund'' refund_script"
  let ?post = "flow_script flows ''cancel'' cancel_script"
  have pos: "2 \<le> i \<and> matrix_script flows ! (i - 2) = Ev_Waited REACHED"
    if i: "i < length (matrix_script flows)" "matrix_script flows ! i = ?x" for i
  proof -
    have eq: "matrix_script flows = ?pre @ ?mid @ ?post" by (simp add: matrix_script_def)
    have "?x \<notin> set ?pre" "?x \<notin> set ?post"
      by (simp_all add: setup_script_def flow_script_def release_script_def cancel_script_def)
    with i nth_middle_part [of i ?pre ?mid ?post ?x] obtain j where
      j: "j < length ?mid" "i = length ?pre + j" "?mid ! j = ?x"
      unfolding eq by blast
    then have "j = 5" and len: "length ?mid = 6" "?mid ! 3 = Ev_Waited REACHED"
      by (auto simp: flow_script_def refund_script_def less_Suc_eq_0_disj numeral_eq_Suc split: if_splits)
    then have "matrix_script flows ! (i - 2) = ?mid ! 3"
      unfolding eq j(2) by (simp add: nth_append)
    with len j \<open>j = 5\<close> show ?thesis by simp
  qed
  from assms(1) consider k where "tr = take k (matrix_script flows)"
    | k reason where "k < length (matrix_script flows)" "tr = take k (matrix_script flows) @ [Ev_Waited reason]"
    unfolding cut_def by blast
  then show ?thesis
  proof cases
    case 1
    with assms(2,3) pos [of i] show ?thesis by auto
  next
    case 2
    with assms(2,3) have "i < k" by (cases "i < k") (auto simp: nth_append)
    with 2 assms(3) pos [of i] show ?thesis by (auto simp: nth_append)
  qed
qed

section \<open>The wait ends\<close>

text \<open>A clock whose readings never fall, and that a sleep advances by its duration.\<close>

definition steady_clock :: "'s flow_adapter \<Rightarrow> ('s \<Rightarrow> rat) \<Rightarrow> bool" where
  "steady_clock ad reading \<longleftrightarrow>
     (\<forall>s. ad_now ad s = (Inr (reading s), s))
     \<and> (\<forall>s. \<exists>t s'. ad_getChainTime ad s = (Inr t, s') \<and> reading s \<le> reading s')
     \<and> (\<forall>d s. \<exists>s'. ad_sleep ad d s = (Inr (), s') \<and> reading s + d \<le> reading s')"

lemma wait_loop_ends:
  assumes "steady_clock ad reading"
    and "wp_timeoutMs wp \<le> reading s - start + wp_pollIntervalMs wp * of_nat fuel"
  shows "\<exists>reason s'. wait_loop (Suc fuel) wp ad start s = (Inr reason, s')"
  using assms(2)
proof (induction fuel arbitrary: s)
  case 0
  from assms(1) obtain t s1 where t: "ad_getChainTime ad s = (Inr t, s1)" "reading s \<le> reading s1"
    unfolding steady_clock_def by blast
  from assms(1) have "ad_now ad s1 = (Inr (reading s1), s1)" by (simp add: steady_clock_def)
  with t 0 show ?case by (auto simp: then_do_def waitReached_def Let_def)
next
  case (Suc fuel)
  from assms(1) obtain t s1 where t: "ad_getChainTime ad s = (Inr t, s1)" "reading s \<le> reading s1"
    unfolding steady_clock_def by blast
  from assms(1) have now: "ad_now ad s1 = (Inr (reading s1), s1)" by (simp add: steady_clock_def)
  from assms(1) obtain s2 where sl: "ad_sleep ad (wp_pollIntervalMs wp) s1 = (Inr (), s2)"
    "reading s1 + wp_pollIntervalMs wp \<le> reading s2"
    unfolding steady_clock_def by blast
  have "wp_timeoutMs wp \<le> reading s2 - start + wp_pollIntervalMs wp * of_nat fuel"
    using Suc.prems t(2) sl(2) by (simp add: algebra_simps)
  from Suc.IH [OF this] t(1) now sl(1) show ?case
    by (subst wait_loop.simps) (auto simp: then_do_def Let_def simp del: wait_loop.simps)
qed

lemma waitForExpiry_ends:
  assumes "steady_clock ad reading" and "wp_timeoutMs wp \<le> wp_pollIntervalMs wp * of_nat fuel"
  shows "\<exists>reason s'. waitForExpiry (Suc fuel) wp ad s = (Inr reason, s') \<and> reason \<noteq> WAITING"
proof -
  from assms(1) have now: "ad_now ad s = (Inr (reading s), s)" by (simp add: steady_clock_def)
  have "wp_timeoutMs wp \<le> reading s - reading s + wp_pollIntervalMs wp * of_nat fuel" using assms(2) by simp
  from wait_loop_ends [OF assms(1) this] obtain reason s' where
    run: "wait_loop (Suc fuel) wp ad (reading s) s = (Inr reason, s')" by blast
  from wait_loop_never_waiting [OF run] run now show ?thesis
    unfolding waitForExpiry_def by (auto simp: then_do_def simp del: wait_loop.simps)
qed

section \<open>Replay protection\<close>

lemma reserve_ok:
  assumes "reserveExecutionId ad executionId s = (Inr n, s')"
  shows "\<exists>stored s1 s2. ad_readIds ad s = (Inr stored, s1) \<and> executionId \<notin> set (used_ids stored)
    \<and> ad_writeIds ad (JArr (used_ids stored @ [executionId])) s2 = (Inr (), s')
    \<and> n = Suc (length (used_ids stored))"
  using assms
  by (auto simp: reserveExecutionId_def then_do_eq_Inr Let_def split: js.splits list.splits if_splits)

text \<open>A reserved identifier that the store still holds is refused.\<close>

lemma reserve_again:
  assumes "ad_readIds ad s = (Inr (Stored (JArr vs)), s1)" and "executionId \<in> set vs"
  shows "\<exists>e. fst (reserveExecutionId ad executionId s) = Inl e"
  using assms
  by (auto simp: reserveExecutionId_def then_do_def split: js.splits list.splits)

text \<open>A file that does not parse hides every identifier: the reservation succeeds.\<close>

lemma reserve_unreadable:
  assumes "ad_readIds ad s = (Inr Unreadable, s1)"
    and "ad_writeIds ad (JArr [JStr (c # cs)]) s1 = (Inr (), s2)"
  shows "reserveExecutionId ad (JStr (c # cs)) s = (Inr 1, s2)"
  using assms by (simp add: reserveExecutionId_def then_do_def)

section \<open>Rechecks\<close>

lemma recheck_instances_ok:
  "recheck_instances env plan ad is s = (Inr (), s') \<Longrightarrow>
   \<forall>i\<in>set is. deriveEscrowPda env (m_programId (p_manifest plan)) (id_sponsor (p_identities plan))
        (referenceHashFor env i) = Inr (fi_escrow i)
      \<and> deriveVaultPda env (m_programId (p_manifest plan)) (fi_escrow i) = Inr (fi_vault i)
      \<and> (\<exists>t t'. ad_readAccount ad (fi_escrow i) t = (Inr None, t'))"
  by (induction "is" arbitrary: s) (auto simp: then_do_eq_Inr Let_def split: if_splits; blast)+

lemma recheck_ok:
  assumes "recheckOnChainBeforeExecution env plan ad s = (Inr (pd, lamports), s')"
  shows "pd = m_programDataAddress (p_manifest plan) \<and> requiredLamports (p_funding plan) \<le> lamports
    \<and> (\<exists>s0 s1. recheck_instances env plan ad (m_instances (p_manifest plan)) s0 = (Inr (), s1))"
proof -
  from assms obtain info s1 where info: "ad_readAccount ad (m_programId (p_manifest plan)) s = (Inr info, s1)"
    by (auto simp: recheckOnChainBeforeExecution_def then_do_eq_Inr)
  with assms obtain i where i: "info = Some i" "ai_executable i" "ai_owner i = UPGRADEABLE_LOADER"
    by (cases info) (auto simp: recheckOnChainBeforeExecution_def split: if_split_asm)
  with assms info show ?thesis
    by (auto simp: recheckOnChainBeforeExecution_def then_do_eq_Inr Let_def split: if_split_asm)
qed

end
