(* ===== verification/Rpc_Ledger.thy ===== *)
theory Rpc_Ledger imports Js_Values "HOL-Library.Multiset" begin

text \<open>
  \<open>scripts/devnet/rpc-request-ledger.mjs\<close>: the bounded record of RPC requests with its counters,
  and the check of a summary.

  A request is open between \<open>begin_record\<close>, which takes the next sequence number, and
  \<open>end_record\<close>, which appends its entry; requests may overlap, so the two are separate steps.
  Subscribers are not modelled: the ledger never reads anything back from them.
\<close>

section \<open>Methods and outcomes\<close>

datatype rpc_method =
    GET_GENESIS_HASH | GET_ACCOUNT_INFO | GET_BALANCE | GET_RENT_EXEMPTION
  | GET_SIGNATURE_HISTORY | GET_LATEST_BLOCKHASH | GET_FEE_FOR_MESSAGE | GET_SIGNATURE_STATUSES
  | GET_TRANSACTION | SEND_RAW_TRANSACTION

datatype rpc_outcome = SUCCESS | RPC_RATE_LIMITED | RPC_REQUEST_TIMEOUT | RPC_ERROR

definition RPC_METHOD_CLASSES :: "(string \<times> rpc_method) list" where
  "RPC_METHOD_CLASSES =
     [(''GET_GENESIS_HASH'', GET_GENESIS_HASH), (''GET_ACCOUNT_INFO'', GET_ACCOUNT_INFO),
      (''GET_BALANCE'', GET_BALANCE), (''GET_RENT_EXEMPTION'', GET_RENT_EXEMPTION),
      (''GET_SIGNATURE_HISTORY'', GET_SIGNATURE_HISTORY),
      (''GET_LATEST_BLOCKHASH'', GET_LATEST_BLOCKHASH),
      (''GET_FEE_FOR_MESSAGE'', GET_FEE_FOR_MESSAGE),
      (''GET_SIGNATURE_STATUSES'', GET_SIGNATURE_STATUSES), (''GET_TRANSACTION'', GET_TRANSACTION),
      (''SEND_RAW_TRANSACTION'', SEND_RAW_TRANSACTION)]"

definition RPC_OUTCOMES :: "(string \<times> rpc_outcome) list" where
  "RPC_OUTCOMES =
     [(''SUCCESS'', SUCCESS), (''RPC_RATE_LIMITED'', RPC_RATE_LIMITED),
      (''RPC_REQUEST_TIMEOUT'', RPC_REQUEST_TIMEOUT), (''RPC_ERROR'', RPC_ERROR)]"

section \<open>Rate limits\<close>

definition rate_limit_words :: "string list" where
  "rate_limit_words = ''too many requests'' #
     concat (map (\<lambda>gap. map (\<lambda>tail. ''rate'' @ gap @ ''limit'' @ tail)
       [''ed'', ''ing'', '' exceeded'', '' response'']) [''-'', ''_'', '' ''])"

text \<open>\<open>RATE_LIMIT_TEXT\<close>, whose first alternative is an instance of its second.\<close>

definition rate_limit_text :: "string \<Rightarrow> bool" where
  "rate_limit_text s = list_ex (\<lambda>w. contains_word w False (to_lower s)) rate_limit_words"

definition rate_limit_number_key :: "string \<Rightarrow> bool" where
  "rate_limit_number_key k \<longleftrightarrow> to_lower k \<in> {''code'', ''status'', ''statuscode'', ''httpstatus''}"

definition SAFE_ERROR_KEYS :: "string list" where
  "SAFE_ERROR_KEYS =
     [''message'', ''code'', ''status'', ''statusCode'', ''httpStatus'', ''data'', ''body'',
      ''response'', ''error'', ''cause'']"

text \<open>Errors are trees of values here, so the check for values already seen never applies; the
  first argument is the depth that is left, 9 for the error itself.\<close>

fun contains_rate_limit :: "nat \<Rightarrow> string \<Rightarrow> js \<Rightarrow> bool" where
  "contains_rate_limit d k (JStr s) = rate_limit_text s"
| "contains_rate_limit d k (JNum r) = (r = 429 \<and> rate_limit_number_key k)"
| "contains_rate_limit (Suc d) k (JObj kvs) =
     list_ex (\<lambda>p. contains_rate_limit d p (get (JObj kvs) p)) SAFE_ERROR_KEYS"
| "contains_rate_limit d k v = False"

definition containsRateLimit :: "js \<Rightarrow> bool" where
  "containsRateLimit v = contains_rate_limit 9 [] v"

definition error_outcome :: "js \<Rightarrow> rpc_outcome" where
  "error_outcome e =
     (if get e ''code'' = JStr ''RPC_REQUEST_TIMEOUT'' then RPC_REQUEST_TIMEOUT
      else if containsRateLimit e then RPC_RATE_LIMITED else RPC_ERROR)"

section \<open>Metadata\<close>

record request_metadata =
  methodClass :: rpc_method
  mutationCapability :: string
  retryNumber :: nat
  signaturePersisted :: bool

fun object_keys :: "js \<Rightarrow> string list" where
  "object_keys (JObj kvs) = map fst kvs"
| "object_keys _ = []"

fun is_object :: "js \<Rightarrow> bool" where
  "is_object (JObj kvs) = True"
| "is_object _ = False"

text \<open>The keys, sorted and joined, are the wanted ones: each of them once and no other.\<close>

definition exact_keys :: "js \<Rightarrow> string list \<Rightarrow> bool" where
  "exact_keys v ks \<longleftrightarrow> is_object v \<and> sort (object_keys v) = sort ks"

definition expected_capability :: "rpc_method \<Rightarrow> string" where
  "expected_capability m = (if m = SEND_RAW_TRANSACTION then ''write'' else ''read'')"

definition validateMetadata :: "js \<Rightarrow> request_metadata result" where
  "validateMetadata v =
     (if \<not> exact_keys v [''methodClass'', ''mutationCapability'', ''retryNumber'', ''signaturePersisted'']
      then throw ''RPC ledger metadata schema mismatch''
      else case (case get v ''methodClass'' of JStr s \<Rightarrow> map_of RPC_METHOD_CLASSES s | _ \<Rightarrow> None) of
        None \<Rightarrow> throw ''RPC ledger method class is invalid''
      | Some m \<Rightarrow>
          if \<not> is_safe_integer (get v ''retryNumber'') \<or> num_of (get v ''retryNumber'') < 0
          then throw ''RPC ledger retry number is invalid''
          else case get v ''signaturePersisted'' of JBool persisted \<Rightarrow>
            (if get v ''mutationCapability'' \<noteq> JStr (expected_capability m)
             then throw ''RPC ledger mutation capability mismatch''
             else if m = SEND_RAW_TRANSACTION \<and> \<not> persisted
             then throw ''RPC send requires a persisted signature''
             else Inr \<lparr> methodClass = m, mutationCapability = expected_capability m,
               retryNumber = nat \<lfloor>num_of (get v ''retryNumber'')\<rfloor>, signaturePersisted = persisted \<rparr>)
          | _ \<Rightarrow> throw ''RPC ledger persisted signature flag is invalid'')"

lemma validateMetadata_ok:
  assumes "validateMetadata v = Inr m"
  shows "mutationCapability m = expected_capability (methodClass m)
    \<and> (methodClass m = SEND_RAW_TRANSACTION \<longrightarrow> signaturePersisted m)"
  using assms by (auto simp: validateMetadata_def split: if_splits option.splits js.splits)

section \<open>The ledger\<close>

record ledger_entry =
  le_sequence :: nat
  le_metadata :: request_metadata
  le_start :: rat
  le_end :: rat
  le_outcome :: rpc_outcome

definition durationMs :: "ledger_entry \<Rightarrow> rat" where
  "durationMs e = le_end e - le_start e"

record ledger =
  l_capacity :: nat
  l_entries :: "ledger_entry list"
  l_nextSequence :: nat
  l_completed :: nat
  l_dropped :: nat
  l_countsByOutcome :: "rpc_outcome \<Rightarrow> nat"
  l_countsByMethod :: "rpc_method \<Rightarrow> nat"

definition createRpcRequestLedger :: "js \<Rightarrow> ledger result" where
  "createRpcRequestLedger capacity =
     (if \<not> is_safe_integer capacity \<or> num_of capacity < 1 \<or> 4096 < num_of capacity
      then throw ''RPC ledger capacity is invalid''
      else Inr \<lparr> l_capacity = nat \<lfloor>num_of capacity\<rfloor>, l_entries = [], l_nextSequence = 0,
                 l_completed = 0, l_dropped = 0, l_countsByOutcome = (\<lambda>_. 0),
                 l_countsByMethod = (\<lambda>_. 0) \<rparr>)"

record boundary =
  b_sequence :: nat
  b_metadata :: request_metadata
  b_start :: rat

text \<open>The part of \<open>record\<close> before the operation is called, with the reading of the clock.  The
  sequence number is taken before the clock is checked.\<close>

definition begin_record :: "js \<Rightarrow> js \<Rightarrow> ledger \<Rightarrow> boundary result \<times> ledger" where
  "begin_record metadata start l =
     (case validateMetadata metadata of Inl e \<Rightarrow> (Inl e, l)
      | Inr m \<Rightarrow>
          let n = Suc (l_nextSequence l); l' = l\<lparr> l_nextSequence := n \<rparr> in
          if \<not> is_finite_number start then (throw ''RPC ledger monotonic clock is invalid'', l')
          else (Inr \<lparr> b_sequence = n, b_metadata = m, b_start = num_of start \<rparr>, l'))"

definition append_entry :: "boundary \<Rightarrow> js \<Rightarrow> rpc_outcome \<Rightarrow> ledger \<Rightarrow> ledger_entry result \<times> ledger" where
  "append_entry b finish outcome l =
     (if \<not> is_finite_number finish \<or> num_of finish < b_start b
      then (throw ''RPC ledger monotonic clock regression'', l)
      else
      let entry = \<lparr> le_sequence = b_sequence b, le_metadata = b_metadata b, le_start = b_start b,
                    le_end = num_of finish, le_outcome = outcome \<rparr>;
          m = methodClass (b_metadata b);
          es = sort_key le_sequence (l_entries l @ [entry]);
          full = l_capacity l < length es in
      (Inr entry,
       l\<lparr> l_entries := (if full then tl es else es),
          l_completed := Suc (l_completed l),
          l_countsByOutcome := (l_countsByOutcome l)(outcome := Suc (l_countsByOutcome l outcome)),
          l_countsByMethod := (l_countsByMethod l)(m := Suc (l_countsByMethod l m)),
          l_dropped := (if full then Suc (l_dropped l) else l_dropped l) \<rparr>))"

text \<open>What \<open>record\<close> throws: an error of its own, or the safe form of the operation's failure.\<close>

datatype rpc_failure =
    Plain js_error
  | Safe_Failure (sf_outcome: rpc_outcome) (sf_method: rpc_method) (sf_sequence: nat) (sf_persisted: bool)

definition safe_failure :: "ledger_entry \<Rightarrow> rpc_failure" where
  "safe_failure e = Safe_Failure (le_outcome e) (methodClass (le_metadata e)) (le_sequence e)
     (signaturePersisted (le_metadata e))"

text \<open>The part of \<open>record\<close> after the operation: \<open>Inl\<close> holds the value it threw.\<close>

definition end_record :: "boundary \<Rightarrow> js \<Rightarrow> js + 'a \<Rightarrow> ledger \<Rightarrow> (rpc_failure + 'a) \<times> ledger" where
  "end_record b finish res l =
     (case append_entry b finish (case res of Inl e \<Rightarrow> error_outcome e | Inr v \<Rightarrow> SUCCESS) l of
        (Inl e, l') \<Rightarrow> (Inl (Plain e), l')
      | (Inr entry, l') \<Rightarrow>
          (case res of Inl e \<Rightarrow> (Inl (safe_failure entry), l') | Inr v \<Rightarrow> (Inr v, l')))"

definition summary :: "ledger \<Rightarrow> js" where
  "summary l = JObj
     [(''capacity'', JNat (l_capacity l)), (''totalRecorded'', JNat (l_completed l)),
      (''retained'', JNat (length (l_entries l))), (''dropped'', JNat (l_dropped l)),
      (''countsByOutcome'', JObj (map (\<lambda>(n, oc). (n, JNat (l_countsByOutcome l oc))) RPC_OUTCOMES)),
      (''countsByMethod'', JObj (map (\<lambda>(n, m). (n, JNat (l_countsByMethod l m))) RPC_METHOD_CLASSES))]"

section \<open>The check of a summary\<close>

definition safe_count :: "js \<Rightarrow> bool" where
  "safe_count v \<longleftrightarrow> is_safe_integer v \<and> 0 \<le> num_of v"

definition safe_counts :: "js \<Rightarrow> string list \<Rightarrow> rat \<Rightarrow> bool" where
  "safe_counts counts ks tot \<longleftrightarrow>
     exact_keys counts ks \<and> list_all (\<lambda>k. safe_count (get counts k)) ks
     \<and> sum_list (map (\<lambda>k. num_of (get counts k)) ks) = tot"

definition isSafeRpcRequestSummary :: "js \<Rightarrow> bool" where
  "isSafeRpcRequestSummary v \<longleftrightarrow>
     exact_keys v [''capacity'', ''countsByMethod'', ''countsByOutcome'', ''dropped'', ''retained'',
       ''totalRecorded'']
     \<and> is_safe_integer (get v ''capacity'') \<and> 1 \<le> num_of (get v ''capacity'')
     \<and> num_of (get v ''capacity'') \<le> 4096
     \<and> safe_count (get v ''totalRecorded'') \<and> safe_count (get v ''retained'')
     \<and> num_of (get v ''retained'') \<le> num_of (get v ''capacity'')
     \<and> num_of (get v ''retained'') \<le> num_of (get v ''totalRecorded'')
     \<and> safe_count (get v ''dropped'')
     \<and> num_of (get v ''dropped'') = num_of (get v ''totalRecorded'') - num_of (get v ''retained'')
     \<and> safe_counts (get v ''countsByOutcome'') (map fst RPC_OUTCOMES) (num_of (get v ''totalRecorded''))
     \<and> safe_counts (get v ''countsByMethod'') (map fst RPC_METHOD_CLASSES) (num_of (get v ''totalRecorded''))"

section \<open>Invariant\<close>

definition outcome_total :: "ledger \<Rightarrow> nat" where
  "outcome_total l = sum_list (map (\<lambda>(n, oc). l_countsByOutcome l oc) RPC_OUTCOMES)"

definition method_total :: "ledger \<Rightarrow> nat" where
  "method_total l = sum_list (map (\<lambda>(n, m). l_countsByMethod l m) RPC_METHOD_CLASSES)"

definition ledger_inv :: "ledger \<Rightarrow> bool" where
  "ledger_inv l \<longleftrightarrow>
     1 \<le> l_capacity l \<and> l_capacity l \<le> 4096 \<and> length (l_entries l) \<le> l_capacity l
     \<and> l_completed l = length (l_entries l) + l_dropped l
     \<and> outcome_total l = l_completed l \<and> method_total l = l_completed l
     \<and> sorted (map le_sequence (l_entries l))
     \<and> list_all (\<lambda>e. le_start e \<le> le_end e) (l_entries l)"

inductive ledger_step :: "ledger \<Rightarrow> ledger \<Rightarrow> bool" where
  opened: "begin_record metadata start l = (r, l') \<Longrightarrow> ledger_step l l'"
| closed: "end_record b finish (res :: js + js) l = (r, l') \<Longrightarrow> ledger_step l l'"

inductive_simps ledger_step_iff: "ledger_step l l'"

lemma created_inv: "createRpcRequestLedger capacity = Inr l \<Longrightarrow> ledger_inv l"
proof -
  assume ok: "createRpcRequestLedger capacity = Inr l"
  then have "is_safe_integer capacity" "1 \<le> num_of capacity" "num_of capacity \<le> 4096"
    by (auto simp: createRpcRequestLedger_def split: if_splits)
  then have "1 \<le> nat \<lfloor>num_of capacity\<rfloor>" "nat \<lfloor>num_of capacity\<rfloor> \<le> 4096"
    by (auto simp: le_nat_iff le_floor_iff nat_le_iff floor_le_iff)
  with ok show ?thesis
    by (auto simp: createRpcRequestLedger_def ledger_inv_def outcome_total_def method_total_def
        RPC_OUTCOMES_def RPC_METHOD_CLASSES_def split: if_splits)
qed

lemma outcome_total_Suc:
  "outcome_total (l\<lparr> l_countsByOutcome := (l_countsByOutcome l)(oc := Suc (l_countsByOutcome l oc)) \<rparr>)
     = Suc (outcome_total l)"
  by (cases oc) (simp_all add: outcome_total_def RPC_OUTCOMES_def)

lemma method_total_Suc:
  "method_total (l\<lparr> l_countsByMethod := (l_countsByMethod l)(m := Suc (l_countsByMethod l m)) \<rparr>)
     = Suc (method_total l)"
  by (cases m) (simp_all add: method_total_def RPC_METHOD_CLASSES_def)

lemma append_entry_inv:
  assumes "append_entry b finish oc l = (r, l')" and "ledger_inv l"
  shows "ledger_inv l'"
proof (cases "is_finite_number finish \<and> b_start b \<le> num_of finish")
  case False
  with assms show ?thesis by (auto simp: append_entry_def)
next
  case True
  let ?e = "\<lparr> le_sequence = b_sequence b, le_metadata = b_metadata b, le_start = b_start b,
      le_end = num_of finish, le_outcome = oc \<rparr>"
  let ?es = "sort_key le_sequence (l_entries l @ [?e])"
  have len: "length ?es = Suc (length (l_entries l))" by simp
  have sorted: "sorted (map le_sequence ?es)" by simp
  have ok: "list_all (\<lambda>e. le_start e \<le> le_end e) ?es"
    using True assms(2) by (simp add: ledger_inv_def list_all_iff)
  have tl_ok: "sorted (map le_sequence (tl ?es))" "list_all (\<lambda>e. le_start e \<le> le_end e) (tl ?es)"
    using sorted ok by (cases ?es; simp)+
  from assms(1) True have l': "l' = l\<lparr> l_entries := (if l_capacity l < length ?es then tl ?es else ?es),
          l_completed := Suc (l_completed l),
          l_countsByOutcome := (l_countsByOutcome l)(oc := Suc (l_countsByOutcome l oc)),
          l_countsByMethod := (l_countsByMethod l)
            (methodClass (b_metadata b) := Suc (l_countsByMethod l (methodClass (b_metadata b)))),
          l_dropped := (if l_capacity l < length ?es then Suc (l_dropped l) else l_dropped l) \<rparr>"
    by (auto simp: append_entry_def Let_def)
  have "outcome_total l' = Suc (outcome_total l)" "method_total l' = Suc (method_total l)"
    using outcome_total_Suc [of l oc] method_total_Suc [of l "methodClass (b_metadata b)"]
    by (simp_all add: l' outcome_total_def method_total_def)
  with assms(2) len sorted ok tl_ok show ?thesis
    by (cases "l_capacity l < length ?es") (auto simp: ledger_inv_def l' simp del: length_sort)
qed

lemma ledger_step_inv: "ledger_step l l' \<Longrightarrow> ledger_inv l \<Longrightarrow> ledger_inv l'"
proof (induction rule: ledger_step.induct)
  case (opened metadata start l r l')
  then show ?case
    by (auto simp: begin_record_def ledger_inv_def outcome_total_def method_total_def Let_def
        split: sum.splits if_splits)
next
  case (closed b finish res l r l')
  then obtain q where "append_entry b finish (case res of Inl e \<Rightarrow> error_outcome e | Inr v \<Rightarrow> SUCCESS) l = (q, l')"
    by (auto simp: end_record_def split: prod.splits sum.splits)
  with closed.prems append_entry_inv show ?case by blast
qed

interpretation ledger: step_invariant ledger_step ledger_inv
  by unfold_locales (rule ledger_step_inv)

text \<open>The summary of a ledger passes the check, as long as the tot is a safe integer.\<close>

lemma safe_count_nat: "int n \<le> MAX_SAFE_INTEGER \<Longrightarrow> safe_count (JNat n)"
  by (simp add: safe_count_def is_safe_integer_def safe_int_def)

lemma sort_eq_if_mset_eq: "mset xs = mset ys \<Longrightarrow> sort xs = sort ys" for xs ys :: "string list"
  by (rule properties_for_sort) simp_all

lemma safe_counts_object:
  assumes "distinct (map fst names)" and "sum_list (map (\<lambda>(n, x). f x) names) = tot"
    and "int tot \<le> MAX_SAFE_INTEGER"
  shows "safe_counts (JObj (map (\<lambda>(n, x). (n, JNat (f x))) names)) (map fst names) (of_nat tot)"
proof -
  let ?v = "JObj (map (\<lambda>(n, x). (n, JNat (f x))) names)"
  have each: "get ?v n = JNat (f x)" if "(n, x) \<in> set names" for n x
  proof -
    have names: "map fst (map (\<lambda>(n, x). (n, JNat (f x))) names) = map fst names"
      by (induction names) auto
    have "distinct (map fst (map (\<lambda>(n, x). (n, JNat (f x))) names))"
      unfolding names by (rule assms(1))
    moreover from that have "(n, JNat (f x)) \<in> set (map (\<lambda>(n, x). (n, JNat (f x))) names)"
      by (auto intro: rev_image_eqI)
    ultimately have "map_of (map (\<lambda>(n, x). (n, JNat (f x))) names) n = Some (JNat (f x))"
      by (rule map_of_is_SomeI)
    then show ?thesis by simp
  qed
  have small: "int (f x) \<le> MAX_SAFE_INTEGER" if "(n, x) \<in> set names" for n x
  proof -
    have "f x \<le> sum_list (map (\<lambda>(n, x). f x) names)"
      using that by (intro member_le_sum_list) (auto intro: rev_image_eqI)
    with assms(2,3) show ?thesis by linarith
  qed
  have "sum_list (map (\<lambda>k. num_of (get ?v k)) (map fst names))
      = sum_list (map (\<lambda>(n, x). of_nat (f x)) names)"
    using each by (simp add: comp_def) (rule arg_cong [where f = sum_list], auto)
  also have "\<dots> = of_nat tot"
    unfolding assms(2) [symmetric] by (induction names) auto
  finally have sums: "sum_list (map (\<lambda>k. num_of (get ?v k)) (map fst names)) = of_nat tot" .
  have "list_all (\<lambda>k. safe_count (get ?v k)) (map fst names)"
    using each small safe_count_nat by (auto simp: list_all_iff simp del: get.simps)
  moreover have "exact_keys ?v (map fst names)"
    by (simp add: exact_keys_def comp_def case_prod_beta)
  ultimately show ?thesis using sums unfolding safe_counts_def by blast
qed

lemma summary_safe:
  assumes "ledger_inv l" and "int (l_completed l) \<le> MAX_SAFE_INTEGER"
  shows "isSafeRpcRequestSummary (summary l)"
proof -
  have keys: "exact_keys (summary l) [''capacity'', ''countsByMethod'', ''countsByOutcome'', ''dropped'',
       ''retained'', ''totalRecorded'']"
    by (auto simp: exact_keys_def summary_def intro!: sort_eq_if_mset_eq)
  have outc: "safe_counts (get (summary l) ''countsByOutcome'') (map fst RPC_OUTCOMES) (of_nat (l_completed l))"
    using safe_counts_object [of RPC_OUTCOMES "l_countsByOutcome l" "l_completed l"] assms
    by (simp add: summary_def ledger_inv_def outcome_total_def) (simp add: RPC_OUTCOMES_def)
  have m: "safe_counts (get (summary l) ''countsByMethod'') (map fst RPC_METHOD_CLASSES) (of_nat (l_completed l))"
    using safe_counts_object [of RPC_METHOD_CLASSES "l_countsByMethod l" "l_completed l"] assms
    by (simp add: summary_def ledger_inv_def method_total_def) (simp add: RPC_METHOD_CLASSES_def)
  have small: "int (length (l_entries l)) \<le> MAX_SAFE_INTEGER" "int (l_dropped l) \<le> MAX_SAFE_INTEGER"
    "int (l_capacity l) \<le> MAX_SAFE_INTEGER"
    using assms by (auto simp: ledger_inv_def MAX_SAFE_INTEGER_def)
  have vals: "get (summary l) ''capacity'' = JNat (l_capacity l)"
    "get (summary l) ''totalRecorded'' = JNat (l_completed l)"
    "get (summary l) ''retained'' = JNat (length (l_entries l))"
    "get (summary l) ''dropped'' = JNat (l_dropped l)"
    by (simp_all add: summary_def)
  have safe: "safe_count (JNat (l_capacity l))" "safe_count (JNat (l_completed l))"
    "safe_count (JNat (length (l_entries l)))" "safe_count (JNat (l_dropped l))"
    by (intro safe_count_nat small assms(2))+
  from assms(1) have nums: "(1 :: rat) \<le> of_nat (l_capacity l)" "of_nat (l_capacity l) \<le> (4096 :: rat)"
    "of_nat (length (l_entries l)) \<le> (of_nat (l_capacity l) :: rat)"
    "of_nat (length (l_entries l)) \<le> (of_nat (l_completed l) :: rat)"
    "of_nat (l_dropped l) = (of_nat (l_completed l) - of_nat (length (l_entries l)) :: rat)"
    by (simp_all add: ledger_inv_def)
  show ?thesis
    unfolding isSafeRpcRequestSummary_def vals num_of.simps
    using keys outc m safe nums safe(1) [unfolded safe_count_def] by simp
qed

end
