(* ===== verification/Scenarios.thy ===== *)
theory Scenarios imports Throttled_Uploader Validation_Snapshot Cluster Flow_Execution Rpc_Ledger begin

text \<open>
  Concrete inputs on which the properties of the development are exercised: a chain with a token
  program and three instructions that create, fund and release an escrow; an environment of keys,
  a plan, an authorisation and an adapter that answers every call of a run of the cancel flow;
  a small upload with its checkpoint.  Nothing here models code of the repository.
\<close>

section \<open>A chain\<close>

definition key_of :: "nat \<Rightarrow> key" where
  "key_of n = replicate 32 (word_of_nat n)"

definition demo_env :: program_env where
  "demo_env = \<lparr> escrow_pda = (\<lambda>s r. (key_of 20, 255)), vault_pda = (\<lambda>e. (key_of 21, 254)),
     mint_decimals = (\<lambda>m. if m = key_of 4 then Some 6 else None), transfer_checked = plain_transfer \<rparr>"

definition demo_chain :: chain where
  "demo_chain = \<lparr> escrows = (\<lambda>_. None),
     token_accounts = [key_of 5 \<mapsto> \<lparr> ta_owner = key_of 1, ta_mint = key_of 4, ta_amount = 100 \<rparr>,
       key_of 6 \<mapsto> \<lparr> ta_owner = key_of 3, ta_mint = key_of 4, ta_amount = 0 \<rparr>],
     clock = 1000, events = [] \<rparr>"

definition demo_init :: "key list \<times> escrow_instruction" where
  "demo_init = ([key_of 1], Initialize_Escrow (key_of 1) (key_of 4) (key_of 20) (key_of 21) (key_of 7)
     60 2000 (key_of 2) (key_of 3))"

definition demo_fund :: "key list \<times> escrow_instruction" where
  "demo_fund = ([key_of 1], Fund_Escrow (key_of 1) (key_of 4) (key_of 5) (key_of 20) (key_of 21))"

definition demo_release :: "key list \<times> escrow_instruction" where
  "demo_release = ([key_of 2], Release (key_of 2) (key_of 4) (key_of 20) (key_of 21) (key_of 6))"

definition demo_refund :: "key list \<times> escrow_instruction" where
  "demo_refund = ([key_of 1], Refund (key_of 1) (key_of 4) (key_of 20) (key_of 21) (key_of 5))"

text \<open>Transactions in turn; an escrow does not sign.\<close>

fun process_all ::
    "program_env \<Rightarrow> (key list \<times> escrow_instruction) list \<Rightarrow> chain \<Rightarrow> EscrowError + chain" where
  "process_all env [] ch = Inr ch"
| "process_all env ((signers, ix) # xs) ch =
     (if \<forall>k\<in>set signers. escrows ch k = None
      then and_then (process env signers ix ch) (process_all env xs)
      else Inl (Constraint ''signer''))"

lemma process_all_steps: "process_all env xs ch = Inr ch' \<Longrightarrow> chain_steps env ch ch'"
proof (induction xs arbitrary: ch)
  case (Cons x xs)
  obtain signers ix where x: "x = (signers, ix)" by (cases x)
  with Cons.prems obtain ch1 where "chain_step env ch ch1" "process_all env xs ch1 = Inr ch'"
    by (auto simp: and_then_eq_Inr intro: instruction split: if_splits)
  with Cons.IH show ?case by (blast intro: converse_rtranclp_into_rtranclp)
qed simp

lemma key_of_eq [simp]: "n < 256 \<Longrightarrow> m < 256 \<Longrightarrow> key_of n = key_of m \<longleftrightarrow> n = m"
  by (auto simp: key_of_def word_of_nat_eq_iff take_bit_eq_mod)

lemma key_of_default [simp]: "0 < n \<Longrightarrow> n < 256 \<Longrightarrow> key_of n \<noteq> replicate 32 0"
  by (auto simp: key_of_def word_of_nat_eq_0_iff)

lemma key_of_not_zero [simp]: "0 < n \<Longrightarrow> n < 256 \<Longrightarrow> \<not> list_all (\<lambda>b. b = 0) (key_of n)"
  by (simp add: key_of_def list_all_iff word_of_nat_eq_0_iff nat_dvd_not_less)

lemma length_key_of [simp]: "length (key_of n) = 32"
  by (simp add: key_of_def)

lemmas demo_simps = demo_env_def demo_chain_def demo_init_def demo_fund_def demo_release_def
  demo_refund_def require_def
  initialize_escrow_def fund_escrow_def release_def refund_def validate_initialization_def default_key_def
  escrow_account_def token_account_is_def can_fund_def can_release_def can_refund_def
  validate_sponsor_def token_cpi_def plain_transfer_def

lemma demo_no_escrows: "no_escrows demo_chain"
  by (simp add: no_escrows_def demo_chain_def)

lemma demo_law: "transfer_law demo_env"
  by (rule plain_transfer_law) (simp add: demo_env_def)

definition funded_chain :: chain where
  "funded_chain = (case process_all demo_env [demo_init, demo_fund] demo_chain of Inr ch \<Rightarrow> ch
     | Inl e \<Rightarrow> demo_chain)"

definition demo_escrow :: Escrow where
  "demo_escrow = \<lparr> sponsor = key_of 1, maintainer = key_of 2, contributor = key_of 3, mint = key_of 4,
     vault = key_of 21, external_ref_hash = key_of 7, amount = 60, created_at = 1000, expiry = 2000,
     status = Initialized, bump = 255, vault_bump = 254 \<rparr>"

lemma funded_chain_eq:
  "funded_chain = demo_chain\<lparr> escrows := [key_of 20 \<mapsto> demo_escrow\<lparr> status := Funded \<rparr>],
     token_accounts := [key_of 5 \<mapsto> \<lparr> ta_owner = key_of 1, ta_mint = key_of 4, ta_amount = 40 \<rparr>,
       key_of 6 \<mapsto> \<lparr> ta_owner = key_of 3, ta_mint = key_of 4, ta_amount = 0 \<rparr>,
       key_of 21 \<mapsto> \<lparr> ta_owner = key_of 20, ta_mint = key_of 4, ta_amount = 60 \<rparr>],
     events := [EscrowInitialized (key_of 20) demo_escrow, EscrowFunded (key_of 20) (key_of 1) 60] \<rparr>"
  by (simp add: funded_chain_def demo_simps Let_def demo_escrow_def fun_eq_iff)

lemma funded_chain_run: "process_all demo_env [demo_init, demo_fund] demo_chain = Inr funded_chain"
  by (simp add: funded_chain_def demo_simps Let_def demo_escrow_def)

lemma demo_reaches_funded: "chain_steps demo_env demo_chain funded_chain"
  by (rule process_all_steps [OF funded_chain_run])

lemma demo_solvent: "solvent funded_chain"
  using covered.run [OF demo_reaches_funded] demo_law demo_no_escrows no_escrows_solvent by blast

section \<open>A run of the cancel flow\<close>

text \<open>Public keys are their own texts; the hash numbers the texts it is given by their length.\<close>

definition demo_keys :: runner_env where
  "demo_keys = \<lparr> valid_pk = (\<lambda>k. True), key_bytes = (\<lambda>k. key_of (length k)),
     base58 = (\<lambda>bs. ''programdata''), sha256_bytes = (\<lambda>bs. key_of (Suc (length bs))),
     find_pda = (\<lambda>seeds p. if length seeds = 3 then ''escrow'' else ''vault''),
     stringify = (\<lambda>v. ''manifest'') \<rparr>"

definition demo_builders :: token_builders where
  "demo_builders =
     (let ix = \<lparr> i_program = ''token'', i_keys = [], i_data = [] \<rparr> in
      \<lparr> createAccount = (\<lambda>p m n l q. ix), initializeMint2 = (\<lambda>m d a q. ix),
        ataAddress = (\<lambda>m w. ''ata''), createAta = (\<lambda>p a w m. ix), mintTo = (\<lambda>m d a n. ix) \<rparr>)"

definition demo_instance :: flow_instance where
  "demo_instance = \<lparr> fi_flow = ''cancel'', fi_externalRefLabel = ''ref'', fi_externalRefHash = key_of 4,
     fi_escrow = ''escrow'', fi_vault = ''vault'' \<rparr>"

definition demo_manifest :: manifest where
  "demo_manifest = \<lparr> m_cluster = ''devnet'', m_genesisHash = JStr DEVNET_GENESIS_HASH,
     m_programId = ''program'', m_programDataAddress = ''programdata'', m_upgradeAuthority = ''authority'',
     m_flows = [''cancel''], m_uniquenessToken = ''t'', m_instances = [demo_instance],
     m_transactionCeiling = 2, m_amount = JNat 60, m_decimals = JNat 6 \<rparr>"

definition demo_plan :: flow_plan where
  "demo_plan = \<lparr> p_createdAtMs = 1, p_manifest = demo_manifest, p_manifestHash = ''hash'',
     p_tokenProgram = CLASSIC_TOKEN_PROGRAM_ID, p_upgradeAuthority = ''authority'',
     p_identities = \<lparr> id_sponsor = ''spn'', id_maintainer = ''mtn'', id_contributor = ''ctr'' \<rparr>,
     p_balances = [], p_funding = \<lparr> recoverableRent = 0, permanentFees = 0, totalWrites = 9,
       fp_safetyReserveLamports = 0, requiredLamports = 0 \<rparr>, p_fundingSufficient = True,
     p_transactionCeiling = 2, p_negativeChecks = [], p_sanitizedTransactionPlan = [], p_notes = [] \<rparr>"

definition demo_auth :: js where
  "demo_auth = JObj [(''manifestHash'', JStr ''hash''), (''expectedGenesisHash'', JStr DEVNET_GENESIS_HASH),
     (''expectedProgramId'', JStr ''program''), (''executionId'', JStr ''run-1''),
     (''transactionCeiling'', JNat 2), (''enabledFlows'', JArr [JStr ''cancel'']),
     (''identityAssertions'', JObj [(''sponsor'', JStr ''spn''), (''maintainer'', JStr ''mtn''),
        (''contributor'', JStr ''ctr'')]),
     (''acknowledgeDevnet'', JStr ''R4_DEVNET_BUSINESS_FLOW'')]"

text \<open>The state of the adapter counts the sends; the escrow is created by the fifth and cancelled
  by the sixth.\<close>

definition demo_account :: "pubkey \<Rightarrow> nat \<Rightarrow> account_info option" where
  "demo_account k n =
     (if k = ''program'' then Some \<lparr> ai_owner = UPGRADEABLE_LOADER, ai_executable = True, ai_data = [] \<rparr>
      else if k = ''escrow'' \<and> 5 \<le> n then Some \<lparr> ai_owner = ''program'', ai_executable = False,
        ai_data = borsh_escrow (replicate 8 0)
          (demo_escrow\<lparr> status := if n = 5 then Initialized else Cancelled \<rparr>) \<rparr>
      else None)"

definition demo_adapter :: "nat flow_adapter" where
  "demo_adapter = \<lparr> signerPublicKeys = [(''mint'', ''mnt''), (''mintAuthority'', ''mauth'')],
     ad_readAccount = (\<lambda>k n. (Inr (demo_account k n), n)),
     ad_readBalance = (\<lambda>k. give 10), ad_rent = (\<lambda>n. give 1), ad_getChainTime = give (JNat 1000),
     ad_simulate = (\<lambda>tx. give \<lparr> sim_err = JStr ''err'', sim_logs = None, sim_units = JNull \<rparr>),
     ad_send = (\<lambda>tx n. (Inr \<lparr> st_signature = JStr ''sig'', st_blockhash = JStr ''bh'',
       st_lastValidBlockHeight = JNat 1 \<rparr>, Suc n)),
     ad_confirm = (\<lambda>tx. give (JObj [])), ad_signatureStatus = (\<lambda>sg. give JNull),
     ad_writeReceipt = (\<lambda>r. give ()), ad_readIds = give No_File, ad_makeDir = give (),
     ad_writeIds = (\<lambda>v. give ()), ad_now = give 2, ad_sleep = (\<lambda>t. give ()) \<rparr>"

definition demo_options :: execution_options where
  "demo_options = \<lparr> o_nowMs = None, o_ttlMs = None, o_mintLamports = None, o_fuel = 5 \<rparr>"

text \<open>The parts of the demonstration objects, so that a run is evaluated without unfolding them.\<close>

lemma demo_keys_sel [simp]:
  "valid_pk demo_keys k" "key_bytes demo_keys k = key_of (length k)"
  "base58 demo_keys bs = ''programdata''" "sha256_bytes demo_keys bs = key_of (Suc (length bs))"
  "find_pda demo_keys seeds p = (if length seeds = 3 then ''escrow'' else ''vault'')"
  by (simp_all add: demo_keys_def)

lemma demo_builders_sel [simp]: "ataAddress demo_builders m w = ''ata''"
  by (simp add: demo_builders_def Let_def)

lemma demo_manifest_sel [simp]:
  "m_genesisHash demo_manifest = JStr DEVNET_GENESIS_HASH" "m_programId demo_manifest = ''program''"
  "m_programDataAddress demo_manifest = ''programdata''" "m_flows demo_manifest = [''cancel'']"
  "m_instances demo_manifest = [demo_instance]" "m_amount demo_manifest = JNat 60"
  "m_decimals demo_manifest = JNat 6"
  "fi_flow demo_instance = ''cancel''" "fi_escrow demo_instance = ''escrow''"
  "fi_vault demo_instance = ''vault''" "fi_externalRefLabel demo_instance = ''ref''"
  by (simp_all add: demo_manifest_def demo_instance_def)

lemma demo_plan_sel [simp]:
  "p_createdAtMs demo_plan = 1" "p_manifest demo_plan = demo_manifest" "p_manifestHash demo_plan = ''hash''"
  "p_upgradeAuthority demo_plan = ''authority''" "p_transactionCeiling demo_plan = 2"
  "id_sponsor (p_identities demo_plan) = ''spn''" "id_maintainer (p_identities demo_plan) = ''mtn''"
  "id_contributor (p_identities demo_plan) = ''ctr''" "requiredLamports (p_funding demo_plan) = 0"
  by (simp_all add: demo_plan_def)

lemma demo_adapter_sel [simp]:
  "signerPublicKeys demo_adapter = [(''mint'', ''mnt''), (''mintAuthority'', ''mauth'')]"
  "ad_readAccount demo_adapter k n = (Inr (demo_account k n), n)"
  "ad_readBalance demo_adapter k = give 10" "ad_rent demo_adapter b = give 1"
  "ad_getChainTime demo_adapter = give (JNat 1000)"
  "ad_send demo_adapter tx n = (Inr \<lparr> st_signature = JStr ''sig'', st_blockhash = JStr ''bh'',
       st_lastValidBlockHeight = JNat 1 \<rparr>, Suc n)"
  "ad_confirm demo_adapter out = give (JObj [])"
  "ad_writeReceipt demo_adapter rc = give ()" "ad_readIds demo_adapter = give No_File"
  "ad_makeDir demo_adapter = give ()" "ad_writeIds demo_adapter v = give ()"
  "ad_now demo_adapter = give 2"
  by (simp_all add: demo_adapter_def)

lemma demo_options_sel [simp]:
  "o_nowMs demo_options = None" "o_ttlMs demo_options = None" "o_mintLamports demo_options = None"
  "o_fuel demo_options = 5"
  by (simp_all add: demo_options_def)

lemma demo_authorized: "authorizeExecution demo_plan demo_auth
    = Inr \<lparr> g_executionId = JStr ''run-1'', g_enabledFlows = [''cancel''], g_transactionCeiling = 2 \<rparr>"
  by (simp add: authorizeExecution_def demo_auth_def authorization_fields_def
      nullish_def DEVNET_GENESIS_HASH_def planned_flow_def assert_identities_def by_role_def
      assertNotDeploymentAuthority_def)

lemma demo_ceiling: "computeFullCeiling [''cancel'']
    = Inr \<lparr> c_setupWrites = 4, c_flowWrites = 2, c_totalWrites = 6, c_simulations = 3 \<rparr>"
  by (simp add: computeFullCeiling_def flow_def_def FLOW_DEFINITIONS_def SETUP_TRANSACTION_COUNT_def)

definition demo_mx :: "nat matrix" where
  "demo_mx = \<lparr> mx_ad = demo_adapter, mx_grant = \<lparr> g_executionId = JStr ''run-1'',
         g_enabledFlows = [''cancel''], g_transactionCeiling = 2 \<rparr>,
       mx_ceiling = \<lparr> c_setupWrites = 4, c_flowWrites = 2, c_totalWrites = 6, c_simulations = 3 \<rparr>,
       mx_env = demo_keys, mx_builders = demo_builders, mx_plan = demo_plan, mx_mint = ''mnt'',
       mx_mintAuthority = ''mauth'', mx_sponsorToken = ''ata'', mx_contributorToken = ''ata'',
       mx_amount = 60, mx_decimals = JNat 6, mx_mintLamports = 1, mx_fuel = 5 \<rparr>"

lemma demo_mx_sel [simp]:
  "mx_ad demo_mx = demo_adapter" "g_executionId (mx_grant demo_mx) = JStr ''run-1''"
  "g_enabledFlows (mx_grant demo_mx) = [''cancel'']" "c_totalWrites (mx_ceiling demo_mx) = 6"
  "mx_env demo_mx = demo_keys" "mx_builders demo_mx = demo_builders" "mx_plan demo_mx = demo_plan"
  "mx_mint demo_mx = ''mnt''" "mx_mintAuthority demo_mx = ''mauth''" "mx_sponsorToken demo_mx = ''ata''"
  "mx_contributorToken demo_mx = ''ata''" "mx_amount demo_mx = 60" "mx_decimals demo_mx = JNat 6"
  "mx_mintLamports demo_mx = 1" "mx_fuel demo_mx = 5"
  by (simp_all add: demo_mx_def)

lemma demo_prepared:
  "prepare_matrix demo_keys demo_builders demo_plan demo_auth demo_adapter demo_options 0
    = (Inr demo_mx, 0)"
  by (simp add: prepare_matrix_def demo_mx_def runAcceptanceMatrix_def then_do_def demo_authorized demo_ceiling
      assertPlanFresh_def assertSignersExcludeAuthority_def assertNotDeploymentAuthority_def
      reserveExecutionId_def recheckOnChainBeforeExecution_def demo_account_def deriveEscrowPda_def
      deriveVaultPda_def normalizeRefHash_def assertPublicKey_def signer_key_def plan_amount_def
      associatedTokenAddress_def pk_def key_env.truncate_def referenceHashFor_def ascii_def is_integer_def Let_def)

lemma demo_verifies:
  "decodeEscrow env (borsh_escrow (replicate 8 0) (demo_escrow\<lparr> status := st \<rparr>)) = Inr d \<Longrightarrow>
   d_status d = Flow_Instructions.status_name st"
  "\<exists>d. decodeEscrow env (borsh_escrow (replicate 8 0) (demo_escrow\<lparr> status := st \<rparr>)) = Inr d"
  using decodeEscrow_borsh [of "replicate 8 0" "demo_escrow\<lparr> status := st \<rparr>" env]
  by (simp_all add: key_sized_def demo_escrow_def)

lemma demo_status_check:
  "verifyEscrowStatus env (borsh_escrow (replicate 8 0) (demo_escrow\<lparr> status := st \<rparr>)) expected
    = Inr (Status_Check (Flow_Instructions.status_name st = expected)
        (Flow_Instructions.status_name st) expected)"
  using demo_verifies [of "key_env.truncate env" st] by (auto simp: verifyEscrowStatus_def)

lemmas demo_send_simps = send_def sendStep_def confirm_sent_def verify_sent_def record_entry_def
  best_effort_def lift_world_def happens_def update_def writeMatrixReceipt_def evidence_of_def
  stopped_def one_def then_do_def verifyStatus_def account_data_def demo_account_def
  demo_status_check pk_def key_env.truncate_def

definition demo_after :: "nat \<Rightarrow> nat run \<Rightarrow> bool" where
  "demo_after n w \<longleftrightarrow> world w = n \<and> r_sent w = n \<and> r_status w = RUNNING"

lemma demo_setup:
  "\<exists>w. in_turn (setup_steps demo_mx) (start_run 0) = (Inr None, w) \<and> demo_after 4 w"
  by (simp add: setup_steps_def start_run_def demo_after_def demo_send_simps ids_def
      buildCreateMintInstructions_def assertClassicTokenProgram_def
      buildCreateAssociatedTokenAccount_def associatedTokenAddress_def buildMintTo_def Let_def)

lemma demo_cancel:
  assumes "demo_after 4 w" and "releaseExpiry expy = 4645"
  shows "\<exists>w'. in_turn [flow_block demo_mx ''release'' (release_steps demo_mx expy),
      flow_block demo_mx ''refund'' (refund_steps demo_mx expy),
      flow_block demo_mx ''cancel'' (cancel_steps demo_mx expy)] w = (Inr None, w') \<and> demo_after 6 w'"
  using assms
  by (simp add: flow_block_def cancel_steps_def send_initialize_def instanceForFlow_def demo_after_def
      demo_send_simps ids_def buildInitializeEscrow_def buildCancel_def instruction_for_def big_int_def
      encode32_def encodeU64LE_def encodeI64LE_def metas_def meta_def flow_accounts_of_def
      referenceHashFor_def Let_def)

lemma demo_completes:
  "\<exists>rep w'. executeFullMatrix demo_keys demo_builders demo_plan demo_auth demo_adapter demo_options 0
     = (Inr rep, w') \<and> rp_status rep = COMPLETE"
proof -
  obtain w where w: "in_turn (setup_steps demo_mx) (start_run 0) = (Inr None, w)" "demo_after 4 w"
    using demo_setup by blast
  define expy where "expy = \<lparr> chainTimeSeconds = 1000, releaseExpiry = 4645, refundExpiry = 1020,
    wait = \<lparr> targetSeconds = 1020, wp_pollIntervalMs = 3000, wp_timeoutMs = 120000 \<rparr> \<rparr>"
  have expiry: "planExpiry (JNat 1000) default_expiry_options = Inr expy"
    by (simp add: planExpiry_def default_expiry_options_def assert_counts_def is_integer_def expy_def Let_def)
  obtain w' where "in_turn [flow_block demo_mx ''release'' (release_steps demo_mx expy),
      flow_block demo_mx ''refund'' (refund_steps demo_mx expy),
      flow_block demo_mx ''cancel'' (cancel_steps demo_mx expy)] w = (Inr None, w')" "demo_after 6 w'"
    using demo_cancel [OF w(2), of expy] by (auto simp: expy_def)
  with w expiry show ?thesis
    by (simp add: executeFullMatrix_def demo_prepared run_matrix_def then_do_def lift_world_def update_def
        writeMatrixReceipt_def best_effort_def report_of_def)
qed

section \<open>The release of the funded escrow\<close>

lemma demo_released:
  obtains ch where "process demo_env [key_of 2]
      (Release (key_of 2) (key_of 4) (key_of 20) (key_of 21) (key_of 6)) funded_chain = Inr ch"
    and "escrows ch (key_of 20) = Some (demo_escrow\<lparr> status := Released \<rparr>)"
    and "chain_steps demo_env funded_chain ch"
proof -
  obtain ch where ch: "process demo_env [key_of 2]
      (Release (key_of 2) (key_of 4) (key_of 20) (key_of 21) (key_of 6)) funded_chain = Inr ch"
    "escrows ch (key_of 20) = Some (demo_escrow\<lparr> status := Released \<rparr>)"
    by (simp add: demo_simps funded_chain_eq demo_escrow_def)
  moreover have "\<forall>k\<in>set [key_of 2]. escrows funded_chain k = None"
    by (simp add: funded_chain_eq)
  ultimately show thesis using that instruction by blast
qed

lemma demo_funded: "escrows funded_chain (key_of 20) = Some (demo_escrow\<lparr> status := Funded \<rparr>)"
  by (simp add: funded_chain_eq)

section \<open>Keys that print as 32 characters\<close>

definition text_keys :: key_env where
  "text_keys = \<lparr> valid_pk = (\<lambda>k. length k = 32), key_bytes = ascii,
     base58 = map (\<lambda>b. char_of (unat b)), sha256_bytes = rev \<rparr>"

lemma text_keys_lawful: "keys_lawful text_keys" "discriminators_lawful text_keys"
proof -
  have "unat (word_of_nat (of_char c) :: byte) = of_char c" for c :: char
    by (simp add: unat_of_nat)
  then show "keys_lawful text_keys"
    by (simp add: keys_lawful_def text_keys_def ascii_def comp_def)
  show "discriminators_lawful text_keys"
    by (simp add: discriminators_lawful_def handler_names_def text_keys_def discriminator_def ascii_def
        subarray_def)
qed

definition text_accounts :: flow_accounts where
  "text_accounts = \<lparr> fa_programId = replicate 32 CHR ''p'', fa_sponsor = replicate 32 CHR ''s'',
     fa_mint = replicate 32 CHR ''m'', fa_escrow = replicate 32 CHR ''e'',
     fa_vault = replicate 32 CHR ''v'' \<rparr>"

section \<open>A plan\<close>

definition demo_request :: plan_request where
  "demo_request = \<lparr> rq_rpcUrl = JStr DEVNET_RPC_URL, rq_expectedProgramId = ''program'',
     rq_identities = \<lparr> id_sponsor = ''spn'', id_maintainer = ''mtn'', id_contributor = ''ctr'' \<rparr>,
     rq_flows = [''cancel''], rq_uniquenessToken = JStr ''t'', rq_amount = JNat 60, rq_decimals = JNat 6,
     rq_mintRent = JNat 1, rq_tokenAccountRent = JNat 1, rq_escrowRent = JNat 1,
     rq_feePerTransaction = JNat 1, rq_safetyReserveLamports = JNat 1, rq_nowMs = 1 \<rparr>"

definition demo_plan_keys :: runner_env where
  "demo_plan_keys = demo_keys\<lparr> base58 := (\<lambda>bs. ''vault'') \<rparr>"

definition demo_plan_rpc :: "unit plan_rpc" where
  "demo_plan_rpc = \<lparr> exposed = [], rpc_getGenesisHash = give (JStr DEVNET_GENESIS_HASH),
     rpc_getAccountInfo = (\<lambda>k. give (Some \<lparr> ai_owner = UPGRADEABLE_LOADER, ai_executable = True,
       ai_data = [3, 0, 0, 0, 0, 0, 0, 0, 0, 0, 0, 0, 1] @ replicate 32 7 \<rparr>)),
     rpc_getBalance = (\<lambda>k. give 100) \<rparr>"

lemma demo_plan_keys_sel [simp]:
  "valid_pk demo_plan_keys k" "key_bytes demo_plan_keys k = key_of (length k)"
  "base58 demo_plan_keys bs = ''vault''" "sha256_bytes demo_plan_keys bs = key_of (Suc (length bs))"
  "find_pda demo_plan_keys seeds p = (if length seeds = 3 then ''escrow'' else ''vault'')"
  by (simp_all add: demo_plan_keys_def)

lemma demo_request_sel [simp]:
  "rq_rpcUrl demo_request = JStr DEVNET_RPC_URL" "rq_expectedProgramId demo_request = ''program''"
  "id_sponsor (rq_identities demo_request) = ''spn''" "id_maintainer (rq_identities demo_request) = ''mtn''"
  "id_contributor (rq_identities demo_request) = ''ctr''" "rq_flows demo_request = [''cancel'']"
  "rq_uniquenessToken demo_request = JStr ''t''"
  by (simp_all add: demo_request_def)

lemma demo_plan_rpc_sel [simp]:
  "exposed demo_plan_rpc = []" "rpc_getGenesisHash demo_plan_rpc = give (JStr DEVNET_GENESIS_HASH)"
  "rpc_getBalance demo_plan_rpc k = give 100"
  by (simp_all add: demo_plan_rpc_def)

lemma demo_read_program:
  "read_program demo_plan_keys ''program'' demo_plan_rpc () = (Inr (''program'', ''vault'', ''vault''), ())"
proof -
  have "parseUpgradeAuthorityFromProgramData demo_plan_keys ([3, 0, 0, 0, 0, 0, 0, 0, 0, 0, 0, 0, 1] @ replicate 32 7)
      = Inr (Some ''vault'')"
    by (simp add: parseUpgradeAuthorityFromProgramData_def PROGRAMDATA_METADATA_OFFSET_def subarray_def)
  then show ?thesis
    by (simp add: read_program_def demo_plan_rpc_def then_do_def assertPublicKey_def)
qed

lemma demo_plan_built:
  obtains plan s' where "buildPlan demo_plan_keys demo_request demo_plan_rpc () = (Inr plan, s')"
    and "m_flows (p_manifest plan) = [''cancel'']"
proof -
  have "check_identities demo_plan_keys (rq_identities demo_request) ''vault'' = Inr ()"
    by (simp add: check_identities_def by_role_def assertPublicKey_def assertNotDeploymentAuthority_def)
  moreover obtain i where "deriveFlowInstances demo_plan_keys [''cancel''] ''t'' ''program'' ''spn'' = Inr i"
    by (simp add: deriveFlowInstances_def externalReference_def FLOW_NAMES_def FLOW_DEFINITIONS_def
        deriveEscrowPda_def deriveVaultPda_def normalizeRefHash_def assertPublicKey_def ascii_def Let_def)
  moreover obtain bs where "read_balances demo_plan_rpc (by_role (rq_identities demo_request)) () = (Inr bs, ())"
    by (simp add: by_role_def then_do_def)
  moreover have "computeTransactionCeiling [''cancel''] = Inr 2"
    by (simp add: flow_def_def FLOW_DEFINITIONS_def)
  moreover obtain f where "plan_funding demo_request 2 = Inr f"
    by (simp add: plan_funding_def demo_request_def computeFundingPlan_def assert_counts_def is_integer_def)
  ultimately have "buildPlan demo_plan_keys demo_request demo_plan_rpc ()
      = (Inr (assemble_plan demo_plan_keys demo_request (JStr DEVNET_GENESIS_HASH)
          (''program'', ''vault'', ''vault'') i bs 2 f), ())"
    by (simp add: buildPlan_def then_do_def demo_read_program FORBIDDEN_RPC_METHODS_def
        FLOW_NAMES_def FLOW_DEFINITIONS_def assertDevnetGenesis_def del: computeTransactionCeiling.simps)
  with that show thesis by (simp add: assemble_plan_def Let_def)
qed

section \<open>A run of the refund flow\<close>

text \<open>The state of this adapter counts sends and simulations.  The escrow is created by the fifth
  and funded by the sixth send; two simulations follow; the refund is the ninth call.\<close>

definition refund_manifest :: manifest where
  "refund_manifest = demo_manifest\<lparr> m_flows := [''refund''],
     m_instances := [demo_instance\<lparr> fi_flow := ''refund'' \<rparr>], m_transactionCeiling := 3 \<rparr>"

definition refund_plan :: flow_plan where
  "refund_plan = demo_plan\<lparr> p_manifest := refund_manifest, p_transactionCeiling := 3 \<rparr>"

definition refund_auth :: js where
  "refund_auth = assign (assign demo_auth ''transactionCeiling'' (JNat 3)) ''enabledFlows''
     (JArr [JStr ''refund''])"

definition refund_escrow_status :: "nat \<Rightarrow> EscrowStatus" where
  "refund_escrow_status n = (if n = 5 then Initialized else if n < 9 then Funded else Refunded)"

definition refund_account :: "pubkey \<Rightarrow> nat \<Rightarrow> account_info option" where
  "refund_account k n =
     (if k = ''program'' then Some \<lparr> ai_owner = UPGRADEABLE_LOADER, ai_executable = True, ai_data = [] \<rparr>
      else if k = ''escrow'' \<and> 5 \<le> n then Some \<lparr> ai_owner = ''program'', ai_executable = False,
        ai_data = borsh_escrow (replicate 8 0) (demo_escrow\<lparr> status := refund_escrow_status n \<rparr>) \<rparr>
      else if k = ''ata'' then Some \<lparr> ai_owner = TOKEN_PROGRAM_ID, ai_executable = False,
        ai_data = replicate 64 0 @ le_bytes 8 (if n < 9 then 40 else 100) @ replicate 93 0 \<rparr>
      else None)"

definition refund_adapter :: "nat flow_adapter" where
  "refund_adapter = demo_adapter\<lparr> ad_readAccount := (\<lambda>k n. (Inr (refund_account k n), n)),
     ad_getChainTime := (\<lambda>n. (Inr (JNat (if n = 4 then 1000 else 2000)), n)),
     ad_simulate := (\<lambda>tx n. (Inr \<lparr> sim_err = JObj [(''InstructionError'', JArr [JNat 0,
         JObj [(''Custom'', JNat (if n = 6 then 6008 else 6007))]])], sim_logs = None,
         sim_units = JNull \<rparr>, Suc n)) \<rparr>"

lemma refund_plan_sel [simp]:
  "m_genesisHash refund_manifest = JStr DEVNET_GENESIS_HASH" "m_programId refund_manifest = ''program''"
  "m_programDataAddress refund_manifest = ''programdata''" "m_flows refund_manifest = [''refund'']"
  "m_instances refund_manifest = [demo_instance\<lparr> fi_flow := ''refund'' \<rparr>]"
  "m_amount refund_manifest = JNat 60" "m_decimals refund_manifest = JNat 6"
  "p_createdAtMs refund_plan = 1" "p_manifest refund_plan = refund_manifest"
  "p_manifestHash refund_plan = ''hash''"
  "p_upgradeAuthority refund_plan = ''authority''" "p_transactionCeiling refund_plan = 3"
  "id_sponsor (p_identities refund_plan) = ''spn''" "id_maintainer (p_identities refund_plan) = ''mtn''"
  "id_contributor (p_identities refund_plan) = ''ctr''" "requiredLamports (p_funding refund_plan) = 0"
  by (simp_all add: refund_plan_def refund_manifest_def)

lemma refund_adapter_sel [simp]:
  "signerPublicKeys refund_adapter = [(''mint'', ''mnt''), (''mintAuthority'', ''mauth'')]"
  "ad_readAccount refund_adapter k n = (Inr (refund_account k n), n)"
  "ad_readBalance refund_adapter k = give 10" "ad_rent refund_adapter b = give 1"
  "ad_getChainTime refund_adapter n = (Inr (JNat (if n = 4 then 1000 else 2000)), n)"
  "ad_simulate refund_adapter tx n = (Inr \<lparr> sim_err = JObj [(''InstructionError'', JArr [JNat 0,
         JObj [(''Custom'', JNat (if n = 6 then 6008 else 6007))]])], sim_logs = None,
         sim_units = JNull \<rparr>, Suc n)"
  "ad_send refund_adapter = ad_send demo_adapter" "ad_confirm refund_adapter out = give (JObj [])"
  "ad_writeReceipt refund_adapter rc = give ()" "ad_readIds refund_adapter = give No_File"
  "ad_makeDir refund_adapter = give ()" "ad_writeIds refund_adapter v = give ()"
  "ad_now refund_adapter = give 2"
  by (simp_all add: refund_adapter_def)

definition refund_mx :: "nat matrix" where
  "refund_mx = demo_mx\<lparr> mx_ad := refund_adapter,
     mx_grant := \<lparr> g_executionId = JStr ''run-1'', g_enabledFlows = [''refund''], g_transactionCeiling = 3 \<rparr>,
     mx_ceiling := \<lparr> c_setupWrites = 4, c_flowWrites = 3, c_totalWrites = 7, c_simulations = 3 \<rparr>,
     mx_plan := refund_plan \<rparr>"

lemma refund_mx_sel [simp]:
  "mx_ad refund_mx = refund_adapter" "g_executionId (mx_grant refund_mx) = JStr ''run-1''"
  "g_enabledFlows (mx_grant refund_mx) = [''refund'']" "c_totalWrites (mx_ceiling refund_mx) = 7"
  "mx_env refund_mx = demo_keys" "mx_builders refund_mx = demo_builders" "mx_plan refund_mx = refund_plan"
  "mx_mint refund_mx = ''mnt''" "mx_mintAuthority refund_mx = ''mauth''" "mx_sponsorToken refund_mx = ''ata''"
  "mx_contributorToken refund_mx = ''ata''" "mx_amount refund_mx = 60" "mx_decimals refund_mx = JNat 6"
  "mx_mintLamports refund_mx = 1" "mx_fuel refund_mx = 5"
  by (simp_all add: refund_mx_def)

lemma refund_authorized: "authorizeExecution refund_plan refund_auth
    = Inr \<lparr> g_executionId = JStr ''run-1'', g_enabledFlows = [''refund''], g_transactionCeiling = 3 \<rparr>"
  by (simp add: authorizeExecution_def refund_auth_def assign_def demo_auth_def authorization_fields_def
      nullish_def DEVNET_GENESIS_HASH_def planned_flow_def assert_identities_def by_role_def
      assertNotDeploymentAuthority_def)

lemma refund_ceiling: "computeFullCeiling [''refund'']
    = Inr \<lparr> c_setupWrites = 4, c_flowWrites = 3, c_totalWrites = 7, c_simulations = 3 \<rparr>"
  by (simp add: computeFullCeiling_def flow_def_def FLOW_DEFINITIONS_def SETUP_TRANSACTION_COUNT_def)

lemma refund_prepared:
  "prepare_matrix demo_keys demo_builders refund_plan refund_auth refund_adapter demo_options 0
    = (Inr refund_mx, 0)"
  by (simp add: prepare_matrix_def refund_mx_def demo_mx_def runAcceptanceMatrix_def then_do_def
      refund_authorized refund_ceiling
      assertPlanFresh_def assertSignersExcludeAuthority_def assertNotDeploymentAuthority_def
      reserveExecutionId_def recheckOnChainBeforeExecution_def refund_account_def deriveEscrowPda_def
      deriveVaultPda_def normalizeRefHash_def assertPublicKey_def signer_key_def plan_amount_def
      associatedTokenAddress_def pk_def key_env.truncate_def referenceHashFor_def ascii_def is_integer_def Let_def)

lemma refund_setup:
  "\<exists>w. in_turn (setup_steps refund_mx) (start_run 0) = (Inr None, w) \<and> world w = 4 \<and> r_sent w = 4"
  by (simp add: setup_steps_def start_run_def demo_send_simps ids_def
      buildCreateMintInstructions_def assertClassicTokenProgram_def
      buildCreateAssociatedTokenAccount_def associatedTokenAddress_def buildMintTo_def Let_def)

definition refund_expiry_plan :: expiry_plan where
  "refund_expiry_plan = \<lparr> chainTimeSeconds = 1000, releaseExpiry = 4645, refundExpiry = 1020,
    wait = \<lparr> targetSeconds = 1020, wp_pollIntervalMs = 3000, wp_timeoutMs = 120000 \<rparr> \<rparr>"

lemmas refund_send_simps = demo_send_simps refund_account_def refund_escrow_status_def ids_def one_def
  flow_accounts_of_def metas_def meta_def instruction_for_def

lemma decode_amount:
  "decodeTokenAccountAmount (replicate 64 0 @ le_bytes 8 (n mod 256) @ replicate 93 0)
    = Inr (show_nat (n mod 256))"
proof -
  have "le_value (le_bytes 8 (n mod 256)) = n mod 256"
    by (rule le_value_le_bytes_id) (simp add: less_le_trans [OF mod_less_divisor])
  then show ?thesis by (simp add: decodeTokenAccountAmount_def ACCOUNT_SIZE_def)
qed

lemma refund_amount:
  "decodeTokenAccountAmount (ai_data (the (refund_account ''ata'' n)))
    = Inr (if n < 9 then ''40'' else ''100'')"
  using decode_amount [of 40] decode_amount [of 100]
  by (simp add: refund_account_def show_nat.simps digit_char_def char_of_def bit_0)

lemma refund_step1:
  assumes "world w = 4" and "r_sent w = 4"
  shows "\<exists>w'. send_initialize refund_mx ''refund:initialize'' ''REFUND_FAILED:initialize''
      (demo_instance\<lparr> fi_flow := ''refund'' \<rparr>) (refundExpiry refund_expiry_plan) w = (Inr None, w')
    \<and> world w' = 5 \<and> r_sent w' = 5"
  using assms
  by (simp add: send_initialize_def refund_send_simps buildInitializeEscrow_def big_int_def refund_expiry_plan_def
      encode32_def encodeU64LE_def encodeI64LE_def referenceHashFor_def Let_def)

lemma refund_step2:
  assumes "world w = 5" and "r_sent w = 5"
  shows "\<exists>w'. send_fund refund_mx ''refund:fund'' ''REFUND_FAILED:fund''
      (demo_instance\<lparr> fi_flow := ''refund'' \<rparr>) w = (Inr None, w') \<and> world w' = 6 \<and> r_sent w' = 6"
  using assms
  by (simp add: send_fund_def refund_send_simps buildFundEscrow_def Let_def)

lemma refund_step3:
  assumes "world w = n" and "r_sent w = 6" and "built = Inr ix"
    and "lookup_error (JNat (if n = 6 then 6008 else 6007)) \<in> set expected"
  shows "\<exists>w'. simulate refund_mx step_id built signers expected w = (Inr None, w')
    \<and> world w' = Suc n \<and> r_sent w' = 6"
  using assms
  by (simp add: simulate_def demo_send_simps decodeProgramError_def custom_code_def expected_error_def
      Let_def)

lemma refund_step4:
  assumes "world w = 7" and "r_sent w = 6"
  shows "\<exists>w'. wait_for_refund refund_mx (wait refund_expiry_plan) w = (Inr None, w')
    \<and> world w' = 7 \<and> r_sent w' = 6"
  using assms
  by (simp add: wait_for_refund_def demo_send_simps waitForExpiry_def eval_nat_numeral waitReached_def
      chain_time_def refund_expiry_plan_def Let_def)

lemma refund_step5:
  assumes "world w = 8" and "r_sent w = 6"
  shows "\<exists>w'. then_do (tokenAmount refund_mx (mx_sponsorToken refund_mx)) (\<lambda>before_amount.
         send refund_mx ''refund:refund'' ''REFUND_FAILED:refund''
           (one (buildRefund (keys refund_mx) (flow_accounts_of refund_mx (demo_instance\<lparr> fi_flow := ''refund'' \<rparr>))
              (mx_sponsorToken refund_mx))) ''sponsor'' [''sponsor'']
           (Some (verify_payout refund_mx (fi_escrow (demo_instance\<lparr> fi_flow := ''refund'' \<rparr>)) ''Refunded''
              (mx_sponsorToken refund_mx) before_amount))) w = (Inr None, w')"
  using assms refund_amount [of 8] refund_amount [of 9]
  by (simp add: tokenAmount_def refund_send_simps buildRefund_def verify_payout_def verifyTokenDelta_def
      number_in_base_def digit_value_def Let_def)

lemma in_turn_step:
  "m w = (Inr None, w') \<Longrightarrow> in_turn (m # ms) w = in_turn ms w'"
  by (simp add: then_do_def)

lemma refund_block:
  assumes "world w = 4" and "r_sent w = 4"
  shows "\<exists>w'. in_turn (refund_steps refund_mx refund_expiry_plan (demo_instance\<lparr> fi_flow := ''refund'' \<rparr>)) w
    = (Inr None, w')"
proof -
  let ?i = "demo_instance\<lparr> fi_flow := ''refund'' \<rparr>"
  obtain w1 where w1: "send_initialize refund_mx ''refund:initialize'' ''REFUND_FAILED:initialize'' ?i
      (refundExpiry refund_expiry_plan) w = (Inr None, w1)" "world w1 = 5" "r_sent w1 = 5"
    using refund_step1 [OF assms] by blast
  obtain w2 where w2: "send_fund refund_mx ''refund:fund'' ''REFUND_FAILED:fund'' ?i w1 = (Inr None, w2)"
      "world w2 = 6" "r_sent w2 = 6"
    using refund_step2 [OF w1(2,3)] by blast
  obtain ix ix' where ix: "buildRefund (keys refund_mx) (flow_accounts_of refund_mx ?i)
        (mx_sponsorToken refund_mx) = Inr ix"
      "buildRelease (keys refund_mx) (flow_accounts_of refund_mx ?i) (id_maintainer (ids refund_mx))
        (mx_contributorToken refund_mx) = Inr ix'"
    by (simp add: buildRefund_def buildRelease_def instruction_for_def metas_def meta_def pk_def
        key_env.truncate_def)
  obtain w3 where w3: "simulate refund_mx ''refund_before_expiry'' (Inr ix) [''sponsor'']
      [JStr ''EscrowNotExpired''] w2 = (Inr None, w3)" "world w3 = 7" "r_sent w3 = 6"
    using refund_step3 [OF w2(2,3) refl] by (force simp: lookup_error_def ESCROW_ERROR_CODES_def)
  obtain w4 where w4: "wait_for_refund refund_mx (wait refund_expiry_plan) w3 = (Inr None, w4)"
      "world w4 = 7" "r_sent w4 = 6"
    using refund_step4 [OF w3(2,3)] by blast
  obtain w5 where w5: "simulate refund_mx ''release_at_or_after_expiry'' (Inr ix') [''maintainer'']
      [JStr ''EscrowExpired''] w4 = (Inr None, w5)" "world w5 = 8" "r_sent w5 = 6"
    using refund_step3 [OF w4(2,3) refl] by (force simp: lookup_error_def ESCROW_ERROR_CODES_def)
  obtain w6 where w6: "then_do (tokenAmount refund_mx (mx_sponsorToken refund_mx)) (\<lambda>before_amount.
         send refund_mx ''refund:refund'' ''REFUND_FAILED:refund''
           (one (buildRefund (keys refund_mx) (flow_accounts_of refund_mx ?i)
              (mx_sponsorToken refund_mx))) ''sponsor'' [''sponsor'']
           (Some (verify_payout refund_mx (fi_escrow ?i) ''Refunded''
              (mx_sponsorToken refund_mx) before_amount))) w5 = (Inr None, w6)"
    using refund_step5 [OF w5(2,3)] by blast
  show ?thesis
    unfolding refund_steps_def Let_def ix
    by (rule exI [of _ w6],
        (rule trans [OF in_turn_step], rule w1(1) w2(1) w3(1) w4(1) w5(1) w6 [unfolded ix])+) simp
qed

lemma refund_completes:
  "\<exists>rep w'. executeFullMatrix demo_keys demo_builders refund_plan refund_auth refund_adapter demo_options 0
     = (Inr rep, w') \<and> rp_status rep = COMPLETE"
proof -
  obtain w where w: "in_turn (setup_steps refund_mx) (start_run 0) = (Inr None, w)" "world w = 4" "r_sent w = 4"
    using refund_setup by blast
  have expiry: "planExpiry (JNat 1000) default_expiry_options = Inr refund_expiry_plan"
    by (simp add: planExpiry_def default_expiry_options_def assert_counts_def is_integer_def
        refund_expiry_plan_def Let_def)
  obtain w' where w': "in_turn (refund_steps refund_mx refund_expiry_plan
      (demo_instance\<lparr> fi_flow := ''refund'' \<rparr>)) w = (Inr None, w')"
    using refund_block [OF w(2,3)] by blast
  have block: "in_turn [flow_block refund_mx ''release'' (release_steps refund_mx refund_expiry_plan),
      flow_block refund_mx ''refund'' (refund_steps refund_mx refund_expiry_plan),
      flow_block refund_mx ''cancel'' (cancel_steps refund_mx refund_expiry_plan)] w = (Inr None, w')"
    using w' by (simp add: flow_block_def instanceForFlow_def then_do_def)
  with w expiry show ?thesis
    by (simp add: executeFullMatrix_def refund_prepared run_matrix_def then_do_def lift_world_def update_def
        writeMatrixReceipt_def best_effort_def report_of_def)
qed

section \<open>Adapters for the wait and for the replay store\<close>

text \<open>A chain that never moves, with a clock that a sleep advances.\<close>

definition stuck_adapter :: "rat flow_adapter" where
  "stuck_adapter = \<lparr> signerPublicKeys = [], ad_readAccount = (\<lambda>k. give None), ad_readBalance = (\<lambda>k. give 0),
     ad_rent = (\<lambda>n. give 0), ad_getChainTime = give (JNat 1000),
     ad_simulate = (\<lambda>tx. fail ''unused''), ad_send = (\<lambda>tx. fail ''unused''),
     ad_confirm = (\<lambda>tx. give JNull), ad_signatureStatus = (\<lambda>sg. give JNull),
     ad_writeReceipt = (\<lambda>r. give ()), ad_readIds = give No_File, ad_makeDir = give (),
     ad_writeIds = (\<lambda>v. give ()), ad_now = (\<lambda>t. (Inr t, t)), ad_sleep = (\<lambda>d t. (Inr (), t + d)) \<rparr>"

lemma stuck_adapter_steady: "steady_clock stuck_adapter id"
  by (auto simp: steady_clock_def stuck_adapter_def)

definition storing_adapter :: "stored_ids flow_adapter" where
  "storing_adapter = \<lparr> signerPublicKeys = [], ad_readAccount = (\<lambda>k. give None), ad_readBalance = (\<lambda>k. give 0),
     ad_rent = (\<lambda>n. give 0), ad_getChainTime = give (JNat 1000),
     ad_simulate = (\<lambda>tx. fail ''unused''), ad_send = (\<lambda>tx. fail ''unused''),
     ad_confirm = (\<lambda>tx. give JNull), ad_signatureStatus = (\<lambda>sg. give JNull),
     ad_writeReceipt = (\<lambda>r. give ()), ad_readIds = (\<lambda>t. (Inr t, t)), ad_makeDir = give (),
     ad_writeIds = (\<lambda>v t. (Inr (), Stored v)), ad_now = give 0, ad_sleep = (\<lambda>t. give ()) \<rparr>"

section \<open>An upload\<close>

text \<open>A transaction is 200 bytes longer than the data of its instruction.\<close>

definition demo_tx :: tx_env where
  "demo_tx = \<lparr> valid_key = (\<lambda>k. True), serialize = (\<lambda>k ix. Inr (200 + length (i_data ix))) \<rparr>"

lemma demo_tx_size:
  "serializedWriteTransactionSize demo_tx b k off bs
    = and_then (encodeLoaderV3Write (JNat off) (Some bs)) (\<lambda>d. Inr (200 + length d))"
  by (cases "encodeLoaderV3Write (JNat off) (Some bs)")
    (simp_all add: serializedWriteTransactionSize_def makeLoaderV3WriteInstruction_def newPublicKey_def demo_tx_def
      BPF_LOADER_UPGRADEABLE_PROGRAM_ID_def)

lemma demo_planned:
  obtains plan where "planBufferUpload demo_tx (\<lambda>bs. ''sha'') ''buf'' ''auth'' [1, 2, 3, 4, 5]
      [1, 2, 0, 0, 0] (Some (JNat 2)) = Inr plan" "map p_exact (plan_chunks plan) = [True, False, False]"
  by (simp add: planBufferUpload_def plan_from.simps plan_one_def demo_tx_size encodeLoaderV3Write_def
      assertOffset_def assertBytes_def is_integer_def PACKET_DATA_SIZE_def SAFETY_MARGIN_def
      MAX_WRITE_PAYLOAD_BYTES_def subarray_def buffer_equals_def Let_def)

end
