(* ===== verification/Escrow_Properties.thy ===== *)
theory Escrow_Properties imports Scenarios begin

text \<open>
  What the escrow program promises to sponsors and contributors, and what the client that plans
  and executes the business flows promises about the transactions it sends, each with a witness
  over the concrete runs of \<open>Scenarios\<close>.
\<close>

section \<open>The escrow program\<close>

text \<open>C1: An escrow pays out at most once.  On a chain that starts without escrows, whatever
  instructions, passages of time and foreign token transfers follow, the number of releases and
  refunds logged for an escrow is one when its status is Released or Refunded and zero otherwise.\<close>

theorem escrow_pays_out_at_most_once:
  assumes "no_escrows ch" and "chain_steps env ch ch'"
  shows "payouts k ch' \<le> 1
    \<and> (payouts k ch' = 1 \<longleftrightarrow> (\<exists>e. escrows ch' k = Some e \<and> (status e = Released \<or> status e = Refunded)))"
  using paid.run [OF assms(2) no_escrows_payout_inv [OF assms(1)]]
  by (auto simp: payout_inv_def is_paid_def split: option.splits)

theorem escrow_pays_out_at_most_once_witness:
  "\<exists>ch. chain_steps demo_env demo_chain ch \<and> escrows ch (key_of 20) \<noteq> None
    \<and> status (the (escrows ch (key_of 20))) = Released \<and> payouts (key_of 20) ch = 1"
proof -
  obtain ch where ch: "escrows ch (key_of 20) = Some (demo_escrow\<lparr> status := Released \<rparr>)"
    "chain_steps demo_env funded_chain ch"
    by (rule demo_released)
  from demo_reaches_funded ch(2) have steps: "chain_steps demo_env demo_chain ch" by (rule rtranclp_trans)
  from escrow_pays_out_at_most_once [OF demo_no_escrows steps, of "key_of 20"] ch(1) steps show ?thesis
    by (intro exI [of _ ch]) simp
qed

text \<open>C2: Solvency.  If the token program moves exactly the amounts it is told to move, every
  escrow of a reachable chain has a vault that belongs to it, holds its mint and, while the
  escrow is Funded, holds at least its amount, whatever other escrows and token transfers do.\<close>

theorem funded_escrow_is_covered:
  assumes "transfer_law env" and "no_escrows ch" and "chain_steps env ch ch'"
    and "escrows ch' k = Some e"
  shows "amount e \<noteq> 0 \<and> (\<exists>a. token_accounts ch' (vault e) = Some a \<and> ta_owner a = k
    \<and> ta_mint a = mint e \<and> (status e = Funded \<longrightarrow> unat (amount e) \<le> unat (ta_amount a)))"
  using covered.run [OF assms(3)] assms(1,4) no_escrows_solvent [OF assms(2)]
  unfolding solvent_def by blast

theorem funded_escrow_is_covered_witness:
  "\<exists>e a. escrows funded_chain (key_of 20) = Some e \<and> status e = Funded
    \<and> token_accounts funded_chain (vault e) = Some a \<and> 60 \<le> unat (ta_amount a)"
  using funded_escrow_is_covered [OF demo_law demo_no_escrows demo_reaches_funded, of "key_of 20"
      "demo_escrow\<lparr> status := Funded \<rparr>"]
  by (auto simp: funded_chain_eq demo_escrow_def)





text \<open>A refund moves the whole amount from the vault to a token account of the sponsor, only
  with the sponsor's signature and not before the expiry; nothing else moves.\<close>

lemma refund_pays_the_sponsor:
  assumes "transfer_law env" and "process env signers (Refund spn mnt esc vlt spn_token) ch = Inr ch'"
    and "spn_token \<noteq> vlt"
  shows "\<exists>e. escrows ch esc = Some e \<and> sponsor e \<in> set signers \<and> sint (expiry e) \<le> sint (clock ch)
    \<and> token_account_is (token_accounts ch) spn_token (mint e) (sponsor e)
    \<and> escrows ch' = (escrows ch)(esc \<mapsto> e\<lparr> status := Refunded \<rparr>)
    \<and> balance (token_accounts ch') vlt = balance (token_accounts ch) vlt - unat (amount e)
    \<and> balance (token_accounts ch') spn_token = balance (token_accounts ch) spn_token + unat (amount e)
    \<and> (\<forall>k. k \<noteq> vlt \<longrightarrow> k \<noteq> spn_token \<longrightarrow> balance (token_accounts ch') k = balance (token_accounts ch) k)"
proof -
  from assms(2) have r: "refund env signers spn mnt esc vlt spn_token ch = Inr ch'" by simp
  from refund_moves [OF assms(1) r] obtain e where e: "escrows ch esc = Some e" "sponsor e = spn"
      "spn \<in> set signers" "sint (expiry e) \<le> sint (clock ch)"
      "escrows ch' = (escrows ch)(esc \<mapsto> e\<lparr> status := Refunded \<rparr>)"
      "token_account_is (token_accounts ch) spn_token mnt spn"
    and b: "\<forall>k. balance (token_accounts ch') k = balance (token_accounts ch) k
      + (if k = spn_token \<and> vlt \<noteq> spn_token then unat (amount e) else 0)
      - (if k = vlt \<and> vlt \<noteq> spn_token then unat (amount e) else 0)"
    by metis
  from r e(1) have "mint e = mnt" by (auto simp: refund_def and_then_eq_Inr escrow_account_def)
  with e assms(3) show ?thesis by (intro exI [of _ e]) (simp add: b)
qed

lemma refund_pays_the_sponsor_witness:
  "\<exists>ch'. process demo_env [key_of 1] (Refund (key_of 1) (key_of 4) (key_of 20) (key_of 21) (key_of 5))
      (funded_chain\<lparr> clock := 2000 \<rparr>) = Inr ch' \<and> balance (token_accounts ch') (key_of 5) = 100"
proof -
  obtain ch' where ch': "process demo_env [key_of 1]
      (Refund (key_of 1) (key_of 4) (key_of 20) (key_of 21) (key_of 5)) (funded_chain\<lparr> clock := 2000 \<rparr>)
      = Inr ch'"
    by (simp add: demo_simps funded_chain_eq demo_escrow_def)
  have "key_of 5 \<noteq> key_of 21" by simp
  from refund_pays_the_sponsor [OF demo_law ch' this] ch' show ?thesis
    by (auto simp: funded_chain_eq demo_escrow_def balance_def)
qed



section \<open>The acceptance flow\<close>

text \<open>C6: An instruction built by the client is the instruction the program reads: under distinct
  eight-byte discriminators and keys of 32 bytes, the program dispatches each of the five built
  instructions to the intended handler, with the accounts, the signers and the arguments that
  were passed to the builder.\<close>

theorem built_instructions_are_dispatched:
  assumes "discriminators_lawful env" and "keys_lawful env"
  shows "(\<forall>ref amt expy mtn ctr ix. buildInitializeEscrow env a ref amt expy mtn ctr = Inr ix \<longrightarrow>
      program_dispatch env ix = Some ([key_bytes env (fa_sponsor a)],
        Initialize_Escrow (key_bytes env (fa_sponsor a)) (key_bytes env (fa_mint a))
          (key_bytes env (fa_escrow a)) (key_bytes env (fa_vault a)) ref (word_of_int amt)
          (word_of_int expy) (key_bytes env mtn) (key_bytes env ctr)))
    \<and> (\<forall>st ix. buildFundEscrow env a st = Inr ix \<longrightarrow>
      program_dispatch env ix = Some ([key_bytes env (fa_sponsor a)],
        Fund_Escrow (key_bytes env (fa_sponsor a)) (key_bytes env (fa_mint a)) (key_bytes env st)
          (key_bytes env (fa_escrow a)) (key_bytes env (fa_vault a))))
    \<and> (\<forall>mtn ct ix. buildRelease env a mtn ct = Inr ix \<longrightarrow>
      program_dispatch env ix = Some ([key_bytes env mtn],
        Release (key_bytes env mtn) (key_bytes env (fa_mint a)) (key_bytes env (fa_escrow a))
          (key_bytes env (fa_vault a)) (key_bytes env ct)))
    \<and> (\<forall>st ix. buildRefund env a st = Inr ix \<longrightarrow>
      program_dispatch env ix = Some ([key_bytes env (fa_sponsor a)],
        Refund (key_bytes env (fa_sponsor a)) (key_bytes env (fa_mint a)) (key_bytes env (fa_escrow a))
          (key_bytes env (fa_vault a)) (key_bytes env st)))
    \<and> (\<forall>ix. buildCancel env a = Inr ix \<longrightarrow>
      program_dispatch env ix = Some ([key_bytes env (fa_sponsor a)],
        Cancel (key_bytes env (fa_sponsor a)) (key_bytes env (fa_escrow a))))"
  using assms fund_dispatch release_dispatch refund_dispatch cancel_dispatch initialize_dispatch
  by (intro conjI allI impI)

theorem built_instructions_are_dispatched_witness:
  "\<exists>ix. buildCancel text_keys text_accounts = Inr ix
    \<and> program_dispatch text_keys ix = Some ([replicate 32 115], Cancel (replicate 32 115) (replicate 32 101))"
proof -
  obtain ix where ix: "buildCancel text_keys text_accounts = Inr ix"
    by (simp add: buildCancel_def instruction_for_def pk_def metas_def meta_def text_keys_def text_accounts_def)
  with built_instructions_are_dispatched [OF text_keys_lawful(2,1), of text_accounts] show ?thesis
    by (auto simp: text_keys_def text_accounts_def ascii_def)
qed

text \<open>C7: The decoder of escrow accounts inverts the layout the program writes: decoding the Borsh
  bytes of an escrow account gives back its keys, hash, amount, signed timestamps, status and
  bumps.\<close>

theorem decodeEscrow_inverts_the_layout:
  assumes "length disc = 8" and "\<forall>k\<in>{sponsor e, maintainer e, contributor e, mint e, vault e,
      external_ref_hash e}. length k = 32"
  shows "decodeEscrow env (borsh_escrow disc e) =
    Inr \<lparr> d_sponsor = base58 env (sponsor e), d_maintainer = base58 env (maintainer e),
      d_contributor = base58 env (contributor e), d_mint = base58 env (mint e),
      d_vault = base58 env (vault e), d_externalRefHash = external_ref_hash e,
      d_amount = show_nat (unat (amount e)), d_createdAt = show_int (sint (created_at e)),
      d_expiry = show_int (sint (expiry e)), d_status = Flow_Instructions.status_name (status e),
      d_bump = unat (bump e), d_vaultBump = unat (vault_bump e) \<rparr>"
  by (rule decodeEscrow_borsh) (use assms in \<open>simp add: key_sized_def\<close>)

theorem decodeEscrow_inverts_the_layout_witness:
  "\<exists>d. decodeEscrow text_keys (borsh_escrow (replicate 8 0) (demo_escrow\<lparr> expiry := - 5 \<rparr>)) = Inr d
    \<and> d_expiry d = ''-5'' \<and> d_amount d = ''60'' \<and> d_status d = ''Initialized''"
  using decodeEscrow_inverts_the_layout [of "replicate 8 0" "demo_escrow\<lparr> expiry := - 5 \<rparr>" text_keys]
  by (simp add: demo_escrow_def show_int_def show_nat.simps digit_char_def char_of_def bit_0)

text \<open>C8: A plan keeps its promises.  A plan that \<open>buildPlan\<close> returns targets the devnet genesis;
  none of its three identities is the upgrade authority; its ceiling is the number of steps of
  its flows; its instances are one per flow, in order, with pairwise different external
  references; its hash is the hash of its manifest; and the adapter could not sign or send.\<close>

theorem plan_promises:
  assumes "buildPlan env rq rpc s = (Inr plan, s')"
  shows "m_genesisHash (p_manifest plan) = JStr DEVNET_GENESIS_HASH
    \<and> (\<forall>(role, key)\<in>set (by_role (p_identities plan)). key \<noteq> p_upgradeAuthority plan)
    \<and> p_transactionCeiling plan = length (flow_steps (m_flows (p_manifest plan)))
    \<and> map fi_flow (m_instances (p_manifest plan)) = m_flows (p_manifest plan)
    \<and> distinct (map fi_externalRefHash (m_instances (p_manifest plan)))
    \<and> p_manifestHash plan = manifestHash env (buildManifest (p_manifest plan))
    \<and> set (exposed rpc) \<inter> set FORBIDDEN_RPC_METHODS = {}"
  using buildPlan_ok [OF assms] by (elim conjE) (intro conjI; assumption)

theorem plan_promises_witness:
  "\<exists>plan s'. buildPlan demo_plan_keys demo_request demo_plan_rpc () = (Inr plan, s')
    \<and> p_transactionCeiling plan = 2"
proof -
  obtain plan s' where plan: "buildPlan demo_plan_keys demo_request demo_plan_rpc () = (Inr plan, s')"
      "m_flows (p_manifest plan) = [''cancel'']"
    by (rule demo_plan_built)
  with plan_promises [OF plan(1)] show ?thesis
    by (auto simp: flow_steps_def flow_def_def FLOW_DEFINITIONS_def)
qed

text \<open>C9: An execution is bound to its plan.  An authorisation is granted only if it names the
  plan's manifest hash, the devnet genesis, the plan's program and every identity of the plan,
  none of them the upgrade authority; the grant holds the plan's ceiling and enables planned flows
  only.\<close>

theorem authorization_binds_the_plan:
  assumes "authorizeExecution plan auth = Inr g"
  shows "get auth ''manifestHash'' = JStr (p_manifestHash plan)
    \<and> get auth ''expectedGenesisHash'' = JStr DEVNET_GENESIS_HASH
    \<and> get auth ''expectedProgramId'' = JStr (m_programId (p_manifest plan))
    \<and> g_transactionCeiling g = p_transactionCeiling plan
    \<and> set (g_enabledFlows g) \<subseteq> set (m_flows (p_manifest plan))
    \<and> (\<forall>(role, key)\<in>set (by_role (p_identities plan)).
         get (get auth ''identityAssertions'') role = JStr key \<and> key \<noteq> p_upgradeAuthority plan)"
  using authorizeExecution_ok [OF assms] by (elim conjE) (intro conjI; assumption)

theorem authorization_binds_the_plan_witness:
  "get (get demo_auth ''identityAssertions'') ''sponsor'' = JStr ''spn''"
  using authorization_binds_the_plan [OF demo_authorized] by (simp add: by_role_def)

text \<open>C10: A full execution never sends more than it was granted: what it sends is, in the order of
  the matrix, a prefix of the setup and of the steps of the enabled flows, each step at most once,
  and no more transactions than the ceiling; a refused authorisation sends nothing.\<close>

theorem execution_sends_a_prefix:
  "case authorizeExecution plan auth of
     Inl e \<Rightarrow> r_trace (snd (executeFullMatrix env b plan auth ad opts s)) = []
   | Inr g \<Rightarrow>
       (let sends = sends_of (r_trace (snd (executeFullMatrix env b plan auth ad opts s)))
        in (\<exists>n. sends = take n (sends_of (matrix_script (g_enabledFlows g)))) \<and> distinct sends
          \<and> length sends \<le> (case computeFullCeiling (g_enabledFlows g) of Inl e \<Rightarrow> 0 | Inr c \<Rightarrow> c_totalWrites c))"
proof -
  obtain r w' where run: "executeFullMatrix env b plan auth ad opts s = (r, w')" by fastforce
  then show ?thesis
  proof (cases rule: executeFullMatrix_cases)
    case refused
    then show ?thesis by (auto simp: run sends_of_def intro: exI [of _ 0] split: sum.split)
  next
    case (ran g c)
    with execution_sends [OF run ran(1,2)] show ?thesis by (simp add: run)
  qed
qed





text \<open>C13: The wait for an expiry ends.  With a clock that a sleep advances by its duration, the
  loop decides within as many polls as the timeout has poll intervals, and never by giving up:
  it reports that the time was reached or that the wait timed out.\<close>

theorem wait_for_expiry_ends:
  assumes "steady_clock ad reading" and "wp_timeoutMs wp \<le> wp_pollIntervalMs wp * of_nat polls"
  shows "\<exists>reason s'. waitForExpiry (Suc polls) wp ad s = (Inr reason, s') \<and> reason \<in> {REACHED, TIMEOUT_STOP}"
proof -
  obtain reason s' where "waitForExpiry (Suc polls) wp ad s = (Inr reason, s')" "reason \<noteq> WAITING"
    using waitForExpiry_ends [OF assms, of s] by blast
  then show ?thesis by (cases reason) auto
qed

theorem wait_for_expiry_ends_witness:
  "\<exists>reason s'. waitForExpiry 41 (wait refund_expiry_plan) stuck_adapter 0 = (Inr reason, s')"
proof -
  have "wp_timeoutMs (wait refund_expiry_plan) \<le> wp_pollIntervalMs (wait refund_expiry_plan) * of_nat 40"
    by (simp add: refund_expiry_plan_def)
  from wait_for_expiry_ends [OF stuck_adapter_steady this, of 0] show ?thesis by (auto simp: eval_nat_numeral)
qed

text \<open>An execution identifier is never reserved twice: once a reservation has stored the list of
  used identifiers, and as long as the file gives back what was stored, every further attempt to
  reserve the same identifier fails before anything is written.\<close>

lemma execution_id_is_reserved_once:
  assumes "\<forall>v t t'. ad_writeIds ad v t = (Inr (), t') \<longrightarrow> ad_readIds ad t' = (Inr (Stored v), t')"
    and "reserveExecutionId ad executionId s = (Inr n, s')"
  shows "\<exists>e. reserveExecutionId ad executionId s' = (Inl e, s')"
proof -
  from reserve_ok [OF assms(2)] obtain stored s2 where
    "ad_writeIds ad (JArr (used_ids stored @ [executionId])) s2 = (Inr (), s')" by blast
  with assms(1) have read: "ad_readIds ad s' = (Inr (Stored (JArr (used_ids stored @ [executionId]))), s')"
    by blast
  from assms(2) obtain c cs where "executionId = JStr (c # cs)"
    by (auto simp: reserveExecutionId_def split: js.splits list.splits)
  with read show ?thesis by (simp add: reserveExecutionId_def then_do_def)
qed

lemma execution_id_is_reserved_once_witness:
  "\<exists>e s'. reserveExecutionId storing_adapter (JStr ''run-1'') No_File = (Inr 1, s')
    \<and> reserveExecutionId storing_adapter (JStr ''run-1'') s' = (Inl e, s')"
proof -
  have law: "\<forall>v t t'. ad_writeIds storing_adapter v t = (Inr (), t') \<longrightarrow>
      ad_readIds storing_adapter t' = (Inr (Stored v), t')"
    by (simp add: storing_adapter_def)
  obtain s' where first: "reserveExecutionId storing_adapter (JStr ''run-1'') No_File = (Inr 1, s')"
    by (simp add: reserveExecutionId_def storing_adapter_def then_do_def)
  from execution_id_is_reserved_once [OF law first] first show ?thesis by blast
qed


end
