(* ===== verification/Upload_Properties.thy ===== *)
theory Upload_Properties imports Scenarios begin

text \<open>
  What the upload of the program promises: the plan, the write-ahead state file and the snapshot
  that vouches for the chunks already written, each with a witness.
\<close>

section \<open>The upload\<close>

text \<open>C14: The state file is written ahead of every send.  Whatever the adapters, the clock and the
  file system do, and in whatever state an earlier run left the checkpoint, at the moment a
  transaction is sent the state file on disk holds the chunk as SENT with the signature that is
  sent.\<close>

theorem sends_are_recorded_first:
  "write_ahead p (w_trace (snd (runPersistedSequentialUpload a io p checkpoint chunks confirmed policy fs ext)))"
  using persisted_run_write_ahead by (metis prod.collapse)

text \<open>C15: Within a run no chunk is sent twice, and the run sends at most as many transactions as the
  window of its policy allows, none at all under an unsafe policy.\<close>

theorem upload_sends_within_the_window:
  "let tr = w_trace (snd (runPersistedSequentialUpload a io p checkpoint chunks confirmed policy fs ext))
   in distinct (sent_indexes tr)
    \<and> rat_of_nat (send_count tr)
        \<le> (case normalizeRatePolicy policy of Inl e \<Rightarrow> 0 | Inr q \<Rightarrow> num_of (get q ''maxChunksPerWindow''))"
proof -
  obtain r w where run: "runPersistedSequentialUpload a io p checkpoint chunks confirmed policy fs ext = (r, w)"
    by fastforce
  show ?thesis
  proof (cases "normalizeRatePolicy policy")
    case (Inl e)
    then show ?thesis
      using persisted_run_at_most_once [OF run] persisted_run_unsafe_policy [OF run Inl] run by (simp add: Let_def)
  next
    case (Inr q)
    then obtain m where m: "get q ''maxChunksPerWindow'' = JNat m" by (rule normalized_window)
    with persisted_run_at_most_once [OF run] persisted_run_window [OF run Inr m] Inr show ?thesis
      by (simp add: run Let_def)
  qed
qed

text \<open>C16: A plan completes the buffer.  The chunks of a plan cut the local binary without gap or
  overlap, each fits a packet with the safety margin, and writing just the chunks that are not
  marked as exact turns the current content of the buffer into the local binary.\<close>

theorem plan_completes_the_buffer:
  assumes "planBufferUpload env sha buffer authority local current payload = Inr plan"
  shows "concat (map (\<lambda>c. slice_of local (plan_span c)) (plan_chunks plan)) = local
    \<and> (\<forall>c\<in>set (plan_chunks plan). p_txbytes c \<le> 1231 \<and> p_length c \<le> maxPayload plan
        \<and> p_sha256 c = sha (slice_of local (plan_span c)))
    \<and> fold (write_chunk local) (map plan_span (filter (\<lambda>c. \<not> p_exact c) (plan_chunks plan))) current = local"
proof -
  let ?q = "((env, sha, buffer, authority, local, current, payload), plan)"
  have "planned ?q" using assms by (simp add: planned_def)
  from planner.reassemble [OF this, of local]
  have "concat (map (\<lambda>c. slice_of local (plan_span c)) (plan_chunks plan)) = local"
    by (simp add: planned_size_def planned_spans_def comp_def)
  with plan_chunk_facts [OF assms] plan_completes [OF assms] show ?thesis by blast
qed

theorem plan_completes_the_buffer_witness:
  "\<exists>plan. planBufferUpload demo_tx (\<lambda>bs. ''sha'') ''buf'' ''auth'' [1, 2, 3, 4, 5] [1, 2, 0, 0, 0] (Some (JNat 2))
      = Inr plan \<and> map p_exact (plan_chunks plan) = [True, False, False]
    \<and> fold (write_chunk [1, 2, 3, 4, 5]) (map plan_span (filter (\<lambda>c. \<not> p_exact c) (plan_chunks plan)))
        [1, 2, 0, 0, 0] = ([1, 2, 3, 4, 5] :: bytes)"
proof -
  obtain plan where plan: "planBufferUpload demo_tx (\<lambda>bs. ''sha'') ''buf'' ''auth'' [1, 2, 3, 4, 5]
      [1, 2, 0, 0, 0] (Some (JNat 2)) = Inr plan" "map p_exact (plan_chunks plan) = [True, False, False]"
    by (rule demo_planned)
  show ?thesis
  proof (intro exI conjI)
    show "planBufferUpload demo_tx (\<lambda>bs. ''sha'') ''buf'' ''auth'' [1, 2, 3, 4, 5] [1, 2, 0, 0, 0]
        (Some (JNat 2)) = Inr plan"
      by (rule plan(1))
    show "map p_exact (plan_chunks plan) = [True, False, False]" by (rule plan(2))
    show "fold (write_chunk [1, 2, 3, 4, 5]) (map plan_span (filter (\<lambda>c. \<not> p_exact c) (plan_chunks plan)))
        [1, 2, 0, 0, 0] = ([1, 2, 3, 4, 5] :: bytes)"
      by (rule conjunct2 [OF conjunct2 [OF plan_completes_the_buffer [OF plan(1)]]])
  qed
qed

section \<open>The state file\<close>

text \<open>C23: The state file is saved atomically.  Whatever system call fails, after a save the file holds
  either what it held before or the whole new state, and no other file changes except the
  temporary one.\<close>

theorem state_saves_are_atomic:
  "(let fs' = snd (saveStateAtomic io p state fs) in
     (fs' p = fs p \<or> fs' p = Some (Doc (json_norm state)))
     \<and> (q = p \<or> q = p @ ''.tmp'' \<or> fs' q = fs q))"
proof -
  obtain r fs' where run: "saveStateAtomic io p state fs = (r, fs')" by fastforce
  show ?thesis
    using saveStateAtomic_old_or_new [OF run] saveStateAtomic_frame [OF run, of q]
    by (auto simp: run Let_def)
qed

text \<open>C24: Migration brings every accepted state file to version 3 without secrets, changes nothing
  outside the version and the deployment, and is the identity on its own results.\<close>

theorem migration_reaches_version_3:
  assumes "migrateState v = Inr m" and "k \<noteq> ''schemaVersion''" and "k \<noteq> ''deployment''"
  shows "get m ''schemaVersion'' = JNum 3 \<and> no_secrets m \<and> migrateState m = Inr m \<and> get m k = get v k"
  using migrateState_version [OF assms(1)] migrateState_no_secrets [OF assms(1)]
    migrateState_current migrateState_frame [OF assms] by blast

theorem migration_reaches_version_3_witness:
  "\<exists>m. migrateState (JObj [(''schemaVersion'', JNat 1), (''runs'', JArr [JStr ''r''])]) = Inr m
    \<and> get m ''schemaVersion'' = JNum 3 \<and> migrateState m = Inr m \<and> get m ''runs'' = JArr [JStr ''r'']"
proof -
  let ?v = "JObj [(''schemaVersion'', JNat 1), (''runs'', JArr [JStr ''r''])]"
  have "assertNoSecretMaterial ?v ''state'' = Inr ()"
    unfolding assertNoSecretMaterial_iff by (simp add: secret_field_def SECRET_FIELDS_def to_lower_def keypair_shaped_def)
  then have "\<exists>m. migrateState ?v = Inr m"
    by (simp add: migrateState_def Let_def is_integer_def del: assertNoSecretMaterial.simps)
  then obtain m where m: "migrateState ?v = Inr m" by blast
  from migration_reaches_version_3 [OF this, of "''runs''"] m show ?thesis by auto
qed


text \<open>C26: A validated snapshot vouches for the confirmed prefix: it is fresh, the chunks it confirms are
  the first ones of the plan, and the account data it carries agrees with the local binary on all
  the bytes they cover.\<close>

theorem snapshot_vouches_for_the_prefix:
  assumes "validateConfirmedValidationSnapshot sha snapshot expected (JArr cs) records (Some binary) now ttl
    = Inr confirmed"
  shows "\<exists>k account. k \<le> length cs \<and> confirmed = [0..<k] \<and> snapshot_fresh snapshot now ttl = Inr ()
    \<and> get snapshot ''accountDataBase64'' = JStr (base64_encode account)
    \<and> get snapshot ''accountDataSha256'' = JStr (sha account)
    \<and> span_total (map js_span cs) = length binary
    \<and> take (span_total (map js_span (take k cs))) (drop 37 account)
        = take (span_total (map js_span (take k cs))) binary"
proof -
  from accepted_snapshot [OF assms] obtain payload where fresh: "snapshot_fresh snapshot now ttl = Inr ()"
    and bytes: "snapshot_bytes sha snapshot binary = Inr payload"
    and plan: "snapshot_plan sha binary payload (JArr cs) records = Inr confirmed" by auto
  from snapshot_bytes_ok [OF bytes] obtain account where account:
    "get snapshot ''accountDataBase64'' = JStr (base64_encode account)"
    "get snapshot ''accountDataSha256'' = JStr (sha account)" "payload = drop 37 account"
    by (metis Validation_Snapshot.BUFFER_METADATA_LENGTH_def)
  from snapshot_plan_shows [OF plan] obtain k where "k \<le> length cs" "confirmed = [0..<k]"
    "span_total (map js_span cs) = length binary"
    "take (span_total (map js_span (take k cs))) payload = take (span_total (map js_span (take k cs))) binary"
    by metis
  with fresh account show ?thesis by blast
qed

definition snap_account :: bytes where
  "snap_account = replicate 37 0 @ [7, 0]"

definition snap :: js where
  "snap = JObj [(''version'', JStr SNAPSHOT_VERSION), (''allocation'', JNat 39), (''finalizedSlot'', JNat 4),
     (''capturedAtMonotonicMs'', JNat 100), (''accountDataBase64'', JStr (base64_encode snap_account)),
     (''accountDataSha256'', JStr ''h''), (''binarySha256'', JStr ''h'')]"

definition snap_chunk :: "nat \<Rightarrow> string \<Rightarrow> js" where
  "snap_chunk n st = JObj [(''index'', JNat n), (''offset'', JNat n), (''length'', JNat 1),
     (''sha256'', JStr ''h''), (''status'', JStr st)]"

lemma snap_account_facts: "length snap_account = 39" "drop 37 snap_account = [7, 0]"
  by (simp_all add: snap_account_def)

lemma snap_valid:
  "validateConfirmedValidationSnapshot (\<lambda>bs. ''h'') snap snap
     (JArr [snap_chunk 0 ''x'', snap_chunk 1 ''x'']) (JArr [snap_chunk 0 ''CONFIRMED'', snap_chunk 1 ''PLANNED''])
     (Some [7, 8]) (JNat 150) Undefined = Inr [0]"
proof -
  have bytes: "snapshot_bytes (\<lambda>bs. ''h'') snap [7, 8] = Inr [7, 0]"
    by (simp add: snapshot_bytes_def snap_def snap_account_facts Validation_Snapshot.BUFFER_METADATA_LENGTH_def Let_def)
  have fresh: "snapshot_fresh snap (JNat 150) Undefined = Inr ()"
    by (simp add: snapshot_fresh_def snap_def captured_after_def older_than_def VALIDATION_SNAPSHOT_TTL_MS_def Let_def)
  have plan: "snapshot_plan (\<lambda>bs. ''h'') [7, 8] [7, 0] (JArr [snap_chunk 0 ''x'', snap_chunk 1 ''x''])
      (JArr [snap_chunk 0 ''CONFIRMED'', snap_chunk 1 ''PLANNED'']) = Inr [0]"
    by (simp add: snapshot_plan_def snapshot_step_def snap_chunk_def Let_def is_safe_integer_def safe_int_def
        MAX_SAFE_INTEGER_def subarray_def buffer_equals_def)
  have fields: "get snap ''version'' = JStr SNAPSHOT_VERSION" "get snap ''finalizedSlot'' = JNat 4"
    "get snap ''bufferAddress'' = Undefined" "get snap ''owner'' = Undefined" "get snap ''authority'' = Undefined"
    "get snap ''allocation'' = JNat 39" "get snap ''stateSha256'' = Undefined"
    "get snap ''binarySha256'' = JStr ''h''" "get snap ''planFingerprint'' = Undefined"
    by (simp_all add: snap_def)
  show ?thesis
    by (simp add: validateConfirmedValidationSnapshot_def bytes fresh [simplified] plan [simplified]
        snapshot_bindings_def Let_def fields is_safe_integer_def safe_int_def MAX_SAFE_INTEGER_def)
qed

theorem snapshot_vouches_for_the_prefix_witness:
  "\<exists>k account. [0] = [0..<k] \<and> get snap ''accountDataBase64'' = JStr (base64_encode account)
    \<and> take (span_total (map js_span (take k [snap_chunk 0 ''x'', snap_chunk 1 ''x'']))) (drop 37 account)
        = take (span_total (map js_span (take k [snap_chunk 0 ''x'', snap_chunk 1 ''x'']))) [7, 8]"
  using snapshot_vouches_for_the_prefix [OF snap_valid] by blast

end
