(* ===== verification/Rpc_Scheduler.thy ===== *)
theory Rpc_Scheduler imports Rpc_Ledger begin

text \<open>
  \<open>scripts/devnet/rpc-request-scheduler.mjs\<close>: the queue that sends one RPC request at a time,
  spaces their starts, retries reads and keeps deadlines.

  The code is asynchronous, so a run is a sequence of events, and between two of them lies an
  \<open>await\<close>: the callers' calls (\<open>schedule\<close>, \<open>close\<close>, \<open>abort\<close>, \<open>waitForCoolOff\<close>), the settling of
  the promise the running item waits for (its guard, a sleep, its request or the request's
  timer), and the continuation of the item after it.  The item that runs is in a phase that says
  which \<open>await\<close> it has reached.  The readings of \<open>monotonicNow\<close> are an arbitrary sequence: \<open>clk n\<close>
  is the \<open>n\<close>-th reading.  The ledger is the scheduler's own, with the same clock.
\<close>

section \<open>Policy\<close>

record sched_policy =
  queueCapacity :: nat
  minimumRequestStartGapMs :: rat
  retryBackoffMs :: "rat list"
  requestTimeoutMs :: rat

definition validateDelay :: "bool \<Rightarrow> string \<Rightarrow> js \<Rightarrow> unit result" where
  "validateDelay allowZero label v =
     guard (is_safe_integer v \<and> (if allowZero then 0 else 1) \<le> num_of v) (label @ '' is invalid'')"

section \<open>State\<close>

record item =
  i_id :: nat
  i_metadata :: js
  i_guarded :: bool
  i_deadline :: "rat option"
  i_notBefore :: "rat option"
  i_observed :: bool
  i_cleanup :: rat

datatype sched_error =
    Thrown rpc_failure
  | Deadline_Exhausted (de_method: js) (de_persisted: js)

datatype settlement = Resolved js | Rejected sched_error

text \<open>What the running item waits for.  The number is the retry number of the attempt; \<open>Gap\<close>
  and \<open>Backoff\<close> are the two uses of \<open>waitUntil\<close>.\<close>

datatype wait_use = Gap | Backoff

datatype phase =
    Guarding nat
  | Sleeping wait_use nat rat
  | Waited wait_use nat
  | In_Flight nat boundary bool
  | Ended settlement

record request_start =
  st_item :: item
  st_retry :: nat
  st_ready :: rat
  st_at :: rat

record cool_off =
  co_started :: rat
  co_target :: rat
  co_finished :: "rat option"

record sched =
  sc_policy :: sched_policy
  sc_ledger :: ledger
  sc_queue :: "item list"
  sc_running :: "(item \<times> phase) option"
  sc_closed :: bool
  sc_aborted :: "js_error option"
  sc_waiters :: nat
  sc_lastStart :: "rat option"
  sc_lastCompletion :: "rat option"
  sc_lastRead :: "rat option"
  sc_reads :: nat
  sc_nextId :: nat
  sc_settled :: "(nat \<times> settlement) list"
  sc_starts :: "request_start list"
  sc_cooling :: "cool_off list"
  sc_cooled :: "(js_error + rat \<times> rat) list"

text \<open>\<open>sc_nextId\<close>, \<open>sc_settled\<close>, \<open>sc_starts\<close> and \<open>sc_cooled\<close> record what the callers observe:
  the promises handed out, how each was settled, the starts of requests, and the cool-offs that
  ended, all with the newest last.\<close>

definition createRpcRequestScheduler :: "js \<Rightarrow> js \<Rightarrow> js \<Rightarrow> js \<Rightarrow> js \<Rightarrow> sched result" where
  "createRpcRequestScheduler capacity ledgerCapacity gap backoffs timeout =
     and_then (validateDelay False ''RPC scheduler queue capacity'' capacity) (\<lambda>_.
     and_then (guard (num_of capacity \<le> 4096) ''RPC scheduler queue capacity is invalid'') (\<lambda>_.
     and_then (validateDelay True ''RPC scheduler request-start gap'' gap) (\<lambda>_.
     case backoffs of
       JArr [b1, b2] \<Rightarrow>
         and_then (for_each (validateDelay False ''RPC scheduler retry delay'') [b1, b2]) (\<lambda>_.
         and_then (validateDelay False ''RPC scheduler request timeout'' timeout) (\<lambda>_.
         and_then (guard (num_of timeout \<le> 2147483647) ''RPC scheduler request timeout is invalid'') (\<lambda>_.
         and_then (createRpcRequestLedger ledgerCapacity) (\<lambda>l.
         Inr \<lparr> sc_policy = \<lparr> queueCapacity = nat \<lfloor>num_of capacity\<rfloor>, minimumRequestStartGapMs = num_of gap,
                  retryBackoffMs = [num_of b1, num_of b2], requestTimeoutMs = num_of timeout \<rparr>,
               sc_ledger = l, sc_queue = [], sc_running = None, sc_closed = False, sc_aborted = None,
               sc_waiters = 0, sc_lastStart = None, sc_lastCompletion = None, sc_lastRead = None,
               sc_reads = 0, sc_nextId = 0, sc_settled = [], sc_starts = [], sc_cooling = [],
               sc_cooled = [] \<rparr>))))
     | _ \<Rightarrow> throw ''RPC scheduler retry policy is invalid'')))"

section \<open>The clock\<close>

definition readMonotonic :: "(nat \<Rightarrow> js) \<Rightarrow> (rat, sched) effect" where
  "readMonotonic clk s =
     (let v = clk (sc_reads s); s' = s\<lparr> sc_reads := Suc (sc_reads s) \<rparr> in
      if \<not> is_finite_number v then (throw ''RPC scheduler monotonic clock is invalid'', s')
      else if (case sc_lastRead s of Some t \<Rightarrow> num_of v < t | None \<Rightarrow> False)
      then (throw ''RPC scheduler monotonic clock regression'', s')
      else (Inr (num_of v), s'\<lparr> sc_lastRead := Some (num_of v) \<rparr>))"

text \<open>One turn of the loop of \<open>waitUntil\<close>: \<open>None\<close> says that it has to sleep.\<close>

definition waitUntil_turn :: "(nat \<Rightarrow> js) \<Rightarrow> rat \<Rightarrow> (rat option, sched) effect" where
  "waitUntil_turn clk earliest s =
     (case sc_aborted s of Some e \<Rightarrow> (Inl e, s)
      | None \<Rightarrow> then_do (readMonotonic clk) (\<lambda>now s'.
          (Inr (if earliest \<le> now then Some now else None), s')) s)"

section \<open>Aborting and settling\<close>

definition settleIdleWaiters :: "sched \<Rightarrow> sched" where
  "settleIdleWaiters s =
     (if sc_running s \<noteq> None \<or> sc_queue s \<noteq> [] then s else s\<lparr> sc_waiters := 0 \<rparr>)"

definition waitUntilIdle :: "sched \<Rightarrow> sched" where
  "waitUntilIdle s =
     (if sc_running s = None \<and> sc_queue s = [] then s else s\<lparr> sc_waiters := Suc (sc_waiters s) \<rparr>)"

definition markAborted :: "js_error \<Rightarrow> sched \<Rightarrow> sched" where
  "markAborted e s =
     (if sc_aborted s \<noteq> None then s
      else settleIdleWaiters (s\<lparr> sc_aborted := Some e, sc_closed := True, sc_queue := [],
             sc_settled := sc_settled s @ map (\<lambda>i. (i_id i, Rejected (Thrown (Plain e)))) (sc_queue s) \<rparr>))"

definition observer_failed :: js_error where
  "observer_failed = Error ''RPC scheduler invocation observer failed''"

section \<open>Running an item\<close>

definition phase_to :: "item \<Rightarrow> phase \<Rightarrow> sched \<Rightarrow> sched" where
  "phase_to i p s = s\<lparr> sc_running := Some (i, p) \<rparr>"

definition rejected :: "item \<Rightarrow> js_error \<Rightarrow> sched \<Rightarrow> sched" where
  "rejected i e = phase_to i (Ended (Rejected (Thrown (Plain e))))"

text \<open>Go to sleep in \<open>waitUntil\<close>, or past it.\<close>

definition wait_turn :: "(nat \<Rightarrow> js) \<Rightarrow> item \<Rightarrow> wait_use \<Rightarrow> nat \<Rightarrow> rat \<Rightarrow> sched \<Rightarrow> sched" where
  "wait_turn clk i u n t s =
     (case waitUntil_turn clk t s of
        (Inl e, s') \<Rightarrow> rejected i e s'
      | (Inr (Some now), s') \<Rightarrow> phase_to i (Waited u n) s'
      | (Inr None, s') \<Rightarrow> phase_to i (Sleeping u n t) s')"

definition earliest_start :: "rat option \<Rightarrow> sched \<Rightarrow> rat option" where
  "earliest_start notBefore s =
     (case sc_lastStart s of
        None \<Rightarrow> notBefore
      | Some t \<Rightarrow>
          let gap = t + minimumRequestStartGapMs (sc_policy s) in
          Some (case notBefore of Some b \<Rightarrow> max b gap | None \<Rightarrow> gap))"

definition waitForRequestStartGap :: "(nat \<Rightarrow> js) \<Rightarrow> item \<Rightarrow> nat \<Rightarrow> sched \<Rightarrow> sched" where
  "waitForRequestStartGap clk i n s =
     (case earliest_start (if n = 0 then i_notBefore i else None) s of
        Some t \<Rightarrow> wait_turn clk i Gap n t s
      | None \<Rightarrow>
          (case readMonotonic clk s of
             (Inl e, s') \<Rightarrow> rejected i e s'
           | (Inr now, s') \<Rightarrow> phase_to i (Waited Gap n) s'))"

text \<open>The top of the loop of \<open>runItem\<close>.\<close>

definition begin_attempt :: "(nat \<Rightarrow> js) \<Rightarrow> item \<Rightarrow> nat \<Rightarrow> sched \<Rightarrow> sched" where
  "begin_attempt clk i n s =
     (case sc_aborted s of
        Some e \<Rightarrow> rejected i e s
      | None \<Rightarrow> if i_guarded i then phase_to i (Guarding n) s else waitForRequestStartGap clk i n s)"

definition retry_allowed :: "item \<Rightarrow> bool" where
  "retry_allowed i \<longleftrightarrow> get (i_metadata i) ''mutationCapability'' = JStr ''read''
     \<and> get (i_metadata i) ''methodClass'' \<noteq> JStr ''SEND_RAW_TRANSACTION''"

definition retryable :: "rpc_failure \<Rightarrow> bool" where
  "retryable e = (case e of Safe_Failure oc m q p \<Rightarrow> oc \<in> {RPC_RATE_LIMITED, RPC_REQUEST_TIMEOUT}
                  | Plain _ \<Rightarrow> False)"

text \<open>The \<open>catch\<close> of an attempt.\<close>

definition attempt_failed :: "(nat \<Rightarrow> js) \<Rightarrow> item \<Rightarrow> nat \<Rightarrow> bool \<Rightarrow> rpc_failure \<Rightarrow> sched \<Rightarrow> sched" where
  "attempt_failed clk i n observerError err s =
     (case readMonotonic clk s of
        (Inl e, s') \<Rightarrow> rejected i e s'
      | (Inr now, s1) \<Rightarrow>
          let s' = s1\<lparr> sc_lastCompletion := Some now \<rparr> in
          if observerError then rejected i observer_failed (markAborted observer_failed s')
          else if \<not> retry_allowed i \<or> \<not> retryable err \<or> length (retryBackoffMs (sc_policy s')) \<le> n
                  \<or> sc_aborted s' \<noteq> None
          then phase_to i (Ended (Rejected (Thrown err))) s'
          else wait_turn clk i Backoff n (now + retryBackoffMs (sc_policy s') ! n) s')"

text \<open>\<open>requestLedger.record\<close> up to its first \<open>await\<close>: the metadata are checked, a sequence number
  is taken, the start is read, the operation is called and the start is observed.\<close>

definition start_request :: "(nat \<Rightarrow> js) \<Rightarrow> item \<Rightarrow> nat \<Rightarrow> bool \<Rightarrow> rat \<Rightarrow> sched \<Rightarrow> sched" where
  "start_request clk i n observer_throws ready s =
     (let metadata = JObj (set_field (own_fields (i_metadata i)) ''retryNumber'' (JNat n)) in
      case validateMetadata metadata of
        Inl e \<Rightarrow> attempt_failed clk i n False (Plain e) s
      | Inr _ \<Rightarrow>
          (case readMonotonic clk s of
             (Inl e, s1) \<Rightarrow>
               attempt_failed clk i n False (Plain e)
                 (s1\<lparr> sc_ledger := snd (begin_record metadata JNonFinite (sc_ledger s1)) \<rparr>)
           | (Inr now, s1) \<Rightarrow>
               (case begin_record metadata (JNum now) (sc_ledger s1) of
                  (Inl e, l) \<Rightarrow> attempt_failed clk i n False (Plain e) (s1\<lparr> sc_ledger := l \<rparr>)
                | (Inr b, l) \<Rightarrow>
                    phase_to i (In_Flight n b (i_observed i \<and> observer_throws))
                      (s1\<lparr> sc_ledger := l, sc_lastStart := Some now,
                          sc_starts := sc_starts s1 @
                            [\<lparr> st_item = i, st_retry = n, st_ready = ready, st_at = now \<rparr>] \<rparr>))))"

definition start_attempt :: "(nat \<Rightarrow> js) \<Rightarrow> item \<Rightarrow> nat \<Rightarrow> bool \<Rightarrow> sched \<Rightarrow> sched" where
  "start_attempt clk i n observer_throws s =
     (case sc_aborted s of
        Some e \<Rightarrow> rejected i e s
      | None \<Rightarrow>
          (case readMonotonic clk s of
             (Inl e, s') \<Rightarrow> rejected i e s'
           | (Inr ready, s') \<Rightarrow>
               if (case i_deadline i of None \<Rightarrow> False
                   | Some d \<Rightarrow> d < ready + requestTimeoutMs (sc_policy s') + i_cleanup i)
               then phase_to i (Ended (Rejected (Deadline_Exhausted
                      (get (i_metadata i) ''methodClass'') (get (i_metadata i) ''signaturePersisted'')))) s'
               else start_request clk i n observer_throws ready s'))"

text \<open>The request has settled: \<open>Inl\<close> holds what it threw.  The ledger takes its own reading of
  the clock, which may throw.\<close>

definition attempt_ended :: "(nat \<Rightarrow> js) \<Rightarrow> item \<Rightarrow> nat \<Rightarrow> boundary \<Rightarrow> bool \<Rightarrow> js + js \<Rightarrow> sched \<Rightarrow> sched" where
  "attempt_ended clk i n b observerError res s =
     (case end_record b (clk (sc_reads s)) res (sc_ledger s) of (r, l) \<Rightarrow>
        let s1 = s\<lparr> sc_reads := Suc (sc_reads s), sc_ledger := l \<rparr> in
        case r of
          Inl err \<Rightarrow> attempt_failed clk i n observerError err s1
        | Inr v \<Rightarrow>
            (case readMonotonic clk s1 of
               (Inl e, s2) \<Rightarrow> attempt_failed clk i n observerError (Plain e) s2
             | (Inr now, s2) \<Rightarrow>
                 if observerError
                 then attempt_failed clk i n True (Plain observer_failed)
                        (markAborted observer_failed (s2\<lparr> sc_lastCompletion := Some now \<rparr>))
                 else phase_to i (Ended (Resolved v)) (s2\<lparr> sc_lastCompletion := Some now \<rparr>)))"

definition timeout_error :: js where
  "timeout_error = JObj [(''message'', JStr ''RPC request attempt timed out''),
     (''code'', JStr ''RPC_REQUEST_TIMEOUT'')]"

section \<open>The queue\<close>

text \<open>\<open>runItem\<close> reads the metadata of the item before anything else.\<close>

definition run_item :: "(nat \<Rightarrow> js) \<Rightarrow> item \<Rightarrow> sched \<Rightarrow> sched" where
  "run_item clk i s =
     (if nullish (i_metadata i) then rejected i TypeError s else begin_attempt clk i 0 s)"

definition pump :: "(nat \<Rightarrow> js) \<Rightarrow> sched \<Rightarrow> sched" where
  "pump clk s =
     (case sc_queue s of
        [] \<Rightarrow> settleIdleWaiters s
      | i # q \<Rightarrow>
          if sc_running s \<noteq> None \<or> sc_aborted s \<noteq> None then settleIdleWaiters s
          else run_item clk i (s\<lparr> sc_queue := q \<rparr>))"

text \<open>The settling of the item's promise with the \<open>finally\<close> of \<open>pump\<close>.\<close>

definition settle :: "(nat \<Rightarrow> js) \<Rightarrow> item \<Rightarrow> settlement \<Rightarrow> sched \<Rightarrow> sched" where
  "settle clk i r s =
     (let s' = s\<lparr> sc_settled := sc_settled s @ [(i_id i, r)], sc_running := None \<rparr> in
      if sc_aborted s' = None \<and> sc_queue s' \<noteq> [] then pump clk s' else settleIdleWaiters s')"

datatype callable = Missing | Callable | Not_Callable

record schedule_options =
  so_beforeAttempt :: callable
  so_deadline :: js
  so_notBefore :: js
  so_observer :: callable
  so_cleanup :: js

definition schedule_error :: "bool \<Rightarrow> schedule_options \<Rightarrow> sched \<Rightarrow> js_error option" where
  "schedule_error operation q s =
     (if sc_closed s \<or> sc_aborted s \<noteq> None
      then Some (case sc_aborted s of Some e \<Rightarrow> e | None \<Rightarrow> Error ''RPC scheduler is closed'')
      else if \<not> operation then Some (Error ''RPC scheduler operation is required'')
      else if so_beforeAttempt q = Not_Callable
      then Some (Error ''RPC scheduler before-attempt guard is invalid'')
      else if so_notBefore q \<noteq> Undefined \<and> \<not> is_finite_number (so_notBefore q)
      then Some (Error ''RPC scheduler not-before time is invalid'')
      else if so_deadline q \<noteq> Undefined \<and> \<not> is_finite_number (so_deadline q)
      then Some (Error ''RPC scheduler deadline is invalid'')
      else if \<not> is_safe_integer (so_cleanup q) \<or> num_of (so_cleanup q) < 0
      then Some (Error ''RPC scheduler required cleanup allowance is invalid'')
      else if so_observer q = Not_Callable
      then Some (Error ''RPC scheduler invocation observer is invalid'')
      else if queueCapacity (sc_policy s) \<le> length (sc_queue s)
      then Some (Error ''RPC scheduler queue capacity exceeded'')
      else None)"

definition optional_number :: "js \<Rightarrow> rat option" where
  "optional_number v = (if v = Undefined then None else Some (num_of v))"

definition schedule :: "(nat \<Rightarrow> js) \<Rightarrow> js \<Rightarrow> bool \<Rightarrow> schedule_options \<Rightarrow> (nat, sched) effect" where
  "schedule clk metadata operation q s =
     (case schedule_error operation q s of
        Some e \<Rightarrow> (Inl e, s)
      | None \<Rightarrow>
          let i = \<lparr> i_id = sc_nextId s, i_metadata = metadata, i_guarded = (so_beforeAttempt q = Callable),
                    i_deadline = optional_number (so_deadline q),
                    i_notBefore = optional_number (so_notBefore q),
                    i_observed = (so_observer q = Callable), i_cleanup = num_of (so_cleanup q) \<rparr> in
          (Inr (sc_nextId s),
           pump clk (s\<lparr> sc_nextId := Suc (sc_nextId s), sc_queue := sc_queue s @ [i] \<rparr>)))"

section \<open>Cool-off, closing, aborting\<close>

text \<open>A cool-off waits in \<open>waitUntil\<close>; once that has returned its last reading, the continuation
  looks at \<open>aborted\<close> once more.\<close>

definition cool_failed :: "js_error \<Rightarrow> sched \<Rightarrow> sched" where
  "cool_failed e s = s\<lparr> sc_cooled := sc_cooled s @ [Inl e] \<rparr>"

definition cool_turn :: "(nat \<Rightarrow> js) \<Rightarrow> cool_off \<Rightarrow> sched \<Rightarrow> sched" where
  "cool_turn clk c s =
     (case waitUntil_turn clk (co_target c) s of
        (Inl e, s') \<Rightarrow> cool_failed e s'
      | (Inr finished, s') \<Rightarrow> s'\<lparr> sc_cooling := sc_cooling s' @ [c\<lparr> co_finished := finished \<rparr>] \<rparr>)"

definition cool_end :: "cool_off \<Rightarrow> rat \<Rightarrow> sched \<Rightarrow> sched" where
  "cool_end c finished s =
     (case sc_aborted s of Some e \<Rightarrow> cool_failed e s
      | None \<Rightarrow> s\<lparr> sc_cooled := sc_cooled s @ [Inr (co_started c, finished)] \<rparr>)"

definition waitForCoolOff :: "(nat \<Rightarrow> js) \<Rightarrow> js \<Rightarrow> (unit, sched) effect" where
  "waitForCoolOff clk minimum s =
     (case validateDelay True ''RPC scheduler cool-off'' minimum of Inl e \<Rightarrow> (Inl e, s)
      | Inr _ \<Rightarrow>
        if sc_running s \<noteq> None \<or> sc_queue s \<noteq> []
        then (throw ''RPC scheduler must be idle before cool-off'', s)
        else case sc_lastCompletion s of
          None \<Rightarrow> (throw ''RPC scheduler cool-off requires a completed RPC request'', s)
        | Some t \<Rightarrow>
            (case sc_aborted s of Some e \<Rightarrow> (Inl e, s)
             | None \<Rightarrow> (Inr (), cool_turn clk
                 \<lparr> co_started = t, co_target = t + num_of minimum, co_finished = None \<rparr> s)))"

definition close :: "sched \<Rightarrow> sched" where
  "close s = waitUntilIdle (s\<lparr> sc_closed := True \<rparr>)"

definition abort :: "js_error \<Rightarrow> sched \<Rightarrow> sched" where
  "abort e s = waitUntilIdle (markAborted e s)"

definition status :: "sched \<Rightarrow> js" where
  "status s = JObj
     [(''active'', JNat (if sc_running s = None then 0 else 1)), (''pending'', JNat (length (sc_queue s))),
      (''aborted'', JBool (sc_aborted s \<noteq> None)), (''closed'', JBool (sc_closed s))]"

definition policy :: "sched \<Rightarrow> js" where
  "policy s = (let p = sc_policy s in JObj
     [(''concurrency'', JNat 1), (''queueCapacity'', JNat (queueCapacity p)),
      (''ledgerCapacity'', JNat (l_capacity (sc_ledger s))),
      (''minimumRequestStartGapMs'', JNum (minimumRequestStartGapMs p)),
      (''requestTimeoutMs'', JNum (requestTimeoutMs p)),
      (''retryBackoffMs'', JArr (map JNum (retryBackoffMs p)))])"

section \<open>Events\<close>

datatype event =
    Schedule js bool schedule_options
  | Close
  | Abort js_error
  | Cool_Off js
  | Guarded "unit result"
  | Woken "unit result"
  | Answered "js + js"
  | Timed_Out
  | Continue bool
  | Cool_Woken nat "unit result"
  | Cool_Continue nat

text \<open>\<open>None\<close> says that the event cannot happen in the state.  The flag of \<open>Continue\<close> says whether
  the item's observer throws, when the continuation starts a request.\<close>

fun item_event :: "(nat \<Rightarrow> js) \<Rightarrow> event \<Rightarrow> item \<Rightarrow> phase \<Rightarrow> sched \<Rightarrow> sched option" where
  "item_event clk (Guarded (Inl e)) i (Guarding n) s = Some (rejected i e s)"
| "item_event clk (Guarded (Inr _)) i (Guarding n) s = Some (waitForRequestStartGap clk i n s)"
| "item_event clk (Woken (Inl e)) i (Sleeping u n t) s = Some (rejected i e s)"
| "item_event clk (Woken (Inr _)) i (Sleeping u n t) s = Some (wait_turn clk i u n t s)"
| "item_event clk (Continue obs) i (Waited Gap n) s = Some (start_attempt clk i n obs s)"
| "item_event clk (Continue obs) i (Waited Backoff n) s = Some (begin_attempt clk i (Suc n) s)"
| "item_event clk (Continue obs) i (Ended r) s = Some (settle clk i r s)"
| "item_event clk (Answered res) i (In_Flight n b obs) s = Some (attempt_ended clk i n b obs res s)"
| "item_event clk Timed_Out i (In_Flight n b obs) s =
     Some (attempt_ended clk i n b obs (Inl timeout_error) s)"
| "item_event clk ev i p s = None"

definition without_cooling :: "nat \<Rightarrow> sched \<Rightarrow> sched" where
  "without_cooling k s = s\<lparr> sc_cooling := take k (sc_cooling s) @ drop (Suc k) (sc_cooling s) \<rparr>"

fun sched_event :: "(nat \<Rightarrow> js) \<Rightarrow> event \<Rightarrow> sched \<Rightarrow> sched option" where
  "sched_event clk (Schedule metadata operation q) s = Some (snd (schedule clk metadata operation q s))"
| "sched_event clk Close s = Some (close s)"
| "sched_event clk (Abort e) s = Some (abort e s)"
| "sched_event clk (Cool_Off minimum) s = Some (snd (waitForCoolOff clk minimum s))"
| "sched_event clk (Cool_Woken k r) s =
     (if k < length (sc_cooling s) \<and> co_finished (sc_cooling s ! k) = None
      then let c = sc_cooling s ! k; s' = without_cooling k s in
           Some (case r of Inl e \<Rightarrow> cool_failed e s' | Inr _ \<Rightarrow> cool_turn clk c s')
      else None)"
| "sched_event clk (Cool_Continue k) s =
     (if k < length (sc_cooling s)
      then map_option (\<lambda>t. cool_end (sc_cooling s ! k) t (without_cooling k s)) (co_finished (sc_cooling s ! k))
      else None)"
| "sched_event clk ev s =
     (case sc_running s of Some (i, p) \<Rightarrow> item_event clk ev i p s | None \<Rightarrow> None)"

inductive sched_step :: "(nat \<Rightarrow> js) \<Rightarrow> sched \<Rightarrow> sched \<Rightarrow> bool" for clk where
  happens: "sched_event clk ev s = Some s' \<Longrightarrow> sched_step clk s s'"

inductive_simps sched_step_iff: "sched_step clk s s'"

section \<open>The pace of the requests\<close>

text \<open>Every request follows the earlier ones by the gap of the policy; it is a later item, or a
  later attempt of the same item; it keeps the deadline of its item; only reads are attempted
  again, at most twice.\<close>

definition follows :: "rat \<Rightarrow> request_start \<Rightarrow> request_start \<Rightarrow> bool" where
  "follows gap a b \<longleftrightarrow> st_at a + gap \<le> st_at b
     \<and> (i_id (st_item a) < i_id (st_item b)
        \<or> st_item a = st_item b \<and> st_retry a < st_retry b)"

definition attempt_allowed :: "item \<Rightarrow> nat \<Rightarrow> bool" where
  "attempt_allowed i n \<longleftrightarrow> n \<le> 2 \<and> (0 < n \<longrightarrow> retry_allowed i)"

definition deadline_kept :: "sched_policy \<Rightarrow> item \<Rightarrow> rat \<Rightarrow> bool" where
  "deadline_kept p i ready \<longleftrightarrow>
     (\<forall>d. i_deadline i = Some d \<longrightarrow> ready + requestTimeoutMs p + i_cleanup i \<le> d)"

definition not_before :: "item \<Rightarrow> nat \<Rightarrow> rat \<Rightarrow> bool" where
  "not_before i n t \<longleftrightarrow> (n = 0 \<longrightarrow> (\<forall>b. i_notBefore i = Some b \<longrightarrow> b \<le> t))"

definition start_ok :: "sched_policy \<Rightarrow> request_start \<Rightarrow> bool" where
  "start_ok p st \<longleftrightarrow> attempt_allowed (st_item st) (st_retry st)
     \<and> deadline_kept p (st_item st) (st_ready st) \<and> not_before (st_item st) (st_retry st) (st_ready st)
     \<and> st_ready st \<le> st_at st"

definition timing :: "sched \<Rightarrow> bool" where
  "timing s \<longleftrightarrow> 0 \<le> minimumRequestStartGapMs (sc_policy s) \<and> length (retryBackoffMs (sc_policy s)) = 2
     \<and> sc_lastStart s = (if sc_starts s = [] then None else Some (st_at (last (sc_starts s))))
     \<and> (\<forall>t. sc_lastStart s = Some t \<longrightarrow> (\<exists>r. sc_lastRead s = Some r \<and> t \<le> r))
     \<and> sorted_wrt (follows (minimumRequestStartGapMs (sc_policy s))) (sc_starts s)
     \<and> list_all (start_ok (sc_policy s)) (sc_starts s)"

text \<open>All requests so far came before attempt \<open>n\<close> of the item.\<close>

definition earlier :: "sched \<Rightarrow> item \<Rightarrow> nat \<Rightarrow> bool" where
  "earlier s i n \<longleftrightarrow>
     (\<forall>st\<in>set (sc_starts s). i_id (st_item st) < i_id i \<or> st_item st = i \<and> st_retry st < n)"

definition fresh_attempt :: "sched \<Rightarrow> item \<Rightarrow> nat \<Rightarrow> bool" where
  "fresh_attempt s i n \<longleftrightarrow> attempt_allowed i n \<and> earlier s i n"

text \<open>A reading of the clock from which the attempt may start.\<close>

definition gap_over :: "sched \<Rightarrow> item \<Rightarrow> nat \<Rightarrow> rat \<Rightarrow> bool" where
  "gap_over s i n t \<longleftrightarrow> not_before i n t
     \<and> (\<forall>u. sc_lastStart s = Some u \<longrightarrow> u + minimumRequestStartGapMs (sc_policy s) \<le> t)"

fun phase_ok :: "sched \<Rightarrow> item \<Rightarrow> phase \<Rightarrow> bool" where
  "phase_ok s i (Guarding n) = fresh_attempt s i n"
| "phase_ok s i (Sleeping Gap n t) = (fresh_attempt s i n \<and> gap_over s i n t)"
| "phase_ok s i (Sleeping Backoff n t) = fresh_attempt s i (Suc n)"
| "phase_ok s i (Waited Gap n) =
     (fresh_attempt s i n \<and> (\<exists>r. sc_lastRead s = Some r \<and> gap_over s i n r))"
| "phase_ok s i (Waited Backoff n) = fresh_attempt s i (Suc n)"
| "phase_ok s i (In_Flight n b obs) = earlier s i (Suc n)"
| "phase_ok s i (Ended r) = True"

definition paced :: "sched \<Rightarrow> bool" where
  "paced s \<longleftrightarrow> timing s \<and> (\<forall>i p. sc_running s = Some (i, p) \<longrightarrow> phase_ok s i p)"

lemmas pace_defs = paced_def phase_to_def rejected_def

lemma readMonotonic_cases:
  assumes "readMonotonic clk s = (r, s')"
  obtains (invalid) e where "r = Inl e" "s' = s\<lparr> sc_reads := Suc (sc_reads s) \<rparr>"
    | (reading) v where "r = Inr v" "s' = s\<lparr> sc_reads := Suc (sc_reads s), sc_lastRead := Some v \<rparr>"
        "\<And>t. sc_lastRead s = Some t \<Longrightarrow> t \<le> v"
  using assms by (auto simp: readMonotonic_def Let_def split: if_splits option.splits)

text \<open>What a later reading of the clock and the recorded completion leave as they are.\<close>

definition only_reads :: "sched \<Rightarrow> sched \<Rightarrow> bool" where
  "only_reads s s' \<longleftrightarrow> (\<exists>n r c. s' = s\<lparr> sc_reads := n, sc_lastRead := r, sc_lastCompletion := c \<rparr>
     \<and> (\<forall>t. sc_lastRead s = Some t \<longrightarrow> (\<exists>t'. r = Some t' \<and> t \<le> t')))"

lemma only_readsI:
  assumes "\<And>t. sc_lastRead s = Some t \<Longrightarrow> \<exists>t'. r = Some t' \<and> t \<le> t'"
  shows "only_reads s (s\<lparr> sc_reads := n, sc_lastRead := r, sc_lastCompletion := c \<rparr>)"
  using assms unfolding only_reads_def by blast

lemma only_reads_refl: "only_reads s s"
  using only_readsI [where s = s and r = "sc_lastRead s" and c = "sc_lastCompletion s" and n = "sc_reads s"] by simp

lemma only_reads_read: "readMonotonic clk s = (r, s') \<Longrightarrow> only_reads s s'"
proof (erule readMonotonic_cases)
  fix v
  assume "s' = s\<lparr> sc_reads := Suc (sc_reads s), sc_lastRead := Some v \<rparr>"
    and "\<And>t. sc_lastRead s = Some t \<Longrightarrow> t \<le> v"
  then show ?thesis
    using only_readsI [where s = s and r = "Some v" and n = "Suc (sc_reads s)" and c = "sc_lastCompletion s"] by simp
next
  assume "s' = s\<lparr> sc_reads := Suc (sc_reads s) \<rparr>"
  then show ?thesis
    using only_readsI [where s = s and r = "sc_lastRead s" and n = "Suc (sc_reads s)" and c = "sc_lastCompletion s"] by simp
qed

lemma only_reads_completion:
  assumes "only_reads s s'"
  shows "only_reads s (s'\<lparr> sc_lastCompletion := c \<rparr>)"
proof -
  from assms obtain n r c' where s': "s' = s\<lparr> sc_reads := n, sc_lastRead := r, sc_lastCompletion := c' \<rparr>"
    and "\<forall>t. sc_lastRead s = Some t \<longrightarrow> (\<exists>t'. r = Some t' \<and> t \<le> t')"
    by (auto simp: only_reads_def)
  then show ?thesis using only_readsI [where s = s and r = r and n = n and c = c] by simp
qed

lemma only_reads_keeps:
  assumes "only_reads s s'"
  shows "sc_policy s' = sc_policy s" "sc_queue s' = sc_queue s" "sc_running s' = sc_running s"
    "sc_aborted s' = sc_aborted s" "sc_closed s' = sc_closed s" "sc_starts s' = sc_starts s"
    "sc_lastStart s' = sc_lastStart s" "sc_settled s' = sc_settled s" "sc_nextId s' = sc_nextId s"
    "sc_waiters s' = sc_waiters s" "sc_ledger s' = sc_ledger s"
  using assms by (auto simp: only_reads_def)

lemma only_reads_timing:
  assumes "only_reads s s'" and "timing s"
  shows "timing s'"
proof -
  from assms(1) obtain n r c where s': "s' = s\<lparr> sc_reads := n, sc_lastRead := r, sc_lastCompletion := c \<rparr>"
    and r: "\<forall>t. sc_lastRead s = Some t \<longrightarrow> (\<exists>t'. r = Some t' \<and> t \<le> t')"
    by (auto simp: only_reads_def)
  have "\<exists>t'. r = Some t' \<and> t \<le> t'" if "sc_lastStart s = Some t" for t
    using that assms(2) r by (fastforce simp: timing_def)
  with assms(2) show ?thesis by (simp add: timing_def s')
qed

lemma only_reads_fresh: "only_reads s s' \<Longrightarrow> fresh_attempt s' i n = fresh_attempt s i n"
  by (simp add: fresh_attempt_def earlier_def only_reads_keeps)

lemma only_reads_gap: "only_reads s s' \<Longrightarrow> gap_over s' i n t = gap_over s i n t"
  by (simp add: gap_over_def only_reads_keeps)

lemma not_before_mono: "not_before i n t \<Longrightarrow> t \<le> t' \<Longrightarrow> not_before i n t'"
  by (auto simp: not_before_def)

lemma gap_over_mono: "gap_over s i n t \<Longrightarrow> t \<le> t' \<Longrightarrow> gap_over s i n t'"
  by (auto simp: gap_over_def intro: not_before_mono)

lemma waitUntil_turn_cases:
  assumes "waitUntil_turn clk t s = (r, s')"
  shows "only_reads s s' \<and> (\<forall>now. r = Inr (Some now) \<longrightarrow> t \<le> now \<and> sc_lastRead s' = Some now)"
proof (cases "sc_aborted s")
  case (Some e)
  with assms show ?thesis by (auto simp: waitUntil_turn_def only_reads_refl)
next
  case None
  obtain q s1 where read: "readMonotonic clk s = (q, s1)" by fastforce
  from read show ?thesis
    by (rule readMonotonic_cases)
      (use None assms read only_reads_read [OF read] in \<open>auto simp: waitUntil_turn_def split: if_splits\<close>)
qed

lemma timing_running [simp]: "timing (s\<lparr> sc_running := r \<rparr>) = timing s"
  by (simp add: timing_def)

lemma earlier_running [simp]: "earlier (s\<lparr> sc_running := r \<rparr>) i n = earlier s i n"
  by (simp add: earlier_def)

lemma fresh_running [simp]: "fresh_attempt (s\<lparr> sc_running := r \<rparr>) i n = fresh_attempt s i n"
  by (simp add: fresh_attempt_def)

lemma gap_over_running [simp]: "gap_over (s\<lparr> sc_running := r \<rparr>) i n t = gap_over s i n t"
  by (simp add: gap_over_def)

lemma paced_phase_to:
  "paced (phase_to i p s) \<longleftrightarrow> timing s \<and> phase_ok (s\<lparr> sc_running := Some (i, p) \<rparr>) i p"
  by (auto simp: paced_def phase_to_def)

lemma paced_rejected [simp]: "paced (rejected i e s) \<longleftrightarrow> timing s"
  by (simp add: rejected_def paced_phase_to)

lemma wait_turn_paced:
  assumes "timing s"
    and "\<And>s'. only_reads s s' \<Longrightarrow> phase_ok (s'\<lparr> sc_running := Some (i, Sleeping u n t) \<rparr>) i (Sleeping u n t)"
    and "\<And>s' now. only_reads s s' \<Longrightarrow> t \<le> now \<Longrightarrow> sc_lastRead s' = Some now \<Longrightarrow>
      phase_ok (s'\<lparr> sc_running := Some (i, Waited u n) \<rparr>) i (Waited u n)"
  shows "paced (wait_turn clk i u n t s)"
proof -
  obtain r s' where turn: "waitUntil_turn clk t s = (r, s')" by fastforce
  from waitUntil_turn_cases [OF turn] have facts: "only_reads s s'"
    "\<And>now. r = Inr (Some now) \<Longrightarrow> t \<le> now \<and> sc_lastRead s' = Some now" by auto
  with only_reads_timing [OF facts(1) assms(1)] assms(2,3) turn show ?thesis
    by (auto simp: wait_turn_def paced_phase_to split: sum.split option.split)
qed

lemma wait_gap_paced:
  assumes "timing s" "fresh_attempt s i n" "gap_over s i n t"
  shows "paced (wait_turn clk i Gap n t s)"
  using assms by (intro wait_turn_paced)
    (auto simp: only_reads_fresh only_reads_gap intro: gap_over_mono)

lemma wait_backoff_paced:
  assumes "timing s" "fresh_attempt s i (Suc n)"
  shows "paced (wait_turn clk i Backoff n t s)"
  using assms by (intro wait_turn_paced) (auto simp: only_reads_fresh)

lemma waitForRequestStartGap_paced:
  assumes "timing s" and "fresh_attempt s i n"
  shows "paced (waitForRequestStartGap clk i n s)"
proof (cases "earliest_start (if n = 0 then i_notBefore i else None) s")
  case (Some t)
  then have "gap_over s i n t"
    by (auto simp: gap_over_def not_before_def earliest_start_def Let_def split: option.splits if_splits)
  with Some assms wait_gap_paced show ?thesis by (simp add: waitForRequestStartGap_def)
next
  case None
  then have none: "sc_lastStart s = None" "n = 0 \<longrightarrow> i_notBefore i = None"
    by (auto simp: earliest_start_def Let_def split: option.splits if_splits)
  obtain r s' where read: "readMonotonic clk s = (r, s')" by fastforce
  from only_reads_read [OF read] have frame: "only_reads s s'" .
  from read show ?thesis
  proof (cases rule: readMonotonic_cases)
    case (invalid e)
    with None read only_reads_timing [OF frame assms(1)] show ?thesis
      by (simp add: waitForRequestStartGap_def)
  next
    case (reading v)
    with none have "gap_over s i n v" by (simp add: gap_over_def not_before_def)
    with None read reading only_reads_timing [OF frame assms(1)] assms(2) show ?thesis
      by (simp add: waitForRequestStartGap_def paced_phase_to fresh_attempt_def earlier_def gap_over_def)
  qed
qed

lemma begin_attempt_paced:
  assumes "timing s" and "fresh_attempt s i n"
  shows "paced (begin_attempt clk i n s)"
  using assms waitForRequestStartGap_paced [OF assms]
  by (auto simp: begin_attempt_def paced_phase_to split: option.split)

text \<open>Updates that do not touch the requests: \<open>same_requests\<close> holds of everything the scheduler
  does between two starts.\<close>

definition same_requests :: "sched \<Rightarrow> sched \<Rightarrow> bool" where
  "same_requests s s' \<longleftrightarrow> sc_policy s' = sc_policy s \<and> sc_lastStart s' = sc_lastStart s
     \<and> sc_starts s' = sc_starts s
     \<and> (\<forall>t. sc_lastRead s = Some t \<longrightarrow> (\<exists>t'. sc_lastRead s' = Some t' \<and> t \<le> t'))"

lemma same_requests_only_reads: "only_reads s s' \<Longrightarrow> same_requests s s'"
  by (auto simp: only_reads_def same_requests_def)

lemma same_requests_trans: "same_requests s t \<Longrightarrow> same_requests t u \<Longrightarrow> same_requests s u"
  by (fastforce simp: same_requests_def)

lemma same_requests_timing:
  assumes "same_requests s s'" and "timing s"
  shows "timing s'"
proof -
  have "\<exists>r. sc_lastRead s' = Some r \<and> t \<le> r" if "sc_lastStart s' = Some t" for t
  proof -
    from that assms(1) have "sc_lastStart s = Some t" by (simp add: same_requests_def)
    with assms(2) obtain r where "sc_lastRead s = Some r" "t \<le> r" unfolding timing_def by blast
    with assms(1) show ?thesis unfolding same_requests_def by (blast intro: order_trans)
  qed
  with assms show ?thesis by (simp add: timing_def same_requests_def)
qed

lemma same_requests_earlier: "same_requests s s' \<Longrightarrow> earlier s' i n = earlier s i n"
  by (simp add: same_requests_def earlier_def)

lemma same_requests_phase_ok:
  assumes "same_requests s s'" and "phase_ok s i p"
  shows "phase_ok s' i p"
proof -
  have gap: "gap_over s' i n t = gap_over s i n t" for n t
    using assms(1) by (simp add: same_requests_def gap_over_def)
  have fresh: "fresh_attempt s' i n = fresh_attempt s i n" for n
    using assms(1) by (simp add: fresh_attempt_def same_requests_earlier)
  have wait: "\<exists>r. sc_lastRead s' = Some r \<and> gap_over s i n r"
    if "sc_lastRead s = Some t" "gap_over s i n t" for n t
    using that assms(1) by (fastforce simp: same_requests_def intro: gap_over_mono)
  from assms(2) show ?thesis
    by (cases "(s, i, p)" rule: phase_ok.cases) (auto simp: gap fresh same_requests_earlier [OF assms(1)] wait)
qed

lemma same_requests_markAborted: "same_requests s (markAborted e s)"
  by (auto simp: same_requests_def markAborted_def settleIdleWaiters_def)

lemma markAborted_running: "sc_running (markAborted e s) = sc_running s"
  by (simp add: markAborted_def settleIdleWaiters_def)

lemma paced_same_requests:
  assumes "paced s" "same_requests s s'" "sc_running s' = sc_running s \<or> sc_running s' = None"
  shows "paced s'"
  using assms same_requests_timing same_requests_phase_ok by (auto simp: paced_def)

lemma attempt_failed_paced:
  assumes "timing s" and "earlier s i (Suc n)"
  shows "paced (attempt_failed clk i n obs err s)"
proof -
  obtain r s1 where read: "readMonotonic clk s = (r, s1)" by fastforce
  show ?thesis
  proof (cases r)
    case (Inl e)
    with read only_reads_timing [OF only_reads_read [OF read] assms(1)] show ?thesis
      by (simp add: attempt_failed_def)
  next
    case (Inr now)
    let ?s = "s1\<lparr> sc_lastCompletion := Some now \<rparr>"
    have frame: "only_reads s ?s" by (rule only_reads_completion [OF only_reads_read [OF read]])
    then have timing: "timing ?s" and earlier: "earlier ?s i (Suc n)"
      using only_reads_timing assms same_requests_earlier [OF same_requests_only_reads] by blast+
    have "length (retryBackoffMs (sc_policy ?s)) = 2" using timing unfolding timing_def by blast
    then have "paced (wait_turn clk i Backoff n (now + retryBackoffMs (sc_policy ?s) ! n) ?s)"
      if "retry_allowed i" "\<not> length (retryBackoffMs (sc_policy ?s)) \<le> n"
      using that timing earlier by (intro wait_backoff_paced) (auto simp: fresh_attempt_def attempt_allowed_def)
    moreover have "timing (markAborted e ?s)" for e
      by (rule same_requests_timing [OF same_requests_markAborted timing])
    ultimately show ?thesis
      using read Inr timing by (auto simp: attempt_failed_def Let_def paced_phase_to)
  qed
qed

lemma start_request_paced:
  assumes "timing s" and "fresh_attempt s i n" and "gap_over s i n ready"
    and "sc_lastRead s = Some ready" and "deadline_kept (sc_policy s) i ready"
  shows "paced (start_request clk i n obs ready s)"
proof -
  let ?m = "JObj (set_field (own_fields (i_metadata i)) ''retryNumber'' (JNat n))"
  from assms(2) have earlier: "earlier s i n" "attempt_allowed i n" by (auto simp: fresh_attempt_def)
  then have later: "earlier s i (Suc n)" unfolding earlier_def by fastforce
  obtain r s1 where read: "readMonotonic clk s = (r, s1)" by fastforce
  from only_reads_read [OF read] have frame: "same_requests s s1" by (rule same_requests_only_reads)
  have failed: "paced (attempt_failed clk i n False err (s1\<lparr> sc_ledger := l \<rparr>))" for err l
  proof (rule attempt_failed_paced)
    have same: "same_requests s (s1\<lparr> sc_ledger := l \<rparr>)" using frame by (simp add: same_requests_def)
    then show "timing (s1\<lparr> sc_ledger := l \<rparr>)" using assms(1) by (rule same_requests_timing)
    from same later show "earlier (s1\<lparr> sc_ledger := l \<rparr>) i (Suc n)" by (simp add: same_requests_earlier)
  qed
  have started: "paced (phase_to i (In_Flight n b f) (s1\<lparr> sc_ledger := l, sc_lastStart := Some v,
      sc_starts := sc_starts s1 @ [\<lparr> st_item = i, st_retry = n, st_ready = ready, st_at = v \<rparr>] \<rparr>))"
    (is "paced (phase_to i _ ?s)") if "r = Inr v" for b f l v
  proof -
    let ?st = "\<lparr> st_item = i, st_retry = n, st_ready = ready, st_at = v \<rparr>"
    from read that assms(4) have v: "ready \<le> v" "sc_lastRead s1 = Some v"
      by (auto elim!: readMonotonic_cases)
    have keeps: "sc_starts s1 = sc_starts s" "sc_policy s1 = sc_policy s" using frame
      by (simp_all add: same_requests_def)
    have ok: "start_ok (sc_policy s) ?st"
      using assms(3,5) earlier v by (simp add: start_ok_def gap_over_def)
    have gap: "follows (minimumRequestStartGapMs (sc_policy s)) st ?st" if st: "st \<in> set (sc_starts s)" for st
    proof -
      let ?g = "minimumRequestStartGapMs (sc_policy s)"
      from st have "sc_starts s \<noteq> []" by auto
      then have last: "sc_lastStart s = Some (st_at (last (sc_starts s)))"
        and g: "0 \<le> ?g" and sorted: "sorted_wrt (follows ?g) (sc_starts s)"
        using assms(1) by (auto simp: timing_def)
      have "st_at st \<le> st_at (last (sc_starts s))"
      proof (cases "st = last (sc_starts s)")
        case False
        from \<open>sc_starts s \<noteq> []\<close> sorted have
          "sorted_wrt (follows ?g) (butlast (sc_starts s) @ [last (sc_starts s)])" by simp
        moreover from st False have "st \<in> set (butlast (sc_starts s))"
          by (metis UnE append_butlast_last_id empty_iff insert_iff list.set(1,2) set_append)
        ultimately have "follows ?g st (last (sc_starts s))" by (auto simp: sorted_wrt_append)
        with g show ?thesis by (simp add: follows_def)
      qed simp
      moreover from last assms(3) have "st_at (last (sc_starts s)) + ?g \<le> ready" by (simp add: gap_over_def)
      ultimately show ?thesis
        using v st earlier(1) by (fastforce simp: follows_def earlier_def)
    qed
    have "timing ?s"
      using assms(1) v ok gap by (auto simp: timing_def keeps sorted_wrt_append)
    moreover have "earlier ?s i (Suc n)"
      using later by (auto simp: earlier_def keeps)
    ultimately show ?thesis by (simp add: paced_phase_to)
  qed
  show ?thesis
  proof (cases "validateMetadata ?m")
    case (Inl e)
    with attempt_failed_paced [OF assms(1) later] show ?thesis by (simp add: start_request_def Let_def)
  next
    case (Inr m)
    with read failed started show ?thesis
      by (auto simp: start_request_def Let_def split: sum.split prod.split)
  qed
qed

lemma start_attempt_paced:
  assumes "timing s" and "fresh_attempt s i n" and "sc_lastRead s = Some r" and "gap_over s i n r"
  shows "paced (start_attempt clk i n obs s)"
proof -
  obtain q s1 where read: "readMonotonic clk s = (q, s1)" by fastforce
  from only_reads_read [OF read] have frame: "only_reads s s1" .
  from only_reads_timing [OF this assms(1)] have timing: "timing s1" .
  have "paced (start_request clk i n obs v s1)"
    if "q = Inr v" "deadline_kept (sc_policy s1) i v" for v
  proof (rule start_request_paced [OF timing _ _ _ that(2)])
    from frame assms(2) show "fresh_attempt s1 i n" by (simp add: only_reads_fresh)
    from read that(1) assms(3) have "r \<le> v" "sc_lastRead s1 = Some v" by (auto elim!: readMonotonic_cases)
    with frame assms(4) show "gap_over s1 i n v" "sc_lastRead s1 = Some v"
      by (auto simp: only_reads_gap intro: gap_over_mono)
  qed
  with read timing assms(1) show ?thesis
    by (auto simp: start_attempt_def paced_phase_to deadline_kept_def not_less split: option.split sum.split)
qed

lemma attempt_ended_paced:
  assumes "timing s" and "earlier s i (Suc n)"
  shows "paced (attempt_ended clk i n b obs res s)"
proof -
  obtain r l where ended: "end_record b (clk (sc_reads s)) res (sc_ledger s) = (r, l)" by fastforce
  let ?s1 = "s\<lparr> sc_reads := Suc (sc_reads s), sc_ledger := l \<rparr>"
  obtain q s2 where read: "readMonotonic clk ?s1 = (q, s2)" by fastforce
  have same1: "same_requests s ?s1" by (simp add: same_requests_def)
  from same1 same_requests_only_reads [OF only_reads_read [OF read]] have same2: "same_requests s s2"
    by (rule same_requests_trans)
  then have same3: "same_requests s (s2\<lparr> sc_lastCompletion := c \<rparr>)" for c by (simp add: same_requests_def)
  have failed: "paced (attempt_failed clk i n f err s')" if "same_requests s s'" for f err s'
    using attempt_failed_paced [OF same_requests_timing [OF that assms(1)]] same_requests_earlier [OF that] assms(2)
    by blast
  have aborted: "same_requests s (markAborted e (s2\<lparr> sc_lastCompletion := c \<rparr>))" for e c
    by (rule same_requests_trans [OF same3 same_requests_markAborted])
  show ?thesis
    using ended read failed [OF same1] failed [OF same2] failed [OF aborted]
      same_requests_timing [OF same3 assms(1)]
    by (auto simp: attempt_ended_def Let_def paced_phase_to split: sum.split)
qed

section \<open>The books of the queue\<close>

text \<open>Every promise handed out is pending in the queue, running, or settled, exactly one of them
  and only once; the queue is first in, first out; nobody waits for an idle scheduler.\<close>

definition running_ids :: "sched \<Rightarrow> nat list" where
  "running_ids s = (case sc_running s of None \<Rightarrow> [] | Some (i, p) \<Rightarrow> [i_id i])"

definition pending_ids :: "sched \<Rightarrow> nat list" where
  "pending_ids s = running_ids s @ map i_id (sc_queue s)"

definition idle :: "sched \<Rightarrow> bool" where
  "idle s \<longleftrightarrow> sc_running s = None \<and> sc_queue s = []"

definition books :: "sched \<Rightarrow> bool" where
  "books s \<longleftrightarrow> sorted_wrt (<) (pending_ids s)
     \<and> mset (map fst (sc_settled s)) + mset (pending_ids s) = mset [0..<sc_nextId s]
     \<and> (\<forall>st\<in>set (sc_starts s). i_id (st_item st) < sc_nextId s
          \<and> (\<forall>i\<in>set (sc_queue s). i_id (st_item st) < i_id i))
     \<and> length (sc_queue s) \<le> queueCapacity (sc_policy s)
     \<and> (sc_aborted s \<noteq> None \<longrightarrow> sc_closed s \<and> sc_queue s = [])
     \<and> (idle s \<longrightarrow> sc_waiters s = 0)
     \<and> (sc_running s = None \<longrightarrow> sc_queue s = [])"

definition book_fields :: "sched \<Rightarrow> item list \<times> (nat \<times> settlement) list \<times> js_error option \<times> bool \<times> nat
    \<times> nat \<times> sched_policy" where
  "book_fields s = (sc_queue s, sc_settled s, sc_aborted s, sc_closed s, sc_waiters s, sc_nextId s, sc_policy s)"

text \<open>What running the item may do to the books: nothing, or abort the scheduler.\<close>

definition runs_as :: "item \<Rightarrow> sched \<Rightarrow> sched \<Rightarrow> bool" where
  "runs_as i s s' \<longleftrightarrow> (\<exists>p. sc_running s' = Some (i, p))
     \<and> (sc_starts s' = sc_starts s
        \<or> sc_aborted s = None \<and> (\<exists>st. sc_starts s' = sc_starts s @ [st] \<and> st_item st = i))
     \<and> (book_fields s' = book_fields s
        \<or> sc_aborted s = None \<and> (\<exists>e. book_fields s' = book_fields (markAborted e s)))"

lemma runs_asI:
  assumes "sc_running s' = Some (i, p)" "sc_starts s' = sc_starts s" "book_fields s' = book_fields s"
  shows "runs_as i s s'"
  using assms by (simp add: runs_as_def)

lemma only_reads_books: "only_reads s s' \<Longrightarrow> book_fields s' = book_fields s"
  by (simp add: book_fields_def only_reads_keeps)

lemma runs_as_only_reads:
  assumes "only_reads s s1" and "runs_as i s1 s'"
  shows "runs_as i s s'"
proof -
  have "book_fields (markAborted e s1) = book_fields (markAborted e s)" for e
    using assms(1) by (simp add: book_fields_def markAborted_def settleIdleWaiters_def only_reads_keeps)
  with assms show ?thesis
    by (simp add: runs_as_def only_reads_keeps only_reads_books)
qed

lemma runs_as_phase_to:
  assumes "only_reads s s'"
  shows "runs_as i s (phase_to i p s')"
  using assms by (intro runs_asI [of _ _ p]) (simp_all add: phase_to_def book_fields_def only_reads_keeps)

lemma runs_as_rejected: "only_reads s s' \<Longrightarrow> runs_as i s (rejected i e s')"
  by (simp add: rejected_def runs_as_phase_to)

lemma wait_turn_runs: "runs_as i s (wait_turn clk i u n t s)"
proof -
  obtain r s' where turn: "waitUntil_turn clk t s = (r, s')" by fastforce
  with waitUntil_turn_cases [OF turn] show ?thesis
    by (auto simp: wait_turn_def runs_as_phase_to runs_as_rejected split: sum.split option.split)
qed

lemma waitForRequestStartGap_runs: "runs_as i s (waitForRequestStartGap clk i n s)"
proof -
  obtain r s' where read: "readMonotonic clk s = (r, s')" by fastforce
  with only_reads_read [OF read] wait_turn_runs show ?thesis
    by (auto simp: waitForRequestStartGap_def runs_as_phase_to runs_as_rejected split: sum.split option.split)
qed

lemma begin_attempt_runs: "runs_as i s (begin_attempt clk i n s)"
  using waitForRequestStartGap_runs
  by (auto simp: begin_attempt_def runs_as_phase_to runs_as_rejected only_reads_refl split: option.split)

lemma run_item_runs: "runs_as i s (run_item clk i s)"
  by (simp add: run_item_def begin_attempt_runs runs_as_rejected only_reads_refl)

lemma book_fields_completion [simp]: "book_fields (s\<lparr> sc_lastCompletion := c \<rparr>) = book_fields s"
  by (simp add: book_fields_def)

lemma attempt_failed_runs: "runs_as i s (attempt_failed clk i n obs err s)"
proof -
  obtain r s1 where read: "readMonotonic clk s = (r, s1)" by fastforce
  from only_reads_read [OF read] have frame: "only_reads s s1" .
  then have frame2: "only_reads s (s1\<lparr> sc_lastCompletion := c \<rparr>)" for c by (rule only_reads_completion)
  have aborts: "runs_as i s (rejected i e (markAborted e (s1\<lparr> sc_lastCompletion := c \<rparr>)))" for e c
    using frame
    by (auto simp: runs_as_def rejected_def phase_to_def book_fields_def markAborted_def settleIdleWaiters_def
        only_reads_keeps)
  from read frame runs_as_rejected runs_as_phase_to [OF frame2] aborts
    runs_as_only_reads [OF frame2 wait_turn_runs] show ?thesis
    by (auto simp: attempt_failed_def Let_def split: sum.split)
qed

lemma runs_as_cong:
  assumes "book_fields s1 = book_fields s" "sc_starts s1 = sc_starts s" "sc_running s1 = sc_running s"
    and "runs_as i s1 s'"
  shows "runs_as i s s'"
proof -
  have "book_fields (markAborted e s1) = book_fields (markAborted e s)" for e
    using assms(1,3) by (auto simp: book_fields_def markAborted_def settleIdleWaiters_def)
  moreover have "sc_aborted s1 = sc_aborted s" using assms(1) by (simp add: book_fields_def)
  ultimately show ?thesis using assms by (simp add: runs_as_def)
qed

lemma markAborted_aborted: "sc_aborted (markAborted e s) \<noteq> None"
  by (simp add: markAborted_def settleIdleWaiters_def)

lemma markAborted_starts: "sc_starts (markAborted e s) = sc_starts s"
  by (simp add: markAborted_def settleIdleWaiters_def)

lemma runs_as_markAborted:
  assumes "runs_as i (markAborted e s) s'"
  shows "runs_as i s s'"
proof (cases "sc_aborted s")
  case None
  have starts: "sc_starts s' = sc_starts s"
    using assms by (auto simp: runs_as_def markAborted_starts markAborted_aborted)
  have "book_fields s' = book_fields (markAborted e s)"
    using assms by (auto simp: runs_as_def markAborted_aborted)
  with None starts assms show ?thesis by (auto simp: runs_as_def)
next
  case (Some a)
  with assms show ?thesis by (simp add: markAborted_def)
qed

lemma start_request_runs:
  assumes "sc_aborted s = None"
  shows "runs_as i s (start_request clk i n obs ready s)"
proof -
  obtain r s1 where read: "readMonotonic clk s = (r, s1)" by fastforce
  from only_reads_read [OF read] have frame: "only_reads s s1" .
  have failed: "runs_as i s (attempt_failed clk i n False err (s1\<lparr> sc_ledger := l \<rparr>))" for err l
    by (rule runs_as_cong [OF _ _ _ attempt_failed_runs])
      (simp_all add: book_fields_def only_reads_keeps [OF frame])
  have started: "runs_as i s (phase_to i p (s1\<lparr> sc_ledger := l, sc_lastStart := v,
      sc_starts := sc_starts s1 @ [\<lparr> st_item = i, st_retry = n, st_ready = ready, st_at = t \<rparr>] \<rparr>))" for p l v t
    using assms by (auto simp: runs_as_def phase_to_def book_fields_def only_reads_keeps [OF frame])
  from read failed started attempt_failed_runs show ?thesis
    by (auto simp: start_request_def Let_def split: sum.split prod.split)
qed

lemma start_attempt_runs: "runs_as i s (start_attempt clk i n obs s)"
proof (cases "sc_aborted s")
  case None
  obtain q s1 where read: "readMonotonic clk s = (q, s1)" by fastforce
  from only_reads_read [OF read] have frame: "only_reads s s1" .
  with None have "sc_aborted s1 = None" by (simp add: only_reads_keeps)
  then have "runs_as i s (start_request clk i n obs v s1)" for v
    by (intro runs_as_only_reads [OF frame] start_request_runs)
  with None read frame show ?thesis
    by (auto simp: start_attempt_def runs_as_rejected runs_as_phase_to split: sum.split)
next
  case (Some e)
  then show ?thesis by (simp add: start_attempt_def runs_as_rejected only_reads_refl)
qed

lemma attempt_ended_runs: "runs_as i s (attempt_ended clk i n b obs res s)"
proof -
  obtain r l where ended: "end_record b (clk (sc_reads s)) res (sc_ledger s) = (r, l)" by fastforce
  let ?s1 = "s\<lparr> sc_reads := Suc (sc_reads s), sc_ledger := l \<rparr>"
  obtain q s2 where read: "readMonotonic clk ?s1 = (q, s2)" by fastforce
  from only_reads_read [OF read] have frame: "only_reads ?s1 s2" .
  have same: "runs_as i s s'" if "runs_as i ?s1 s'" for s'
    by (rule runs_as_cong [OF _ _ _ that]) (simp_all add: book_fields_def)
  have failed1: "runs_as i s (attempt_failed clk i n f err ?s1)" for f err
    by (rule same [OF attempt_failed_runs])
  have failed2: "runs_as i s (attempt_failed clk i n f err s2)" for f err
    by (rule same [OF runs_as_only_reads [OF frame attempt_failed_runs]])
  have failed3: "runs_as i s (attempt_failed clk i n f err (markAborted e (s2\<lparr> sc_lastCompletion := c \<rparr>)))"
    for f err e c
    by (rule same [OF runs_as_only_reads [OF only_reads_completion [OF frame]
        runs_as_markAborted [OF attempt_failed_runs]]])
  have ends: "runs_as i s (phase_to i p (s2\<lparr> sc_lastCompletion := c \<rparr>))" for p c
    by (rule same [OF runs_as_phase_to [OF only_reads_completion [OF frame]]])
  from ended read failed1 failed2 failed3 ends show ?thesis
    by (auto simp: attempt_ended_def Let_def split: sum.split)
qed

text \<open>What the running of an item does keeps the books.\<close>

lemma markAborted_books:
  assumes "books s" and "sc_running s = Some (i, p)"
  shows "books (markAborted e s)"
proof (cases "sc_aborted s")
  case None
  have "fst \<circ> (\<lambda>i :: item. (i_id i, r)) = i_id" for r :: settlement
    by (simp add: comp_def)
  with assms None show ?thesis
    by (auto simp: books_def markAborted_def settleIdleWaiters_def pending_ids_def running_ids_def idle_def
        add.assoc)
next
  case (Some a)
  with assms show ?thesis by (simp add: markAborted_def)
qed

lemma runs_as_books:
  assumes "books s" and "sc_running s = Some (i, p)" and "runs_as i s s'"
  shows "books s'"
proof -
  have grow: "st \<in> set (sc_starts s) \<or> st_item st = i" if "st \<in> set (sc_starts s')" for st
    using assms(3) that by (auto simp: runs_as_def)
  have keep: "books s'" if "books t" "book_fields s' = book_fields t" "sc_running t = Some (i, p)"
    "set (sc_starts t) = set (sc_starts s)" for t
  proof -
    from assms(3) obtain p' where running: "sc_running s' = Some (i, p')" by (auto simp: runs_as_def)
    have ids: "pending_ids s' = pending_ids t" using that running
      by (simp add: book_fields_def pending_ids_def running_ids_def)
    have new: "i_id i < sc_nextId t \<and> (\<forall>j\<in>set (sc_queue t). i_id i < i_id j)"
    proof -
      have pending: "pending_ids t = i_id i # map i_id (sc_queue t)"
        using that(3) by (simp add: pending_ids_def running_ids_def)
      have "i_id i \<in># mset (map fst (sc_settled t)) + mset (pending_ids t)" by (simp add: pending)
      with that(1) have "i_id i \<in># mset [0..<sc_nextId t]" by (simp add: books_def)
      moreover have "\<forall>j\<in>set (sc_queue t). i_id i < i_id j"
        using that(1) by (simp add: books_def pending)
      ultimately show ?thesis by simp
    qed
    have starts: "st \<in> set (sc_starts t) \<or> st_item st = i" if "st \<in> set (sc_starts s')" for st
      using grow [OF that] unfolding \<open>set (sc_starts t) = set (sc_starts s)\<close> .
    have "\<forall>st\<in>set (sc_starts s'). i_id (st_item st) < sc_nextId t
        \<and> (\<forall>j\<in>set (sc_queue t). i_id (st_item st) < i_id j)"
      using starts new that(1) unfolding books_def by blast
    with that(1,2) ids running show ?thesis
      by (simp add: books_def book_fields_def idle_def)
  qed
  from assms(3) have "book_fields s' = book_fields s \<or> (\<exists>e. book_fields s' = book_fields (markAborted e s))"
    by (auto simp: runs_as_def)
  then show ?thesis
  proof (elim disjE exE)
    assume "book_fields s' = book_fields s"
    then show ?thesis by (rule keep [OF assms(1) _ assms(2) refl])
  next
    fix e
    assume "book_fields s' = book_fields (markAborted e s)"
    then show ?thesis
      by (rule keep [OF markAborted_books [OF assms(1,2)]]) (simp_all add: markAborted_running markAborted_starts assms(2))
  qed
qed

section \<open>Every step\<close>

lemma queue_ids_fresh:
  assumes "books s" and "sc_queue s = i # q"
  shows "earlier s i 0"
  using assms by (auto simp: books_def earlier_def)

lemma run_item_paced: "timing s \<Longrightarrow> earlier s i 0 \<Longrightarrow> paced (run_item clk i s)"
  by (simp add: run_item_def begin_attempt_paced fresh_attempt_def attempt_allowed_def)

text \<open>The books while the next item is taken from the queue and nothing runs.\<close>

definition between :: "sched \<Rightarrow> bool" where
  "between s \<longleftrightarrow> sc_running s = None
     \<and> sorted_wrt (<) (pending_ids s)
     \<and> mset (map fst (sc_settled s)) + mset (pending_ids s) = mset [0..<sc_nextId s]
     \<and> (\<forall>st\<in>set (sc_starts s). i_id (st_item st) < sc_nextId s
          \<and> (\<forall>i\<in>set (sc_queue s). i_id (st_item st) < i_id i))
     \<and> length (sc_queue s) \<le> queueCapacity (sc_policy s)
     \<and> (sc_aborted s \<noteq> None \<longrightarrow> sc_closed s \<and> sc_queue s = [])"

lemma between_idle: "between s \<Longrightarrow> sc_queue s = [] \<Longrightarrow> books (settleIdleWaiters s)"
  by (auto simp: between_def books_def settleIdleWaiters_def pending_ids_def running_ids_def)

lemma runs_as_between:
  assumes "between s" and "sc_queue s = i # q" and "sc_aborted s = None"
    and "runs_as i (s\<lparr> sc_queue := q, sc_running := Some (i, p) \<rparr>) s'"
  shows "books s'"
proof (rule runs_as_books [OF _ _ assms(4)])
  show "books (s\<lparr> sc_queue := q, sc_running := Some (i, p) \<rparr>)"
    using assms(1-3) by (auto simp: between_def books_def pending_ids_def running_ids_def idle_def)
qed simp

text \<open>The running item is not read by \<open>run_item\<close>.\<close>

lemma run_item_running:
  "run_item clk i (s\<lparr> sc_running := r \<rparr>) = run_item clk i s"
proof -
  have read: "readMonotonic clk (s\<lparr> sc_running := r \<rparr>) = map_prod id (sc_running_update (\<lambda>_. r)) (readMonotonic clk s)"
    for s by (simp add: readMonotonic_def Let_def split: option.split)
  have "waitUntil_turn clk t (s\<lparr> sc_running := r \<rparr>) = map_prod id (sc_running_update (\<lambda>_. r)) (waitUntil_turn clk t s)"
    for t by (simp add: waitUntil_turn_def read then_do_def split: option.split prod.split sum.split)
  then have wait: "wait_turn clk i u n t (s\<lparr> sc_running := r \<rparr>) = wait_turn clk i u n t s" for u n t
    by (simp add: wait_turn_def phase_to_def rejected_def split: prod.split sum.split option.split)
  have "earliest_start b (s\<lparr> sc_running := r \<rparr>) = earliest_start b s" for b
    by (cases "sc_lastStart s") (simp_all add: earliest_start_def Let_def)
  then show ?thesis
    by (simp add: run_item_def begin_attempt_def waitForRequestStartGap_def wait read phase_to_def rejected_def
        split: option.split prod.split sum.split)
qed

lemma pump_running: "sc_running s = Some (i, p) \<Longrightarrow> pump clk s = s"
  by (simp add: pump_def settleIdleWaiters_def split: list.split)

lemma pump_keeps:
  assumes "timing s" and "between s"
  shows "paced (pump clk s) \<and> books (pump clk s)"
proof (cases "sc_queue s")
  case Nil
  with assms between_idle [OF assms(2)] show ?thesis
    by (simp add: pump_def paced_def settleIdleWaiters_def between_def timing_def)
next
  case (Cons i q)
  with assms(2) have none: "sc_aborted s = None" "sc_running s = None" by (auto simp: between_def)
  from Cons assms(2) have "earlier (s\<lparr> sc_queue := q \<rparr>) i 0" by (auto simp: between_def earlier_def)
  moreover from assms(1) have "timing (s\<lparr> sc_queue := q \<rparr>)" by (simp add: timing_def)
  ultimately have "paced (run_item clk i (s\<lparr> sc_queue := q \<rparr>))" by (intro run_item_paced)
  moreover have "books (run_item clk i (s\<lparr> sc_queue := q \<rparr>))"
  proof (rule runs_as_between [OF assms(2) Cons none(1)])
    show "runs_as i (s\<lparr> sc_queue := q, sc_running := Some (i, Guarding 0) \<rparr>) (run_item clk i (s\<lparr> sc_queue := q \<rparr>))"
      using run_item_runs [of i "s\<lparr> sc_queue := q, sc_running := Some (i, Guarding 0) \<rparr>"]
      by (simp add: run_item_running)
  qed
  ultimately show ?thesis using Cons none by (simp add: pump_def)
qed

lemma settle_keeps:
  assumes "paced s" "books s" and "sc_running s = Some (i, p)"
  shows "paced (settle clk i r s) \<and> books (settle clk i r s)"
proof -
  let ?s = "s\<lparr> sc_settled := sc_settled s @ [(i_id i, r)], sc_running := None \<rparr>"
  have timing: "timing ?s" using assms(1) by (simp add: paced_def timing_def)
  have between: "between ?s"
    using assms(2,3) by (auto simp: books_def between_def pending_ids_def running_ids_def)
  show ?thesis
  proof (cases "sc_aborted ?s = None \<and> sc_queue ?s \<noteq> []")
    case True
    with pump_keeps [OF timing between] show ?thesis by (simp add: settle_def)
  next
    case False
    with between have "sc_queue ?s = []" by (auto simp: between_def)
    with between_idle [OF between] timing False show ?thesis
      by (simp add: settle_def paced_def settleIdleWaiters_def timing_def)
  qed
qed

lemma schedule_keeps:
  assumes "paced s" "books s"
  shows "paced (snd (schedule clk metadata operation q s)) \<and> books (snd (schedule clk metadata operation q s))"
proof (cases "schedule_error operation q s")
  case (Some e)
  with assms show ?thesis by (simp add: schedule_def)
next
  case None
  then have accepted: "sc_aborted s = None" "length (sc_queue s) < queueCapacity (sc_policy s)"
    by (auto simp: schedule_error_def split: if_splits)
  define i where "i = \<lparr> i_id = sc_nextId s, i_metadata = metadata, i_guarded = (so_beforeAttempt q = Callable),
      i_deadline = optional_number (so_deadline q), i_notBefore = optional_number (so_notBefore q),
      i_observed = (so_observer q = Callable), i_cleanup = num_of (so_cleanup q) \<rparr>"
  let ?s = "s\<lparr> sc_nextId := Suc (sc_nextId s), sc_queue := sc_queue s @ [i] \<rparr>"
  have new: "snd (schedule clk metadata operation q s) = pump clk ?s"
    using None by (simp add: schedule_def i_def Let_def)
  have id: "i_id i = sc_nextId s" by (simp add: i_def)
  have same: "same_requests s ?s" by (simp add: same_requests_def)
  have timing: "timing ?s" using assms(1) same_requests_timing [OF same] by (simp add: paced_def)
  have ids: "\<forall>x\<in>set (pending_ids s). x < sc_nextId s"
  proof
    fix x
    assume "x \<in> set (pending_ids s)"
    then have "x \<in># mset (map fst (sc_settled s)) + mset (pending_ids s)" by simp
    with assms(2) have "x \<in># mset [0..<sc_nextId s]" unfolding books_def by metis
    then show "x < sc_nextId s" by simp
  qed
  have pending: "pending_ids ?s = pending_ids s @ [sc_nextId s]"
    by (simp add: pending_ids_def running_ids_def id)
  have sums: "mset (map fst (sc_settled s)) + mset (pending_ids ?s) = mset [0..<Suc (sc_nextId s)]"
    using assms(2) by (simp add: books_def pending)
  have sorted: "sorted_wrt (<) (pending_ids ?s)"
    using assms(2) ids by (simp add: books_def pending sorted_wrt_append)
  have starts: "\<forall>st\<in>set (sc_starts s). i_id (st_item st) < sc_nextId s
      \<and> (\<forall>j\<in>set (sc_queue s @ [i]). i_id (st_item st) < i_id j)"
    using assms(2) by (auto simp: books_def id)
  show ?thesis
  proof (cases "sc_running s")
    case None
    then have "between ?s"
      using accepted sums sorted starts by (auto simp: between_def less_Suc_eq)
    with pump_keeps [OF timing] show ?thesis by (simp add: new)
  next
    case (Some ip)
    then have "books ?s"
      using assms(2) accepted sums sorted starts by (auto simp: books_def idle_def less_Suc_eq)
    moreover have "paced ?s" using assms(1) same by (rule paced_same_requests) simp
    moreover have "pump clk ?s = ?s"
      using Some by (cases ip) (simp add: pump_running)
    ultimately show ?thesis by (simp add: new)
  qed
qed

lemma markAborted_books_any: "books s \<Longrightarrow> books (markAborted e s)"
proof (cases "sc_running s")
  case None
  assume "books s"
  with None have "sc_queue s = []" by (simp add: books_def)
  with None \<open>books s\<close> show ?thesis
    by (auto simp: books_def markAborted_def settleIdleWaiters_def pending_ids_def running_ids_def idle_def)
next
  case (Some ip)
  assume "books s"
  with Some show ?thesis using markAborted_books by (cases ip) blast
qed

lemma waitUntilIdle_keeps:
  assumes "paced s" "books s"
  shows "paced (waitUntilIdle s) \<and> books (waitUntilIdle s)"
proof
  show "paced (waitUntilIdle s)"
    by (rule paced_same_requests [OF assms(1)]) (simp_all add: waitUntilIdle_def same_requests_def)
  show "books (waitUntilIdle s)"
    using assms(2)
    by (auto simp: waitUntilIdle_def books_def idle_def pending_ids_def running_ids_def split: if_splits)
qed

lemma close_keeps: "paced s \<Longrightarrow> books s \<Longrightarrow> paced (close s) \<and> books (close s)"
proof -
  assume "paced s" "books s"
  then have "paced (s\<lparr> sc_closed := True \<rparr>)" "books (s\<lparr> sc_closed := True \<rparr>)"
    using paced_same_requests [of s "s\<lparr> sc_closed := True \<rparr>"]
    by (auto simp: same_requests_def books_def idle_def pending_ids_def running_ids_def)
  then show ?thesis unfolding close_def by (rule waitUntilIdle_keeps)
qed

lemma abort_keeps:
  assumes "paced s" "books s"
  shows "paced (abort e s) \<and> books (abort e s)"
  unfolding abort_def
proof (rule waitUntilIdle_keeps)
  show "paced (markAborted e s)"
    by (rule paced_same_requests [OF assms(1) same_requests_markAborted]) (simp add: markAborted_running)
  show "books (markAborted e s)" by (rule markAborted_books_any [OF assms(2)])
qed

text \<open>Cool-offs read the clock and nothing else.\<close>

definition cools :: "sched \<Rightarrow> sched \<Rightarrow> bool" where
  "cools s s' \<longleftrightarrow> same_requests s s' \<and> book_fields s' = book_fields s \<and> sc_running s' = sc_running s
     \<and> sc_ledger s' = sc_ledger s"

lemmas cools_defs = cools_def same_requests_def book_fields_def

lemma cools_trans: "cools s t \<Longrightarrow> cools t u \<Longrightarrow> cools s u"
  by (auto simp: cools_def intro: same_requests_trans)

lemma cools_keep:
  assumes "cools s s'" "paced s" "books s"
  shows "paced s' \<and> books s'"
proof
  show "paced s'" by (rule paced_same_requests [OF assms(2)]) (use assms(1) in \<open>auto simp: cools_def\<close>)
  show "books s'" using assms(1,3)
    by (simp add: cools_defs books_def idle_def pending_ids_def running_ids_def)
qed

lemma cools_cool_turn: "cools s (cool_turn clk c s)"
proof -
  obtain r s' where turn: "waitUntil_turn clk (co_target c) s = (r, s')" by fastforce
  from waitUntil_turn_cases [OF turn] have reads: "only_reads s s'" by blast
  then have "cools s s'"
    by (simp add: cools_def same_requests_only_reads only_reads_books only_reads_keeps)
  then show ?thesis
    by (rule cools_trans) (simp add: cool_turn_def turn cool_failed_def cools_defs split: sum.split)
qed

lemma cools_cool_end: "cools s (cool_end c t s)"
  by (simp add: cool_end_def cool_failed_def cools_defs split: option.split)

lemma cools_failed: "cools s (cool_failed e s)"
  by (simp add: cool_failed_def cools_defs)

lemma cools_without: "cools s (without_cooling k s)"
  by (simp add: without_cooling_def cools_defs)

lemma cools_refl: "cools s s"
  by (simp add: cools_defs)

lemma cools_waitForCoolOff: "cools s (snd (waitForCoolOff clk minimum s))"
  by (simp add: waitForCoolOff_def cools_cool_turn cools_refl split: sum.split option.split)

lemmas cools_intros = cools_refl cools_trans [OF cools_without] cools_without cools_failed cools_cool_turn
  cools_cool_end cools_waitForCoolOff

lemma item_event_keeps:
  assumes "item_event clk ev i p s = Some s'" and "paced s" "books s" and "sc_running s = Some (i, p)"
  shows "paced s' \<and> books s'"
proof -
  from assms(2,4) have timing: "timing s" and ok: "phase_ok s i p" by (auto simp: paced_def)
  have rejected: "paced (rejected i e s) \<and> books (rejected i e s)" for e
    using timing runs_as_books [OF assms(3,4) runs_as_rejected [OF only_reads_refl]] by simp
  from assms(1) ok show ?thesis
  proof (cases "(clk, ev, i, p, s)" rule: item_event.cases)
    case (2 clk' u i' n s'')
    with assms timing ok runs_as_books [OF assms(3,4) waitForRequestStartGap_runs]
      waitForRequestStartGap_paced show ?thesis by auto
  next
    case (4 clk' r i' u n t s'')
    with assms timing ok runs_as_books [OF assms(3,4) wait_turn_runs] wait_gap_paced wait_backoff_paced
    show ?thesis by (cases u) auto
  next
    case (5 clk' obs i' n s'')
    with assms timing ok runs_as_books [OF assms(3,4) start_attempt_runs] start_attempt_paced
    show ?thesis by auto
  next
    case (6 clk' obs i' n s'')
    with assms timing ok runs_as_books [OF assms(3,4) begin_attempt_runs] begin_attempt_paced
    show ?thesis by auto
  next
    case (7 clk' obs i' r s'')
    with assms settle_keeps show ?thesis by auto
  next
    case (8 clk' res i' n b obs s'')
    with assms timing ok runs_as_books [OF assms(3,4) attempt_ended_runs] attempt_ended_paced
    show ?thesis by auto
  next
    case (9 clk' i' n b obs s'')
    with assms timing ok runs_as_books [OF assms(3,4) attempt_ended_runs] attempt_ended_paced
    show ?thesis by auto
  qed (use assms(1) rejected in auto)
qed

lemma sched_event_keeps:
  assumes "sched_event clk ev s = Some s'" and "paced s" "books s"
  shows "paced s' \<and> books s'"
proof (cases ev)
  case (Cool_Woken k r)
  with assms(1) have "cools s s'"
    by (auto simp: Let_def split: if_splits sum.splits intro: cools_intros)
  with assms(2,3) cools_keep show ?thesis by blast
next
  case (Cool_Continue k)
  with assms(1) have "cools s s'"
    by (auto split: if_splits intro: cools_intros)
  with assms(2,3) cools_keep show ?thesis by blast
next
  case (Cool_Off minimum)
  with assms cools_keep [OF cools_waitForCoolOff] show ?thesis by auto
qed (use assms schedule_keeps close_keeps abort_keeps item_event_keeps in \<open>auto split: option.splits\<close>)

text \<open>An abort is final: no request starts after it.\<close>

lemma runs_as_aborted:
  assumes "runs_as i s s'" and "sc_aborted s = Some e"
  shows "sc_starts s' = sc_starts s \<and> sc_aborted s' = Some e"
  using assms by (auto simp: runs_as_def book_fields_def)

lemma sched_event_aborted:
  assumes "sched_event clk ev s = Some s'" and "sc_aborted s = Some e" and "books s"
  shows "sc_starts s' = sc_starts s \<and> sc_aborted s' = Some e"
proof -
  have cool: ?thesis if "cools s s'" using that assms(2) by (simp add: cools_defs)
  have item: ?thesis if "sc_running s = Some (i, p)" "item_event clk ev i p s = Some s'" for i p
    using that(2) assms(2)
  proof (cases "(clk, ev, i, p, s)" rule: item_event.cases)
    case (7 clk' obs i' r s'')
    with that assms(2,3) show ?thesis
      by (auto simp: settle_def Let_def settleIdleWaiters_def)
  qed (use that(2) assms(2) in \<open>auto dest: runs_as_aborted [OF waitForRequestStartGap_runs]
      runs_as_aborted [OF wait_turn_runs] runs_as_aborted [OF start_attempt_runs]
      runs_as_aborted [OF begin_attempt_runs] runs_as_aborted [OF attempt_ended_runs]
      runs_as_aborted [OF runs_as_rejected [OF only_reads_refl]]\<close>)
  show ?thesis
  proof (cases ev)
    case (Schedule m operation q)
    with assms show ?thesis by (simp add: schedule_def schedule_error_def)
  next
    case Close
    with assms show ?thesis by (auto simp: close_def waitUntilIdle_def)
  next
    case (Abort e')
    with assms show ?thesis by (auto simp: abort_def markAborted_def waitUntilIdle_def)
  next
    case (Cool_Woken k r)
    with assms(1) show ?thesis
      by (intro cool) (auto simp: Let_def split: if_splits sum.splits intro: cools_intros)
  next
    case (Cool_Continue k)
    with assms(1) show ?thesis by (intro cool) (auto split: if_splits intro: cools_intros)
  next
    case (Cool_Off minimum)
    with assms(1) cools_waitForCoolOff show ?thesis by (intro cool) auto
  qed (use assms(1) item in \<open>auto split: option.splits\<close>)
qed

section \<open>Runs\<close>

definition sched_inv :: "sched \<Rightarrow> bool" where
  "sched_inv s \<longleftrightarrow> paced s \<and> books s"

lemma sched_step_inv: "sched_step clk s s' \<Longrightarrow> sched_inv s \<Longrightarrow> sched_inv s'"
  by (auto simp: sched_inv_def sched_step_iff dest: sched_event_keeps)

interpretation scheduler: step_invariant "sched_step clk" sched_inv for clk
  by unfold_locales (rule sched_step_inv)

lemma created_sched_inv:
  assumes "createRpcRequestScheduler capacity ledgerCapacity gap backoffs timeout = Inr s"
  shows "sched_inv s \<and> sc_starts s = [] \<and> sc_settled s = [] \<and> sc_nextId s = 0"
  using assms
  by (auto simp: createRpcRequestScheduler_def validateDelay_def result_simps sched_inv_def paced_def
      timing_def books_def idle_def pending_ids_def running_ids_def split: js.splits list.splits)

lemma abort_is_final:
  assumes "(sched_step clk)\<^sup>*\<^sup>* s s'" and "sched_inv s" and "sc_aborted s = Some e"
  shows "sc_starts s' = sc_starts s \<and> sc_aborted s' = Some e"
  using assms(1)
proof (induction rule: rtranclp_induct)
  case (step t u)
  from scheduler.run [OF step.hyps(1) assms(2)] have "books t" by (simp add: sched_inv_def)
  with step show ?case by (auto simp: sched_step_iff dest: sched_event_aborted)
qed (use assms(3) in simp)

section \<open>The ledger of a run\<close>

lemma ledger_kept [simp]:
  "sc_ledger (phase_to i p s) = sc_ledger s" "sc_ledger (rejected i e s) = sc_ledger s"
  "sc_ledger (settleIdleWaiters s) = sc_ledger s" "sc_ledger (waitUntilIdle s) = sc_ledger s"
  "sc_ledger (markAborted e s) = sc_ledger s" "sc_ledger (close s) = sc_ledger s"
  "sc_ledger (abort e s) = sc_ledger s"
  by (simp_all add: phase_to_def rejected_def settleIdleWaiters_def waitUntilIdle_def markAborted_def
      close_def abort_def)

lemma ledger_readMonotonic: "readMonotonic clk s = (r, s') \<Longrightarrow> sc_ledger s' = sc_ledger s"
  by (erule readMonotonic_cases) simp_all

lemma ledger_wait_turn [simp]: "sc_ledger (wait_turn clk i u n t s) = sc_ledger s"
proof -
  obtain r s' where turn: "waitUntil_turn clk t s = (r, s')" by fastforce
  from waitUntil_turn_cases [OF turn] have "sc_ledger s' = sc_ledger s" by (simp add: only_reads_keeps)
  with turn show ?thesis by (simp add: wait_turn_def split: sum.split option.split)
qed

lemma ledger_begin [simp]: "sc_ledger (begin_attempt clk i n s) = sc_ledger s"
  "sc_ledger (waitForRequestStartGap clk i n s) = sc_ledger s" "sc_ledger (run_item clk i s) = sc_ledger s"
  by (auto simp: begin_attempt_def waitForRequestStartGap_def run_item_def
      split: option.split prod.split sum.split dest: ledger_readMonotonic)

lemma ledger_attempt_failed [simp]: "sc_ledger (attempt_failed clk i n obs err s) = sc_ledger s"
  by (auto simp: attempt_failed_def Let_def split: prod.split sum.split dest: ledger_readMonotonic)

lemma ledger_pump [simp]: "sc_ledger (pump clk s) = sc_ledger s"
  by (simp add: pump_def split: list.split)

lemma ledger_start_request:
  "sc_ledger (start_request clk i n obs ready s) = sc_ledger s
   \<or> ledger_step (sc_ledger s) (sc_ledger (start_request clk i n obs ready s))"
  (is "_ \<or> ledger_step _ (sc_ledger ?s)")
proof -
  let ?m = "JObj (set_field (own_fields (i_metadata i)) ''retryNumber'' (JNat n))"
  have opened: "ledger_step l (snd (begin_record ?m v l))" for v l
    by (rule ledger_step.opened [where r = "fst (begin_record ?m v l)"]) simp
  obtain r s1 where read: "readMonotonic clk s = (r, s1)" by fastforce
  from ledger_readMonotonic [OF read] have same: "sc_ledger s1 = sc_ledger s" .
  show ?thesis
  proof (cases "validateMetadata ?m")
    case (Inl e)
    then show ?thesis by (simp add: start_request_def Let_def)
  next
    case (Inr m)
    have "\<exists>v. sc_ledger ?s = snd (begin_record ?m v (sc_ledger s))"
    proof (cases r)
      case (Inl e)
      with Inr read same show ?thesis
        by (intro exI [of _ JNonFinite]) (simp add: start_request_def Let_def)
    next
      case (Inr now)
      with \<open>validateMetadata ?m = Inr m\<close> read same show ?thesis
        by (intro exI [of _ "JNum now"]) (auto simp: start_request_def Let_def split: prod.split sum.split)
    qed
    with opened show ?thesis by metis
  qed
qed

lemma ledger_attempt_ended:
  "ledger_step (sc_ledger s) (sc_ledger (attempt_ended clk i n b obs res s))"
proof -
  obtain r l where ended: "end_record b (clk (sc_reads s)) res (sc_ledger s) = (r, l)" by fastforce
  then have "ledger_step (sc_ledger s) l" by (rule ledger_step.closed)
  with ended show ?thesis
    by (auto simp: attempt_ended_def Let_def split: sum.split prod.split dest: ledger_readMonotonic)
qed

lemma sched_event_ledger:
  assumes "sched_event clk ev s = Some s'"
  shows "ledger_step\<^sup>*\<^sup>* (sc_ledger s) (sc_ledger s')"
proof -
  have cool: ?thesis if "cools s s'" using that by (simp add: cools_def)
  have attempt: "ledger_step\<^sup>*\<^sup>* (sc_ledger s) (sc_ledger (start_attempt clk i n obs s))" for i n obs
  proof -
    obtain q s1 where read: "readMonotonic clk s = (q, s1)" by fastforce
    from ledger_readMonotonic [OF read] have same: "sc_ledger s1 = sc_ledger s" .
    have "ledger_step\<^sup>*\<^sup>* (sc_ledger s1) (sc_ledger (start_request clk i n obs v s1))" for v
      using ledger_start_request [of clk i n obs v s1] by auto
    with read same show ?thesis
      by (auto simp: start_attempt_def split: option.split sum.split)
  qed
  have item: ?thesis if "sc_running s = Some (i, p)" "item_event clk ev i p s = Some s'" for i p
    using that(2)
    by (cases "(clk, ev, i, p, s)" rule: item_event.cases)
      (auto simp: settle_def Let_def attempt intro: r_into_rtranclp ledger_attempt_ended)
  show ?thesis
  proof (cases ev)
    case (Schedule m operation q)
    with assms show ?thesis by (auto simp: schedule_def Let_def split: option.splits)
  next
    case (Cool_Woken k r)
    with assms show ?thesis
      by (intro cool) (auto simp: Let_def split: if_splits sum.splits intro: cools_intros)
  next
    case (Cool_Continue k)
    with assms show ?thesis by (intro cool) (auto split: if_splits intro: cools_intros)
  next
    case (Cool_Off minimum)
    with assms cools_waitForCoolOff show ?thesis by (intro cool) auto
  qed (use assms item in \<open>auto split: option.splits\<close>)
qed

lemma sched_run_ledger:
  "(sched_step clk)\<^sup>*\<^sup>* s s' \<Longrightarrow> ledger_step\<^sup>*\<^sup>* (sc_ledger s) (sc_ledger s')"
  by (induction rule: rtranclp_induct) (auto simp: sched_step_iff dest: sched_event_ledger)

text \<open>The policy never changes.\<close>

lemma runs_as_policy: "runs_as i s s' \<Longrightarrow> sc_policy s' = sc_policy s"
  by (auto simp: runs_as_def book_fields_def markAborted_def settleIdleWaiters_def split: if_splits)

lemma pump_policy: "sc_policy (pump clk s) = sc_policy s"
proof (cases "sc_queue s")
  case (Cons i q)
  with runs_as_policy [OF run_item_runs [of i "s\<lparr> sc_queue := q \<rparr>"]] show ?thesis
    by (simp add: pump_def settleIdleWaiters_def)
qed (simp add: pump_def settleIdleWaiters_def)

lemma sched_event_policy:
  assumes "sched_event clk ev s = Some s'"
  shows "sc_policy s' = sc_policy s"
proof -
  have cool: ?thesis if "cools s s'" using that by (simp add: cools_def same_requests_def)
  have item: ?thesis if "sc_running s = Some (i, p)" "item_event clk ev i p s = Some s'" for i p
    using that(2)
    by (cases "(clk, ev, i, p, s)" rule: item_event.cases)
      (auto simp: settle_def Let_def pump_policy settleIdleWaiters_def
        intro!: runs_as_policy [OF waitForRequestStartGap_runs] runs_as_policy [OF wait_turn_runs]
        runs_as_policy [OF start_attempt_runs] runs_as_policy [OF begin_attempt_runs]
        runs_as_policy [OF attempt_ended_runs] runs_as_policy [OF runs_as_rejected [OF only_reads_refl]])
  show ?thesis
  proof (cases ev)
    case (Schedule m operation q)
    with assms show ?thesis by (auto simp: schedule_def Let_def pump_policy split: option.splits)
  next
    case Close
    with assms show ?thesis by (auto simp: close_def waitUntilIdle_def)
  next
    case (Abort e)
    with assms show ?thesis
      by (auto simp: abort_def markAborted_def settleIdleWaiters_def waitUntilIdle_def)
  next
    case (Cool_Woken k r)
    with assms show ?thesis
      by (intro cool) (auto simp: Let_def split: if_splits sum.splits intro: cools_intros)
  next
    case (Cool_Continue k)
    with assms show ?thesis by (intro cool) (auto split: if_splits intro: cools_intros)
  next
    case (Cool_Off minimum)
    with assms cools_waitForCoolOff show ?thesis by (intro cool) auto
  qed (use assms item in \<open>auto split: option.splits\<close>)
qed

lemma sched_run_policy: "(sched_step clk)\<^sup>*\<^sup>* s s' \<Longrightarrow> sc_policy s' = sc_policy s"
  by (induction rule: rtranclp_induct) (auto simp: sched_step_iff dest: sched_event_policy)

section \<open>Given sequences of events\<close>

fun run_events :: "(nat \<Rightarrow> js) \<Rightarrow> event list \<Rightarrow> sched \<Rightarrow> sched option" where
  "run_events clk [] s = Some s"
| "run_events clk (ev # evs) s =
     (case sched_event clk ev s of None \<Rightarrow> None | Some s' \<Rightarrow> run_events clk evs s')"

lemma run_events_steps: "run_events clk evs s = Some s' \<Longrightarrow> (sched_step clk)\<^sup>*\<^sup>* s s'"
  by (induction evs arbitrary: s)
    (auto split: option.splits intro: converse_rtranclp_into_rtranclp happens)

lemma run_events_append:
  "run_events clk (xs @ ys) s = (case run_events clk xs s of None \<Rightarrow> None | Some t \<Rightarrow> run_events clk ys t)"
  by (induction xs arbitrary: s) (auto split: option.splits)

end
