(* ===== verification/Rpc_Properties.thy ===== *)
theory Rpc_Properties imports Rpc_Scheduler begin

text \<open>
  What the RPC scheduler and its ledger promise to their callers, for every sequence of events
  and every clock, with a concrete run as witness: a read that times out, is attempted again and
  answers.
\<close>

section \<open>A concrete run\<close>

definition demo_clock :: "nat \<Rightarrow> js" where
  "demo_clock n = JNat (3000 * n)"

definition demo_read :: js where
  "demo_read = JObj [(''methodClass'', JStr ''GET_BALANCE''), (''mutationCapability'', JStr ''read''),
     (''signaturePersisted'', JBool False)]"

definition demo_options :: schedule_options where
  "demo_options = \<lparr> so_beforeAttempt = Missing, so_deadline = Undefined, so_notBefore = Undefined,
     so_observer = Missing, so_cleanup = JNat 0 \<rparr>"

definition demo_ledger :: ledger where
  "demo_ledger = \<lparr> l_capacity = 256, l_entries = [], l_nextSequence = 0, l_completed = 0, l_dropped = 0,
     l_countsByOutcome = (\<lambda>_. 0), l_countsByMethod = (\<lambda>_. 0) \<rparr>"

definition demo_sched :: sched where
  "demo_sched = \<lparr> sc_policy = \<lparr> queueCapacity = 2, minimumRequestStartGapMs = 500,
        retryBackoffMs = [2000, 5000], requestTimeoutMs = 15000 \<rparr>,
     sc_ledger = demo_ledger, sc_queue = [], sc_running = None, sc_closed = False, sc_aborted = None,
     sc_waiters = 0, sc_lastStart = None, sc_lastCompletion = None, sc_lastRead = None,
     sc_reads = 0, sc_nextId = 0, sc_settled = [], sc_starts = [], sc_cooling = [], sc_cooled = [] \<rparr>"

lemma demo_created:
  "createRpcRequestScheduler (JNat 2) (JNat 256) (JNat 500) (JArr [JNat 2000, JNat 5000]) (JNat 15000)
     = Inr demo_sched"
  by (simp add: createRpcRequestScheduler_def validateDelay_def is_safe_integer_def safe_int_def
      MAX_SAFE_INTEGER_def createRpcRequestLedger_def demo_sched_def demo_ledger_def)

definition demo_meta :: "nat \<Rightarrow> request_metadata" where
  "demo_meta n = \<lparr> methodClass = GET_BALANCE, mutationCapability = ''read'', retryNumber = n,
     signaturePersisted = False \<rparr>"

lemma demo_valid:
  assumes "n < 1000"
  shows "validateMetadata (JObj (set_field (own_fields demo_read) ''retryNumber'' (JNat n))) = Inr (demo_meta n)"
proof -
  let ?v = "JObj (set_field (own_fields demo_read) ''retryNumber'' (JNat n))"
  have "exact_keys ?v [''methodClass'', ''mutationCapability'', ''retryNumber'', ''signaturePersisted'']"
    by (auto simp: exact_keys_def demo_read_def intro!: sort_eq_if_mset_eq)
  with assms show ?thesis
    unfolding validateMetadata_def
    by (simp add: demo_read_def demo_meta_def RPC_METHOD_CLASSES_def is_safe_integer_def safe_int_def
        MAX_SAFE_INTEGER_def expected_capability_def)
qed

lemma demo_read_facts:
  "\<not> nullish demo_read" "get demo_read ''mutationCapability'' = JStr ''read''"
  "get demo_read ''methodClass'' = JStr ''GET_BALANCE''"
  "validateMetadata (JObj (set_field (own_fields demo_read) ''retryNumber'' (JNum 0))) = Inr (demo_meta 0)"
  "validateMetadata (JObj (set_field (own_fields demo_read) ''retryNumber'' (JNum 1))) = Inr (demo_meta 1)"
  using demo_valid [of 0] demo_valid [of 1] by (simp_all add: demo_read_def nullish_def)

definition demo_events :: "event list" where
  "demo_events = [Schedule demo_read True demo_options, Continue False, Timed_Out, Continue False,
     Continue False, Answered (Inr JNull), Continue False]"

lemmas run_defs = schedule_def schedule_error_def pump_def run_item_def begin_attempt_def
  waitForRequestStartGap_def wait_turn_def waitUntil_turn_def readMonotonic_def earliest_start_def
  phase_to_def rejected_def start_attempt_def start_request_def begin_record_def attempt_ended_def
  end_record_def append_entry_def attempt_failed_def settle_def settleIdleWaiters_def
  optional_number_def demo_clock_def retry_allowed_def retryable_def safe_failure_def
  error_outcome_def timeout_error_def is_safe_integer_def safe_int_def MAX_SAFE_INTEGER_def
  demo_sched_def demo_ledger_def demo_options_def demo_read_facts then_do_def Let_def

lemma demo_run:
  obtains s where "run_events demo_clock demo_events demo_sched = Some s"
    "map st_at (sc_starts s) = [6000, 24000]" "sc_settled s = [(0, Resolved JNull)]" "idle s"
    "l_completed (sc_ledger s) = 2"
proof -
  have "case run_events demo_clock demo_events demo_sched of None \<Rightarrow> False
      | Some s \<Rightarrow> map st_at (sc_starts s) = [6000, 24000] \<and> sc_settled s = [(0, Resolved JNull)] \<and> idle s
          \<and> l_completed (sc_ledger s) = 2"
    by (simp add: demo_events_def idle_def run_defs)
  with that show thesis by (auto split: option.splits)
qed

definition abort_events :: "event list" where
  "abort_events = [Schedule demo_read True demo_options, Continue False, Abort (Error ''stop'')]"

lemma abort_run:
  obtains s s' where "run_events demo_clock abort_events demo_sched = Some s" "sc_aborted s \<noteq> None"
    "length (sc_starts s) = 1" "run_events demo_clock [Timed_Out, Continue False] s = Some s'"
    "length (sc_settled s') = 1"
proof -
  have first: "case run_events demo_clock abort_events demo_sched of None \<Rightarrow> False
      | Some s \<Rightarrow> sc_aborted s \<noteq> None \<and> length (sc_starts s) = 1"
    by (simp add: abort_events_def abort_def markAborted_def waitUntilIdle_def run_defs)
  have "case run_events demo_clock (abort_events @ [Timed_Out, Continue False]) demo_sched of None \<Rightarrow> False
      | Some s \<Rightarrow> length (sc_settled s) = 1"
    by (simp add: abort_events_def abort_def markAborted_def waitUntilIdle_def run_defs)
  with first that show thesis by (auto simp: run_events_append split: option.splits)
qed

section \<open>Properties\<close>

text \<open>C17: Requests keep their pace.  Whatever happens and whatever the clock says, the requests of a
  scheduler start one after the other, each at least the gap after the one before; they start in
  the order in which they were scheduled, an item's attempts in a row; only reads are attempted
  again, and at most twice; no attempt starts whose timeout and cleanup would pass its deadline.\<close>

theorem rpc_requests_are_paced:
  assumes "createRpcRequestScheduler capacity ledgerCapacity gap backoffs timeout = Inr s0"
    and "(sched_step clk)\<^sup>*\<^sup>* s0 s"
  shows "sorted_wrt (\<lambda>a b. st_at a + num_of gap \<le> st_at b
        \<and> (i_id (st_item a) < i_id (st_item b) \<or> st_item a = st_item b \<and> st_retry a < st_retry b)) (sc_starts s)
    \<and> (\<forall>st\<in>set (sc_starts s). st_retry st \<le> 2 \<and> (st_retry st = 0 \<or> retry_allowed (st_item st))
        \<and> (\<forall>d. i_deadline (st_item st) = Some d \<longrightarrow>
             st_ready st + num_of timeout + i_cleanup (st_item st) \<le> d))"
proof -
  have "minimumRequestStartGapMs (sc_policy s0) = num_of gap" "requestTimeoutMs (sc_policy s0) = num_of timeout"
    using assms(1)
    by (auto simp: createRpcRequestScheduler_def and_then_eq_Inr split: js.splits list.splits)
  then have policy: "minimumRequestStartGapMs (sc_policy s) = num_of gap"
      "requestTimeoutMs (sc_policy s) = num_of timeout"
    using sched_run_policy [OF assms(2)] by simp_all
  have "timing s"
    using scheduler.run [OF assms(2)] created_sched_inv [OF assms(1)] by (auto simp: sched_inv_def paced_def)
  then have "sorted_wrt (follows (num_of gap)) (sc_starts s)" "list_all (start_ok (sc_policy s)) (sc_starts s)"
    by (auto simp: timing_def policy)
  then show ?thesis
    by (auto simp: follows_def [abs_def] start_ok_def attempt_allowed_def deadline_kept_def list_all_iff policy)
qed

theorem rpc_requests_are_paced_witness:
  "\<exists>s. run_events demo_clock demo_events demo_sched = Some s \<and> map st_at (sc_starts s) = [6000, 24000]
    \<and> sorted_wrt (\<lambda>a b. st_at a + num_of (JNat 500) \<le> st_at b
        \<and> (i_id (st_item a) < i_id (st_item b) \<or> st_item a = st_item b \<and> st_retry a < st_retry b)) (sc_starts s)"
proof -
  obtain s where s: "run_events demo_clock demo_events demo_sched = Some s"
      "map st_at (sc_starts s) = [6000, 24000]" by (rule demo_run)
  from conjunct1 [OF rpc_requests_are_paced [OF demo_created run_events_steps [OF s(1)]]] s
  show ?thesis by (intro exI [of _ s] conjI)
qed

text \<open>C18: Every promise is settled once.  Each call of \<open>schedule\<close> that was accepted is waiting, running
  or settled, never settled twice; when the scheduler is idle all of them are settled and nobody
  who waits for an idle scheduler, as \<open>close\<close> and \<open>abort\<close> do, is left waiting; at most the
  capacity of the queue waits.\<close>

theorem rpc_promises_settle_once:
  assumes "createRpcRequestScheduler capacity ledgerCapacity gap backoffs timeout = Inr s0"
    and "(sched_step clk)\<^sup>*\<^sup>* s0 s"
  shows "distinct (map fst (sc_settled s) @ pending_ids s)
    \<and> set (map fst (sc_settled s) @ pending_ids s) = {..<sc_nextId s}
    \<and> length (sc_queue s) \<le> queueCapacity (sc_policy s0)
    \<and> (sc_running s \<noteq> None \<or> sc_queue s = [])
    \<and> (idle s \<longrightarrow> set (map fst (sc_settled s)) = {..<sc_nextId s} \<and> sc_waiters s = 0)"
proof -
  have books: "books s"
    using scheduler.run [OF assms(2)] created_sched_inv [OF assms(1)] by (simp add: sched_inv_def)
  then have sums: "mset (map fst (sc_settled s) @ pending_ids s) = mset [0..<sc_nextId s]"
    unfolding books_def by simp
  then have "distinct (map fst (sc_settled s) @ pending_ids s)"
    using mset_eq_imp_distinct_iff [OF sums] by simp
  moreover have "set (map fst (sc_settled s) @ pending_ids s) = {..<sc_nextId s}"
    using mset_eq_setD [OF sums] by auto
  moreover have "pending_ids s = []" if "idle s"
    using that by (simp add: idle_def pending_ids_def running_ids_def)
  ultimately show ?thesis
    using books sched_run_policy [OF assms(2)] by (auto simp: books_def)
qed

theorem rpc_promises_settle_once_witness:
  "\<exists>s. run_events demo_clock demo_events demo_sched = Some s \<and> idle s
    \<and> set (map fst (sc_settled s)) = {..<sc_nextId s} \<and> sc_waiters s = 0"
proof -
  obtain s where s: "run_events demo_clock demo_events demo_sched = Some s" "idle s" by (rule demo_run)
  from rpc_promises_settle_once [OF demo_created run_events_steps [OF s(1)]] s show ?thesis by blast
qed

text \<open>C19: An abort is final: once the scheduler is aborted, by its owner or because an observer failed,
  no request starts any more.\<close>

theorem rpc_abort_is_final:
  assumes "createRpcRequestScheduler capacity ledgerCapacity gap backoffs timeout = Inr s0"
    and "(sched_step clk)\<^sup>*\<^sup>* s0 s" and "sc_aborted s \<noteq> None" and "(sched_step clk)\<^sup>*\<^sup>* s s'"
  shows "sc_starts s' = sc_starts s \<and> sc_aborted s' = sc_aborted s"
proof -
  have "sched_inv s" using scheduler.run [OF assms(2)] created_sched_inv [OF assms(1)] by blast
  moreover from assms(3) obtain e where e: "sc_aborted s = Some e" by blast
  ultimately show ?thesis using abort_is_final [OF assms(4)] by simp
qed

theorem rpc_abort_is_final_witness:
  "\<exists>s s'. run_events demo_clock abort_events demo_sched = Some s
    \<and> run_events demo_clock [Timed_Out, Continue False] s = Some s'
    \<and> sc_starts s' = sc_starts s \<and> length (sc_starts s) = 1 \<and> length (sc_settled s') = 1"
proof -
  obtain s s' where s: "run_events demo_clock abort_events demo_sched = Some s" "sc_aborted s \<noteq> None"
      "length (sc_starts s) = 1" "run_events demo_clock [Timed_Out, Continue False] s = Some s'"
      "length (sc_settled s') = 1"
    by (rule abort_run)
  from rpc_abort_is_final [OF demo_created run_events_steps [OF s(1)] s(2) run_events_steps [OF s(4)]] s
  show ?thesis by blast
qed

end
