(* ===== verification/Deployment.thy ===== *)
theory Deployment imports Safety begin

text \<open>
  \<open>scripts/devnet/deploy.mjs\<close>: the command lines the deployment may run, and the classification
  of what is observed of the buffer, of a write and of the program account.

  The inputs are values as the callers pass them; a path is a text that \<open>resolve\<close> splits at the
  slashes, below the working directory when it is relative.
\<close>

section \<open>Paths as texts\<close>

fun split_on :: "char \<Rightarrow> string \<Rightarrow> string list" where
  "split_on sep [] = [[]]"
| "split_on sep (c # cs) =
     (if c = sep then [] # split_on sep cs
      else case split_on sep cs of [] \<Rightarrow> [[c]] | w # ws \<Rightarrow> (c # w) # ws)"

definition path_text :: "path_parts \<Rightarrow> string" where
  "path_text ps = (if ps = [] then ''/'' else concat (map (\<lambda>p. CHR ''/'' # p) ps))"

record deploy_env =
  parse_url :: "js \<Rightarrow> url option"
  files :: file_system
  working_directory :: path_parts

definition absolute_parts :: "deploy_env \<Rightarrow> string \<Rightarrow> path_parts" where
  "absolute_parts env s =
     (case s of CHR ''/'' # cs \<Rightarrow> split_on CHR ''/'' cs | _ \<Rightarrow> working_directory env @ split_on CHR ''/'' s)"

text \<open>\<open>assertSignerPathContained\<close> on texts; \<open>path.resolve\<close> throws on values that are not texts.\<close>

definition contained_path :: "deploy_env \<Rightarrow> js \<Rightarrow> js \<Rightarrow> js result" where
  "contained_path env repoRoot candidate =
     (case (repoRoot, candidate) of
        (JStr r, JStr c) \<Rightarrow>
          and_then (assertSignerPathContained (files env) (absolute_parts env r) (absolute_parts env c))
            (\<lambda>p. Inr (JStr (path_text p)))
      | _ \<Rightarrow> Inl TypeError)"

section \<open>Commands\<close>

definition UPGRADEABLE_LOADER :: string where
  "UPGRADEABLE_LOADER = ''BPFLoaderUpgradeab1e11111111111111111111111''"

definition assertBinary :: "js \<Rightarrow> js \<Rightarrow> unit result" where
  "assertBinary binaryPath binaryLength =
     guard (truthy binaryPath \<and> is_integer binaryLength \<and> 0 < num_of binaryLength)
       ''verified deployment binary and length are required''"

record deployment_paths =
  dp_authority :: js
  dp_programKeypair :: js
  dp_bufferSigner :: js

definition validateDeploymentPaths :: "deploy_env \<Rightarrow> js \<Rightarrow> deployment_paths result" where
  "validateDeploymentPaths env input =
     (let f = get input in
      and_then (guard (truthy (f ''repoRoot'')) ''repository root is required for signer containment'') (\<lambda>_.
      and_then (guard (truthy (f ''authorityPath'')) ''explicit deployment authority path is required'') (\<lambda>_.
      and_then (guard (truthy (f ''programKeypairPath'')) ''explicit program keypair path is required'') (\<lambda>_.
      and_then (guard (truthy (f ''bufferSignerPath''))
        ''explicit repository-managed buffer signer is required'') (\<lambda>_.
      and_then (contained_path env (f ''repoRoot'') (f ''authorityPath'')) (\<lambda>a.
      and_then (contained_path env (f ''repoRoot'') (f ''programKeypairPath'')) (\<lambda>p.
      and_then (contained_path env (f ''repoRoot'') (f ''bufferSignerPath'')) (\<lambda>b.
        Inr \<lparr> dp_authority = a, dp_programKeypair = p, dp_bufferSigner = b \<rparr>))))))))"

definition validateAuthorityPath :: "deploy_env \<Rightarrow> js \<Rightarrow> js \<Rightarrow> js result" where
  "validateAuthorityPath env repoRoot authorityPath =
     and_then (guard (truthy repoRoot) ''repository root is required for signer containment'') (\<lambda>_.
     and_then (guard (truthy authorityPath) ''explicit deployment authority path is required'') (\<lambda>_.
       contained_path env repoRoot authorityPath))"

text \<open>\<open>String\<close> of a positive integer.\<close>

definition length_text :: "js \<Rightarrow> string" where
  "length_text v = show_nat (nat \<lfloor>num_of v\<rfloor>)"

abbreviation words :: "string list \<Rightarrow> js list" where
  "words ws \<equiv> map JStr ws"

definition buildDeployCommand :: "deploy_env \<Rightarrow> js \<Rightarrow> js list result" where
  "buildDeployCommand env input =
     (let f = get input in
      and_then (assertAllowedRpcUrl (parse_url env) (f ''rpcUrl'') ''devnet'') (\<lambda>_.
      and_then (validateDeploymentPaths env input) (\<lambda>p.
      and_then (assertBinary (f ''binaryPath'') (f ''binaryLength'')) (\<lambda>_.
        Inr ([JStr ''program'', JStr ''deploy'', JStr ''--url'', f ''rpcUrl'', JStr ''--use-rpc'',
              JStr ''--keypair'', dp_authority p, JStr ''--fee-payer'', dp_authority p,
              JStr ''--program-id'', dp_programKeypair p, JStr ''--buffer'', dp_bufferSigner p,
              JStr ''--upgrade-authority'', dp_authority p, JStr ''--max-len'',
              JStr (length_text (f ''binaryLength'')), JStr ''--output'', JStr ''json'',
              f ''binaryPath''])))))"

definition buildWriteBufferCommand :: "deploy_env \<Rightarrow> js \<Rightarrow> js list result" where
  "buildWriteBufferCommand env input =
     (let f = get input in
      and_then (assertAllowedRpcUrl (parse_url env) (f ''rpcUrl'') ''devnet'') (\<lambda>_.
      and_then (validateDeploymentPaths env input) (\<lambda>p.
      and_then (assertBinary (f ''binaryPath'') (f ''binaryLength'')) (\<lambda>_.
        Inr ([JStr ''program'', JStr ''write-buffer'', JStr ''--url'', f ''rpcUrl'', JStr ''--use-rpc'',
              JStr ''--keypair'', dp_authority p, JStr ''--fee-payer'', dp_authority p,
              JStr ''--buffer'', dp_bufferSigner p, JStr ''--buffer-authority'', dp_authority p,
              JStr ''--max-len'', JStr (length_text (f ''binaryLength'')), JStr ''--output'',
              JStr ''json'', f ''binaryPath''])))))"

definition buildFinalizeBufferCommand :: "deploy_env \<Rightarrow> js \<Rightarrow> js list result" where
  "buildFinalizeBufferCommand env input =
     (let f = get input in
      and_then (assertAllowedRpcUrl (parse_url env) (f ''rpcUrl'') ''devnet'') (\<lambda>_.
      and_then (validateAuthorityPath env (f ''repoRoot'') (f ''authorityPath'')) (\<lambda>a.
      and_then (guard (truthy (f ''programKeypairPath'')) ''explicit program keypair path is required'') (\<lambda>_.
      and_then (contained_path env (f ''repoRoot'') (f ''programKeypairPath'')) (\<lambda>k.
      and_then (guard (truthy (f ''bufferPublicKey'')) ''recorded public buffer address is required'') (\<lambda>_.
      and_then (assertBinary (f ''binaryPath'') (f ''binaryLength'')) (\<lambda>_.
        Inr [JStr ''program'', JStr ''deploy'', JStr ''--url'', f ''rpcUrl'', JStr ''--use-rpc'',
             JStr ''--keypair'', a, JStr ''--fee-payer'', a, JStr ''--program-id'', k,
             JStr ''--buffer'', f ''bufferPublicKey'', JStr ''--upgrade-authority'', a,
             JStr ''--max-len'', JStr (length_text (f ''binaryLength'')), JStr ''--output'',
             JStr ''json'']))))))) "

definition buildCloseBufferCommand :: "deploy_env \<Rightarrow> js \<Rightarrow> js list result" where
  "buildCloseBufferCommand env input =
     (let f = get input in
      and_then (guard (f ''recoveryDecision'' = JStr ''CLOSE_BUFFER'')
        ''buffer close requires an explicit recovery decision'') (\<lambda>_.
      and_then (assertAllowedRpcUrl (parse_url env) (f ''rpcUrl'') ''devnet'') (\<lambda>_.
      and_then (validateAuthorityPath env (f ''repoRoot'') (f ''authorityPath'')) (\<lambda>a.
      and_then (guard (truthy (f ''bufferPublicKey'') \<and> truthy (f ''authorityPublicKey''))
        ''public buffer and recipient addresses are required'') (\<lambda>_.
        Inr [JStr ''program'', JStr ''close'', f ''bufferPublicKey'', JStr ''--url'', f ''rpcUrl'',
             JStr ''--keypair'', a, JStr ''--authority'', a, JStr ''--recipient'',
             f ''authorityPublicKey'', JStr ''--output'', JStr ''json''])))))"

section \<open>The buffer\<close>

datatype buffer_action = NONE | STOP | CREATE | FINALIZE | RESUME

record lifecycle =
  lc_status :: string
  lc_action :: buffer_action
  lc_retryEligible :: bool
  lc_reason :: js

text \<open>What was seen of the buffer account; its content when it is a byte array.\<close>

record observed_buffer =
  ob_publicKey :: js
  ob_owner :: js
  ob_authority :: js
  ob_dataLength :: js
  ob_programBytes :: "bytes option"

record expected_buffer =
  eb_publicKey :: js
  eb_owner :: js
  eb_authority :: js
  eb_allocatedLength :: js
  eb_localBytes :: "bytes option"
  eb_creationSignature :: js

record observed_program =
  op_executable :: bool
  op_exactBinaryMatch :: bool

text \<open>\<open>Buffer.isBuffer(a) && Buffer.isBuffer(b) && a.equals(b)\<close>.\<close>

definition same_bytes :: "bytes option \<Rightarrow> bytes option \<Rightarrow> bool" where
  "same_bytes a b = (case (a, b) of (Some x, Some y) \<Rightarrow> buffer_equals x y | _ \<Rightarrow> False)"

text \<open>The account of the buffer, once no program is deployed.\<close>

definition classify_buffer :: "observed_buffer option \<Rightarrow> expected_buffer \<Rightarrow> lifecycle result" where
  "classify_buffer observed expected =
     (case observed of
        None \<Rightarrow>
          if truthy (eb_creationSignature expected)
          then Inr \<lparr> lc_status = ''UNCERTAIN'', lc_action = STOP, lc_retryEligible = False,
                  lc_reason = JStr ''recorded buffer creation is not observable'' \<rparr>
          else Inr \<lparr> lc_status = ''PLANNED'', lc_action = CREATE, lc_retryEligible = True, lc_reason = Undefined \<rparr>
      | Some ob \<Rightarrow>
          if \<not> strict_equal (ob_publicKey ob) (eb_publicKey expected)
          then throw ''buffer recorded address mismatch''
          else if \<not> strict_equal (ob_owner ob) (eb_owner expected) then throw ''buffer owner mismatch''
          else if \<not> strict_equal (ob_authority ob) (eb_authority expected)
          then throw ''buffer authority mismatch''
          else if \<not> strict_equal (ob_dataLength ob) (eb_allocatedLength expected)
          then throw ''buffer allocation mismatch''
          else if same_bytes (ob_programBytes ob) (eb_localBytes expected)
          then Inr \<lparr> lc_status = ''BUFFER_COMPLETE'', lc_action = FINALIZE, lc_retryEligible = True, lc_reason = Undefined \<rparr>
          else Inr \<lparr> lc_status = ''BUFFER_WRITING'', lc_action = RESUME, lc_retryEligible = True, lc_reason = Undefined \<rparr>)"

definition classifyBufferLifecycle ::
    "observed_buffer option \<Rightarrow> expected_buffer \<Rightarrow> observed_program option \<Rightarrow> lifecycle result" where
  "classifyBufferLifecycle observed expected program =
     (case program of
        Some p \<Rightarrow>
          if \<not> op_executable p then classify_buffer observed expected
          else if \<not> op_exactBinaryMatch p then throw ''deployed program binary mismatch''
          else Inr \<lparr> lc_status = ''PROGRAM_DEPLOYED'', lc_action = NONE, lc_retryEligible = False, lc_reason = Undefined \<rparr>
      | None \<Rightarrow> classify_buffer observed expected)"

section \<open>The outcome of a write\<close>

record write_outcome =
  wo_status :: string
  wo_retryEligible :: bool
  wo_regenerateBuffer :: bool
  wo_signature :: js
  wo_slot :: js
  wo_errorClassification :: js

text \<open>\<open>metaErr != null\<close> also fails for an absent field, which is then not \<open>=== null\<close> either.\<close>

definition classifyWriteOutcome :: "js \<Rightarrow> write_outcome" where
  "classifyWriteOutcome observed =
     (let f = get observed; landed = truthy (f ''signature'') \<and> \<not> nullish (f ''slot'') in
      if f ''rpcErrorCode'' = JNat 429
      then \<lparr> wo_status = ''BUFFER_WRITING'', wo_retryEligible = True, wo_regenerateBuffer = False,
             wo_signature = Undefined, wo_slot = Undefined, wo_errorClassification = JStr ''RPC_RATE_LIMIT'' \<rparr>
      else if landed \<and> \<not> nullish (f ''metaErr'')
      then \<lparr> wo_status = ''CONFIRMED_FAILED'', wo_retryEligible = False, wo_regenerateBuffer = False,
             wo_signature = f ''signature'', wo_slot = f ''slot'', wo_errorClassification = Undefined \<rparr>
      else if landed \<and> f ''metaErr'' = JNull
      then \<lparr> wo_status = ''CONFIRMED_SUCCESS'', wo_retryEligible = True, wo_regenerateBuffer = False,
             wo_signature = f ''signature'', wo_slot = f ''slot'', wo_errorClassification = Undefined \<rparr>
      else \<lparr> wo_status = ''UNCERTAIN'', wo_retryEligible = False, wo_regenerateBuffer = False,
             wo_signature = Undefined, wo_slot = Undefined, wo_errorClassification = JStr ''UNCLASSIFIED'' \<rparr>)"

section \<open>The program account\<close>

record program_account =
  pa_executable :: bool
  pa_owner :: string
  pa_authority :: js

datatype disposition = Initial_Deploy | Recovered

definition classifyProgramAccount ::
    "program_account option \<Rightarrow> js \<Rightarrow> bool \<Rightarrow> disposition result" where
  "classifyProgramAccount observed authority binaryMatch =
     (case observed of
        None \<Rightarrow> Inr Initial_Deploy
      | Some p \<Rightarrow>
          if \<not> pa_executable p then throw ''existing canonical program account is not executable''
          else if pa_owner p \<noteq> UPGRADEABLE_LOADER
          then throw (''existing canonical program loader mismatch: '' @ pa_owner p)
          else if \<not> strict_equal (pa_authority p) authority
          then throw (''existing canonical program authority mismatch: '' @ shown (pa_authority p))
          else if \<not> binaryMatch then throw ''existing canonical program binary mismatch''
          else Inr Recovered)"

text \<open>The evidence is the flag \<open>exactExecutableMatch\<close> of the byte comparison, if there is one.\<close>

record recovery =
  rc_status :: string
  rc_provenance :: string
  rc_redeploy :: bool
  rc_reason :: js

definition recoverDeployment :: "program_account option \<Rightarrow> js \<Rightarrow> bool option \<Rightarrow> recovery result" where
  "recoverDeployment observed authority exactExecutableMatch =
     (if observed = None
      then Inr \<lparr> rc_status = ''unresolved'', rc_provenance = ''uncertain'', rc_redeploy = False,
                 rc_reason = JStr ''canonical program account is absent'' \<rparr>
      else if exactExecutableMatch \<noteq> Some True
      then throw ''complete binary verification is required for recovery''
      else and_then (classifyProgramAccount observed authority True) (\<lambda>_.
        Inr \<lparr> rc_status = ''recovered'', rc_provenance = ''recovered'', rc_redeploy = False,
              rc_reason = Undefined \<rparr>))"

section \<open>What the commands and classifications promise\<close>

lemma contained_path_ok:
  assumes "contained_path env repoRoot candidate = Inr v"
  shows "\<exists>r c p. repoRoot = JStr r \<and> candidate = JStr c \<and> v = JStr (path_text p)
    \<and> assertSignerPathContained (files env) (absolute_parts env r) (absolute_parts env c) = Inr p"
  using assms by (auto simp: contained_path_def result_simps split: js.splits)

text \<open>The parts of the signer directory.\<close>

definition signer_directory :: "deploy_env \<Rightarrow> string \<Rightarrow> path_parts" where
  "signer_directory env r = Safety.resolve (Safety.resolve (absolute_parts env r) @ [''.devnet''])"

definition signer_path :: "deploy_env \<Rightarrow> js \<Rightarrow> js \<Rightarrow> bool" where
  "signer_path env repoRoot v \<longleftrightarrow>
     (\<exists>r p. repoRoot = JStr r \<and> v = JStr (path_text p) \<and> prefix (signer_directory env r) p)"

lemma contained_signer_path: "contained_path env repoRoot candidate = Inr v \<Longrightarrow> signer_path env repoRoot v"
  by (auto simp: signer_path_def signer_directory_def
      dest!: contained_path_ok assertSignerPathContained_ok)

definition devnet_url :: "deploy_env \<Rightarrow> js \<Rightarrow> bool" where
  "devnet_url env v \<longleftrightarrow> (\<exists>u. parse_url env v = Some u \<and> protocol u = ''https:''
     \<and> hostname u = ''api.devnet.solana.com'' \<and> username u = [] \<and> password u = [])"

lemma allowed_devnet_url: "assertAllowedRpcUrl (parse_url env) v ''devnet'' = Inr u \<Longrightarrow> devnet_url env v"
  by (auto simp: assertAllowedRpcUrl_def devnet_url_def split: option.splits if_splits)

text \<open>The option that a command line gives under a name: the word after the name.\<close>

fun option_of :: "string \<Rightarrow> js list \<Rightarrow> js" where
  "option_of name [] = Undefined"
| "option_of name [w] = Undefined"
| "option_of name (w # v # ws) = (if w = JStr name then v else option_of name (v # ws))"

lemma validated_paths_signer:
  "validateDeploymentPaths env input = Inr p \<Longrightarrow>
   signer_path env (get input ''repoRoot'') (dp_authority p)
   \<and> signer_path env (get input ''repoRoot'') (dp_programKeypair p)
   \<and> signer_path env (get input ''repoRoot'') (dp_bufferSigner p)"
  by (auto simp: validateDeploymentPaths_def Let_def result_simps dest: contained_signer_path)

lemma finalize_only_exact:
  assumes "classifyBufferLifecycle observed expected program = Inr lc" and "lc_action lc = FINALIZE"
  shows "\<exists>ob bs. observed = Some ob \<and> ob_programBytes ob = Some bs \<and> eb_localBytes expected = Some bs
    \<and> ob_publicKey ob = eb_publicKey expected \<and> ob_owner ob = eb_owner expected
    \<and> ob_authority ob = eb_authority expected \<and> ob_dataLength ob = eb_allocatedLength expected"
proof -
  from assms obtain ob where ob: "observed = Some ob"
      "same_bytes (ob_programBytes ob) (eb_localBytes expected)"
    and ids: "strict_equal (ob_publicKey ob) (eb_publicKey expected)"
      "strict_equal (ob_owner ob) (eb_owner expected)"
      "strict_equal (ob_authority ob) (eb_authority expected)"
      "strict_equal (ob_dataLength ob) (eb_allocatedLength expected)"
    by (auto simp: classifyBufferLifecycle_def classify_buffer_def split: option.splits if_splits)
  from ob(2) obtain bs where "ob_programBytes ob = Some bs" "eb_localBytes expected = Some bs"
    by (auto simp: same_bytes_def buffer_equals_def split: option.splits)
  with ob ids [THEN strict_equal_imp_eq] show ?thesis by auto
qed

lemma create_only_fresh:
  assumes "classifyBufferLifecycle observed expected program = Inr lc" and "lc_action lc = CREATE"
  shows "observed = None \<and> \<not> truthy (eb_creationSignature expected)"
  using assms
  by (auto simp: classifyBufferLifecycle_def classify_buffer_def split: option.splits if_splits)

lemma recovered_program:
  assumes "recoverDeployment observed authority evidence = Inr r" and "rc_status r = ''recovered''"
  shows "evidence = Some True \<and> (\<exists>p. observed = Some p \<and> pa_executable p
    \<and> pa_owner p = UPGRADEABLE_LOADER \<and> pa_authority p = authority)"
  using assms
  by (auto simp: recoverDeployment_def classifyProgramAccount_def result_simps
      dest: strict_equal_imp_eq split: if_splits option.splits)

text \<open>The upload may go on only after a rate limit or a confirmed success.\<close>

lemma write_outcome_retry:
  "wo_retryEligible (classifyWriteOutcome v) \<longleftrightarrow>
     wo_errorClassification (classifyWriteOutcome v) = JStr ''RPC_RATE_LIMIT''
     \<or> wo_status (classifyWriteOutcome v) = ''CONFIRMED_SUCCESS''"
  by (simp add: classifyWriteOutcome_def Let_def)

end
