(* ===== verification/Live_Deployment.thy ===== *)
theory Live_Deployment imports Deployment begin

text \<open>
  \<open>scripts/devnet/live-deployment.mjs\<close>: the captured command, the inspection of the buffer, and
  the write windows in the state file, each with at most three attempts.

  Running a command, querying the buffer, sleeping and reading the clock are calls with effects
  on an arbitrary state, given as a record; the base58 text of a key is a parameter.  The state
  file is a value, copied on write (\<open>structuredClone\<close>).
\<close>

section \<open>Captured output\<close>

definition MAX_WRITE_ATTEMPTS :: nat where
  "MAX_WRITE_ATTEMPTS = 3"

definition is_digit_char :: "char \<Rightarrow> bool" where
  "is_digit_char c = (let n = of_char c :: nat in 48 \<le> n \<and> n \<le> 57)"

definition digit_value :: "char \<Rightarrow> nat" where
  "digit_value c = of_char c - 48"

definition digits_value :: "string \<Rightarrow> nat" where
  "digits_value ds = foldl (\<lambda>n c. 10 * n + digit_value c) 0 ds"

definition is_space_char :: "char \<Rightarrow> bool" where
  "is_space_char c = (let n = of_char c :: nat in (9 \<le> n \<and> n \<le> 13) \<or> n = 32 \<or> n = 160)"

text \<open>The alternatives of \<open>25[0-5]|2[0-4]\d|1?\d?\d\<close>, matched against a whole run of digits.\<close>

definition byte_text :: "string \<Rightarrow> bool" where
  "byte_text ds \<longleftrightarrow> length ds \<in> {1, 2} \<or> (length ds = 3 \<and> 100 \<le> digits_value ds \<and> digits_value ds \<le> 255)"

text \<open>What is left of a text after white space, a byte and white space.\<close>

definition after_byte :: "string \<Rightarrow> string option" where
  "after_byte s =
     (let t = dropWhile is_space_char s; ds = takeWhile is_digit_char t in
      if byte_text ds then Some (dropWhile is_space_char (dropWhile is_digit_char t)) else None)"

fun byte_items :: "nat \<Rightarrow> string \<Rightarrow> bool" where
  "byte_items 0 s = (case after_byte s of Some (c # r) \<Rightarrow> c = CHR '']'' | _ \<Rightarrow> False)"
| "byte_items (Suc n) s =
     (case after_byte s of Some (c # r) \<Rightarrow> c = CHR '','' \<and> byte_items n r | _ \<Rightarrow> False)"

text \<open>Whether some suffix of a text, the empty one included, starts with a match.\<close>

fun somewhere :: "(string \<Rightarrow> bool) \<Rightarrow> string \<Rightarrow> bool" where
  "somewhere P [] = P []"
| "somewhere P (c # cs) = (P (c # cs) \<or> somewhere P cs)"

definition KEYPAIR_ARRAY :: "string \<Rightarrow> bool" where
  "KEYPAIR_ARRAY s = somewhere (\<lambda>t. case t of c # r \<Rightarrow> c = CHR ''['' \<and> byte_items 63 r | [] \<Rightarrow> False) s"

definition assertSafeCapturedOutput :: "string option \<Rightarrow> unit result" where
  "assertSafeCapturedOutput output =
     (let v = (case output of Some s \<Rightarrow> s | None \<Rightarrow> ''''); low = to_lower v in
      guard (\<not> contains ''seed phrase'' low \<and> \<not> contains ''mnemonic'' low
             \<and> \<not> contains ''ephemeral keypair'' low \<and> \<not> KEYPAIR_ARRAY v)
        ''REVISE_SECURITY_BOUNDARY: Solana CLI emitted recovery material'')"

record process_result =
  pr_status :: js
  pr_stdout :: "string option"
  pr_stderr :: "string option"
  pr_error :: js

record command_result =
  cr_ok :: bool
  cr_status :: js
  cr_stdout :: string
  cr_stderr :: string

definition is_text :: "js \<Rightarrow> bool" where
  "is_text v = (case v of JStr s \<Rightarrow> True | _ \<Rightarrow> False)"

type_synonym 's runner = "js list \<Rightarrow> 's \<Rightarrow> process_result \<times> 's"

definition runCapturedCommand :: "'s runner \<Rightarrow> js list \<Rightarrow> (command_result, 's) effect" where
  "runCapturedCommand runner argv s =
     (if list_ex (\<lambda>v. \<not> is_text v) argv then (throw ''command argv must be a string array'', s)
      else case runner argv s of (p, s') \<Rightarrow>
        (and_then (assertSafeCapturedOutput (pr_stdout p)) (\<lambda>_.
         and_then (assertSafeCapturedOutput (pr_stderr p)) (\<lambda>_.
         Inr \<lparr> cr_ok = (pr_status p = JNat 0 \<and> \<not> truthy (pr_error p)), cr_status = pr_status p,
               cr_stdout = (case pr_stdout p of Some t \<Rightarrow> t | None \<Rightarrow> ''''),
               cr_stderr = (case pr_stderr p of Some t \<Rightarrow> t | None \<Rightarrow> '''') \<rparr>)), s'))"

text \<open>\<open>/rate.?limit/\<close> and \<open>/timed? out|timeout/\<close>.\<close>

definition is_line_end :: "char \<Rightarrow> bool" where
  "is_line_end c = (let n = of_char c :: nat in n = 10 \<or> n = 13)"

definition rate_limit_at :: "string \<Rightarrow> bool" where
  "rate_limit_at s = (starts_with ''rate'' s \<and>
     (starts_with ''limit'' (drop 4 s)
      \<or> (case drop 4 s of c # r \<Rightarrow> \<not> is_line_end c \<and> starts_with ''limit'' r | [] \<Rightarrow> False)))"

definition classifyCliError :: "string \<Rightarrow> string \<times> bool" where
  "classifyCliError output =
     (let low = to_lower output in
      if contains_word ''429'' False output \<or> contains ''too many requests'' low \<or> somewhere rate_limit_at low
      then (''RPC_RATE_LIMIT'', True)
      else if contains ''max retries exceeded'' low then (''RPC_MAX_RETRIES'', True)
      else if contains ''time out'' low \<or> contains ''timed out'' low \<or> contains ''timeout'' low
      then (''RPC_TIMEOUT'', True)
      else (''CLI_FAILURE'', False))"

section \<open>The buffer account\<close>

record loader_account =
  la_owner :: string
  la_data :: bytes
  la_executable :: bool

record buffer_expectation =
  be_publicKey :: js
  be_owner :: js
  be_authority :: js
  be_allocatedLength :: js
  be_localBytes :: bytes

record inspected_buffer =
  ib_publicKey :: js
  ib_owner :: string
  ib_authority :: string
  ib_dataLength :: nat
  ib_matchingBytes :: nat
  ib_totalBytes :: nat
  ib_exactBinaryMatch :: bool
  ib_status :: string

text \<open>The positions at which the two byte strings agree; beyond the end of the first nothing does.\<close>

fun matching_bytes :: "bytes \<Rightarrow> bytes \<Rightarrow> nat" where
  "matching_bytes (p # ps) (l # ls) = (if p = l then 1 else 0) + matching_bytes ps ls"
| "matching_bytes _ _ = 0"

definition inspectUpgradeableBuffer ::
    "(bytes \<Rightarrow> string) \<Rightarrow> loader_account option \<Rightarrow> buffer_expectation \<Rightarrow> inspected_buffer option result" where
  "inspectUpgradeableBuffer base58 account expected =
     (case account of None \<Rightarrow> Inr None
      | Some a \<Rightarrow>
          let data = la_data a; program = drop 37 data; authority = base58 (subarray data 5 37);
              local = be_localBytes expected; exact = buffer_equals program local in
          if JStr (la_owner a) \<noteq> be_owner expected then throw (''buffer owner mismatch: '' @ la_owner a)
          else if JNat (length data) \<noteq> be_allocatedLength expected
          then throw (''buffer allocation mismatch: '' @ show_nat (length data) @ '' != ''
                      @ shown (be_allocatedLength expected))
          else if la_executable a \<or> length data < 37 then throw ''buffer account shape mismatch''
          else if le_value (subarray data 0 4) \<noteq> 1 \<or> data ! 4 \<noteq> 1 then throw ''buffer state mismatch''
          else if JStr authority \<noteq> be_authority expected
          then throw (''buffer authority mismatch: '' @ authority)
          else Inr (Some \<lparr> ib_publicKey = be_publicKey expected, ib_owner = la_owner a,
                 ib_authority = authority, ib_dataLength = length data,
                 ib_matchingBytes = matching_bytes program local, ib_totalBytes = length local,
                 ib_exactBinaryMatch = exact,
                 ib_status = (if exact then ''BUFFER_COMPLETE'' else ''BUFFER_WRITING'') \<rparr>))"

text \<open>The bytes of a buffer account.\<close>

definition buffer_account :: "bytes \<Rightarrow> bytes \<Rightarrow> bytes" where
  "buffer_account authority program = le_bytes 4 1 @ [1] @ authority @ program"

lemma matching_bytes_le: "matching_bytes ps ls \<le> length ls"
  by (induction ps ls rule: matching_bytes.induct) auto

lemma matching_bytes_all:
  "length ps = length ls \<Longrightarrow> matching_bytes ps ls = length ls \<longleftrightarrow> ps = ls"
proof (induction ps ls rule: matching_bytes.induct)
  case (1 p ps l ls)
  with matching_bytes_le [of ps ls] show ?case by auto
qed auto

section \<open>The history of signatures\<close>

definition safe_entry :: "js \<Rightarrow> bool" where
  "safe_entry entry \<longleftrightarrow> is_text (get entry ''signature'') \<and> is_integer (get entry ''slot'')"

definition sanitized_entry :: "js \<Rightarrow> js" where
  "sanitized_entry entry = JObj [(''signature'', get entry ''signature''), (''slot'', get entry ''slot''),
     (''err'', coalesce (get entry ''err'') JNull)]"

definition summarizeSignatureHistory :: "js \<Rightarrow> js \<Rightarrow> js result" where
  "summarizeSignatureHistory signatures baselineCount =
     (case signatures of
        JArr entries \<Rightarrow>
          if \<not> is_integer baselineCount \<or> num_of baselineCount < 0
          then throw ''signature history baseline must be a nonnegative integer''
          else if list_ex (\<lambda>e. \<not> safe_entry e) entries then throw ''signature history entry is invalid''
          else
            let sanitized = map sanitized_entry entries; n = length sanitized;
                successful = length (filter (\<lambda>e. get e ''err'' = JNull) sanitized) in
            Inr (JObj [(''total'', JNat n), (''successful'', JNat successful),
                       (''failed'', JNat (n - successful)),
                       (''newSinceWindow'', JNum (max 0 (of_nat n - num_of baselineCount))),
                       (''newest'', case sanitized of [] \<Rightarrow> JNull | e # _ \<Rightarrow> e)])
      | _ \<Rightarrow> throw ''signature history must be an array'')"

definition sanitizeSignatureHistorySummary :: "js \<Rightarrow> js result" where
  "sanitizeSignatureHistorySummary summary =
     (let f = get summary; newest = f ''newest'' in
      and_then (guard (list_all (\<lambda>k. is_integer (f k) \<and> 0 \<le> num_of (f k))
          [''total'', ''successful'', ''failed'', ''newSinceWindow''])
        ''signature history summary counts are invalid'') (\<lambda>_.
      and_then (guard (num_of (f ''successful'') + num_of (f ''failed'') = num_of (f ''total'')
          \<and> num_of (f ''newSinceWindow'') \<le> num_of (f ''total''))
        ''signature history summary is inconsistent'') (\<lambda>_.
      and_then (guard (newest = JNull \<or> safe_entry newest)
        ''signature history newest entry is invalid'') (\<lambda>_.
      Inr (JObj [(''total'', f ''total''), (''successful'', f ''successful''), (''failed'', f ''failed''),
                 (''newSinceWindow'', f ''newSinceWindow''),
                 (''newest'', if truthy newest then sanitized_entry newest else JNull)])))))"

text \<open>A summary that was made from a history is accepted and copied as it is.\<close>

lemma sanitized_entry_idem: "safe_entry e \<Longrightarrow> safe_entry (sanitized_entry e)
    \<and> sanitized_entry (sanitized_entry e) = sanitized_entry e"
  by (auto simp: safe_entry_def sanitized_entry_def coalesce_def nullish_def)

lemma summary_accepted:
  assumes "summarizeSignatureHistory signatures baseline = Inr summary"
  shows "sanitizeSignatureHistorySummary summary = Inr summary"
proof -
  from assms obtain entries where entries: "signatures = JArr entries" "list_all safe_entry entries"
    and base: "is_integer baseline" "0 \<le> num_of baseline"
    by (auto simp: summarizeSignatureHistory_def list_ex_iff list_all_iff split: js.splits if_splits)
  define sanitized where "sanitized = map sanitized_entry entries"
  define good where "good = length (filter (\<lambda>e. get e ''err'' = JNull) sanitized)"
  define newest where "newest = (case sanitized of [] \<Rightarrow> JNull | e # _ \<Rightarrow> e)"
  define new where "new = max 0 (of_nat (length sanitized) - num_of baseline)"
  have summary: "summary = JObj [(''total'', JNat (length sanitized)), (''successful'', JNat good),
      (''failed'', JNat (length sanitized - good)), (''newSinceWindow'', JNum new), (''newest'', newest)]"
    using assms entries base
    by (simp add: summarizeSignatureHistory_def Let_def sanitized_def good_def new_def newest_def
        list_ex_iff list_all_iff split: if_splits)
  obtain b where b: "baseline = JNat b" using base is_integer_nonneg [OF base(1)] by (auto simp: num_of_case)
  then have "new = of_nat (length sanitized - b)"
    by (simp add: new_def of_nat_diff max_def)
  then have count: "is_integer (JNum new)" "0 \<le> new" "new \<le> of_nat (length sanitized)" by auto
  define bad where "bad = length sanitized - good"
  have "good \<le> length sanitized" by (simp add: good_def)
  then have n: "length sanitized = good + bad" by (simp add: bad_def)
  have "newest = JNull \<or> safe_entry newest \<and> sanitized_entry newest = newest \<and> truthy newest"
    using entries(2) sanitized_entry_idem
    by (cases entries) (auto simp: newest_def sanitized_def sanitized_entry_def)
  moreover have "is_integer (JNum (rat_of_nat good + rat_of_nat bad))"
    using is_integer_of(1) [of "good + bad"] by (simp only: of_nat_add)
  ultimately show ?thesis using count
    by (auto simp: summary bad_def [symmetric] sanitizeSignatureHistorySummary_def Let_def n)
qed

section \<open>Write windows in the state file\<close>

definition buffer_of :: "js \<Rightarrow> js" where
  "buffer_of state = get (get state ''deployment'') ''buffer''"

definition with_buffer :: "js \<Rightarrow> js \<Rightarrow> js" where
  "with_buffer state b = assign state ''deployment'' (assign (get state ''deployment'') ''buffer'' b)"

fun elements :: "js \<Rightarrow> js list" where
  "elements (JArr vs) = vs"
| "elements _ = []"

fun is_array :: "js \<Rightarrow> bool" where
  "is_array (JArr vs) = True"
| "is_array _ = False"

definition attempts :: "js \<Rightarrow> js list" where
  "attempts b = elements (get b ''writeAttempts'')"

definition write_limit_ok :: "js \<Rightarrow> bool" where
  "write_limit_ok v \<longleftrightarrow> is_integer v \<and> 1 \<le> num_of v \<and> num_of v \<le> of_nat MAX_WRITE_ATTEMPTS"

definition writeAttemptLimit :: "js \<Rightarrow> nat result" where
  "writeAttemptLimit b =
     (let limit = coalesce (get (get b ''activeWindow'') ''maxAttempts'') (JNat MAX_WRITE_ATTEMPTS) in
      if write_limit_ok limit then Inr (nat \<lfloor>num_of limit\<rfloor>)
      else throw ''write attempt limit must be between one and three'')"

text \<open>Several assignments in a row.\<close>

definition assign_all :: "js \<Rightarrow> (string \<times> js) list \<Rightarrow> js" where
  "assign_all v kvs = foldl (\<lambda>w (k, x). assign w k x) v kvs"

definition attempt_entry :: "js \<Rightarrow> nat \<Rightarrow> (string \<times> js) list \<Rightarrow> js" where
  "attempt_entry attempt number history =
     JObj ([(''number'', JNat number), (''startedAt'', coalesce (get attempt ''startedAt'') JNull),
            (''completedAt'', coalesce (get attempt ''completedAt'') JNull),
            (''outcome'', get attempt ''outcome''),
            (''signature'', coalesce (get attempt ''signature'') JNull)] @ history)"

definition history_field :: "js \<Rightarrow> (string \<times> js) list result" where
  "history_field attempt =
     (if truthy (get attempt ''signatureHistoryAfter'')
      then and_then (sanitizeSignatureHistorySummary (get attempt ''signatureHistoryAfter''))
             (\<lambda>h. Inr [(''signatureHistoryAfter'', h)])
      else Inr [])"

text \<open>\<open>number >= maxAttempts\<close> of a window, whose limit may be absent or \<open>null\<close>.\<close>

definition reaches :: "nat \<Rightarrow> js \<Rightarrow> bool" where
  "reaches n v = (case v of JNum r \<Rightarrow> r \<le> of_nat n | JNull \<Rightarrow> True | _ \<Rightarrow> False)"

definition updated_window :: "js \<Rightarrow> nat \<Rightarrow> js \<Rightarrow> js" where
  "updated_window window number status =
     assign_all window
       [(''attemptsUsed'', JNat number),
        (''status'', JStr (if status = JStr ''BUFFER_COMPLETE'' then ''COMPLETE''
                           else if reaches number (get window ''maxAttempts'') then ''EXHAUSTED''
                           else ''OPEN''))]"

definition comparison_of :: "js \<Rightarrow> js" where
  "comparison_of observed =
     (if truthy observed
      then JObj [(''matchingBytes'', get observed ''matchingBytes''),
                 (''totalBytes'', get observed ''totalBytes''),
                 (''exactBinaryMatch'', JBool (get observed ''status'' = JStr ''BUFFER_COMPLETE'')),
                 (''progressReliability'', JStr ''NOT_AN_UPLOAD_OFFSET'')]
      else JNull)"

definition progress_of :: "js \<Rightarrow> js" where
  "progress_of observed =
     (if get observed ''status'' = JStr ''BUFFER_COMPLETE''
      then JObj [(''matchingBytes'', get observed ''totalBytes''),
                 (''totalBytes'', get observed ''totalBytes'')]
      else JNull)"

definition recorded_fields :: "js \<Rightarrow> nat \<Rightarrow> js \<Rightarrow> (string \<times> js) list \<Rightarrow> (string \<times> js) list" where
  "recorded_fields b limit attempt history =
     (let number = Suc (length (attempts b));
          observed = coalesce (get attempt ''observed'') JNull;
          status = coalesce (get observed ''status'') (JStr ''UNCERTAIN'') in
      [(''writeAttempts'', JArr (attempts b @ [attempt_entry attempt number history])),
       (''lastObservedComparison'', comparison_of observed),
       (''lastConfirmedProgress'', progress_of observed),
       (''status'', status),
       (''lastRpcError'', if get attempt ''outcome'' = JStr ''SUCCESS'' then JNull else get attempt ''outcome''),
       (''retryEligible'', JBool (status = JStr ''BUFFER_WRITING'' \<and> number < limit))]
      @ (if truthy (get b ''activeWindow'')
         then [(''activeWindow'', updated_window (get b ''activeWindow'') number status)] else []))"

definition recordWriteAttempt :: "js \<Rightarrow> js \<Rightarrow> js result" where
  "recordWriteAttempt state attempt =
     (let b = buffer_of state; window = get b ''activeWindow'' in
      if \<not> truthy b \<or> \<not> is_array (get b ''writeAttempts'')
      then throw ''deployment buffer state is required''
      else if truthy window \<and> get window ''status'' \<noteq> JStr ''OPEN''
      then throw ''active write window is not open''
      else and_then (writeAttemptLimit b) (\<lambda>limit.
        if limit \<le> length (attempts b) then throw ''live write attempt limit is already reached''
        else and_then (history_field attempt) (\<lambda>history.
        Inr (with_buffer state (assign_all b (recorded_fields b limit attempt history))))))"

definition new_window :: "js \<Rightarrow> js \<Rightarrow> js" where
  "new_window input maxAttempts =
     JObj [(''id'', get input ''id''), (''openedAt'', get input ''openedAt''), (''maxAttempts'', maxAttempts),
           (''attemptsUsed'', JNat 0), (''status'', JStr ''OPEN''),
           (''baselineSignatureCount'', coalesce (get input ''baselineSignatureCount'') JNull),
           (''baselineNewestSignature'', coalesce (get input ''baselineNewestSignature'') JNull)]"

definition archived_windows :: "js \<Rightarrow> js \<Rightarrow> js \<Rightarrow> js list" where
  "archived_windows b input verdict =
     elements (get b ''writeWindows'') @
     (if attempts b = [] then []
      else [JObj [(''id'', coalesce (get input ''previousWindowId'') (JStr ''previous'')),
                  (''status'', coalesce verdict (JStr ''UNKNOWN'')),
                  (''attempts'', JArr (attempts b))]])"

definition openWriteWindow :: "js \<Rightarrow> js \<Rightarrow> js result" where
  "openWriteWindow state input =
     (let deployment = get state ''deployment''; b = buffer_of state in
      if \<not> truthy b \<or> \<not> strict_equal (get b ''publicKey'') (get input ''expectedBufferPublicKey'')
      then throw ''buffer identity mismatch while opening write window''
      else if get b ''status'' \<noteq> JStr ''BUFFER_WRITING''
      then throw (''cannot open write window from '' @ shown (get b ''status''))
      else if get (get b ''activeWindow'') ''status'' = JStr ''OPEN''
      then throw ''a write window is already open''
      else if \<not> truthy (get input ''id'') \<or> \<not> truthy (get input ''openedAt'')
      then throw ''write window id and openedAt are required''
      else
        let maxAttempts = coalesce (get input ''maxAttempts'') (JNat MAX_WRITE_ATTEMPTS) in
        if \<not> write_limit_ok maxAttempts then throw ''write attempt limit must be between one and three''
        else Inr (assign state ''deployment''
          (assign_all deployment
            [(''buffer'', assign_all b
               [(''writeWindows'', JArr (archived_windows b input (get deployment ''verdict''))),
                (''writeAttempts'', JArr []),
                (''retryEligible'', JBool True),
                (''lastRpcError'', JNull),
                (''activeWindow'', new_window input maxAttempts)]),
             (''verdict'', JStr ''IN_PROGRESS'')])))"

section \<open>One write attempt\<close>

record 's write_io =
  wi_runner :: "'s runner"
  wi_account :: "(loader_account option, 's) effect"
  wi_sleep :: "'s \<Rightarrow> 's"
  wi_now :: "'s \<Rightarrow> js \<times> 's"

record query_end =
  qe_account :: "loader_account option"
  qe_queries :: nat
  qe_failed :: bool

text \<open>The queries of the buffer: up to \<open>queryAttempts\<close>, until an account is found.\<close>

fun query_loop :: "'s write_io \<Rightarrow> nat \<Rightarrow> nat \<Rightarrow> bool \<Rightarrow> 's \<Rightarrow> query_end \<times> 's" where
  "query_loop io 0 queries failed s =
     (\<lparr> qe_account = None, qe_queries = queries, qe_failed = failed \<rparr>, s)"
| "query_loop io (Suc left) queries failed s =
     (case wi_account io s of
        (Inr (Some a), s') \<Rightarrow> (\<lparr> qe_account = Some a, qe_queries = Suc queries, qe_failed = failed \<rparr>, s')
      | (r, s') \<Rightarrow>
          query_loop io left (Suc queries) (failed \<or> (case r of Inl e \<Rightarrow> True | Inr _ \<Rightarrow> False))
            (if left = 0 then s' else wi_sleep io s'))"

definition index_after :: "js \<Rightarrow> js list \<Rightarrow> nat list" where
  "index_after v vs = map fst (filter (\<lambda>(i, w). w = v) (index_from 0 vs))"

definition nth_or_undefined :: "js list \<Rightarrow> nat \<Rightarrow> js" where
  "nth_or_undefined vs i = (if i < length vs then vs ! i else Undefined)"

definition observed_js :: "inspected_buffer \<Rightarrow> js" where
  "observed_js ib = JObj
     [(''publicKey'', ib_publicKey ib), (''owner'', JStr (ib_owner ib)), (''authority'', JStr (ib_authority ib)),
      (''dataLength'', JNat (ib_dataLength ib)), (''matchingBytes'', JNat (ib_matchingBytes ib)),
      (''totalBytes'', JNat (ib_totalBytes ib)), (''exactBinaryMatch'', JBool (ib_exactBinaryMatch ib)),
      (''status'', JStr (ib_status ib))]"

definition write_command_ok :: "js list \<Rightarrow> js \<Rightarrow> unit result" where
  "write_command_ok argv bufferArgument =
     (case index_after (JStr ''--buffer'') argv of
        [i] \<Rightarrow> guard (truthy bufferArgument \<and> nth_or_undefined argv (Suc i) = bufferArgument)
                 ''write command does not use the recorded buffer argument''
      | _ \<Rightarrow> throw ''write command must contain exactly one --buffer'')"

record write_report =
  wr_state :: js
  wr_ok :: bool
  wr_status :: js
  wr_observed :: "inspected_buffer option"
  wr_queries :: nat

text \<open>From the end of the queries on.\<close>

definition finish_write ::
    "(bytes \<Rightarrow> string) \<Rightarrow> js \<Rightarrow> bytes \<Rightarrow> 's write_io \<Rightarrow> js \<Rightarrow> command_result \<Rightarrow> query_end
     \<Rightarrow> (write_report, 's) effect" where
  "finish_write base58 state local io startedAt command q s =
     (let b = buffer_of state;
          classification = (if cr_ok command then ''SUCCESS''
            else fst (classifyCliError (cr_stderr command @ [CHR 0x0A] @ cr_stdout command))) in
      case inspectUpgradeableBuffer base58 (qe_account q)
          \<lparr> be_publicKey = get b ''publicKey'', be_owner = get b ''expectedOwner'',
            be_authority = get b ''expectedAuthority'', be_allocatedLength = get b ''allocatedLength'',
            be_localBytes = local \<rparr> of
        Inl e \<Rightarrow> (Inl e, s)
      | Inr observed \<Rightarrow>
          let (completedAt, s') = wi_now io s in
          (and_then (recordWriteAttempt state (JObj
              [(''startedAt'', startedAt), (''completedAt'', completedAt),
               (''outcome'', JStr (if qe_failed q \<and> observed = None then ''RPC_QUERY_FAILURE''
                                   else classification)),
               (''observed'', case observed of None \<Rightarrow> JNull | Some ib \<Rightarrow> observed_js ib)]))
             (\<lambda>state2. Inr \<lparr> wr_state = state2, wr_ok = cr_ok command, wr_status = cr_status command,
                wr_observed = observed, wr_queries = qe_queries q \<rparr>), s'))"

definition executeWriteAttempt ::
    "(bytes \<Rightarrow> string) \<Rightarrow> js \<Rightarrow> js list \<Rightarrow> js \<Rightarrow> bytes \<Rightarrow> nat \<Rightarrow> 's write_io \<Rightarrow> (write_report, 's) effect" where
  "executeWriteAttempt base58 state argv bufferArgument local queryAttempts io s =
     (let b = buffer_of state in
      if \<not> truthy b then (throw ''deployment buffer state is required'', s)
      else if nullish (get b ''writeAttempts'') then (Inl TypeError, s)
      else case writeAttemptLimit b of Inl e \<Rightarrow> (Inl e, s)
      | Inr limit \<Rightarrow>
        if limit \<le> length (attempts b) then (throw ''live write attempt limit is already reached'', s)
        else case write_command_ok argv bufferArgument of Inl e \<Rightarrow> (Inl e, s)
        | Inr _ \<Rightarrow>
          let (startedAt, s1) = wi_now io s in
          then_do (runCapturedCommand (wi_runner io) argv) (\<lambda>command s2.
            let (q, s3) = query_loop io queryAttempts 0 False s2 in
            finish_write base58 state local io startedAt command q s3) s1)"

section \<open>No attempt is lost, no window is overdrawn\<close>

lemma get_assign_all:
  "get (assign_all (JObj kvs) ws) k = (case map_of (rev ws) k of Some x \<Rightarrow> x | None \<Rightarrow> get (JObj kvs) k)"
proof (induction ws rule: rev_induct)
  case Nil
  then show ?case by (simp add: assign_all_def)
next
  case (snoc w ws)
  obtain kx x where w: "w = (kx, x)" by fastforce
  have obj: "\<exists>kvs'. foldl (\<lambda>w (k, x). assign w k x) (JObj kvs) ws = JObj kvs'" for ws
    by (induction ws rule: rev_induct) (auto simp: assign_def split: js.splits)
  from obj [of ws] obtain kvs' where kvs': "assign_all (JObj kvs) ws = JObj kvs'"
    by (auto simp: assign_all_def)
  have "assign_all (JObj kvs) (ws @ [w]) = assign (JObj kvs') kx x"
    using kvs' by (simp add: assign_all_def w)
  then show ?case using snoc kvs' get_assign [of kvs' kx x k] by (simp add: w)
qed

lemma get_object: "get v k \<noteq> Undefined \<Longrightarrow> \<exists>kvs. v = JObj kvs"
  by (cases v) auto

lemma buffer_with_buffer:
  assumes "buffer_of state = JObj kvs"
  shows "buffer_of (with_buffer state b) = b"
proof -
  from assms have "get (get state ''deployment'') ''buffer'' \<noteq> Undefined" by (simp add: buffer_of_def)
  then obtain dkvs where d: "get state ''deployment'' = JObj dkvs" using get_object by blast
  then obtain skvs where "state = JObj skvs" using get_object [of state "''deployment''"] by auto
  with d show ?thesis by (simp add: buffer_of_def with_buffer_def del: get.simps)
qed

definition window_attempts :: "js \<Rightarrow> js list" where
  "window_attempts w = elements (get w ''attempts'')"

text \<open>Every attempt the state file records, of the archived windows and of the active one.\<close>

definition all_attempts :: "js \<Rightarrow> js list" where
  "all_attempts b = concat (map window_attempts (elements (get b ''writeWindows''))) @ attempts b"

definition window_inv :: "js \<Rightarrow> bool" where
  "window_inv b \<longleftrightarrow> (\<exists>m w. get b ''activeWindow'' = JObj w \<and> get (JObj w) ''maxAttempts'' = JNat m
     \<and> 1 \<le> m \<and> m \<le> MAX_WRITE_ATTEMPTS
     \<and> get (JObj w) ''attemptsUsed'' = JNat (length (attempts b)) \<and> length (attempts b) \<le> m
     \<and> get (JObj w) ''status'' = JStr (if get b ''status'' = JStr ''BUFFER_COMPLETE'' then ''COMPLETE''
          else if m \<le> length (attempts b) then ''EXHAUSTED'' else ''OPEN''))"

lemma assign_all_object: "\<exists>kvs'. assign_all (JObj kvs) ws = JObj kvs'"
  unfolding assign_all_def
  by (induction ws rule: rev_induct) (auto simp: assign_def split: js.splits)

lemma recordWriteAttempt_ok:
  assumes "recordWriteAttempt state attempt = Inr state'" and "b = buffer_of state"
    and "b' = buffer_of state'"
  obtains limit entry where "writeAttemptLimit b = Inr limit" "length (attempts b) < limit"
    "attempts b' = attempts b @ [entry]" "get entry ''number'' = JNat (Suc (length (attempts b)))"
    "get entry ''outcome'' = get attempt ''outcome''"
    "get b' ''writeWindows'' = get b ''writeWindows''" "get b' ''publicKey'' = get b ''publicKey''"
    "get b' ''status'' = coalesce (get (coalesce (get attempt ''observed'') JNull) ''status'') (JStr ''UNCERTAIN'')"
    "get b' ''retryEligible'' = JBool (get b' ''status'' = JStr ''BUFFER_WRITING'' \<and> Suc (length (attempts b)) < limit)"
    "truthy (get b ''activeWindow'') \<Longrightarrow> get (get b ''activeWindow'') ''status'' = JStr ''OPEN''
        \<and> get b' ''activeWindow'' = updated_window (get b ''activeWindow'') (Suc (length (attempts b))) (get b' ''status'')"
proof -
  from assms(1) obtain limit history where limit: "writeAttemptLimit b = Inr limit"
    and arr: "is_array (get b ''writeAttempts'')" and less: "length (attempts b) < limit"
    and window: "truthy (get b ''activeWindow'') \<Longrightarrow> get (get b ''activeWindow'') ''status'' = JStr ''OPEN''"
    and state': "state' = with_buffer state (assign_all b (recorded_fields b limit attempt history))"
    unfolding assms(2)
    by (auto simp: recordWriteAttempt_def Let_def and_then_eq_Inr split: if_splits)
  from arr obtain kvs where b: "b = JObj kvs" using get_object [of b "''writeAttempts''"] by fastforce
  have b': "b' = assign_all (JObj kvs) (recorded_fields b limit attempt history)"
    unfolding assms(3) state' b [symmetric] by (rule buffer_with_buffer) (use b assms(2) in auto)
  have fields: "get b' k = (case map_of (rev (recorded_fields b limit attempt history)) k of
      Some x \<Rightarrow> x | None \<Rightarrow> get b k)" for k
    unfolding b' get_assign_all b ..
  show thesis
    by (rule that [OF limit less, of "attempt_entry attempt (Suc (length (attempts b))) history"])
      (use window in \<open>auto simp: attempts_def [of b'] fields recorded_fields_def Let_def attempt_entry_def\<close>)
qed

lemma write_limit_nat: "write_limit_ok v \<Longrightarrow> \<exists>m. v = JNat m \<and> 1 \<le> m \<and> m \<le> MAX_WRITE_ATTEMPTS"
proof -
  assume ok: "write_limit_ok v"
  then have "is_integer v" "0 \<le> (case v of JNum r \<Rightarrow> r | _ \<Rightarrow> 0)"
    by (auto simp: write_limit_ok_def num_of_case)
  then obtain m where "v = JNat m" by (rule is_integer_nonneg)
  with ok show ?thesis by (auto simp: write_limit_ok_def)
qed

lemma openWriteWindow_ok:
  assumes "openWriteWindow state input = Inr state'" and "b = buffer_of state" and "b' = buffer_of state'"
  shows "window_inv b' \<and> attempts b' = [] \<and> all_attempts b' = all_attempts b
    \<and> get b ''status'' = JStr ''BUFFER_WRITING'' \<and> get b' ''publicKey'' = get b ''publicKey''
    \<and> get (get b ''activeWindow'') ''status'' \<noteq> JStr ''OPEN''"
proof -
  let ?d = "get state ''deployment''"
  let ?max = "coalesce (get input ''maxAttempts'') (JNat MAX_WRITE_ATTEMPTS)"
  define ws where "ws = [(''writeWindows'', JArr (archived_windows b input (get ?d ''verdict''))),
      (''writeAttempts'', JArr []), (''retryEligible'', JBool True), (''lastRpcError'', JNull),
      (''activeWindow'', new_window input ?max)]"
  from assms(1) have status: "get b ''status'' = JStr ''BUFFER_WRITING''"
    and max: "write_limit_ok ?max" and closed: "get (get b ''activeWindow'') ''status'' \<noteq> JStr ''OPEN''"
    and state': "state' = assign state ''deployment'' (assign_all ?d
        [(''buffer'', assign_all b ws), (''verdict'', JStr ''IN_PROGRESS'')])"
    unfolding assms(2) ws_def by (auto simp: openWriteWindow_def Let_def split: if_splits)
  from status obtain kvs where b: "b = JObj kvs" using get_object [of b "''status''"] by auto
  have "get ?d ''buffer'' = JObj kvs" unfolding assms(2) [unfolded buffer_of_def, symmetric] by (rule b)
  then have "get ?d ''buffer'' \<noteq> Undefined" by simp
  then obtain dkvs where d: "?d = JObj dkvs" using get_object by blast
  then obtain skvs where s: "state = JObj skvs" using get_object [of state "''deployment''"] by auto
  have "get state' ''deployment'' = assign_all ?d [(''buffer'', assign_all b ws), (''verdict'', JStr ''IN_PROGRESS'')]"
    unfolding state' s by (simp only: get_assign if_True simp_thms)
  then have b': "b' = assign_all b ws"
    unfolding assms(3) buffer_of_def by (simp add: d get_assign_all del: get.simps)
  have fields: "get b' k = (case map_of (rev ws) k of Some x \<Rightarrow> x | None \<Rightarrow> get b k)" for k
    unfolding b' b by (rule get_assign_all)
  obtain m where m: "?max = JNat m" "1 \<le> m" "m \<le> MAX_WRITE_ATTEMPTS" using write_limit_nat [OF max] by blast
  have "attempts b' = []" by (simp add: attempts_def fields ws_def)
  moreover have "all_attempts b' = all_attempts b"
    by (simp add: all_attempts_def [of b'] \<open>attempts b' = []\<close> fields ws_def archived_windows_def
        window_attempts_def) (simp add: all_attempts_def window_attempts_def)
  moreover have "window_inv b'"
    unfolding window_inv_def
    using m status \<open>attempts b' = []\<close> by (auto simp: fields ws_def new_window_def)
  ultimately show ?thesis using status closed by (simp add: fields ws_def)
qed

lemma window_limit:
  "window_inv b \<Longrightarrow> \<exists>m. writeAttemptLimit b = Inr m \<and> get (get b ''activeWindow'') ''maxAttempts'' = JNat m"
  by (auto simp: window_inv_def writeAttemptLimit_def Let_def coalesce_def nullish_def write_limit_ok_def)

lemma record_keeps_window:
  assumes "recordWriteAttempt state attempt = Inr state'" and "window_inv (buffer_of state)"
  shows "window_inv (buffer_of state')"
proof -
  let ?b = "buffer_of state" and ?b' = "buffer_of state'"
  let ?n = "Suc (length (attempts ?b))"
  from assms(2) obtain m w where w: "get ?b ''activeWindow'' = JObj w" "get (JObj w) ''maxAttempts'' = JNat m"
      "1 \<le> m" "m \<le> MAX_WRITE_ATTEMPTS"
    by (auto simp: window_inv_def)
  then have limit: "writeAttemptLimit ?b = Inr m"
    by (simp add: writeAttemptLimit_def Let_def coalesce_def nullish_def write_limit_ok_def)
  from assms(1) refl refl show ?thesis
  proof (rule recordWriteAttempt_ok)
    fix limit' entry
    assume "writeAttemptLimit ?b = Inr limit'" "length (attempts ?b) < limit'"
      "attempts ?b' = attempts ?b @ [entry]"
      and window: "truthy (get ?b ''activeWindow'') \<Longrightarrow> get (get ?b ''activeWindow'') ''status'' = JStr ''OPEN''
        \<and> get ?b' ''activeWindow'' = updated_window (get ?b ''activeWindow'') ?n (get ?b' ''status'')"
    with limit have less: "length (attempts ?b) < m" and n: "length (attempts ?b') = ?n" by auto
    from window w have "get ?b' ''activeWindow'' = updated_window (JObj w) ?n (get ?b' ''status'')" by simp
    moreover obtain w' where w': "updated_window (JObj w) ?n (get ?b' ''status'') = JObj w'"
      unfolding updated_window_def using assign_all_object by metis
    moreover have "get (JObj w') ''maxAttempts'' = JNat m" "get (JObj w') ''attemptsUsed'' = JNat ?n"
      "get (JObj w') ''status'' = JStr (if get ?b' ''status'' = JStr ''BUFFER_COMPLETE'' then ''COMPLETE''
          else if m \<le> ?n then ''EXHAUSTED'' else ''OPEN'')"
      unfolding w' [symmetric] updated_window_def get_assign_all using w(2) by (simp_all add: reaches_def)
    ultimately show "window_inv ?b'"
      unfolding window_inv_def n using less w(3,4)
      by (intro exI [of _ m] exI [of _ w']) (simp del: get.simps)
  qed
qed

lemma record_all_attempts:
  assumes "recordWriteAttempt state attempt = Inr state'"
  shows "\<exists>entry. all_attempts (buffer_of state') = all_attempts (buffer_of state) @ [entry]"
  using assms refl refl
  by (rule recordWriteAttempt_ok) (auto simp: all_attempts_def)

text \<open>The life of the state file: windows are opened, attempts recorded.\<close>

inductive window_step :: "js \<Rightarrow> js \<Rightarrow> bool" where
  opened: "openWriteWindow state input = Inr state' \<Longrightarrow> window_step state state'"
| recorded: "recordWriteAttempt state attempt = Inr state' \<Longrightarrow> window_step state state'"

lemma window_step_inv: "window_step s s' \<Longrightarrow> window_inv (buffer_of s) \<Longrightarrow> window_inv (buffer_of s')"
  by (induction rule: window_step.induct)
    (auto dest: openWriteWindow_ok [OF _ refl refl] record_keeps_window)

interpretation window: step_invariant window_step "\<lambda>s. window_inv (buffer_of s)"
  by unfold_locales (rule window_step_inv)

lemma window_run_attempts:
  "window_step\<^sup>*\<^sup>* s t \<Longrightarrow> \<exists>more. all_attempts (buffer_of t) = all_attempts (buffer_of s) @ more"
proof (induction rule: rtranclp_induct)
  case (step t u)
  from step.hyps(2) have "\<exists>more. all_attempts (buffer_of u) = all_attempts (buffer_of t) @ more"
    by (cases rule: window_step.cases)
      (use record_all_attempts openWriteWindow_ok [OF _ refl refl] in \<open>fastforce+\<close>)
  with step.IH show ?case by auto
qed simp

section \<open>The command of an attempt\<close>

text \<open>Nothing runs unless an attempt is left and the command line names the recorded buffer.\<close>

lemma executeWriteAttempt_guarded:
  assumes "executeWriteAttempt base58 state argv bufferArgument local n io s = (r, s')" and "s' \<noteq> s"
  shows "\<exists>limit. writeAttemptLimit (buffer_of state) = Inr limit
    \<and> length (attempts (buffer_of state)) < limit \<and> write_command_ok argv bufferArgument = Inr ()"
  using assms
  by (auto simp: executeWriteAttempt_def Let_def split: if_splits sum.splits)

lemma inspected_status:
  "inspectUpgradeableBuffer base58 account expected = Inr (Some ib) \<Longrightarrow>
   ib_status ib = (if ib_exactBinaryMatch ib then ''BUFFER_COMPLETE'' else ''BUFFER_WRITING'')"
  by (auto simp: inspectUpgradeableBuffer_def Let_def split: option.splits if_splits)

lemma finish_write_ok:
  assumes "finish_write base58 state local io startedAt command q s = (Inr r, s')"
  shows "\<exists>attempt. recordWriteAttempt state attempt = Inr (wr_state r)
    \<and> (get (buffer_of (wr_state r)) ''status'' = JStr ''BUFFER_COMPLETE'' \<longrightarrow>
        (\<exists>ib. wr_observed r = Some ib \<and> ib_exactBinaryMatch ib))"
proof -
  from assms obtain observed completedAt outcome where
    observed: "inspectUpgradeableBuffer base58 (qe_account q)
        \<lparr> be_publicKey = get (buffer_of state) ''publicKey'', be_owner = get (buffer_of state) ''expectedOwner'',
          be_authority = get (buffer_of state) ''expectedAuthority'',
          be_allocatedLength = get (buffer_of state) ''allocatedLength'', be_localBytes = local \<rparr> = Inr observed"
      "wr_observed r = observed"
    and recorded: "recordWriteAttempt state (JObj [(''startedAt'', startedAt), (''completedAt'', completedAt),
        (''outcome'', JStr outcome),
        (''observed'', case observed of None \<Rightarrow> JNull | Some ib \<Rightarrow> observed_js ib)]) = Inr (wr_state r)"
    by (auto simp: finish_write_def Let_def and_then_eq_Inr split: sum.splits prod.splits)
  define attempt where "attempt = JObj [(''startedAt'', startedAt), (''completedAt'', completedAt),
      (''outcome'', JStr outcome), (''observed'', case observed of None \<Rightarrow> JNull | Some ib \<Rightarrow> observed_js ib)]"
  have attempt: "recordWriteAttempt state attempt = Inr (wr_state r)"
    "get attempt ''observed'' = (case wr_observed r of None \<Rightarrow> JNull | Some ib \<Rightarrow> observed_js ib)"
    using recorded observed(2) by (simp_all add: attempt_def)
  have exact: "ib_status ib = (if ib_exactBinaryMatch ib then ''BUFFER_COMPLETE'' else ''BUFFER_WRITING'')"
    if "wr_observed r = Some ib" for ib
    by (rule inspected_status [OF observed(1) [folded observed(2), unfolded that]])
  from attempt(1) refl refl have "get (buffer_of (wr_state r)) ''status''
      = coalesce (get (coalesce (get attempt ''observed'') JNull) ''status'') (JStr ''UNCERTAIN'')"
    by (rule recordWriteAttempt_ok)
  with attempt exact show ?thesis
    by (cases "wr_observed r") (auto simp: coalesce_def nullish_def observed_js_def split: if_splits)
qed

lemma executeWriteAttempt_ok:
  assumes "executeWriteAttempt base58 state argv bufferArgument local n io s = (Inr r, s')"
  shows "\<exists>attempt. recordWriteAttempt state attempt = Inr (wr_state r)
    \<and> (get (buffer_of (wr_state r)) ''status'' = JStr ''BUFFER_COMPLETE'' \<longrightarrow>
        (\<exists>ib. wr_observed r = Some ib \<and> ib_exactBinaryMatch ib))"
proof -
  from assms obtain startedAt command q s3 where
    "finish_write base58 state local io startedAt command q s3 = (Inr r, s')"
    by (auto simp: executeWriteAttempt_def Let_def then_do_eq_Inr split: if_splits sum.splits prod.splits)
      (metis surj_pair)
  then show ?thesis by (rule finish_write_ok)
qed

text \<open>The check of the state of the window comes too late: with a window that is closed after fewer
  attempts than its limit, the command runs, and then recording it throws.\<close>

lemma closed_window_runs:
  assumes "truthy (get (buffer_of state) ''activeWindow'')"
    and "get (get (buffer_of state) ''activeWindow'') ''status'' \<noteq> JStr ''OPEN''"
  shows "fst (executeWriteAttempt base58 state argv bufferArgument local n io s) \<noteq> Inr r"
proof
  assume "fst (executeWriteAttempt base58 state argv bufferArgument local n io s) = Inr r"
  then obtain s' where "executeWriteAttempt base58 state argv bufferArgument local n io s = (Inr r, s')"
    by (metis prod.collapse)
  from executeWriteAttempt_ok [OF this] obtain attempt where
    "recordWriteAttempt state attempt = Inr (wr_state r)" by blast
  with assms show False by (simp add: recordWriteAttempt_def Let_def split: if_splits)
qed

end
