(* ===== verification/Plan_Command.thy ===== *)
theory Plan_Command imports Live_Deployment Upload_Plan begin

text \<open>
  \<open>scripts/devnet/plan-upload-command.mjs\<close>: the read-only command that inspects the buffer and
  says what an upload would cost.

  The connection is a record of calls with effects on an arbitrary state; the adapter around it
  pairs that state with the audit of the methods called.  URL parsing, base58, the packet size
  of a transaction and SHA-256 are parameters.  Sums of lamports are exact.
\<close>

section \<open>Identities\<close>

definition PLAN_UPLOAD_IDENTITIES :: "string \<Rightarrow> string" where
  "PLAN_UPLOAD_IDENTITIES k =
     (if k = ''program'' then ''6UoYT4jtiS23rCU1zARqnn181BxwuJ9waS1sv35gRg1Z''
      else if k = ''buffer'' then ''CT1DGjkt9t926L6SoFxiYJmzc18nMowpdw1WcZgWwbbW''
      else if k = ''authority'' then ''Avfvs1k6ttrBtqh83tFw5g3dhWncrjP5hj4D52kGNZGk''
      else ''BPFLoaderUpgradeab1e11111111111111111111111'')"

section \<open>The read-only adapter\<close>

record 's read_rpc =
  rpc_endpoint :: js
  getGenesisHash :: "(js, 's) effect"
  getAccountInfo :: "string \<Rightarrow> (loader_account option, 's) effect"
  getBalance :: "string \<Rightarrow> (js, 's) effect"
  getMinimumBalanceForRentExemption :: "nat \<Rightarrow> (js, 's) effect"
  getSignaturesForAddress :: "string \<Rightarrow> (nat, 's) effect"

definition READ_METHODS :: "string list" where
  "READ_METHODS = [''getGenesisHash'', ''getAccountInfo'', ''getBalance'',
     ''getMinimumBalanceForRentExemption'', ''getSignaturesForAddress'']"

definition audited :: "string \<Rightarrow> ('a, 's) effect \<Rightarrow> ('a, string list \<times> 's) effect" where
  "audited method call s = (case s of (audit, t) \<Rightarrow>
     (case call t of (r, t') \<Rightarrow> (r, (audit @ [method], t'))))"

definition createReadOnlyRpcAdapter :: "'s read_rpc \<Rightarrow> (string list \<times> 's) read_rpc" where
  "createReadOnlyRpcAdapter connection =
     \<lparr> rpc_endpoint = rpc_endpoint connection,
       getGenesisHash = audited ''getGenesisHash'' (getGenesisHash connection),
       getAccountInfo = (\<lambda>k. audited ''getAccountInfo'' (getAccountInfo connection k)),
       getBalance = (\<lambda>k. audited ''getBalance'' (getBalance connection k)),
       getMinimumBalanceForRentExemption =
         (\<lambda>n. audited ''getMinimumBalanceForRentExemption'' (getMinimumBalanceForRentExemption connection n)),
       getSignaturesForAddress =
         (\<lambda>k. audited ''getSignaturesForAddress'' (getSignaturesForAddress connection k)) \<rparr>"

section \<open>Funding\<close>

definition CONSERVATIVE_FEE_PER_TRANSACTION_LAMPORTS :: rat where
  "CONSERVATIVE_FEE_PER_TRANSACTION_LAMPORTS = 10000"

definition OPERATIONAL_RESERVE_LAMPORTS :: rat where
  "OPERATIONAL_RESERVE_LAMPORTS = 250000000"

record funding =
  fu_remainingChunkFees :: rat
  fu_finalizeDeployFee :: rat
  fu_totalNetworkFees :: rat
  fu_balance :: rat
  fu_programAccountRent :: rat
  fu_programDataRent :: rat
  fu_operationalReserve :: rat
  fu_required :: rat
  fu_headroom :: rat
  fu_status :: string

definition lamports_ok :: "js \<Rightarrow> bool" where
  "lamports_ok v \<longleftrightarrow> is_safe_integer v \<and> 0 \<le> num_of v"

definition calculateFunding :: "js \<Rightarrow> js \<Rightarrow> js \<Rightarrow> js \<Rightarrow> funding result" where
  "calculateFunding balanceLamports programAccountRent programDataRent remaining =
     and_then (for_each (\<lambda>(label, v). guard (lamports_ok v) (label @ '' must be a nonnegative safe integer''))
       [(''balanceLamports'', balanceLamports), (''programAccountRentLamports'', programAccountRent),
        (''programDataRentLamports'', programDataRent), (''remainingChunks'', remaining)]) (\<lambda>_.
     let chunkFees = num_of remaining * CONSERVATIVE_FEE_PER_TRANSACTION_LAMPORTS;
         finalizeFee = CONSERVATIVE_FEE_PER_TRANSACTION_LAMPORTS;
         fees = chunkFees + finalizeFee;
         required = num_of programAccountRent + num_of programDataRent + fees + OPERATIONAL_RESERVE_LAMPORTS;
         headroom = num_of balanceLamports - required in
     Inr \<lparr> fu_remainingChunkFees = chunkFees, fu_finalizeDeployFee = finalizeFee, fu_totalNetworkFees = fees,
           fu_balance = num_of balanceLamports, fu_programAccountRent = num_of programAccountRent,
           fu_programDataRent = num_of programDataRent,
           fu_operationalReserve = OPERATIONAL_RESERVE_LAMPORTS, fu_required = required,
           fu_headroom = headroom,
           fu_status = (if headroom < 0 then ''BLOCKED_FUNDING'' else ''SUFFICIENT'') \<rparr>)"

section \<open>The checkpoint\<close>

definition assertCheckpoint :: "(bytes \<Rightarrow> string) \<Rightarrow> js \<Rightarrow> bytes \<Rightarrow> unit result" where
  "assertCheckpoint sha checkpoint local =
     (let f = get checkpoint in
      and_then (guard (f ''rpcUrl'' = JStr DEVNET_RPC_URL) ''RPC checkpoint mismatch'') (\<lambda>_.
      and_then (guard (f ''genesisHash'' = JStr DEVNET_GENESIS_HASH)
        ''devnet genesis hash mismatch in checkpoint'') (\<lambda>_.
      and_then (guard (f ''programId'' = JStr (PLAN_UPLOAD_IDENTITIES ''program'')) ''program ID mismatch'') (\<lambda>_.
      and_then (guard (f ''bufferAddress'' = JStr (PLAN_UPLOAD_IDENTITIES ''buffer''))
        ''buffer address mismatch'') (\<lambda>_.
      and_then (guard (f ''bufferOwner'' = JStr (PLAN_UPLOAD_IDENTITIES ''loader''))
        ''buffer owner mismatch'') (\<lambda>_.
      and_then (guard (f ''authority'' = JStr (PLAN_UPLOAD_IDENTITIES ''authority''))
        ''buffer authority mismatch'') (\<lambda>_.
      and_then (guard (f ''binaryLength'' = JNat (length local)) ''binary length mismatch'') (\<lambda>_.
      and_then (guard (f ''binarySha256'' = JStr (sha local)) ''binary SHA-256 mismatch'') (\<lambda>_.
      guard (f ''bufferAllocation'' = JNat (length local + 37)) ''buffer allocation mismatch'')))))))))"

section \<open>Equal positions\<close>

record equal_ranges =
  er_count :: nat
  er_ranges :: "(nat \<times> nat) list"

text \<open>The loop over the indexes, with the start of the range that is open.\<close>

fun equal_loop :: "bytes \<Rightarrow> bytes \<Rightarrow> nat \<Rightarrow> nat option \<Rightarrow> equal_ranges" where
  "equal_loop [] actual index start =
     \<lparr> er_count = 0, er_ranges = (case start of Some b \<Rightarrow> [(b, index - 1)] | None \<Rightarrow> []) \<rparr>"
| "equal_loop (x # xs) actual index start =
     (if actual \<noteq> [] \<and> hd actual = x
      then let r = equal_loop xs (tl actual) (Suc index) (Some (case start of Some b \<Rightarrow> b | None \<Rightarrow> index)) in
           r\<lparr> er_count := Suc (er_count r) \<rparr>
      else let r = equal_loop xs (tl actual) (Suc index) None in
           (case start of Some b \<Rightarrow> r\<lparr> er_ranges := (b, index - 1) # er_ranges r \<rparr> | None \<Rightarrow> r))"

definition equalPositionRanges :: "bytes \<Rightarrow> bytes \<Rightarrow> equal_ranges" where
  "equalPositionRanges expected actual = equal_loop expected actual 0 None"

section \<open>The command\<close>

record plan_env =
  pe_parse_url :: "js \<Rightarrow> url option"
  pe_valid_key :: "js \<Rightarrow> bool"
  pe_tx :: tx_env
  pe_base58 :: "bytes \<Rightarrow> string"
  pe_sha :: "bytes \<Rightarrow> string"

text \<open>The audit of the calls, which the code adds to the report, is the first component of the
  final state; the fixed texts of the fee estimate are left out.\<close>

record plan_report =
  pl_genesis :: js
  pl_program :: js
  pl_buffer :: js
  pl_authority :: js
  pl_binaryLength :: nat
  pl_binarySha256 :: string
  pl_bufferAllocation :: js
  pl_bufferDataSha256 :: string
  pl_bufferHistoryCount :: nat
  pl_bufferStatus :: string
  pl_packetCeiling :: nat
  pl_payloadSize :: nat
  pl_maximumTransactionSize :: nat
  pl_totalChunks :: nat
  pl_exactChunks :: nat
  pl_remainingChunks :: nat
  pl_equalPositions :: equal_ranges
  pl_funding :: funding
  pl_stateMutation :: bool
  pl_liveUploadEnabled :: bool

text \<open>The four reads that are started together; when some fail, the first of them is reported.\<close>

definition funding_reads ::
    "'s read_rpc \<Rightarrow> string \<Rightarrow> string \<Rightarrow> bytes \<Rightarrow> (js \<times> js \<times> js \<times> nat, 's) effect" where
  "funding_reads rpc authorityKey bufferKey local s =
     (let (b, s1) = getBalance rpc authorityKey s;
          (p, s2) = getMinimumBalanceForRentExemption rpc 36 s1;
          (d, s3) = getMinimumBalanceForRentExemption rpc (45 + length local) s2;
          (h, s4) = getSignaturesForAddress rpc bufferKey s3 in
      (and_then b (\<lambda>balance. and_then p (\<lambda>programRent. and_then d (\<lambda>dataRent. and_then h (\<lambda>history.
         Inr (balance, programRent, dataRent, history))))), s4))"

definition plan_report_of ::
    "plan_env \<Rightarrow> js \<Rightarrow> bytes \<Rightarrow> js \<Rightarrow> loader_account \<Rightarrow> inspected_buffer \<Rightarrow> upload_plan \<Rightarrow> funding \<Rightarrow> nat
     \<Rightarrow> plan_report" where
  "plan_report_of env checkpoint local genesis account observed plan fund history =
     \<lparr> pl_genesis = genesis, pl_program = get checkpoint ''programId'',
       pl_buffer = get checkpoint ''bufferAddress'', pl_authority = get checkpoint ''authority'',
       pl_binaryLength = length local, pl_binarySha256 = pe_sha env local,
       pl_bufferAllocation = get checkpoint ''bufferAllocation'',
       pl_bufferDataSha256 = pe_sha env (la_data account), pl_bufferHistoryCount = history,
       pl_bufferStatus = ib_status observed, pl_packetCeiling = PACKET_DATA_SIZE,
       pl_payloadSize = maxPayload plan,
       pl_maximumTransactionSize = foldl max 0 (map p_txbytes (plan_chunks plan)),
       pl_totalChunks = totalChunks plan, pl_exactChunks = exactChunks plan,
       pl_remainingChunks = remainingChunks plan,
       pl_equalPositions = equalPositionRanges local (drop 37 (la_data account)),
       pl_funding = fund, pl_stateMutation = False, pl_liveUploadEnabled = False \<rparr>"

definition text_of :: "js \<Rightarrow> string" where
  "text_of v = (case v of JStr s \<Rightarrow> s | _ \<Rightarrow> [])"

definition plan_buffer ::
    "plan_env \<Rightarrow> js \<Rightarrow> bytes \<Rightarrow> js option \<Rightarrow> loader_account \<Rightarrow> (inspected_buffer \<times> upload_plan) result" where
  "plan_buffer env checkpoint local payload account =
     and_then (inspectUpgradeableBuffer (pe_base58 env) (Some account)
        \<lparr> be_publicKey = get checkpoint ''bufferAddress'', be_owner = get checkpoint ''bufferOwner'',
          be_authority = get checkpoint ''authority'',
          be_allocatedLength = get checkpoint ''bufferAllocation'', be_localBytes = local \<rparr>) (\<lambda>observed.
     case observed of None \<Rightarrow> Inl TypeError
     | Some ib \<Rightarrow>
       and_then (planBufferUpload (pe_tx env) (pe_sha env) (text_of (get checkpoint ''bufferAddress''))
          (text_of (get checkpoint ''authority'')) local (drop 37 (la_data account)) payload) (\<lambda>plan.
       Inr (ib, plan)))"

definition executePlanUpload ::
    "plan_env \<Rightarrow> js \<Rightarrow> js \<Rightarrow> bytes \<Rightarrow> 's read_rpc \<Rightarrow> js option \<Rightarrow> (plan_report, 's) effect" where
  "executePlanUpload env rpcUrl checkpoint local rpc payload =
     (let program = text_of (get checkpoint ''programId''); buffer = text_of (get checkpoint ''bufferAddress'');
          authority = text_of (get checkpoint ''authority'') in
      then_do (lift_result (assertAllowedRpcUrl (pe_parse_url env) rpcUrl ''devnet'')) (\<lambda>u.
      then_do (lift_result (guard (origin u = DEVNET_RPC_URL \<and> rpc_endpoint rpc = JStr DEVNET_RPC_URL)
        ''an explicit Solana devnet RPC URL is required'')) (\<lambda>_.
      then_do (lift_result (assertCheckpoint (pe_sha env) checkpoint local)) (\<lambda>_.
      then_do (getGenesisHash rpc) (\<lambda>genesis.
      then_do (lift_result (assertDevnetGenesis genesis (get checkpoint ''genesisHash''))) (\<lambda>_.
      then_do (lift_result (for_each (\<lambda>k. and_then (newPublicKey (valid_key (pe_tx env)) k) (\<lambda>_. Inr ()))
        [program, buffer, authority])) (\<lambda>_.
      then_do (getAccountInfo rpc program) (\<lambda>programAccount.
      then_do (lift_result (guard (programAccount = None)
        ''UNEXPECTED_EXISTING_PROGRAM: canonical program must be absent at the plan-upload checkpoint'')) (\<lambda>_.
      then_do (getAccountInfo rpc buffer) (\<lambda>bufferAccount.
      case bufferAccount of None \<Rightarrow> fail ''buffer account is absent''
      | Some account \<Rightarrow>
        then_do (lift_result (plan_buffer env checkpoint local payload account)) (\<lambda>(observed, plan).
        then_do (funding_reads rpc authority buffer local) (\<lambda>(balance, programRent, dataRent, history).
        then_do (lift_result (calculateFunding balance programRent dataRent (JNat (remainingChunks plan)))) (\<lambda>fund.
        give (plan_report_of env checkpoint local genesis account observed plan fund history))))))))))))))"

definition parseArgs :: "plan_env \<Rightarrow> js list \<Rightarrow> js result" where
  "parseArgs env argv =
     (if nth_or_undefined argv 0 \<noteq> JStr ''plan-upload''
      then throw ''LIVE_UPLOAD_HARD_DISABLED: only the read-only plan-upload command is enabled''
      else if length argv \<noteq> 3 \<or> nth_or_undefined argv 1 \<noteq> JStr ''--rpc''
      then throw ''an explicit Solana devnet RPC URL is required''
      else and_then (assertAllowedRpcUrl (pe_parse_url env) (argv ! 2) ''devnet'') (\<lambda>_. Inr (argv ! 2)))"

definition checkpointFromFiles :: "plan_env \<Rightarrow> js \<Rightarrow> js \<Rightarrow> js result" where
  "checkpointFromFiles env configValue stateValue =
     and_then (validatePublicConfig (pe_parse_url env) (pe_valid_key env) configValue) (\<lambda>config.
     let b = buffer_of stateValue; cluster = get config ''cluster''; binary = get b ''localBinary'' in
     if \<not> truthy b \<or> \<not> strict_equal (get (get stateValue ''identities'') ''program'') (get config ''programId'')
     then throw ''public deployment checkpoint is incomplete''
     else Inr (JObj
       [(''rpcUrl'', get cluster ''rpcUrl''), (''genesisHash'', get cluster ''genesisHash''),
        (''programId'', get config ''programId''), (''bufferAddress'', get b ''publicKey''),
        (''bufferOwner'', get b ''expectedOwner''), (''authority'', get b ''expectedAuthority''),
        (''bufferAllocation'', get b ''allocatedLength''), (''binaryLength'', get binary ''length''),
        (''binarySha256'', get binary ''sha256'')]))"

record plan_files =
  pf_config :: "js result"
  pf_state :: "js result"
  pf_binary :: "bytes result"

definition runPlanUploadCommand ::
    "plan_env \<Rightarrow> js list \<Rightarrow> plan_files \<Rightarrow> 's read_rpc \<Rightarrow> (plan_report, string list \<times> 's) effect" where
  "runPlanUploadCommand env argv inputs connection =
     then_do (lift_result (parseArgs env argv)) (\<lambda>rpcUrl.
     then_do (lift_result (pf_config inputs)) (\<lambda>config.
     then_do (lift_result (pf_state inputs)) (\<lambda>state.
     then_do (lift_result (pf_binary inputs)) (\<lambda>local.
     then_do (lift_result (checkpointFromFiles env config state)) (\<lambda>checkpoint.
     executePlanUpload env rpcUrl checkpoint local (createReadOnlyRpcAdapter connection) None)))))"

section \<open>What the report says\<close>

lemma calculateFunding_ok:
  assumes "calculateFunding balance programRent dataRent remaining = Inr f"
  shows "fu_required f = num_of programRent + num_of dataRent
      + 10000 * (num_of remaining + 1) + OPERATIONAL_RESERVE_LAMPORTS
    \<and> fu_headroom f = num_of balance - fu_required f
    \<and> (fu_status f = ''SUFFICIENT'' \<longleftrightarrow> fu_required f \<le> num_of balance)
    \<and> (fu_status f = ''BLOCKED_FUNDING'' \<longleftrightarrow> num_of balance < fu_required f)"
  using assms
  by (auto simp: calculateFunding_def Let_def and_then_eq_Inr CONSERVATIVE_FEE_PER_TRANSACTION_LAMPORTS_def
      algebra_simps split: if_splits)

definition in_ranges :: "(nat \<times> nat) list \<Rightarrow> nat \<Rightarrow> bool" where
  "in_ranges rs i \<longleftrightarrow> (\<exists>(a, b)\<in>set rs. a \<le> i \<and> i \<le> b)"

lemma in_ranges_simps [simp]:
  "\<not> in_ranges [] i" "in_ranges ((a, b) # rs) i \<longleftrightarrow> a \<le> i \<and> i \<le> b \<or> in_ranges rs i"
  by (auto simp: in_ranges_def)

lemma equal_loop_ranges:
  assumes "case start of Some b \<Rightarrow> b < index | None \<Rightarrow> True"
  shows "in_ranges (er_ranges (equal_loop expected actual index start)) i \<longleftrightarrow>
    (case start of Some b \<Rightarrow> b \<le> i \<and> i < index | None \<Rightarrow> False)
    \<or> (index \<le> i \<and> i - index < length expected \<and> i - index < length actual
        \<and> expected ! (i - index) = actual ! (i - index))"
  using assms
proof (induction expected actual index start rule: equal_loop.induct)
  case (1 actual index start)
  then show ?case by (auto split: option.splits)
next
  case (2 x xs actual index start)
  have shift: "index \<le> i \<and> i - index < length (x # xs) \<and> i - index < length actual
        \<and> (x # xs) ! (i - index) = actual ! (i - index) \<longleftrightarrow>
      i = index \<and> actual \<noteq> [] \<and> hd actual = x
      \<or> Suc index \<le> i \<and> i - Suc index < length xs \<and> i - Suc index < length (tl actual)
        \<and> xs ! (i - Suc index) = tl actual ! (i - Suc index)"
  proof -
    consider "i < index" | "i = index" | k where "i = Suc index + k"
      by (metis less_natE linorder_neqE_nat add_Suc add_Suc_right)
    then show ?thesis
      by cases (auto simp: hd_conv_nth nth_tl)
  qed
  show ?case
  proof (cases "actual \<noteq> [] \<and> hd actual = x")
    case True
    with "2.IH"(1) [OF True] "2.prems" show ?thesis
      unfolding shift by (auto simp: Let_def split: option.splits)
  next
    case False
    with "2.IH"(2) [OF False] "2.prems" show ?thesis
      unfolding shift by (auto simp: Let_def split: option.splits)
  qed
qed

lemma equal_loop_count: "er_count (equal_loop expected actual index start) = matching_bytes actual expected"
proof (induction expected actual index start rule: equal_loop.induct)
  case (1 actual index start)
  then show ?case by (cases actual) auto
next
  case (2 x xs actual index start)
  then show ?case by (cases actual) (auto simp: Let_def split: option.splits)
qed

lemma equalPositionRanges_ok:
  "in_ranges (er_ranges (equalPositionRanges expected actual)) i \<longleftrightarrow>
     i < length expected \<and> i < length actual \<and> expected ! i = actual ! i"
  "er_count (equalPositionRanges expected actual) = matching_bytes actual expected"
  using equal_loop_ranges [where start = None and index = 0 and expected = expected and actual = actual and i = i]
  by (simp_all add: equalPositionRanges_def equal_loop_count)

section \<open>Only reads\<close>

definition read_audit :: "string list \<Rightarrow> (string list \<times> 's) \<Rightarrow> bool" where
  "read_audit before s \<longleftrightarrow> (\<exists>calls. fst s = before @ calls \<and> set calls \<subseteq> set READ_METHODS)"

lemma keeps_audited:
  "method \<in> set READ_METHODS \<Longrightarrow> keeps (read_audit before) (audited method call)"
proof (rule keepsI)
  fix s r s'
  assume "method \<in> set READ_METHODS" "read_audit before s" "audited method call s = (r, s')"
  then obtain calls where "fst s' = before @ (calls @ [method])" "set (calls @ [method]) \<subseteq> set READ_METHODS"
    by (auto simp: audited_def read_audit_def split: prod.splits)
  then show "read_audit before s'" unfolding read_audit_def by blast
qed

lemma keeps_adapter [keeps_intros]:
  "keeps (read_audit before) (getGenesisHash (createReadOnlyRpcAdapter connection))"
  "keeps (read_audit before) (getAccountInfo (createReadOnlyRpcAdapter connection) k)"
  "keeps (read_audit before) (getBalance (createReadOnlyRpcAdapter connection) k)"
  "keeps (read_audit before) (getMinimumBalanceForRentExemption (createReadOnlyRpcAdapter connection) n)"
  "keeps (read_audit before) (getSignaturesForAddress (createReadOnlyRpcAdapter connection) k)"
  by (simp_all add: createReadOnlyRpcAdapter_def keeps_audited READ_METHODS_def)

lemma keeps_funding_reads [keeps_intros]:
  assumes "\<And>k. keeps P (getBalance rpc k)" "\<And>n. keeps P (getMinimumBalanceForRentExemption rpc n)"
    "\<And>k. keeps P (getSignaturesForAddress rpc k)"
  shows "keeps P (funding_reads rpc authority buffer local)"
proof (rule keepsI)
  fix s r s'
  assume "P s" and run: "funding_reads rpc authority buffer local s = (r, s')"
  obtain b s1 where 1: "getBalance rpc authority s = (b, s1)" by fastforce
  obtain p s2 where 2: "getMinimumBalanceForRentExemption rpc 36 s1 = (p, s2)" by fastforce
  obtain d s3 where 3: "getMinimumBalanceForRentExemption rpc (45 + length local) s2 = (d, s3)" by fastforce
  obtain h s4 where 4: "getSignaturesForAddress rpc buffer s3 = (h, s4)" by fastforce
  from run 1 2 3 4 have "s' = s4" by (simp add: funding_reads_def)
  with \<open>P s\<close> 1 2 3 4 assms show "P s'" by (blast dest: keepsD)
qed

lemma runPlanUploadCommand_only_reads:
  "keeps (read_audit before) (runPlanUploadCommand env argv inputs connection)"
  unfolding runPlanUploadCommand_def executePlanUpload_def Let_def
  by (intro keeps_intros keeps_then_do) (auto intro!: keeps_intros split: option.split prod.split)

section \<open>A report describes a feasible upload\<close>

definition feasible :: "plan_env \<Rightarrow> js \<Rightarrow> bytes \<Rightarrow> js option \<Rightarrow> loader_account \<Rightarrow> upload_plan \<Rightarrow> bool" where
  "feasible env checkpoint local payload account plan \<longleftrightarrow>
     assertCheckpoint (pe_sha env) checkpoint local = Inr ()
     \<and> la_owner account = PLAN_UPLOAD_IDENTITIES ''loader''
     \<and> pe_base58 env (subarray (la_data account) 5 37) = PLAN_UPLOAD_IDENTITIES ''authority''
     \<and> length (la_data account) = length local + 37
     \<and> planBufferUpload (pe_tx env) (pe_sha env) (PLAN_UPLOAD_IDENTITIES ''buffer'')
         (PLAN_UPLOAD_IDENTITIES ''authority'') local (drop 37 (la_data account)) payload = Inr plan"

lemma assertCheckpoint_fields:
  assumes "assertCheckpoint sha checkpoint local = Inr ()"
  shows "get checkpoint ''bufferAddress'' = JStr (PLAN_UPLOAD_IDENTITIES ''buffer'')
    \<and> get checkpoint ''bufferOwner'' = JStr (PLAN_UPLOAD_IDENTITIES ''loader'')
    \<and> get checkpoint ''authority'' = JStr (PLAN_UPLOAD_IDENTITIES ''authority'')
    \<and> get checkpoint ''programId'' = JStr (PLAN_UPLOAD_IDENTITIES ''program'')
    \<and> get checkpoint ''genesisHash'' = JStr DEVNET_GENESIS_HASH
    \<and> get checkpoint ''bufferAllocation'' = JNat (length local + 37)"
  using assms by (simp add: assertCheckpoint_def Let_def and_then_eq_Inr guard_eq_Inr)

lemma inspected_identity:
  assumes "inspectUpgradeableBuffer base58 (Some account) expected = Inr (Some ib)"
  shows "JStr (la_owner account) = be_owner expected
    \<and> JStr (base58 (subarray (la_data account) 5 37)) = be_authority expected
    \<and> JNat (length (la_data account)) = be_allocatedLength expected
    \<and> (ib_status ib = ''BUFFER_COMPLETE'' \<longleftrightarrow> drop 37 (la_data account) = be_localBytes expected)"
  using assms by (auto simp: inspectUpgradeableBuffer_def Let_def buffer_equals_def split: if_splits)

lemma plan_buffer_feasible:
  assumes "plan_buffer env checkpoint local payload account = Inr (ib, plan)"
    and "assertCheckpoint (pe_sha env) checkpoint local = Inr ()"
  shows "feasible env checkpoint local payload account plan
    \<and> (ib_status ib = ''BUFFER_COMPLETE'' \<longleftrightarrow> drop 37 (la_data account) = local)"
proof -
  note fields = assertCheckpoint_fields [OF assms(2)]
  from assms(1) obtain expected where
    inspected: "inspectUpgradeableBuffer (pe_base58 env) (Some account) expected = Inr (Some ib)"
    and expected: "expected = \<lparr> be_publicKey = get checkpoint ''bufferAddress'',
      be_owner = get checkpoint ''bufferOwner'', be_authority = get checkpoint ''authority'',
      be_allocatedLength = get checkpoint ''bufferAllocation'', be_localBytes = local \<rparr>"
    and planned: "planBufferUpload (pe_tx env) (pe_sha env) (text_of (get checkpoint ''bufferAddress''))
      (text_of (get checkpoint ''authority'')) local (drop 37 (la_data account)) payload = Inr plan"
    by (auto simp: plan_buffer_def and_then_eq_Inr split: option.splits)
  from inspected_identity [OF inspected] show ?thesis
    using planned assms(2) by (simp add: feasible_def expected fields text_of_def del: of_nat_add)
qed

lemma executePlanUpload_ok:
  assumes "executePlanUpload env rpcUrl checkpoint local rpc payload s = (Inr report, s')"
  shows "\<exists>account plan s1 s2. feasible env checkpoint local payload account plan
    \<and> getAccountInfo rpc (PLAN_UPLOAD_IDENTITIES ''buffer'') s1 = (Inr (Some account), s2)
    \<and> pl_totalChunks report = totalChunks plan \<and> pl_remainingChunks report = remainingChunks plan
    \<and> pl_payloadSize report = maxPayload plan
    \<and> (pl_bufferStatus report = ''BUFFER_COMPLETE'' \<longleftrightarrow> drop 37 (la_data account) = local)
    \<and> pl_equalPositions report = equalPositionRanges local (drop 37 (la_data account))
    \<and> (\<exists>balance programRent dataRent.
        calculateFunding balance programRent dataRent (JNat (remainingChunks plan)) = Inr (pl_funding report))
    \<and> pl_genesis report = JStr DEVNET_GENESIS_HASH \<and> \<not> pl_stateMutation report"
proof -
  from assms obtain genesis account ib plan s1 s2 balance programRent dataRent fund history where
    checkpoint: "assertCheckpoint (pe_sha env) checkpoint local = Inr ()"
    and genesis: "assertDevnetGenesis genesis (get checkpoint ''genesisHash'') = Inr ()"
    and account: "getAccountInfo rpc (text_of (get checkpoint ''bufferAddress'')) s1 = (Inr (Some account), s2)"
    and plan: "plan_buffer env checkpoint local payload account = Inr (ib, plan)"
    and fund: "calculateFunding balance programRent dataRent (JNat (remainingChunks plan)) = Inr fund"
    and report: "report = plan_report_of env checkpoint local genesis account ib plan fund history"
    unfolding executePlanUpload_def Let_def
    by (auto simp: then_do_eq_Inr split: option.splits prod.splits)
  note fields = assertCheckpoint_fields [OF checkpoint]
  from genesis fields have "genesis = JStr DEVNET_GENESIS_HASH"
    by (auto simp: assertDevnetGenesis_def guard_eq_Inr)
  moreover have "getAccountInfo rpc (PLAN_UPLOAD_IDENTITIES ''buffer'') s1 = (Inr (Some account), s2)"
    using account fields by (simp add: text_of_def)
  moreover have "\<exists>balance programRent dataRent.
      calculateFunding balance programRent dataRent (JNat (remainingChunks plan)) = Inr fund"
    using fund by blast
  moreover note plan_buffer_feasible [OF plan checkpoint]
  ultimately show ?thesis
    by (intro exI [of _ account] exI [of _ plan] exI [of _ s1] exI [of _ s2])
      (simp add: report plan_report_of_def)
qed

end
