(* ===== verification/Deployment_Properties.thy ===== *)
theory Deployment_Properties imports Plan_Command begin

text \<open>
  What the deployment commands, the write windows and the upload planning command promise, with
  concrete inputs as witnesses.
\<close>

section \<open>Concrete inputs\<close>

text \<open>A state file whose buffer is being written, without a window.\<close>

definition demo_buffer :: js where
  "demo_buffer = JObj [(''publicKey'', JStr ''buf''), (''expectedOwner'', JStr ''loader''),
     (''expectedAuthority'', JStr ''auth''), (''allocatedLength'', JNat 40),
     (''status'', JStr ''BUFFER_WRITING''), (''writeAttempts'', JArr [JStr ''old''])]"

definition demo_state :: js where
  "demo_state = JObj [(''deployment'', JObj [(''buffer'', demo_buffer)])]"

definition demo_window :: js where
  "demo_window = JObj [(''expectedBufferPublicKey'', JStr ''buf''), (''id'', JStr ''w1''),
     (''openedAt'', JStr ''now''), (''maxAttempts'', JNat 2)]"

definition demo_attempt :: js where
  "demo_attempt = JObj [(''outcome'', JStr ''RPC_TIMEOUT''), (''observed'', JNull)]"

lemma demo_window_run:
  obtains s t where "openWriteWindow demo_state demo_window = Inr s"
    "recordWriteAttempt s demo_attempt = Inr t"
    "all_attempts (buffer_of s) = [JStr ''old'']" "length (attempts (buffer_of t)) = 1"
proof -
  have "case openWriteWindow demo_state demo_window of Inl e \<Rightarrow> False
      | Inr s \<Rightarrow> all_attempts (buffer_of s) = [JStr ''old'']
          \<and> (case recordWriteAttempt s demo_attempt of Inl e \<Rightarrow> False | Inr t \<Rightarrow> length (attempts (buffer_of t)) = 1)"
    by (simp add: openWriteWindow_def demo_state_def demo_window_def demo_buffer_def demo_attempt_def
        recordWriteAttempt_def Let_def buffer_of_def coalesce_def nullish_def write_limit_ok_def
        MAX_WRITE_ATTEMPTS_def assign_all_def assign_def attempts_def archived_windows_def new_window_def
        all_attempts_def window_attempts_def writeAttemptLimit_def history_field_def recorded_fields_def
        updated_window_def with_buffer_def is_integer_def)
  with that show thesis by (auto split: sum.splits)
qed

text \<open>A buffer whose only window was completed by its first attempt.\<close>

definition closed_state :: js where
  "closed_state = JObj [(''deployment'', JObj [(''buffer'', JObj [(''publicKey'', JStr ''buf''),
     (''writeAttempts'', JArr [JStr ''first'']),
     (''activeWindow'', JObj [(''maxAttempts'', JNat 3), (''status'', JStr ''COMPLETE'')])])])]"

text \<open>Calls that count how often the command runs.\<close>

definition counting_io :: "nat write_io" where
  "counting_io = \<lparr> wi_runner = (\<lambda>argv n. (\<lparr> pr_status = JNat 0, pr_stdout = None, pr_stderr = None,
       pr_error = Undefined \<rparr>, Suc n)),
     wi_account = (\<lambda>n. (Inr None, n)), wi_sleep = (\<lambda>n. n), wi_now = (\<lambda>n. (JNull, n)) \<rparr>"

definition demo_argv :: "js list" where
  "demo_argv = words [''program'', ''write-buffer'', ''--buffer'', ''/repo/.devnet/b.json'']"

section \<open>Write windows\<close>

text \<open>C20: No attempt is lost and no window is overdrawn.  From the opening of a write window on, every
  sequence of recorded attempts and opened windows keeps all attempts recorded before, in order,
  in the state file; the active window never holds more attempts than its limit, which is at most
  three, and it is OPEN exactly while the buffer is incomplete and an attempt is left.\<close>

theorem write_windows_lose_no_attempt:
  assumes "openWriteWindow state input = Inr s" and "window_step\<^sup>*\<^sup>* s t"
  shows "\<exists>more m. all_attempts (buffer_of t) = all_attempts (buffer_of state) @ more
    \<and> get (get (buffer_of t) ''activeWindow'') ''maxAttempts'' = JNat m \<and> m \<le> 3
    \<and> length (attempts (buffer_of t)) \<le> m
    \<and> (get (get (buffer_of t) ''activeWindow'') ''status'' = JStr ''OPEN'' \<longleftrightarrow>
        get (buffer_of t) ''status'' \<noteq> JStr ''BUFFER_COMPLETE'' \<and> length (attempts (buffer_of t)) < m)"
proof -
  note opened = openWriteWindow_ok [OF assms(1) refl refl]
  with window.run [OF assms(2)] have "window_inv (buffer_of t)" by blast
  then obtain m w where "get (buffer_of t) ''activeWindow'' = JObj w" "get (JObj w) ''maxAttempts'' = JNat m"
      "m \<le> 3" "length (attempts (buffer_of t)) \<le> m"
      "get (JObj w) ''status'' = JStr (if get (buffer_of t) ''status'' = JStr ''BUFFER_COMPLETE'' then ''COMPLETE''
          else if m \<le> length (attempts (buffer_of t)) then ''EXHAUSTED'' else ''OPEN'')"
    unfolding window_inv_def MAX_WRITE_ATTEMPTS_def by blast
  moreover obtain more where "all_attempts (buffer_of t) = all_attempts (buffer_of state) @ more"
    using window_run_attempts [OF assms(2)] opened by auto
  ultimately show ?thesis
    by (intro exI [of _ more] exI [of _ m]) (simp add: not_le del: get.simps)
qed

theorem write_windows_lose_no_attempt_witness:
  "\<exists>s t. openWriteWindow demo_state demo_window = Inr s \<and> recordWriteAttempt s demo_attempt = Inr t
    \<and> length (attempts (buffer_of t)) = 1 \<and> (\<exists>more. all_attempts (buffer_of t) = JStr ''old'' # more)"
proof -
  obtain s t where st: "openWriteWindow demo_state demo_window = Inr s"
      "recordWriteAttempt s demo_attempt = Inr t" "all_attempts (buffer_of s) = [JStr ''old'']"
      "length (attempts (buffer_of t)) = 1"
    by (rule demo_window_run)
  from st(2) have "window_step\<^sup>*\<^sup>* s t" by (intro r_into_rtranclp window_step.recorded)
  from write_windows_lose_no_attempt [OF st(1) this] obtain more where
    "all_attempts (buffer_of t) = all_attempts (buffer_of demo_state) @ more" by blast
  moreover have "all_attempts (buffer_of demo_state) = [JStr ''old'']"
    by (simp add: demo_state_def demo_buffer_def buffer_of_def all_attempts_def attempts_def)
  ultimately show ?thesis using st by auto
qed



lemma demo_command_ok: "write_command_ok demo_argv (JStr ''/repo/.devnet/b.json'') = Inr ()"
  by (simp add: write_command_ok_def demo_argv_def index_after_def nth_or_undefined_def)

lemma demo_argv_texts: "\<not> list_ex (\<lambda>v. \<not> is_text v) demo_argv"
  by (simp add: demo_argv_def is_text_def)

lemma safe_empty_output: "assertSafeCapturedOutput None = Inr ()"
  by (simp add: assertSafeCapturedOutput_def KEYPAIR_ARRAY_def to_lower_def)

lemma buffer_of_closed: "buffer_of closed_state = JObj [(''publicKey'', JStr ''buf''),
     (''writeAttempts'', JArr [JStr ''first'']),
     (''activeWindow'', JObj [(''maxAttempts'', JNat 3), (''status'', JStr ''COMPLETE'')])]"
  by (simp add: buffer_of_def closed_state_def)


lemmas write_defs = executeWriteAttempt_def Let_def runCapturedCommand_def demo_command_ok
  counting_io_def then_do_def safe_empty_output finish_write_def inspectUpgradeableBuffer_def
  recordWriteAttempt_def writeAttemptLimit_def write_limit_ok_def MAX_WRITE_ATTEMPTS_def
  coalesce_def nullish_def attempts_def is_integer_def



text \<open>A closed window does not stop the command.  When the first attempt has completed the window,
  the next call of \<open>executeWriteAttempt\<close> still runs the write command; only the recording of its
  outcome is refused, so that nothing of the run reaches the state file.\<close>

lemma closed_window_still_runs_the_command:
  "executeWriteAttempt base58 closed_state demo_argv (JStr ''/repo/.devnet/b.json'') bs 0 counting_io 0
     = (throw ''active write window is not open'', 1)"
  by (simp add: write_defs buffer_of_closed demo_argv_texts)

section \<open>Commands and classifications\<close>

text \<open>A buffer is finalised only when it is exactly the recorded buffer with exactly the local
  binary, and created only when neither the account nor the signature of a creation is known; a
  program that is already deployed never leads to another write.\<close>

lemma buffer_actions_are_safe:
  assumes "classifyBufferLifecycle observed expected program = Inr lc"
  shows "(lc_action lc = FINALIZE \<longrightarrow> (\<exists>ob bs. observed = Some ob \<and> ob_programBytes ob = Some bs
        \<and> eb_localBytes expected = Some bs \<and> ob_publicKey ob = eb_publicKey expected
        \<and> ob_owner ob = eb_owner expected \<and> ob_authority ob = eb_authority expected
        \<and> ob_dataLength ob = eb_allocatedLength expected))
    \<and> (lc_action lc = CREATE \<longrightarrow> observed = None \<and> \<not> truthy (eb_creationSignature expected))
    \<and> ((\<exists>p. program = Some p \<and> op_executable p) \<longleftrightarrow> lc_action lc = NONE)"
proof (intro conjI impI)
  show "(\<exists>p. program = Some p \<and> op_executable p) \<longleftrightarrow> lc_action lc = NONE"
    using assms by (auto simp: classifyBufferLifecycle_def classify_buffer_def split: option.splits if_splits)
qed (use finalize_only_exact [OF assms] create_only_fresh [OF assms] in auto)

lemma buffer_actions_are_safe_witness:
  "\<exists>lc. classifyBufferLifecycle
      (Some \<lparr> ob_publicKey = JStr ''b'', ob_owner = JStr ''o'', ob_authority = JStr ''a'',
              ob_dataLength = JNat 39, ob_programBytes = Some [1, 2] \<rparr>)
      \<lparr> eb_publicKey = JStr ''b'', eb_owner = JStr ''o'', eb_authority = JStr ''a'',
        eb_allocatedLength = JNat 39, eb_localBytes = Some [1, 2], eb_creationSignature = JStr ''s'' \<rparr>
      None = Inr lc \<and> lc_action lc = FINALIZE \<and> \<not> lc_action lc = NONE"
proof -
  let ?ob = "\<lparr> ob_publicKey = JStr ''b'', ob_owner = JStr ''o'', ob_authority = JStr ''a'',
              ob_dataLength = JNat 39, ob_programBytes = Some [1, 2] \<rparr>"
  let ?eb = "\<lparr> eb_publicKey = JStr ''b'', eb_owner = JStr ''o'', eb_authority = JStr ''a'',
        eb_allocatedLength = JNat 39, eb_localBytes = Some [1, 2], eb_creationSignature = JStr ''s'' \<rparr>"
  have run: "classifyBufferLifecycle (Some ?ob) ?eb None = Inr
      \<lparr> lc_status = ''BUFFER_COMPLETE'', lc_action = FINALIZE, lc_retryEligible = True, lc_reason = Undefined \<rparr>"
    by (simp add: classifyBufferLifecycle_def classify_buffer_def same_bytes_def buffer_equals_def)
  from buffer_actions_are_safe [OF run] run show ?thesis by auto
qed

lemma length_text_word: "JStr (length_text v) \<noteq> JStr ''--buffer''"
proof
  assume eq: "JStr (length_text v) = JStr ''--buffer''"
  then have "CHR ''-'' \<in> set (length_text v)" by simp
  then show False
    unfolding length_text_def by (drule_tac show_nat_chars) simp
qed

lemma path_text_word: "path_text p \<noteq> ''--buffer''"
proof -
  have "\<exists>r. path_text p = CHR ''/'' # r" by (cases p) (auto simp: path_text_def)
  then show ?thesis by auto
qed

text \<open>The write command that is built is the one that may run: it talks to devnet, takes its keys
  from the signer directory \<open>.devnet\<close> of the repository, and passes the check that guards a write
  attempt, with the signer of the buffer as the recorded buffer argument.\<close>

lemma write_command_is_allowed:
  assumes "buildWriteBufferCommand env input = Inr argv"
    and "get input ''rpcUrl'' \<noteq> JStr ''--buffer''" and "get input ''binaryPath'' \<noteq> JStr ''--buffer''"
  shows "\<exists>url authority buffer rest. argv = [JStr ''program'', JStr ''write-buffer'', JStr ''--url'', url,
        JStr ''--use-rpc'', JStr ''--keypair'', authority] @ rest
    \<and> devnet_url env url \<and> signer_path env (get input ''repoRoot'') authority
    \<and> signer_path env (get input ''repoRoot'') buffer \<and> write_command_ok argv buffer = Inr ()"
proof -
  from assms(1) obtain u p where url: "assertAllowedRpcUrl (Deployment.parse_url env) (get input ''rpcUrl'') ''devnet'' = Inr u"
    and paths: "validateDeploymentPaths env input = Inr p"
    and argv: "argv = [JStr ''program'', JStr ''write-buffer'', JStr ''--url'', get input ''rpcUrl'',
              JStr ''--use-rpc'', JStr ''--keypair'', dp_authority p, JStr ''--fee-payer'', dp_authority p,
              JStr ''--buffer'', dp_bufferSigner p, JStr ''--buffer-authority'', dp_authority p,
              JStr ''--max-len'', JStr (length_text (get input ''binaryLength'')), JStr ''--output'',
              JStr ''json'', get input ''binaryPath'']"
    by (auto simp: buildWriteBufferCommand_def Let_def and_then_eq_Inr)
  note signers = validated_paths_signer [OF paths]
  then obtain a b where a: "dp_authority p = JStr (path_text a)" and b: "dp_bufferSigner p = JStr (path_text b)"
    by (auto simp: signer_path_def)
  have "path_text b \<noteq> []" by (cases b) (auto simp: path_text_def)
  then have "write_command_ok argv (dp_bufferSigner p) = Inr ()"
    using assms(2,3) length_text_word path_text_word
    by (simp add: write_command_ok_def argv index_after_def nth_or_undefined_def a b)
  with allowed_devnet_url [OF url] signers show ?thesis
    by (intro exI [of _ "get input ''rpcUrl''"] exI [of _ "dp_authority p"] exI [of _ "dp_bufferSigner p"]
        exI [of _ "drop 7 argv"]) (simp add: argv)
qed

definition demo_url :: url where
  "demo_url = \<lparr> protocol = ''https:'', username = [], password = [], hostname = ''api.devnet.solana.com'',
     pathname = ''/'', search = [], hash = [], origin = DEVNET_RPC_URL, href = DEVNET_RPC_URL \<rparr>"

definition demo_deploy_env :: deploy_env where
  "demo_deploy_env = \<lparr> parse_url = (\<lambda>v. if v = JStr DEVNET_RPC_URL then Some demo_url else None),
     files = \<lparr> exists_path = (\<lambda>p. False), realpath = (\<lambda>p. p) \<rparr>, working_directory = [''repo''] \<rparr>"

definition demo_input :: js where
  "demo_input = JObj [(''rpcUrl'', JStr DEVNET_RPC_URL), (''repoRoot'', JStr ''/repo''),
     (''authorityPath'', JStr ''.devnet/a''), (''programKeypairPath'', JStr ''/repo/.devnet/p''),
     (''bufferSignerPath'', JStr ''/repo/x/../.devnet/b''), (''binaryPath'', JStr ''p.so''),
     (''binaryLength'', JNat 9)]"

lemma demo_paths:
  "contained_path demo_deploy_env (JStr ''/repo'') (JStr ''.devnet/a'') = Inr (JStr ''/repo/.devnet/a'')"
  "contained_path demo_deploy_env (JStr ''/repo'') (JStr ''/repo/.devnet/p'') = Inr (JStr ''/repo/.devnet/p'')"
  "contained_path demo_deploy_env (JStr ''/repo'') (JStr ''/repo/x/../.devnet/b'') = Inr (JStr ''/repo/.devnet/b'')"
  by (simp_all add: contained_path_def assertSignerPathContained_def Let_def Safety.resolve_def resolve_part_def
      absolute_parts_def demo_deploy_env_def isOutside_def path_text_def)

lemma write_command_is_allowed_witness:
  "\<exists>argv buffer. buildWriteBufferCommand demo_deploy_env demo_input = Inr argv
    \<and> write_command_ok argv buffer = Inr () \<and> signer_path demo_deploy_env (JStr ''/repo'') buffer"
proof -
  have input: "get demo_input ''rpcUrl'' = JStr DEVNET_RPC_URL" "get demo_input ''repoRoot'' = JStr ''/repo''"
    "get demo_input ''binaryPath'' = JStr ''p.so''" "get demo_input ''authorityPath'' = JStr ''.devnet/a''"
    "get demo_input ''programKeypairPath'' = JStr ''/repo/.devnet/p''"
    "get demo_input ''bufferSignerPath'' = JStr ''/repo/x/../.devnet/b''"
    "get demo_input ''binaryLength'' = JNat 9"
    by (simp_all add: demo_input_def)
  have url: "assertAllowedRpcUrl (Deployment.parse_url demo_deploy_env) (JStr DEVNET_RPC_URL) ''devnet'' = Inr demo_url"
    by (simp add: assertAllowedRpcUrl_def demo_deploy_env_def demo_url_def)
  have "\<exists>argv. buildWriteBufferCommand demo_deploy_env demo_input = Inr argv"
    by (simp add: buildWriteBufferCommand_def Let_def input url validateDeploymentPaths_def demo_paths
        assertBinary_def is_integer_def)
  then obtain argv where built: "buildWriteBufferCommand demo_deploy_env demo_input = Inr argv" by blast
  have "get demo_input ''rpcUrl'' \<noteq> JStr ''--buffer''" "get demo_input ''binaryPath'' \<noteq> JStr ''--buffer''"
    by (simp_all add: input DEVNET_RPC_URL_def)
  from write_command_is_allowed [OF built this] built input show ?thesis by auto
qed

section \<open>The upload planning command\<close>


















text \<open>The command only reads.  Whatever the arguments, the files and the network answer, every call
  the command makes on the connection is one of the five read methods of its adapter, and nothing
  is called unless the command is \<open>plan-upload\<close> with an allowed devnet endpoint.\<close>

lemma plan_command_only_reads:
  "(let (audit, t) = snd (runPlanUploadCommand env argv inputs connection ([], s)) in
     set audit \<subseteq> set READ_METHODS
     \<and> (audit = [] \<or> (\<exists>url. parseArgs env argv = Inr url)))"
proof -
  obtain r audit t where run: "runPlanUploadCommand env argv inputs connection ([], s) = (r, (audit, t))"
    by (metis prod.collapse)
  have "read_audit [] ([] :: string list, s)" by (auto simp: read_audit_def)
  from keepsD [OF runPlanUploadCommand_only_reads this run] have "set audit \<subseteq> set READ_METHODS"
    by (auto simp: read_audit_def)
  moreover have "audit = []" if "parseArgs env argv = Inl e" for e
    using run that by (simp add: runPlanUploadCommand_def then_do_def)
  ultimately show ?thesis using run by (cases "parseArgs env argv") auto
qed

end
