(* ===== verification/Execution_Contract.thy ===== *)
theory Execution_Contract imports Plan_Command Rpc_Ledger begin

text \<open>
  \<open>scripts/devnet/upload-execution-contract.mjs\<close>: the command lines that the upload tools accept,
  and the check that an output is fit to be published.

  The URL parser of the runtime is the parameter \<open>urls\<close> and \<open>path.resolve\<close> the parameter
  \<open>resolve_path\<close>; \<open>number_text\<close> is the text of a number in \<open>String(n)\<close>.
\<close>

section \<open>Options\<close>

definition LIVE_UPLOAD_ACKNOWLEDGEMENT :: string where
  "LIVE_UPLOAD_ACKNOWLEDGEMENT = ''R4_BUFFER_UPLOAD''"

definition RELEASE_LEASE_ACKNOWLEDGEMENT :: string where
  "RELEASE_LEASE_ACKNOWLEDGEMENT = ''R4_RELEASE_UPLOAD_LEASE''"

definition RECOVER_PRE_SELECTION_LEASE_ACKNOWLEDGEMENT :: string where
  "RECOVER_PRE_SELECTION_LEASE_ACKNOWLEDGEMENT = ''R4_RECOVER_PRE_SELECTION_LEASE''"

definition APPLY_RECONCILIATION_ACKNOWLEDGEMENT :: string where
  "APPLY_RECONCILIATION_ACKNOWLEDGEMENT = ''R4_APPLY_UPLOAD_RECONCILIATION''"

definition MIGRATE_STATE_ACKNOWLEDGEMENT :: string where
  "MIGRATE_STATE_ACKNOWLEDGEMENT = ''R4_MIGRATE_STATE_V3''"

definition MAX_UPLOAD_CHUNKS :: nat where
  "MAX_UPLOAD_CHUNKS = 5"

definition MIN_UPLOAD_DELAY_MS :: nat where
  "MIN_UPLOAD_DELAY_MS = 1000"

definition LIVE_KEYS :: "string list" where
  "LIVE_KEYS = [''url'', ''program'', ''buffer'', ''state'', ''authority'', ''max-chunks'', ''delay-ms'',
     ''rpc-request-timeout-ms'', ''acknowledge-devnet-write'']"

definition INSPECT_KEYS :: "string list" where
  "INSPECT_KEYS = [''state'', ''binary'']"

definition MIGRATE_KEYS :: "string list" where
  "MIGRATE_KEYS = [''state'', ''binary'', ''acknowledge-state-migration'']"

definition RECONCILE_KEYS :: "string list" where
  "RECONCILE_KEYS = [''url'', ''program'', ''buffer'', ''state'', ''binary'', ''execution-id'']"

definition APPLY_RECONCILIATION_KEYS :: "string list" where
  "APPLY_RECONCILIATION_KEYS =
     RECONCILE_KEYS @ [''reconciliation-hash'', ''acknowledge-upload-reconciliation'']"

definition RELEASE_KEYS :: "string list" where
  "RELEASE_KEYS = RECONCILE_KEYS @ [''reconciliation-hash'', ''acknowledge-lease-release'']"

definition PRE_SELECTION_RECONCILE_KEYS :: "string list" where
  "PRE_SELECTION_RECONCILE_KEYS =
     [''binary'', ''buffer'', ''expected-authority'', ''expected-buffer-sha'', ''expected-candidates'',
      ''expected-dead-owner'', ''expected-evidence-sha'', ''expected-incident-repository-sha'',
      ''expected-inner-execution-id'', ''expected-lease-sha'', ''expected-outer-execution-id'',
      ''expected-repository-sha'', ''expected-state-sha'', ''expected-zero-send'', ''lease-path'',
      ''outer-evidence-directory'', ''program'', ''state'', ''url'']"

definition PRE_SELECTION_RECOVER_KEYS :: "string list" where
  "PRE_SELECTION_RECOVER_KEYS =
     PRE_SELECTION_RECONCILE_KEYS @ [''acknowledge-pre-selection-recovery'', ''recovery-hash'']"

type_synonym options = "(string \<times> string) list"

text \<open>The loop over flags and values.\<close>

fun read_options :: "string list \<Rightarrow> string list \<Rightarrow> options \<Rightarrow> options result" where
  "read_options allowed [] vals = Inr vals"
| "read_options allowed [flag] vals = throw ''complete explicit command arguments are required''"
| "read_options allowed (flag # v # rest) vals =
     (let key = drop 2 flag in
      if \<not> starts_with ''--'' flag then throw ''complete explicit command arguments are required''
      else if key \<notin> set allowed then throw (''unknown argument --'' @ key)
      else if map_of vals key \<noteq> None then throw (''duplicate argument --'' @ key)
      else read_options allowed rest (vals @ [(key, v)]))"

definition parseExactOptions :: "string list \<Rightarrow> string list \<Rightarrow> options result" where
  "parseExactOptions argv allowed =
     and_then (read_options allowed (tl argv) []) (\<lambda>vals.
     and_then (for_each (\<lambda>key.
         if map_of vals key \<in> {None, Some []}
         then throw (if key = ''acknowledge-devnet-write''
                     then ''explicit devnet-write acknowledgement is required''
                     else ''required argument --'' @ key @ '' is missing'')
         else Inr ()) allowed) (\<lambda>_. Inr vals))"

text \<open>\<open>values[key]\<close> of an option that was checked to be there.\<close>

definition opt :: "options \<Rightarrow> string \<Rightarrow> string" where
  "opt vals key = (case map_of vals key of Some s \<Rightarrow> s | None \<Rightarrow> [])"

definition parseInteger :: "string \<Rightarrow> string \<Rightarrow> nat \<Rightarrow> nat \<Rightarrow> nat result" where
  "parseInteger v label minimum maximum =
     (if v = [] \<or> \<not> list_all is_digit_char v then throw (label @ '' violates the hard policy'')
      else let parsed = digits_value v in
        if \<not> safe_int (int parsed) \<or> parsed < minimum \<or> maximum < parsed
        then throw (label @ '' violates the hard policy'') else Inr parsed)"

definition MAX_SAFE_NAT :: nat where
  "MAX_SAFE_NAT = nat MAX_SAFE_INTEGER"

section \<open>Checks of single options\<close>

definition is_alnum_char :: "char \<Rightarrow> bool" where
  "is_alnum_char c =
     (let n = of_char c :: nat
      in (48 \<le> n \<and> n \<le> 57) \<or> (65 \<le> n \<and> n \<le> 90) \<or> (97 \<le> n \<and> n \<le> 122))"

definition safe_identifier :: "char list \<Rightarrow> string \<Rightarrow> bool" where
  "safe_identifier extra s \<longleftrightarrow>
     (case s of [] \<Rightarrow> False
      | c # cs \<Rightarrow> is_alnum_char c \<and> length cs \<le> 127 \<and> list_all (\<lambda>d. is_alnum_char d \<or> d \<in> set extra) cs)"

definition assertSafeExecutionId :: "string \<Rightarrow> unit result" where
  "assertSafeExecutionId v = guard (safe_identifier ''_-'' v) ''safe execution ID is required''"

definition assertLowercaseReconciliationHash :: "string \<Rightarrow> unit result" where
  "assertLowercaseReconciliationHash v = guard (hex64 v) ''lowercase reconciliation hash is required''"

definition hex40 :: "string \<Rightarrow> bool" where
  "hex40 s \<longleftrightarrow> length s = 40 \<and> list_all is_hex_char s"

definition assertCanonicalLeaseCommand :: "(js \<Rightarrow> url option) \<Rightarrow> options \<Rightarrow> unit result" where
  "assertCanonicalLeaseCommand urls vals =
     and_then (assertAllowedRpcUrl urls (JStr (opt vals ''url'')) ''devnet'') (\<lambda>_.
     and_then (guard (opt vals ''url'' = DEVNET_RPC_URL) ''exact devnet RPC is required'') (\<lambda>_.
     and_then (guard (opt vals ''program'' = PLAN_UPLOAD_IDENTITIES ''program'')
       ''canonical program is required'') (\<lambda>_.
     guard (opt vals ''buffer'' = PLAN_UPLOAD_IDENTITIES ''buffer'') ''preserved buffer is required'')))"

text \<open>Each number is a safe integer above the one before it.\<close>

fun increasing_from :: "nat option \<Rightarrow> nat list \<Rightarrow> bool" where
  "increasing_from prev [] = True"
| "increasing_from prev (n # ns) =
     (safe_int (int n) \<and> (case prev of None \<Rightarrow> True | Some m \<Rightarrow> m < n) \<and> increasing_from (Some n) ns)"

definition parseCandidateIndexes :: "string \<Rightarrow> nat list result" where
  "parseCandidateIndexes v =
     (let parts = split_on CHR '','' v; indexes = map digits_value parts in
      if \<not> list_all (\<lambda>p. p \<noteq> [] \<and> list_all is_digit_char p) parts \<or> \<not> increasing_from None indexes
      then throw ''strict candidate indexes are required'' else Inr indexes)"

section \<open>Commands\<close>

record upload_command =
  uc_url :: string
  uc_program :: string
  uc_buffer :: string
  uc_state :: string
  uc_authority :: string
  uc_maxChunks :: nat
  uc_delayMs :: nat
  uc_requestTimeoutMs :: nat
  uc_acknowledgement :: string

record lease_command =
  lc_url :: string
  lc_program :: string
  lc_buffer :: string
  lc_state :: string
  lc_binary :: string
  lc_executionId :: string

record pre_selection_expected =
  px_leaseSha256 :: string
  px_evidenceSha256 :: string
  px_outerExecutionId :: string
  px_innerExecutionId :: string
  px_repositorySha :: string
  px_incidentRepositorySha :: string
  px_stateSha256 :: string
  px_bufferSha256 :: string
  px_program :: string
  px_buffer :: string
  px_authority :: string
  px_candidateIndexes :: "nat list"
  px_zeroSend :: bool
  px_deadOwner :: bool

record pre_selection_bindings =
  pb_url :: string
  pb_program :: string
  pb_buffer :: string
  pb_state :: string
  pb_binary :: string
  pb_leasePath :: string
  pb_outerEvidenceDirectory :: string
  pb_expected :: pre_selection_expected

datatype runtime_command =
    Upload_Buffer upload_command
  | Inspect_Migration string string
  | Migrate_State string string string
  | Reconcile_Lease lease_command
  | Apply_Reconciliation lease_command string string
  | Release_Lease lease_command string string
  | Reconcile_Pre_Selection pre_selection_bindings
  | Recover_Pre_Selection pre_selection_bindings string string

definition parseUploadCommand :: "(js \<Rightarrow> url option) \<Rightarrow> string list \<Rightarrow> upload_command result" where
  "parseUploadCommand urls argv =
     (if argv = [] \<or> hd argv \<noteq> ''upload-buffer-throttled'' then throw ''public command is required'' else
      and_then (parseExactOptions argv LIVE_KEYS) (\<lambda>vals.
      and_then (assertAllowedRpcUrl urls (JStr (opt vals ''url'')) ''devnet'') (\<lambda>_.
      and_then (guard (opt vals ''url'' = DEVNET_RPC_URL) ''exact devnet RPC is required'') (\<lambda>_.
      and_then (guard (opt vals ''program'' = PLAN_UPLOAD_IDENTITIES ''program'')
        ''canonical program is required'') (\<lambda>_.
      and_then (guard (opt vals ''buffer'' = PLAN_UPLOAD_IDENTITIES ''buffer'')
        ''preserved buffer is required'') (\<lambda>_.
      and_then (guard (opt vals ''acknowledge-devnet-write'' = LIVE_UPLOAD_ACKNOWLEDGEMENT)
        ''explicit devnet-write acknowledgement is required'') (\<lambda>_.
      and_then (parseInteger (opt vals ''max-chunks'') ''maxChunks'' 1 MAX_UPLOAD_CHUNKS) (\<lambda>maxChunks.
      and_then (parseInteger (opt vals ''delay-ms'') ''delayMs'' MIN_UPLOAD_DELAY_MS MAX_SAFE_NAT) (\<lambda>delayMs.
      and_then (parseInteger (opt vals ''rpc-request-timeout-ms'') ''requestTimeoutMs'' 1 2147483647)
        (\<lambda>requestTimeoutMs.
      Inr \<lparr> uc_url = opt vals ''url'', uc_program = opt vals ''program'',
            uc_buffer = opt vals ''buffer'', uc_state = opt vals ''state'',
            uc_authority = opt vals ''authority'', uc_maxChunks = maxChunks, uc_delayMs = delayMs,
            uc_requestTimeoutMs = requestTimeoutMs,
            uc_acknowledgement = opt vals ''acknowledge-devnet-write'' \<rparr>))))))))))"

definition parsePreSelectionBindings ::
    "(js \<Rightarrow> url option) \<Rightarrow> options \<Rightarrow> pre_selection_bindings result" where
  "parsePreSelectionBindings urls vals =
     and_then (assertCanonicalLeaseCommand urls vals) (\<lambda>_.
     and_then (assertSafeExecutionId (opt vals ''expected-outer-execution-id'')) (\<lambda>_.
     and_then (assertSafeExecutionId (opt vals ''expected-inner-execution-id'')) (\<lambda>_.
     and_then (assertLowercaseReconciliationHash (opt vals ''expected-lease-sha'')) (\<lambda>_.
     and_then (assertLowercaseReconciliationHash (opt vals ''expected-evidence-sha'')) (\<lambda>_.
     and_then (assertLowercaseReconciliationHash (opt vals ''expected-state-sha'')) (\<lambda>_.
     and_then (assertLowercaseReconciliationHash (opt vals ''expected-buffer-sha'')) (\<lambda>_.
     and_then (guard (hex40 (opt vals ''expected-repository-sha''))
       ''lowercase repository SHA is required'') (\<lambda>_.
     and_then (guard (hex40 (opt vals ''expected-incident-repository-sha''))
       ''lowercase incident repository SHA is required'') (\<lambda>_.
     and_then (guard (opt vals ''expected-authority'' = PLAN_UPLOAD_IDENTITIES ''authority'')
       ''canonical authority is required'') (\<lambda>_.
     and_then (guard (opt vals ''expected-zero-send'' = ''true'' \<and> opt vals ''expected-dead-owner'' = ''true'')
       ''explicit zero-send and dead-owner bindings are required'') (\<lambda>_.
     and_then (parseCandidateIndexes (opt vals ''expected-candidates'')) (\<lambda>indexes.
     Inr \<lparr> pb_url = opt vals ''url'', pb_program = opt vals ''program'',
           pb_buffer = opt vals ''buffer'', pb_state = opt vals ''state'',
           pb_binary = opt vals ''binary'', pb_leasePath = opt vals ''lease-path'',
           pb_outerEvidenceDirectory = opt vals ''outer-evidence-directory'',
           pb_expected = \<lparr> px_leaseSha256 = opt vals ''expected-lease-sha'',
             px_evidenceSha256 = opt vals ''expected-evidence-sha'',
             px_outerExecutionId = opt vals ''expected-outer-execution-id'',
             px_innerExecutionId = opt vals ''expected-inner-execution-id'',
             px_repositorySha = opt vals ''expected-repository-sha'',
             px_incidentRepositorySha = opt vals ''expected-incident-repository-sha'',
             px_stateSha256 = opt vals ''expected-state-sha'',
             px_bufferSha256 = opt vals ''expected-buffer-sha'',
             px_program = opt vals ''program'', px_buffer = opt vals ''buffer'',
             px_authority = opt vals ''expected-authority'', px_candidateIndexes = indexes,
             px_zeroSend = True, px_deadOwner = True \<rparr> \<rparr>))))))))))))"

definition lease_command_of :: "options \<Rightarrow> lease_command" where
  "lease_command_of vals =
     \<lparr> lc_url = opt vals ''url'', lc_program = opt vals ''program'', lc_buffer = opt vals ''buffer'',
       lc_state = opt vals ''state'', lc_binary = opt vals ''binary'',
       lc_executionId = opt vals ''execution-id'' \<rparr>"

definition parseRuntimeCommand :: "(js \<Rightarrow> url option) \<Rightarrow> string list \<Rightarrow> runtime_command result" where
  "parseRuntimeCommand urls argv =
     (let name = (case argv of [] \<Rightarrow> [] | c # _ \<Rightarrow> c) in
      if name = ''upload-buffer-throttled''
      then and_then (parseUploadCommand urls argv) (\<lambda>u. Inr (Upload_Buffer u))
      else if name = ''inspect-state-migration''
      then and_then (parseExactOptions argv INSPECT_KEYS) (\<lambda>vals.
        Inr (Inspect_Migration (opt vals ''state'') (opt vals ''binary'')))
      else if name = ''migrate-state-v3''
      then and_then (parseExactOptions argv MIGRATE_KEYS) (\<lambda>vals.
        and_then (guard (opt vals ''acknowledge-state-migration'' = MIGRATE_STATE_ACKNOWLEDGEMENT)
          ''explicit state-migration acknowledgement is required'') (\<lambda>_.
        Inr (Migrate_State (opt vals ''state'') (opt vals ''binary'')
               (opt vals ''acknowledge-state-migration''))))
      else if name = ''reconcile-upload-lease''
      then and_then (parseExactOptions argv RECONCILE_KEYS) (\<lambda>vals.
        and_then (assertCanonicalLeaseCommand urls vals) (\<lambda>_.
        and_then (assertSafeExecutionId (opt vals ''execution-id'')) (\<lambda>_.
        Inr (Reconcile_Lease (lease_command_of vals)))))
      else if name = ''apply-upload-reconciliation''
      then and_then (parseExactOptions argv APPLY_RECONCILIATION_KEYS) (\<lambda>vals.
        and_then (assertCanonicalLeaseCommand urls vals) (\<lambda>_.
        and_then (assertSafeExecutionId (opt vals ''execution-id'')) (\<lambda>_.
        and_then (assertLowercaseReconciliationHash (opt vals ''reconciliation-hash'')) (\<lambda>_.
        and_then (guard (opt vals ''acknowledge-upload-reconciliation'' = APPLY_RECONCILIATION_ACKNOWLEDGEMENT)
          ''explicit upload-reconciliation acknowledgement is required'') (\<lambda>_.
        Inr (Apply_Reconciliation (lease_command_of vals) (opt vals ''reconciliation-hash'')
               (opt vals ''acknowledge-upload-reconciliation'')))))))
      else if name = ''release-upload-lease''
      then and_then (parseExactOptions argv RELEASE_KEYS) (\<lambda>vals.
        and_then (assertCanonicalLeaseCommand urls vals) (\<lambda>_.
        and_then (assertSafeExecutionId (opt vals ''execution-id'')) (\<lambda>_.
        and_then (assertLowercaseReconciliationHash (opt vals ''reconciliation-hash'')) (\<lambda>_.
        and_then (guard (opt vals ''acknowledge-lease-release'' = RELEASE_LEASE_ACKNOWLEDGEMENT)
          ''explicit lease-release acknowledgement is required'') (\<lambda>_.
        Inr (Release_Lease (lease_command_of vals) (opt vals ''reconciliation-hash'')
               (opt vals ''acknowledge-lease-release'')))))))
      else if name = ''reconcile-pre-selection-upload-lease''
      then and_then (parseExactOptions argv PRE_SELECTION_RECONCILE_KEYS) (\<lambda>vals.
        and_then (parsePreSelectionBindings urls vals) (\<lambda>b. Inr (Reconcile_Pre_Selection b)))
      else if name = ''recover-pre-selection-upload-lease''
      then and_then (parseExactOptions argv PRE_SELECTION_RECOVER_KEYS) (\<lambda>vals.
        and_then (assertLowercaseReconciliationHash (opt vals ''recovery-hash'')) (\<lambda>_.
        and_then (guard (opt vals ''acknowledge-pre-selection-recovery'' = RECOVER_PRE_SELECTION_LEASE_ACKNOWLEDGEMENT)
          ''explicit pre-selection lease recovery acknowledgement is required'') (\<lambda>_.
        and_then (parsePreSelectionBindings urls vals) (\<lambda>b.
        Inr (Recover_Pre_Selection b (opt vals ''recovery-hash'')
               (opt vals ''acknowledge-pre-selection-recovery''))))))
      else throw ''approved public command is required'')"

record upload_request =
  ur_command :: upload_command
  ur_statePath :: string
  ur_authorityPath :: string

definition validateUploadRequest ::
    "(string \<Rightarrow> string \<Rightarrow> string) \<Rightarrow> upload_command \<Rightarrow> js \<Rightarrow> (string \<Rightarrow> bool) option \<Rightarrow> upload_request result" where
  "validateUploadRequest resolve_path parsed repoRoot isIgnoredPath =
     (case (repoRoot, isIgnoredPath) of
        (JStr base, Some ignored) \<Rightarrow>
          let statePath = resolve_path base (uc_state parsed);
              authorityPath = resolve_path base (uc_authority parsed) in
          if \<not> ignored statePath \<or> \<not> ignored authorityPath
          then throw ''state and authority paths must be explicitly ignored''
          else Inr \<lparr> ur_command = parsed, ur_statePath = statePath, ur_authorityPath = authorityPath \<rparr>
      | _ \<Rightarrow> throw ''explicit repository and ignore validation are required'')"

section \<open>Secret texts\<close>

definition SECRET_KEYS :: "string list" where
  "SECRET_KEYS =
     [''authorization'', ''body'', ''cookie'', ''credential'', ''data'', ''endpoint'', ''error'', ''header'',
      ''headers'', ''keypair'', ''mnemonic'', ''path'', ''payload'', ''privatekey'', ''rawtransaction'',
      ''requestid'', ''response'', ''secret'', ''secretkey'', ''seed'', ''seedphrase'',
      ''serializedtransaction'', ''signedtransaction'', ''url'']"

definition ends_with :: "string \<Rightarrow> string \<Rightarrow> bool" where
  "ends_with t s \<longleftrightarrow> starts_with (rev t) (rev s)"

definition isSecretKey :: "string \<Rightarrow> bool" where
  "isSecretKey key =
     (let normalized = to_lower (filter is_alnum_char key) in
      normalized \<in> set SECRET_KEYS
      \<or> list_ex (\<lambda>t. ends_with t normalized)
          [''authorization'', ''body'', ''credential'', ''header'', ''headers'', ''keypair'', ''path'',
           ''requestid'', ''url''])"

definition is_letter_char :: "char \<Rightarrow> bool" where
  "is_letter_char c = (let n = of_char c :: nat in (65 \<le> n \<and> n \<le> 90) \<or> (97 \<le> n \<and> n \<le> 122))"

definition is_slash :: "char \<Rightarrow> bool" where
  "is_slash c \<longleftrightarrow> c = CHR ''/'' \<or> c = CHR 0x5C"

text \<open>A separator \<open>[\\/]\<close>, or the end of the text, after a word; and a word at the start of the text
  or after a separator.\<close>

definition slash_or_end :: "string \<Rightarrow> bool" where
  "slash_or_end s = (case s of [] \<Rightarrow> True | c # _ \<Rightarrow> is_slash c)"

definition after_slash :: "(string \<Rightarrow> bool) \<Rightarrow> string \<Rightarrow> bool" where
  "after_slash P s \<longleftrightarrow> P s \<or> somewhere (\<lambda>t. case t of c # r \<Rightarrow> is_slash c \<and> P r | [] \<Rightarrow> False) s"

definition follows :: "string \<Rightarrow> (string \<Rightarrow> bool) \<Rightarrow> string \<Rightarrow> bool" where
  "follows w P s \<longleftrightarrow> starts_with w s \<and> P (drop (length w) s)"

definition drive_at :: "string \<Rightarrow> bool" where
  "drive_at s = (case s of c # d # e # _ \<Rightarrow> is_letter_char c \<and> d = CHR '':'' \<and> is_slash e | _ \<Rightarrow> False)"

text \<open>The last component of a path, and \<open>[^\\/]*keypair[^\\/]*\.json\<close> on it.\<close>

definition last_component :: "string \<Rightarrow> string" where
  "last_component s = rev (takeWhile (\<lambda>c. \<not> is_slash c) (rev s))"

definition keypair_file :: "string \<Rightarrow> bool" where
  "keypair_file s =
     (let c = last_component s in
      ends_with ''.json'' c \<and> contains ''keypair'' (take (length c - 5) c))"

text \<open>Two words with at most one of \<open>-\<close>, \<open>_\<close> and a blank between them.\<close>

definition joined_words :: "string \<Rightarrow> string \<Rightarrow> string \<Rightarrow> bool" where
  "joined_words a b s = list_ex (\<lambda>gap. contains (a @ gap @ b) s) [[], ''-'', ''_'', '' '']"

definition SECRET_TEXT :: "string \<Rightarrow> bool" where
  "SECRET_TEXT v =
     (let s = to_lower v in
      list_ex (\<lambda>p. contains (p @ ''://'') s) [''http'', ''https'', ''ws'', ''wss'']
      \<or> somewhere drive_at s
      \<or> starts_with [CHR 0x5C, CHR 0x5C] s
      \<or> (case s of c # d # _ \<Rightarrow> c = CHR ''/'' \<and> \<not> is_space_char d | _ \<Rightarrow> False)
      \<or> (case s of c # d # _ \<Rightarrow> c = CHR ''~'' \<and> is_slash d | _ \<Rightarrow> False)
      \<or> after_slash (follows ''.devnet'' slash_or_end) s
      \<or> after_slash (follows ''.config'' (\<lambda>r. case r of c # t \<Rightarrow> is_slash c \<and> follows ''solana'' slash_or_end t
                                              | [] \<Rightarrow> False)) s
      \<or> keypair_file s
      \<or> contains ''mnemonic'' s
      \<or> joined_words ''private'' ''key'' s \<or> joined_words ''secret'' ''key'' s
      \<or> joined_words ''seed'' ''phrase'' s \<or> joined_words ''signed'' ''transaction'' s
      \<or> joined_words ''raw'' ''transaction'' s)"

text \<open>\<open>/^(?:[a-z]+[\s,]+){11,}[a-z]+$/i\<close>: letters and separators only, a letter at both ends, twelve
  words or more.\<close>

definition is_word_gap :: "char \<Rightarrow> bool" where
  "is_word_gap c \<longleftrightarrow> is_space_char c \<or> c = CHR '',''"

fun count_words :: "bool \<Rightarrow> string \<Rightarrow> nat" where
  "count_words inside [] = 0"
| "count_words inside (c # cs) =
     (if is_letter_char c \<and> \<not> inside then Suc (count_words True cs) else count_words (is_letter_char c) cs)"

definition MNEMONIC_LIKE_TEXT :: "string \<Rightarrow> bool" where
  "MNEMONIC_LIKE_TEXT s \<longleftrightarrow>
     s \<noteq> [] \<and> list_all (\<lambda>c. is_letter_char c \<or> is_word_gap c) s
     \<and> is_letter_char (hd s) \<and> is_letter_char (last s) \<and> 12 \<le> count_words False s"

definition base64_char :: "char \<Rightarrow> bool" where
  "base64_char c \<longleftrightarrow> is_alnum_char c \<or> c = CHR ''+'' \<or> c = CHR ''/''"

definition base64_text :: "string \<Rightarrow> bool" where
  "base64_text s \<longleftrightarrow>
     80 \<le> length (takeWhile base64_char s)
     \<and> dropWhile base64_char s \<in> {[], ''='', ''==''}
     \<and> list_ex (\<lambda>c. c \<in> {CHR ''+'', CHR ''/'', CHR ''=''}) s"

definition public_text :: "string \<Rightarrow> bool" where
  "public_text s \<longleftrightarrow> \<not> SECRET_TEXT s \<and> \<not> MNEMONIC_LIKE_TEXT s \<and> \<not> base64_text s"

section \<open>Results of an upload\<close>

definition UPLOAD_RESULT_KEYS :: "string list" where
  "UPLOAD_RESULT_KEYS =
     [''command'', ''confirmedIndexes'', ''executionId'', ''leaseLifecycle'', ''liveWriteAttempted'',
      ''liveWriteExecuted'', ''processed'', ''sent'', ''skippedIndexes'', ''stateMutation'', ''status'']"

definition CONFIRMATION_KEYS :: "string list" where
  "CONFIRMATION_KEYS = [''chunkIndex'', ''confirmationDurationMs'']"

definition UPLOAD_RESULT_STATUSES :: "string list" where
  "UPLOAD_RESULT_STATUSES =
     [''COMPLETE'', ''WINDOW_LIMIT'', ''RATE_LIMITED'', ''CONFIRMED_FAILURE'', ''UNKNOWN'']"

definition RPC_REQUEST_POLICY_KEYS :: "string list" where
  "RPC_REQUEST_POLICY_KEYS =
     [''confirmationPollIntervalMs'', ''globalRequestStartGapMs'', ''rateLimitRetryScheduleMs'',
      ''requestTimeoutMs'']"

definition isSafeRpcRequestPolicy :: "js \<Rightarrow> bool" where
  "isSafeRpcRequestPolicy v \<longleftrightarrow>
     exact_keys v RPC_REQUEST_POLICY_KEYS
     \<and> get v ''globalRequestStartGapMs'' = JNum 500
     \<and> is_safe_integer (get v ''requestTimeoutMs'') \<and> 0 < num_of (get v ''requestTimeoutMs'')
     \<and> get v ''confirmationPollIntervalMs'' = JNum 2000
     \<and> get v ''rateLimitRetryScheduleMs'' = JArr [JNum 2000, JNum 5000]"

text \<open>Safe integers, each above the one before it.\<close>

fun index_array_from :: "rat option \<Rightarrow> js list \<Rightarrow> bool" where
  "index_array_from prev [] = True"
| "index_array_from prev (v # vs) =
     (is_safe_integer v \<and> 0 \<le> num_of v \<and> (case prev of None \<Rightarrow> True | Some m \<Rightarrow> m < num_of v)
      \<and> index_array_from (Some (num_of v)) vs)"

definition isStrictPublicIndexArray :: "js \<Rightarrow> bool" where
  "isStrictPublicIndexArray v = (case v of JArr vs \<Rightarrow> index_array_from None vs | _ \<Rightarrow> False)"

definition safe_confirmation :: "js \<Rightarrow> js \<Rightarrow> bool" where
  "safe_confirmation item index \<longleftrightarrow>
     exact_keys item CONFIRMATION_KEYS \<and> strict_equal (get item ''chunkIndex'') index
     \<and> is_safe_integer (get item ''confirmationDurationMs'') \<and> 0 \<le> num_of (get item ''confirmationDurationMs'')"

definition isSafeConfirmations :: "js \<Rightarrow> js \<Rightarrow> bool" where
  "isSafeConfirmations v confirmedIndexes =
     (case (v, confirmedIndexes) of
        (JArr items, JArr indexes) \<Rightarrow>
          length items = length indexes \<and> list_all (\<lambda>(i, n). safe_confirmation i n) (zip items indexes)
      | _ \<Rightarrow> False)"

text \<open>\<open>String(v)\<close>; the elements of an array are joined by commas, absent ones are empty.\<close>

fun js_text :: "(rat \<Rightarrow> string) \<Rightarrow> js \<Rightarrow> string" where
  "js_text number_text Undefined = ''undefined''"
| "js_text number_text JNull = ''null''"
| "js_text number_text (JBool b) = (if b then ''true'' else ''false'')"
| "js_text number_text (JNum r) = number_text r"
| "js_text number_text JNonFinite = ''NaN''"
| "js_text number_text (JStr s) = s"
| "js_text number_text (JArr []) = []"
| "js_text number_text (JArr (v # vs)) =
     (if nullish v then [] else js_text number_text v)
     @ concat (map (\<lambda>w. CHR '','' # (if nullish w then [] else js_text number_text w)) vs)"
| "js_text number_text (JObj kvs) = ''[object Object]''"

definition is_bool :: "js \<Rightarrow> bool" where
  "is_bool v = (case v of JBool b \<Rightarrow> True | _ \<Rightarrow> False)"

definition upload_result :: "(rat \<Rightarrow> string) \<Rightarrow> js \<Rightarrow> bool" where
  "upload_result number_text v =
     (let f = get v;
          expectedKeys = UPLOAD_RESULT_KEYS
            @ (if f ''confirmations'' = Undefined then [] else [''confirmations''])
            @ (if f ''rpcRequestSummary'' = Undefined then [] else [''rpcRequestSummary''])
            @ (if f ''rpcRequestPolicy'' = Undefined then [] else [''rpcRequestPolicy'']) in
      exact_keys v expectedKeys
      \<and> f ''command'' = JStr ''upload-buffer-throttled''
      \<and> safe_identifier ''._-'' (js_text number_text (coalesce (f ''executionId'') (JStr [])))
      \<and> str_in (f ''status'') UPLOAD_RESULT_STATUSES
      \<and> f ''leaseLifecycle'' = JStr ''RECONCILIATION_REQUIRED'' \<and> f ''stateMutation'' = JBool True
      \<and> is_bool (f ''liveWriteAttempted'')
      \<and> (is_bool (f ''liveWriteExecuted'') \<or> f ''liveWriteExecuted'' = JNull)
      \<and> is_safe_integer (f ''processed'') \<and> 0 \<le> num_of (f ''processed'')
      \<and> num_of (f ''processed'') \<le> of_nat MAX_UPLOAD_CHUNKS
      \<and> strict_equal (f ''sent'') (f ''processed'')
      \<and> isStrictPublicIndexArray (f ''confirmedIndexes'')
      \<and> JNat (length (elements (f ''confirmedIndexes''))) = f ''sent''
      \<and> (f ''confirmations'' \<noteq> Undefined \<longrightarrow> isSafeConfirmations (f ''confirmations'') (f ''confirmedIndexes''))
      \<and> isStrictPublicIndexArray (f ''skippedIndexes'')
      \<and> distinct (elements (f ''confirmedIndexes'') @ elements (f ''skippedIndexes''))
      \<and> (f ''rpcRequestSummary'' \<noteq> Undefined \<longrightarrow> isSafeRpcRequestSummary (f ''rpcRequestSummary''))
      \<and> (f ''rpcRequestPolicy'' \<noteq> Undefined \<longrightarrow> isSafeRpcRequestPolicy (f ''rpcRequestPolicy'')))"

text \<open>The set of the two arrays; an array is named by its place in the output.\<close>

definition allowedPublicIndexArrays :: "(rat \<Rightarrow> string) \<Rightarrow> js \<Rightarrow> string list" where
  "allowedPublicIndexArrays number_text v =
     (if upload_result number_text v then [''output.confirmedIndexes'', ''output.skippedIndexes''] else [])"

section \<open>The check of an output\<close>

abbreviation forbidden :: "'a result" where
  "forbidden \<equiv> throw ''secret-bearing output is forbidden''"

definition byte_array :: "js list \<Rightarrow> bool" where
  "byte_array vs \<longleftrightarrow> 16 \<le> length vs \<and> list_all is_byte_number vs"

fun assertSafeOutput :: "string list \<Rightarrow> js \<Rightarrow> string \<Rightarrow> unit result" where
  "assertSafeOutput allowed (JArr vs) path =
     (if path \<in> set allowed then Inr ()
      else if byte_array vs then forbidden
      else for_each (\<lambda>(i, item). assertSafeOutput allowed item (path @ ''['' @ show_nat i @ '']''))
             (index_from 0 vs))"
| "assertSafeOutput allowed (JStr s) path = (if public_text s then Inr () else forbidden)"
| "assertSafeOutput allowed (JObj kvs) path =
     for_each (\<lambda>(k, item).
        if isSecretKey k then forbidden
        else if k = ''rpcRequestPolicy'' \<and> \<not> isSafeRpcRequestPolicy item then forbidden
        else assertSafeOutput allowed item (path @ ''.'' @ k)) kvs"
| "assertSafeOutput allowed Undefined path = forbidden"
| "assertSafeOutput allowed v path = Inr ()"

definition sanitizeExecutionOutput :: "(rat \<Rightarrow> string) \<Rightarrow> js \<Rightarrow> js result" where
  "sanitizeExecutionOutput number_text v =
     (if \<not> is_object v then forbidden
      else if get v ''command'' = JStr ''upload-buffer-throttled'' \<and> get v ''confirmations'' \<noteq> Undefined
              \<and> \<not> isSafeConfirmations (get v ''confirmations'') (get v ''confirmedIndexes'')
      then forbidden
      else and_then (assertSafeOutput (allowedPublicIndexArrays number_text v) v ''output'')
             (\<lambda>_. Inr v))"

section \<open>What may be published\<close>

fun public_value :: "js \<Rightarrow> bool" where
  "public_value (JArr vs) = (\<not> byte_array vs \<and> (\<forall>v\<in>set vs. public_value v))"
| "public_value (JStr s) = public_text s"
| "public_value (JObj kvs) =
     (\<forall>(k, v)\<in>set kvs. \<not> isSecretKey k \<and> (k = ''rpcRequestPolicy'' \<longrightarrow> isSafeRpcRequestPolicy v)
        \<and> public_value v)"
| "public_value Undefined = False"
| "public_value v = True"

text \<open>No place below \<open>path\<close> is in the list.\<close>

definition off_list :: "string list \<Rightarrow> string \<Rightarrow> bool" where
  "off_list allowed path \<longleftrightarrow>
     path \<notin> set allowed \<and> (\<forall>a\<in>set allowed. \<not> prefix (path @ ''.'') a \<and> \<not> prefix (path @ ''['') a)"

lemma off_list_below:
  assumes "off_list allowed path" and "c = CHR ''.'' \<or> c = CHR ''[''"
  shows "off_list allowed (path @ c # rest)"
proof -
  have "\<not> prefix (path @ c # rest @ more) a" if "a \<in> set allowed" for a more
  proof
    assume "prefix (path @ c # rest @ more) a"
    then have "prefix (path @ [c]) a"
      by (metis append.assoc append_Cons append_Nil append_prefixD)
    with assms that show False by (auto simp: off_list_def)
  qed
  from this [of _ "''.''"] this [of _ "''[''"] this [of _ "[]"] show ?thesis
    by (auto simp: off_list_def)
qed

lemma assertSafeOutput_off_list:
  "off_list allowed path \<Longrightarrow> assertSafeOutput allowed v path = Inr () \<longleftrightarrow> public_value v"
proof (induction allowed v path rule: assertSafeOutput.induct)
  case (1 allowed vs path)
  have "path \<notin> set allowed" using "1.prems" by (simp add: off_list_def)
  show ?case
  proof (cases "byte_array vs")
    case False
    have "assertSafeOutput allowed (JArr vs) path = Inr ()
        \<longleftrightarrow> (\<forall>p\<in>set (index_from 0 vs). public_value (snd p))"
      using "1.IH" [OF \<open>path \<notin> set allowed\<close> False _ refl] off_list_below [OF "1.prems", of "CHR ''[''"]
        \<open>path \<notin> set allowed\<close> False
      by (auto simp: for_each_eq_Inr split_beta)
    with False show ?thesis by (simp add: ball_index_from)
  qed (simp add: \<open>path \<notin> set allowed\<close>)
next
  case (3 allowed kvs path)
  have "assertSafeOutput allowed item (path @ ''.'' @ k) = Inr () \<longleftrightarrow> public_value item"
    if "(k, item) \<in> set kvs" "\<not> isSecretKey k" "\<not> (k = ''rpcRequestPolicy'' \<and> \<not> isSafeRpcRequestPolicy item)"
    for k item
    using "3.IH" [OF that(1) refl that(2,3)] off_list_below [OF "3.prems", of "CHR ''.''" k] by simp
  then show ?case by (fastforce simp: for_each_eq_Inr split: if_splits)
qed auto

text \<open>All the values inside a value, itself included.\<close>

fun parts :: "js \<Rightarrow> js list" where
  "parts (JArr vs) = JArr vs # concat (map parts vs)"
| "parts (JObj kvs) = JObj kvs # concat (map (\<lambda>(k, v). parts v) kvs)"
| "parts v = [v]"

definition public_part :: "js \<Rightarrow> bool" where
  "public_part x \<longleftrightarrow>
     (case x of JStr s \<Rightarrow> public_text s
      | JArr vs \<Rightarrow> byte_array vs \<longrightarrow> index_array_from None vs
      | JObj kvs \<Rightarrow> \<forall>k\<in>set (map fst kvs). \<not> isSecretKey k
      | Undefined \<Rightarrow> False
      | _ \<Rightarrow> True)"

lemma public_value_parts: "public_value v \<Longrightarrow> x \<in> set (parts v) \<Longrightarrow> public_part x"
proof (induction v arbitrary: x rule: parts.induct)
  case (2 kvs)
  show ?case
  proof (cases "x = JObj kvs")
    case True
    with "2.prems"(1) show ?thesis by (auto simp: public_part_def)
  next
    case False
    with "2.prems"(2) obtain k v where "(k, v) \<in> set kvs" "x \<in> set (parts v)" by auto
    with "2.prems"(1) "2.IH" [of "(k, v)" k v] show ?thesis by fastforce
  qed
qed (auto simp: public_part_def)

lemma index_array_parts: "index_array_from m vs \<Longrightarrow> v \<in> set vs \<Longrightarrow> \<exists>r. v = JNum r"
  by (induction m vs rule: index_array_from.induct)
    (auto simp: is_safe_integer_def split: js.splits)

lemma strict_index_array_parts:
  assumes "isStrictPublicIndexArray v" and "x \<in> set (parts v)"
  shows "public_part x"
proof -
  from assms(1) obtain vs where vs: "v = JArr vs" "index_array_from None vs"
    by (auto simp: isStrictPublicIndexArray_def split: js.splits)
  show ?thesis
  proof (cases "x = v")
    case False
    with assms(2) vs(1) obtain y where "y \<in> set vs" "x \<in> set (parts y)" by auto
    moreover from this index_array_parts [OF vs(2)] obtain r where "y = JNum r" by blast
    ultimately show ?thesis by (simp add: public_part_def)
  qed (simp add: vs public_part_def)
qed

lemma output_field_off_list:
  assumes "k \<noteq> ''confirmedIndexes''" and "k \<noteq> ''skippedIndexes''"
  shows "off_list [''output.confirmedIndexes'', ''output.skippedIndexes''] (''output.'' @ k)"
proof -
  have "\<not> prefix (k @ [c]) a" if "c \<notin> set a" for c and a :: string
    using that by (auto simp: prefix_def)
  with assms show ?thesis by (simp add: off_list_def)
qed

lemma upload_result_keys:
  assumes "upload_result number_text (JObj kvs)"
  shows "distinct (map fst kvs)"
proof -
  let ?v = "JObj kvs"
  define ks where "ks = UPLOAD_RESULT_KEYS
      @ (if get ?v ''confirmations'' = Undefined then [] else [''confirmations''])
      @ (if get ?v ''rpcRequestSummary'' = Undefined then [] else [''rpcRequestSummary''])
      @ (if get ?v ''rpcRequestPolicy'' = Undefined then [] else [''rpcRequestPolicy''])"
  from assms have "sort (map fst kvs) = sort ks"
    by (simp add: upload_result_def Let_def exact_keys_def ks_def)
  moreover have "distinct ks" by (simp add: ks_def UPLOAD_RESULT_KEYS_def)
  ultimately show ?thesis by (metis distinct_sort)
qed

lemma upload_result_arrays:
  assumes "upload_result number_text (JObj kvs)" and "(k, x) \<in> set kvs"
    and "k = ''confirmedIndexes'' \<or> k = ''skippedIndexes''"
  shows "isStrictPublicIndexArray x"
proof -
  from upload_result_keys [OF assms(1)] assms(2) have "get (JObj kvs) k = x"
    by (simp add: map_of_is_SomeI)
  with assms(1,3) show ?thesis by (auto simp: upload_result_def Let_def)
qed

text \<open>Every part of an output that passes is public: texts that name no secret, no secret property,
  and byte-shaped arrays only where they are the increasing chunk indexes of an upload result.\<close>

lemma sanitized_parts:
  assumes "sanitizeExecutionOutput number_text v = Inr w" and "x \<in> set (parts w)"
  shows "w = v \<and> public_part x"
proof -
  from assms(1) obtain kvs where v: "v = JObj kvs" "w = v"
    and ok: "assertSafeOutput (allowedPublicIndexArrays number_text v) v ''output'' = Inr ()"
    by (cases v) (auto simp: sanitizeExecutionOutput_def and_then_eq_Inr split: if_splits)
  have "public_part x"
  proof (cases "upload_result number_text v")
    case False
    then have "public_value v"
      using ok assertSafeOutput_off_list [of "[]" "''output''" v]
      by (simp add: allowedPublicIndexArrays_def off_list_def)
    with assms(2) v show ?thesis by (blast intro: public_value_parts)
  next
    case True
    let ?allowed = "[''output.confirmedIndexes'', ''output.skippedIndexes'']"
    have fields: "\<not> isSecretKey k \<and> assertSafeOutput ?allowed y (''output.'' @ k) = Inr ()"
      if "(k, y) \<in> set kvs" for k y
      using ok that True v
      by (force simp: allowedPublicIndexArrays_def for_each_eq_Inr split: if_splits)
    have part: "public_part z" if "(k, y) \<in> set kvs" "z \<in> set (parts y)" for k y z
    proof (cases "k = ''confirmedIndexes'' \<or> k = ''skippedIndexes''")
      case T: True
      from upload_result_arrays [OF True [unfolded v] that(1) T] that(2) show ?thesis
        by (rule strict_index_array_parts)
    next
      case F: False
      then have "public_value y"
        using fields [OF that(1)] assertSafeOutput_off_list output_field_off_list by blast
      with that(2) show ?thesis by (rule public_value_parts [rotated])
    qed
    show ?thesis
    proof (cases "x = v")
      case True
      with fields v show ?thesis by (auto simp: public_part_def)
    next
      case False
      with assms(2) v part show ?thesis by auto
    qed
  qed
  with v show ?thesis by simp
qed

section \<open>Command lines\<close>

text \<open>The words that give options.\<close>

fun option_words :: "options \<Rightarrow> string list" where
  "option_words [] = []"
| "option_words ((k, v) # kvs) = (''--'' @ k) # v # option_words kvs"

lemma read_options_ok:
  "read_options allowed ws vals = Inr vals' \<Longrightarrow> distinct (map fst vals) \<Longrightarrow>
   \<exists>new. vals' = vals @ new \<and> ws = option_words new \<and> distinct (map fst vals')
     \<and> fst ` set new \<subseteq> set allowed"
proof (induction allowed ws vals rule: read_options.induct)
  case (3 allowed flag v rest vals)
  define key where "key = drop 2 flag"
  have flag: "flag = ''--'' @ key" if "starts_with ''--'' flag"
  proof -
    from that obtain r where "flag = CHR ''-'' # CHR ''-'' # r" by (auto elim!: starts_with.elims)
    then show ?thesis by (simp add: key_def)
  qed
  from "3.prems" have ok: "starts_with ''--'' flag" "key \<in> set allowed" "key \<notin> fst ` set vals"
    and rec: "read_options allowed rest (vals @ [(key, v)]) = Inr vals'"
    by (auto simp: key_def Let_def map_of_eq_None_iff [symmetric] split: if_splits simp del: not_None_eq)
  from ok(3) have absent: "map_of vals key = None" by (simp add: map_of_eq_None_iff)
  from ok(3) "3.prems"(2) have "distinct (map fst (vals @ [(key, v)]))" by auto
  with "3.IH" [OF key_def] ok(1,2) absent rec obtain new where
    "vals' = (vals @ [(key, v)]) @ new" "rest = option_words new" "distinct (map fst vals')"
    "fst ` set new \<subseteq> set allowed"
    by auto
  with ok(1,2) flag show ?case by (intro exI [of _ "(key, v) # new"]) auto
qed auto

lemma read_options_complete:
  "distinct (map fst (vals @ new)) \<Longrightarrow> fst ` set new \<subseteq> set allowed \<Longrightarrow>
   read_options allowed (option_words new) vals = Inr (vals @ new)"
proof (induction new arbitrary: vals)
  case (Cons kv new)
  then show ?case by (cases kv) (auto simp: map_of_eq_None_iff)
qed simp

text \<open>The accepted option lists: every allowed option once, in any order, none of them empty.\<close>

definition full_options :: "string list \<Rightarrow> options \<Rightarrow> bool" where
  "full_options allowed vals \<longleftrightarrow>
     distinct (map fst vals) \<and> set (map fst vals) = set allowed \<and> [] \<notin> set (map snd vals)"

lemma parseExactOptions_iff:
  "parseExactOptions (c # ws) allowed = Inr vals \<longleftrightarrow>
   ws = option_words vals \<and> full_options allowed vals"
proof
  assume "parseExactOptions (c # ws) allowed = Inr vals"
  then have rd: "read_options allowed ws [] = Inr vals"
    and all: "\<forall>k\<in>set allowed. map_of vals k \<notin> {None, Some []}"
    by (auto simp: parseExactOptions_def result_simps split: if_splits)
  from read_options_ok [OF rd] have ws: "ws = option_words vals" "distinct (map fst vals)"
      "fst ` set vals \<subseteq> set allowed"
    by auto
  moreover from all have "set allowed \<subseteq> fst ` set vals" by (force simp: map_of_eq_None_iff)
  moreover have "[] \<notin> snd ` set vals"
  proof
    assume "[] \<in> snd ` set vals"
    then obtain k where "(k, []) \<in> set vals" by force
    with ws(2,3) all show False by (force simp: map_of_is_SomeI)
  qed
  ultimately show "ws = option_words vals \<and> full_options allowed vals"
    by (auto simp: full_options_def)
next
  assume *: "ws = option_words vals \<and> full_options allowed vals"
  then have "read_options allowed ws [] = Inr vals"
    using read_options_complete [of "[]" vals allowed] by (auto simp: full_options_def)
  moreover have given: "map_of vals k \<notin> {None, Some []}" if "k \<in> set allowed" for k
    using * that by (force simp: full_options_def map_of_eq_None_iff dest!: map_of_SomeD)
  ultimately show "parseExactOptions (c # ws) allowed = Inr vals"
    by (auto simp: parseExactOptions_def and_then_eq_Inr for_each_eq_Inr dest!: given)
qed

lemma map_of_eq_if_mset:
  assumes "distinct (map fst kvs)" and "mset kvs = mset kvs'"
  shows "map_of kvs = map_of kvs'"
proof -
  from assms have "distinct (map fst kvs')" by (metis mset_eq_imp_distinct_iff mset_map)
  moreover from assms(2) have "set kvs = set kvs'" by (rule mset_eq_setD)
  ultimately show ?thesis using assms(1) by (simp add: map_of_inject_set)
qed

lemma opt_permute:
  "distinct (map fst vals) \<Longrightarrow> mset vals = mset vals' \<Longrightarrow> opt vals = opt vals'"
  using map_of_eq_if_mset [of vals vals'] by (simp add: opt_def fun_eq_iff)

text \<open>A command is pinned to devnet and to the identities of the deployment, carries the
  acknowledgement of what it changes, and its numbers are within their limits.\<close>

definition pinned_lease :: "lease_command \<Rightarrow> bool" where
  "pinned_lease l \<longleftrightarrow>
     lc_url l = DEVNET_RPC_URL \<and> lc_program l = PLAN_UPLOAD_IDENTITIES ''program''
     \<and> lc_buffer l = PLAN_UPLOAD_IDENTITIES ''buffer'' \<and> safe_identifier ''_-'' (lc_executionId l)"

definition pinned_upload :: "upload_command \<Rightarrow> bool" where
  "pinned_upload u \<longleftrightarrow>
     uc_url u = DEVNET_RPC_URL \<and> uc_program u = PLAN_UPLOAD_IDENTITIES ''program''
     \<and> uc_buffer u = PLAN_UPLOAD_IDENTITIES ''buffer''
     \<and> uc_acknowledgement u = LIVE_UPLOAD_ACKNOWLEDGEMENT
     \<and> 1 \<le> uc_maxChunks u \<and> uc_maxChunks u \<le> 5 \<and> 1000 \<le> uc_delayMs u
     \<and> 1 \<le> uc_requestTimeoutMs u \<and> uc_requestTimeoutMs u \<le> 2147483647"

definition pinned_bindings :: "pre_selection_bindings \<Rightarrow> bool" where
  "pinned_bindings b \<longleftrightarrow>
     (let x = pb_expected b in
      pb_url b = DEVNET_RPC_URL \<and> pb_program b = PLAN_UPLOAD_IDENTITIES ''program''
      \<and> pb_buffer b = PLAN_UPLOAD_IDENTITIES ''buffer''
      \<and> px_program x = pb_program b \<and> px_buffer x = pb_buffer b
      \<and> px_authority x = PLAN_UPLOAD_IDENTITIES ''authority''
      \<and> list_all hex64 [px_leaseSha256 x, px_evidenceSha256 x, px_stateSha256 x, px_bufferSha256 x]
      \<and> list_all hex40 [px_repositorySha x, px_incidentRepositorySha x]
      \<and> px_candidateIndexes x \<noteq> [] \<and> sorted_wrt (<) (px_candidateIndexes x)
      \<and> px_zeroSend x \<and> px_deadOwner x)"

fun pinned :: "runtime_command \<Rightarrow> bool" where
  "pinned (Upload_Buffer u) = pinned_upload u"
| "pinned (Inspect_Migration state binary) = True"
| "pinned (Migrate_State state binary ack) = (ack = MIGRATE_STATE_ACKNOWLEDGEMENT)"
| "pinned (Reconcile_Lease l) = pinned_lease l"
| "pinned (Apply_Reconciliation l h ack) =
     (pinned_lease l \<and> hex64 h \<and> ack = APPLY_RECONCILIATION_ACKNOWLEDGEMENT)"
| "pinned (Release_Lease l h ack) =
     (pinned_lease l \<and> hex64 h \<and> ack = RELEASE_LEASE_ACKNOWLEDGEMENT)"
| "pinned (Reconcile_Pre_Selection b) = pinned_bindings b"
| "pinned (Recover_Pre_Selection b h ack) =
     (pinned_bindings b \<and> hex64 h \<and> ack = RECOVER_PRE_SELECTION_LEASE_ACKNOWLEDGEMENT)"

lemma parseInteger_ok:
  "parseInteger v label low high = Inr n \<Longrightarrow> low \<le> n \<and> n \<le> high"
  by (auto simp: parseInteger_def Let_def split: if_splits)

lemma increasing_from_sorted:
  "increasing_from prev ns \<Longrightarrow> sorted_wrt (<) ns \<and> (\<forall>m n. prev = Some m \<longrightarrow> n \<in> set ns \<longrightarrow> m < n)"
proof (induction prev ns rule: increasing_from.induct)
  case (2 prev n ns)
  then show ?case by (cases prev) auto
qed simp

lemma parseCandidateIndexes_ok:
  "parseCandidateIndexes v = Inr ns \<Longrightarrow> ns \<noteq> [] \<and> sorted_wrt (<) ns"
proof -
  assume *: "parseCandidateIndexes v = Inr ns"
  then have ns: "ns = map digits_value (split_on CHR '','' v)" "increasing_from None ns"
    by (auto simp: parseCandidateIndexes_def Let_def split: if_splits)
  have "split_on CHR '','' v \<noteq> []" by (induction v) (auto split: list.splits)
  with ns increasing_from_sorted [OF ns(2)] show ?thesis by simp
qed

lemma canonical_lease_ok:
  "assertCanonicalLeaseCommand urls vals = Inr u \<Longrightarrow>
   opt vals ''url'' = DEVNET_RPC_URL \<and> opt vals ''program'' = PLAN_UPLOAD_IDENTITIES ''program''
   \<and> opt vals ''buffer'' = PLAN_UPLOAD_IDENTITIES ''buffer''"
  by (auto simp: assertCanonicalLeaseCommand_def result_simps)

lemma parseUploadCommand_pinned: "parseUploadCommand urls argv = Inr u \<Longrightarrow> pinned_upload u"
  by (auto simp: parseUploadCommand_def pinned_upload_def result_simps MAX_UPLOAD_CHUNKS_def
      MIN_UPLOAD_DELAY_MS_def split: if_splits dest!: parseInteger_ok)

lemma parsePreSelectionBindings_pinned:
  "parsePreSelectionBindings urls vals = Inr b \<Longrightarrow> pinned_bindings b"
  by (auto simp: parsePreSelectionBindings_def pinned_bindings_def result_simps Let_def
      assertLowercaseReconciliationHash_def dest!: canonical_lease_ok parseCandidateIndexes_ok)

lemma parseRuntimeCommand_pinned: "parseRuntimeCommand urls argv = Inr c \<Longrightarrow> pinned c"
  by (auto simp: parseRuntimeCommand_def Let_def result_simps pinned_lease_def lease_command_of_def
      assertSafeExecutionId_def assertLowercaseReconciliationHash_def split: if_splits
      dest!: canonical_lease_ok dest: parseUploadCommand_pinned parsePreSelectionBindings_pinned)

text \<open>The command that a word names takes these options.\<close>

definition command_keys :: "string \<Rightarrow> string list" where
  "command_keys name =
     (if name = ''upload-buffer-throttled'' then LIVE_KEYS
      else if name = ''inspect-state-migration'' then INSPECT_KEYS
      else if name = ''migrate-state-v3'' then MIGRATE_KEYS
      else if name = ''reconcile-upload-lease'' then RECONCILE_KEYS
      else if name = ''apply-upload-reconciliation'' then APPLY_RECONCILIATION_KEYS
      else if name = ''release-upload-lease'' then RELEASE_KEYS
      else if name = ''reconcile-pre-selection-upload-lease'' then PRE_SELECTION_RECONCILE_KEYS
      else PRE_SELECTION_RECOVER_KEYS)"

lemma parseRuntimeCommand_options:
  assumes "parseRuntimeCommand urls argv = Inr c"
  shows "\<exists>name vals. argv = name # option_words vals \<and> full_options (command_keys name) vals"
proof -
  from assms have ne: "argv \<noteq> []" by (auto simp: parseRuntimeCommand_def Let_def)
  have "\<exists>vals. parseExactOptions argv (command_keys (hd argv)) = Inr vals"
    using assms ne
    by (auto simp: parseRuntimeCommand_def parseUploadCommand_def command_keys_def Let_def result_simps
        split: list.splits if_splits)
  with ne show ?thesis by (cases argv) (auto simp: parseExactOptions_iff)
qed

lemma parseRuntimeCommand_permute:
  assumes "parseRuntimeCommand urls (name # option_words vals) = Inr c"
    and "full_options (command_keys name) vals" and "mset vals = mset vals'"
  shows "parseRuntimeCommand urls (name # option_words vals') = Inr c"
proof -
  have dist: "distinct (map fst vals)" using assms(2) by (simp add: full_options_def)
  have "set vals = set vals'" using assms(3) by (rule mset_eq_setD)
  moreover from dist assms(3) have "distinct (map fst vals')" by (metis mset_eq_imp_distinct_iff mset_map)
  ultimately have "full_options allowed vals' \<longleftrightarrow> full_options allowed vals" for allowed
    using dist by (simp add: full_options_def)
  then have "parseExactOptions (name # option_words vals) allowed = Inr vals \<Longrightarrow>
      parseExactOptions (name # option_words vals') allowed = Inr vals'" for allowed
    by (simp add: parseExactOptions_iff)
  moreover have "parseExactOptions (name # option_words vals) (command_keys name) = Inr vals"
    using assms(2) by (simp add: parseExactOptions_iff)
  ultimately have parsed: "parseExactOptions (name # option_words vals) (command_keys name) = Inr vals"
      "parseExactOptions (name # option_words vals') (command_keys name) = Inr vals'"
    by blast+
  note same = opt_permute [OF dist assms(3)]
  have "assertCanonicalLeaseCommand urls vals' = assertCanonicalLeaseCommand urls vals"
      "parsePreSelectionBindings urls vals' = parsePreSelectionBindings urls vals"
      "lease_command_of vals' = lease_command_of vals"
    by (simp_all add: parsePreSelectionBindings_def assertCanonicalLeaseCommand_def lease_command_of_def same)
  with assms(1) parsed show ?thesis
    by (simp add: parseRuntimeCommand_def parseUploadCommand_def command_keys_def Let_def same
        split: if_splits)
qed

end
