(* ===== verification/Lease_Files.thy ===== *)
theory Lease_Files imports Upload_State Execution_Contract begin

text \<open>
  The directories and files that the lease of an upload is made of, and the calls of
  \<open>node:fs\<close> on them.  A directory holds files only; a path names a file or a directory.  The bytes
  of a file are a type of their own, with their hash, \<open>JSON.parse\<close> and \<open>JSON.stringify\<close> in the
  environment of the lease.  Every call may fail: an oracle gives the errno code, and what a write
  that failed has left of its file.
\<close>

section \<open>Paths\<close>

definition dirname :: "path \<Rightarrow> path" where
  "dirname p =
     (let d = rev (drop 1 (dropWhile (\<lambda>c. c \<noteq> CHR ''/'') (rev p))) in
      if CHR ''/'' \<notin> set p then ''.'' else if d = [] then ''/'' else d)"

text \<open>\<open>join\<close> of normalised parts.\<close>

definition join_path :: "path \<Rightarrow> path \<Rightarrow> path" where
  "join_path d p = (if d = ''.'' then p else if d = ''/'' then ''/'' @ p else d @ ''/'' @ p)"

section \<open>Nodes\<close>

datatype 'b node = File 'b | Dir "(string \<times> 'b) list"

type_synonym 'b disk = "path \<Rightarrow> 'b node option"

fun dir_entries :: "'b node option \<Rightarrow> (string \<times> 'b) list" where
  "dir_entries (Some (Dir d)) = d"
| "dir_entries _ = []"

abbreviation dir_files :: "'b node option \<Rightarrow> string \<Rightarrow> 'b option" where
  "dir_files n \<equiv> map_of (dir_entries n)"

text \<open>\<open>readdirSync(p).sort()\<close>.\<close>

definition file_names :: "'b node option \<Rightarrow> string list" where
  "file_names n = sort (map fst (dir_entries n))"

definition set_entry :: "string \<Rightarrow> 'b option \<Rightarrow> (string \<times> 'b) list \<Rightarrow> (string \<times> 'b) list" where
  "set_entry name b d =
     filter (\<lambda>(n, x). n \<noteq> name) d @ (case b of None \<Rightarrow> [] | Some x \<Rightarrow> [(name, x)])"

lemma map_of_set_entry [simp]: "map_of (set_entry name b d) = (map_of d)(name := b)"
proof (rule ext)
  fix n
  have "map_of (filter (\<lambda>(n, x). n \<noteq> name) d) n = (if n = name then None else map_of d n)"
    by (induction d) auto
  then show "map_of (set_entry name b d) n = ((map_of d)(name := b)) n"
    by (auto simp: set_entry_def map_add_def split: option.splits)
qed

definition existsPath :: "path \<Rightarrow> 'b disk \<Rightarrow> bool" where
  "existsPath p disk \<longleftrightarrow> disk p \<noteq> None"

datatype lease_call =
    Make_Lease | Write_Metadata | Rename_Metadata
  | Make_Lock | Remove_Lock
  | Save_Mkdir | Save_Write | Save_Rename
  | Restore_Write | Restore_Rename
  | Make_Archive_Root | Write_Receipt | Rename_Receipt | Rename_Archive
  | Receipt_Io io_call | Parent_Io io_call | Archive_Io io_call

record 'b lease_io =
  li_fails :: "lease_call \<Rightarrow> string option"
  li_left :: "lease_call \<Rightarrow> 'b option"

type_synonym ('a, 'b) disk_call = "('a, 'b disk) effect"

definition readFile :: "path \<Rightarrow> 'b disk \<Rightarrow> 'b result" where
  "readFile p disk =
     (case disk p of Some (File b) \<Rightarrow> Inr b | Some (Dir d) \<Rightarrow> throw ''EISDIR'' | None \<Rightarrow> throw ''ENOENT'')"

definition readFileIn :: "path \<Rightarrow> string \<Rightarrow> 'b disk \<Rightarrow> 'b result" where
  "readFileIn p name disk =
     (case dir_files (disk p) name of Some b \<Rightarrow> Inr b | None \<Rightarrow> throw ''ENOENT'')"

text \<open>A call that the oracle lets through.\<close>

definition may_fail :: "'b lease_io \<Rightarrow> lease_call \<Rightarrow> ('a, 'b) disk_call \<Rightarrow> ('a, 'b) disk_call" where
  "may_fail io c m disk = (case li_fails io c of Some e \<Rightarrow> (throw e, disk) | None \<Rightarrow> m disk)"

definition mkdir :: "'b lease_io \<Rightarrow> lease_call \<Rightarrow> path \<Rightarrow> (unit, 'b) disk_call" where
  "mkdir io c p disk =
     (if existsPath p disk then (throw ''EEXIST'', disk)
      else may_fail io c (\<lambda>disk. (Inr (), disk(p := Some (Dir [])))) disk)"

text \<open>\<open>mkdir\<close> as a lock: that the directory exists is an error of its own.\<close>

definition mkdir_exclusive :: "'b lease_io \<Rightarrow> lease_call \<Rightarrow> path \<Rightarrow> string \<Rightarrow> (unit, 'b) disk_call" where
  "mkdir_exclusive io c p busy disk =
     (case mkdir io c p disk of
        (Inl e, disk') \<Rightarrow> (Inl (if e = Error ''EEXIST'' then Error busy else e), disk')
      | (Inr u, disk') \<Rightarrow> (Inr u, disk'))"

text \<open>\<open>mkdir\<close> with \<open>recursive\<close> of a directory whose entries are named by full paths: it succeeds or
  it fails, and no path of the model appears.\<close>

definition mkdir_recursive :: "'b lease_io \<Rightarrow> lease_call \<Rightarrow> (unit, 'b) disk_call" where
  "mkdir_recursive io c = may_fail io c (give ())"

definition writeFile :: "'b lease_io \<Rightarrow> lease_call \<Rightarrow> path \<Rightarrow> 'b \<Rightarrow> (unit, 'b) disk_call" where
  "writeFile io c p b disk =
     (case li_fails io c of
        Some e \<Rightarrow> (throw e, case li_left io c of None \<Rightarrow> disk | Some b' \<Rightarrow> disk(p := Some (File b')))
      | None \<Rightarrow> (Inr (), disk(p := Some (File b))))"

definition set_file_in :: "path \<Rightarrow> string \<Rightarrow> 'b option \<Rightarrow> 'b disk \<Rightarrow> 'b disk" where
  "set_file_in p name b disk =
     (case disk p of Some (Dir d) \<Rightarrow> disk(p := Some (Dir (set_entry name b d))) | _ \<Rightarrow> disk)"

text \<open>A write with the flag \<open>wx\<close> into a directory.\<close>

definition writeNewFileIn :: "'b lease_io \<Rightarrow> lease_call \<Rightarrow> path \<Rightarrow> string \<Rightarrow> 'b \<Rightarrow> (unit, 'b) disk_call" where
  "writeNewFileIn io c p name b disk =
     (if dir_files (disk p) name \<noteq> None then (throw ''EEXIST'', disk)
      else case li_fails io c of
        Some e \<Rightarrow> (throw e, set_file_in p name (li_left io c) disk)
      | None \<Rightarrow> (Inr (), set_file_in p name (Some b) disk))"

definition renameFileIn :: "'b lease_io \<Rightarrow> lease_call \<Rightarrow> path \<Rightarrow> string \<Rightarrow> string \<Rightarrow> (unit, 'b) disk_call" where
  "renameFileIn io c p a b =
     may_fail io c (\<lambda>disk.
       case dir_files (disk p) a of
         None \<Rightarrow> (throw ''ENOENT'', disk)
       | Some x \<Rightarrow> (Inr (), set_file_in p a None (set_file_in p b (Some x) disk)))"

definition renamePath :: "'b lease_io \<Rightarrow> lease_call \<Rightarrow> path \<Rightarrow> path \<Rightarrow> (unit, 'b) disk_call" where
  "renamePath io c a b =
     may_fail io c (\<lambda>disk.
       case disk a of
         None \<Rightarrow> (throw ''ENOENT'', disk)
       | Some x \<Rightarrow>
           (case (x, disk b) of
              (File _, Some (Dir _)) \<Rightarrow> (throw ''EISDIR'', disk)
            | (Dir _, Some (File _)) \<Rightarrow> (throw ''ENOTDIR'', disk)
            | (Dir _, Some (Dir d)) \<Rightarrow>
                if d \<noteq> [] then (throw ''ENOTEMPTY'', disk)
                else (Inr (), (disk(a := None))(b := Some x))
            | _ \<Rightarrow> (Inr (), (disk(a := None))(b := Some x))))"

text \<open>\<open>try { m } finally { rmdirSync(lock) }\<close>: a failure of the clean-up replaces the result.\<close>

definition with_lock_removed :: "'b lease_io \<Rightarrow> path \<Rightarrow> ('a, 'b) disk_call \<Rightarrow> ('a, 'b) disk_call" where
  "with_lock_removed io lock m disk =
     (let (r, disk') = m disk in
      case li_fails io Remove_Lock of
        Some e \<Rightarrow> (throw e, disk')
      | None \<Rightarrow> (r, disk'(lock := None)))"

section \<open>Calls change one place\<close>

text \<open>Which paths a call may change.\<close>

definition touches :: "path set \<Rightarrow> ('a, 'b) disk_call \<Rightarrow> bool" where
  "touches ps m \<longleftrightarrow> (\<forall>disk r disk'. m disk = (r, disk') \<longrightarrow> (\<forall>q. q \<notin> ps \<longrightarrow> disk' q = disk q))"

lemma touchesD: "touches ps m \<Longrightarrow> m disk = (r, disk') \<Longrightarrow> q \<notin> ps \<Longrightarrow> disk' q = disk q"
  by (auto simp: touches_def)

named_theorems touches_intros \<open>calls that change few paths\<close>

lemma touches_then_do [touches_intros]:
  assumes "touches ps m" and "\<And>x. touches ps (f x)"
  shows "touches ps (then_do m f)"
  unfolding touches_def
proof (intro allI impI)
  fix disk r disk' q
  assume "then_do m f disk = (r, disk')" and q: "q \<notin> ps"
  then show "disk' q = disk q"
  proof (cases rule: then_do_cases)
    case (throws e)
    with assms(1) q show ?thesis by (blast dest: touchesD)
  next
    case (returns x s1)
    with touchesD [OF assms(1) returns(1) q] touchesD [OF assms(2) returns(2) q] show ?thesis by simp
  qed
qed

lemma touches_pure [touches_intros]:
  "touches ps (give x)" "touches ps (fail e)" "touches ps (lift_result r)"
  by (simp_all add: touches_def)

lemma touches_mkdir [touches_intros]: "p \<in> ps \<Longrightarrow> touches ps (mkdir io c p)"
  by (auto simp: touches_def mkdir_def may_fail_def split: if_splits option.splits)

lemma touches_mkdir_exclusive [touches_intros]: "p \<in> ps \<Longrightarrow> touches ps (mkdir_exclusive io c p busy)"
  using touches_mkdir [of p ps io c]
  by (auto simp: touches_def mkdir_exclusive_def split: prod.splits sum.splits)

lemma touches_mkdir_recursive [touches_intros]: "touches ps (mkdir_recursive io c)"
  by (auto simp: touches_def mkdir_recursive_def may_fail_def split: option.splits)

lemma touches_writeFile [touches_intros]: "p \<in> ps \<Longrightarrow> touches ps (writeFile io c p b)"
  by (auto simp: touches_def writeFile_def split: option.splits)

lemma set_file_in_other: "q \<noteq> p \<Longrightarrow> set_file_in p name b disk q = disk q"
  by (auto simp: set_file_in_def split: option.splits node.splits)

lemma touches_writeNewFileIn [touches_intros]: "p \<in> ps \<Longrightarrow> touches ps (writeNewFileIn io c p name b)"
  by (auto simp: touches_def writeNewFileIn_def set_file_in_other split: option.splits if_splits)
    (metis set_file_in_other)+

lemma touches_renameFileIn [touches_intros]: "p \<in> ps \<Longrightarrow> touches ps (renameFileIn io c p a b)"
  by (auto simp: touches_def renameFileIn_def may_fail_def split: option.splits)
    (metis set_file_in_other)+

lemma touches_renamePath [touches_intros]: "a \<in> ps \<Longrightarrow> b \<in> ps \<Longrightarrow> touches ps (renamePath io c a b)"
  by (auto simp: touches_def renamePath_def may_fail_def split: option.splits node.splits if_splits)

lemma touches_lock [touches_intros]:
  "lock \<in> ps \<Longrightarrow> touches ps m \<Longrightarrow> touches ps (with_lock_removed io lock m)"
  by (auto simp: touches_def with_lock_removed_def split: prod.splits option.splits)

end
