(* ===== verification/Iso_Time.thy ===== *)
theory Iso_Time imports Live_Deployment begin

text \<open>
  The two operations of \<open>Date\<close> that the evidence modules use: the time value of an ISO text
  with milliseconds, \<open>new Date(s).getTime()\<close>, and \<open>new Date(t).toISOString()\<close>, over the
  proleptic Gregorian calendar.  A text with a month or a day out of range has the time value of
  the day it overflows to (a runtime may call it invalid; either way it is not its own ISO text).
\<close>

definition days_from_civil :: "int \<Rightarrow> int \<Rightarrow> int \<Rightarrow> int" where
  "days_from_civil y m d =
     (let y' = (if m \<le> 2 then y - 1 else y); era = y' div 400; yoe = y' - era * 400;
          doy = (153 * (if 2 < m then m - 3 else m + 9) + 2) div 5 + d - 1;
          doe = yoe * 365 + yoe div 4 - yoe div 100 + doy
      in era * 146097 + doe - 719468)"

definition civil_from_days :: "int \<Rightarrow> int \<times> int \<times> int" where
  "civil_from_days days =
     (let z = days + 719468; era = z div 146097; doe = z mod 146097;
          yoe = (doe - doe div 1460 + doe div 36524 - doe div 146096) div 365;
          doy = doe - (365 * yoe + yoe div 4 - yoe div 100); mp = (5 * doy + 2) div 153;
          d = doy - (153 * mp + 2) div 5 + 1; m = (if mp < 10 then mp + 3 else mp - 9)
      in (yoe + era * 400 + (if m \<le> 2 then 1 else 0), m, d))"

definition pad :: "nat \<Rightarrow> int \<Rightarrow> string" where
  "pad width n = (let s = show_nat (nat n) in replicate (width - length s) (CHR ''0'') @ s)"

definition MAX_TIME_MS :: int where
  "MAX_TIME_MS = 8640000000000000"

definition iso_text :: "int \<Rightarrow> string" where
  "iso_text t =
     (let days = t div 86400000; ms = t mod 86400000; (y, m, d) = civil_from_days days;
          year = (if 0 \<le> y \<and> y \<le> 9999 then pad 4 y
                  else if y < 0 then ''-'' @ pad 6 (- y) else ''+'' @ pad 6 y) in
      year @ ''-'' @ pad 2 m @ ''-'' @ pad 2 d @ ''T'' @ pad 2 (ms div 3600000) @ '':''
      @ pad 2 (ms div 60000 mod 60) @ '':'' @ pad 2 (ms div 1000 mod 60) @ ''.'' @ pad 3 (ms mod 1000) @ ''Z'')"

text \<open>\<open>/^\d{4}-\d{2}-\d{2}T\d{2}:\d{2}:\d{2}\.\d{3}Z$/\<close>.\<close>

fun matches_shape :: "string \<Rightarrow> string \<Rightarrow> bool" where
  "matches_shape [] s = (s = [])"
| "matches_shape (p # ps) [] = False"
| "matches_shape (p # ps) (c # cs) =
     ((if p = CHR ''d'' then is_digit_char c else c = p) \<and> matches_shape ps cs)"

definition iso_shape :: "string \<Rightarrow> bool" where
  "iso_shape s = matches_shape ''dddd-dd-ddTdd:dd:dd.dddZ'' s"

definition iso_time :: "string \<Rightarrow> int" where
  "iso_time s =
     (let field = (\<lambda>a n. int (digits_value (take n (drop a s)))) in
      days_from_civil (field 0 4) (field 5 2) (field 8 2) * 86400000
      + field 11 2 * 3600000 + field 14 2 * 60000 + field 17 2 * 1000 + field 20 3)"

definition validIso :: "js \<Rightarrow> bool" where
  "validIso v = (case v of JStr s \<Rightarrow> iso_shape s \<and> iso_text (iso_time s) = s | _ \<Rightarrow> False)"

text \<open>\<open>new Date(new Date(startedAt).getTime() + elapsed).toISOString()\<close>: the time value drops the
  fraction of a millisecond, and is refused beyond a hundred million days from the epoch.\<close>

definition isoAt :: "string \<Rightarrow> rat \<Rightarrow> string result" where
  "isoAt startedAt elapsed =
     (let t = of_int (iso_time startedAt) + elapsed; ms = (if t < 0 then - \<lfloor>- t\<rfloor> else \<lfloor>t\<rfloor>) in
      if MAX_TIME_MS < \<bar>ms\<bar> then throw ''Invalid time value'' else Inr (iso_text ms))"

end
