(* ===== verification/Upload_Telemetry.thy ===== *)
theory Upload_Telemetry imports Execution_Contract Iso_Time begin

text \<open>
  \<open>scripts/devnet/upload-execution-telemetry.mjs\<close>: the snapshot of the requests, sends and
  confirmation polls of one upload, its validation and completeness verdict, and the store that
  appends to it and writes it to a file after every event.

  Numbers are rationals, so the subtractions of the code are exact here; the tolerance of the
  duration checks is modelled as it is.  \<open>hash_json\<close> is the SHA-256 of the text of a value whose
  properties are sorted.
\<close>

section \<open>Schemas\<close>

definition VERSION :: string where
  "VERSION = ''UPLOAD_EXECUTION_TELEMETRY_V2''"

definition LEGACY_VERSION :: string where
  "LEGACY_VERSION = ''UPLOAD_EXECUTION_TELEMETRY_V1''"

definition MUTATION_SET :: "string list" where
  "MUTATION_SET = [''read'', ''write'']"

definition SEND_OUTCOME_SET :: "string list" where
  "SEND_OUTCOME_SET = [''SUCCESS'', ''ERROR'']"

definition LEGACY_POLICY_KEYS :: "string list" where
  "LEGACY_POLICY_KEYS =
     [''confirmationPollIntervalMs'', ''globalRequestStartGapMs'', ''interChunkDelayMs'',
      ''preSignCooldownMs'', ''rateLimitRetryScheduleMs'']"

definition POLICY_KEYS :: "string list" where
  "POLICY_KEYS = LEGACY_POLICY_KEYS @ [''requestTimeoutMs'']"

definition LEDGER_ENTRY_KEYS :: "string list" where
  "LEDGER_ENTRY_KEYS =
     [''durationMs'', ''endMonotonicMs'', ''methodClass'', ''mutationCapability'', ''outcome'',
      ''retryNumber'', ''sequence'', ''signaturePersisted'', ''startMonotonicMs'']"

definition LEDGER_START_KEYS :: "string list" where
  "LEDGER_START_KEYS =
     [''methodClass'', ''mutationCapability'', ''retryNumber'', ''sequence'', ''signaturePersisted'',
      ''startMonotonicMs'']"

definition REQUEST_KEYS :: "string list" where
  "REQUEST_KEYS =
     [''durationMs'', ''endElapsedMs'', ''finishedAt'', ''mutationCapability'', ''outcome'',
      ''requestType'', ''retryNumber'', ''sequence'', ''signaturePersisted'', ''startElapsedMs'',
      ''startedAt'']"

definition SEND_KEYS :: "string list" where
  "SEND_KEYS =
     [''chunkIndex'', ''outcome'', ''preSignCooldownFinishedAt'', ''preSignCooldownFinishedElapsedMs'',
      ''preSignCooldownMs'', ''preSignCooldownRequired'', ''preSignCooldownStartedAt'',
      ''preSignCooldownStartedElapsedMs'', ''sendDurationMs'', ''sendFinishedAt'',
      ''sendFinishedElapsedMs'', ''sendStartedAt'', ''sendStartedElapsedMs'']"

definition POLL_KEYS :: "string list" where
  "POLL_KEYS = [''chunkIndex'', ''requestSequence'', ''startedAt'', ''startedElapsedMs'']"

definition LEGACY_SNAPSHOT_KEYS :: "string list" where
  "LEGACY_SNAPSHOT_KEYS =
     [''confirmationPolls'', ''executionId'', ''expectedChunkIndexes'', ''finishedAt'',
      ''minimumConfirmationPollGapMs'', ''minimumRpcRequestGapMs'', ''missing'', ''monotonicOriginMs'',
      ''policy'', ''requests'', ''sends'', ''startedAt'', ''verdict'', ''version'']"

definition SNAPSHOT_KEYS :: "string list" where
  "SNAPSHOT_KEYS = LEGACY_SNAPSHOT_KEYS @ [''requestTimeoutCount'']"

definition finiteNonnegative :: "js \<Rightarrow> bool" where
  "finiteNonnegative v \<longleftrightarrow> is_finite_number v \<and> 0 \<le> num_of v"

definition nullableFiniteNonnegative :: "js \<Rightarrow> bool" where
  "nullableFiniteNonnegative v \<longleftrightarrow> v = JNull \<or> finiteNonnegative v"

text \<open>\<open>8 * Number.EPSILON\<close> is \<open>2^-49\<close>.\<close>

definition durationTolerance :: "rat list \<Rightarrow> rat" where
  "durationTolerance vs = foldl max 1 (map abs vs) / 2 ^ 49"

definition equivalentDuration :: "js \<Rightarrow> rat \<Rightarrow> rat list \<Rightarrow> bool" where
  "equivalentDuration d expectedMs endpoints \<longleftrightarrow>
     finiteNonnegative d \<and> 0 \<le> expectedMs
     \<and> \<bar>num_of d - expectedMs\<bar> \<le> durationTolerance endpoints"

definition nullableIso :: "js \<Rightarrow> bool" where
  "nullableIso v \<longleftrightarrow> v = JNull \<or> validIso v"

definition validIndexes :: "js \<Rightarrow> bool" where
  "validIndexes v = (case v of JArr vs \<Rightarrow> index_array_from None vs | _ \<Rightarrow> False)"

definition safe_at_least :: "rat \<Rightarrow> js \<Rightarrow> bool" where
  "safe_at_least low v \<longleftrightarrow> is_safe_integer v \<and> low \<le> num_of v"

definition validatePolicy :: "js \<Rightarrow> unit result" where
  "validatePolicy policy =
     (let f = get policy; legacy = exact_keys policy LEGACY_POLICY_KEYS in
      guard ((legacy \<or> exact_keys policy POLICY_KEYS)
        \<and> safe_at_least 0 (f ''preSignCooldownMs'') \<and> safe_at_least 0 (f ''globalRequestStartGapMs'')
        \<and> (legacy \<or> safe_at_least 1 (f ''requestTimeoutMs''))
        \<and> safe_at_least 1 (f ''confirmationPollIntervalMs'') \<and> safe_at_least 1 (f ''interChunkDelayMs'')
        \<and> is_array (f ''rateLimitRetryScheduleMs'')
        \<and> list_all (safe_at_least 1) (elements (f ''rateLimitRetryScheduleMs'')))
      ''telemetry policy schema is invalid'')"

definition request_ok :: "js \<Rightarrow> rat \<Rightarrow> bool" where
  "request_ok request previousSequence \<longleftrightarrow>
     (let f = get request; started = num_of (f ''startElapsedMs''); ended = num_of (f ''endElapsedMs'') in
      exact_keys request REQUEST_KEYS
      \<and> is_safe_integer (f ''sequence'') \<and> previousSequence < num_of (f ''sequence'')
      \<and> str_in (f ''requestType'') (map fst RPC_METHOD_CLASSES)
      \<and> finiteNonnegative (f ''startElapsedMs'')
      \<and> nullableFiniteNonnegative (f ''endElapsedMs'') \<and> nullableFiniteNonnegative (f ''durationMs'')
      \<and> validIso (f ''startedAt'') \<and> nullableIso (f ''finishedAt'')
      \<and> (f ''outcome'' = JNull \<or> str_in (f ''outcome'') (map fst RPC_OUTCOMES))
      \<and> safe_at_least 0 (f ''retryNumber'') \<and> is_bool (f ''signaturePersisted'')
      \<and> str_in (f ''mutationCapability'') MUTATION_SET
      \<and> (if f ''requestType'' = JStr ''SEND_RAW_TRANSACTION''
         then f ''mutationCapability'' = JStr ''write'' \<and> f ''signaturePersisted'' = JBool True
         else f ''mutationCapability'' = JStr ''read'')
      \<and> (f ''endElapsedMs'' = JNull \<longleftrightarrow> f ''durationMs'' = JNull)
      \<and> (f ''endElapsedMs'' = JNull \<longleftrightarrow> f ''finishedAt'' = JNull)
      \<and> (f ''endElapsedMs'' = JNull \<longleftrightarrow> f ''outcome'' = JNull)
      \<and> (f ''endElapsedMs'' = JNull
         \<or> started \<le> ended \<and> equivalentDuration (f ''durationMs'') (ended - started) [started, ended]))"

definition validateRequest :: "js \<Rightarrow> rat \<Rightarrow> unit result" where
  "validateRequest request previousSequence =
     guard (request_ok request previousSequence) ''telemetry request schema is invalid''"

definition send_ok :: "js \<Rightarrow> rat \<Rightarrow> bool" where
  "send_ok send previousIndex \<longleftrightarrow>
     (let f = get send; coolStart = num_of (f ''preSignCooldownStartedElapsedMs'');
          coolEnd = num_of (f ''preSignCooldownFinishedElapsedMs'');
          started = num_of (f ''sendStartedElapsedMs''); ended = num_of (f ''sendFinishedElapsedMs'') in
      exact_keys send SEND_KEYS
      \<and> is_safe_integer (f ''chunkIndex'') \<and> previousIndex < num_of (f ''chunkIndex'')
      \<and> is_bool (f ''preSignCooldownRequired'')
      \<and> finiteNonnegative (f ''preSignCooldownStartedElapsedMs'')
      \<and> finiteNonnegative (f ''preSignCooldownFinishedElapsedMs'')
      \<and> coolStart \<le> coolEnd
      \<and> equivalentDuration (f ''preSignCooldownMs'') (coolEnd - coolStart) [coolStart, coolEnd]
      \<and> validIso (f ''preSignCooldownStartedAt'') \<and> validIso (f ''preSignCooldownFinishedAt'')
      \<and> nullableFiniteNonnegative (f ''sendStartedElapsedMs'')
      \<and> nullableFiniteNonnegative (f ''sendFinishedElapsedMs'')
      \<and> nullableFiniteNonnegative (f ''sendDurationMs'')
      \<and> nullableIso (f ''sendStartedAt'') \<and> nullableIso (f ''sendFinishedAt'')
      \<and> (f ''sendStartedElapsedMs'' = JNull \<longleftrightarrow> f ''sendStartedAt'' = JNull)
      \<and> (f ''sendFinishedElapsedMs'' = JNull \<longleftrightarrow> f ''sendFinishedAt'' = JNull)
      \<and> (f ''sendFinishedElapsedMs'' = JNull \<longleftrightarrow> f ''sendDurationMs'' = JNull)
      \<and> (f ''sendFinishedElapsedMs'' = JNull \<longleftrightarrow> f ''outcome'' = JNull)
      \<and> (f ''sendStartedElapsedMs'' = JNull \<or> coolEnd \<le> started)
      \<and> (f ''sendFinishedElapsedMs'' = JNull
         \<or> f ''sendStartedElapsedMs'' \<noteq> JNull \<and> started \<le> ended
           \<and> equivalentDuration (f ''sendDurationMs'') (ended - started) [started, ended]
           \<and> str_in (f ''outcome'') SEND_OUTCOME_SET))"

definition validateSend :: "js \<Rightarrow> rat \<Rightarrow> unit result" where
  "validateSend send previousIndex = guard (send_ok send previousIndex) ''telemetry send schema is invalid''"

definition poll_ok :: "js \<Rightarrow> rat \<Rightarrow> bool" where
  "poll_ok poll previousSequence \<longleftrightarrow>
     exact_keys poll POLL_KEYS \<and> safe_at_least 0 (get poll ''chunkIndex'')
     \<and> is_safe_integer (get poll ''requestSequence'') \<and> previousSequence < num_of (get poll ''requestSequence'')
     \<and> finiteNonnegative (get poll ''startedElapsedMs'') \<and> validIso (get poll ''startedAt'')"

definition validatePoll :: "js \<Rightarrow> rat \<Rightarrow> unit result" where
  "validatePoll poll previousSequence =
     guard (poll_ok poll previousSequence) ''telemetry confirmation poll schema is invalid''"

section \<open>Gaps and completeness\<close>

fun computedMinimumGap :: "rat list \<Rightarrow> rat option" where
  "computedMinimumGap (x # y # zs) =
     Some (case computedMinimumGap (y # zs) of None \<Rightarrow> y - x | Some m \<Rightarrow> min (y - x) m)"
| "computedMinimumGap _ = None"

definition requests_of :: "js \<Rightarrow> js list" where
  "requests_of snapshot = elements (get snapshot ''requests'')"

definition sends_of :: "js \<Rightarrow> js list" where
  "sends_of snapshot = elements (get snapshot ''sends'')"

definition polls_of :: "js \<Rightarrow> js list" where
  "polls_of snapshot = elements (get snapshot ''confirmationPolls'')"

definition expected_of :: "js \<Rightarrow> js list" where
  "expected_of snapshot = elements (get snapshot ''expectedChunkIndexes'')"

text \<open>The starts of the polls of one chunk, in order.\<close>

definition poll_starts :: "js list \<Rightarrow> js \<Rightarrow> rat list" where
  "poll_starts polls chunk =
     map (\<lambda>p. num_of (get p ''startedElapsedMs'')) (filter (\<lambda>p. get p ''chunkIndex'' = chunk) polls)"

definition computedMinimumConfirmationGap :: "js list \<Rightarrow> rat option" where
  "computedMinimumConfirmationGap polls =
     (let gaps = List.map_filter (\<lambda>c. computedMinimumGap (poll_starts polls c))
                   (remdups (map (\<lambda>p. get p ''chunkIndex'') polls)) in
      case gaps of [] \<Rightarrow> None | g # gs \<Rightarrow> Some (foldl min g gs))"

definition request_starts :: "js \<Rightarrow> rat list" where
  "request_starts snapshot = map (\<lambda>r. num_of (get r ''startElapsedMs'')) (requests_of snapshot)"

definition gap_js :: "rat option \<Rightarrow> js" where
  "gap_js g = (case g of None \<Rightarrow> JNull | Some r \<Rightarrow> JNum r)"

definition requestWithinSend :: "js \<Rightarrow> js \<Rightarrow> bool" where
  "requestWithinSend request send \<longleftrightarrow>
     get request ''requestType'' = JStr ''SEND_RAW_TRANSACTION''
     \<and> get send ''sendStartedElapsedMs'' \<noteq> JNull
     \<and> num_of (get send ''sendStartedElapsedMs'') \<le> num_of (get request ''startElapsedMs'')
     \<and> (get send ''sendFinishedElapsedMs'' = JNull
        \<or> get request ''endElapsedMs'' \<noteq> JNull
          \<and> num_of (get request ''endElapsedMs'') \<le> num_of (get send ''sendFinishedElapsedMs''))"

definition requests_within :: "js \<Rightarrow> js \<Rightarrow> js list" where
  "requests_within snapshot send = filter (\<lambda>r. requestWithinSend r send) (requests_of snapshot)"

definition poll_linked :: "js \<Rightarrow> js \<Rightarrow> bool" where
  "poll_linked snapshot poll =
     (case find (\<lambda>r. get r ''sequence'' = get poll ''requestSequence'') (rev (requests_of snapshot)) of
        None \<Rightarrow> False
      | Some r \<Rightarrow> get r ''requestType'' = JStr ''GET_SIGNATURE_STATUSES''
          \<and> strict_equal (get r ''startElapsedMs'') (get poll ''startedElapsedMs'')
          \<and> strict_equal (get r ''startedAt'') (get poll ''startedAt''))"

definition validateRecordLinks :: "js \<Rightarrow> unit result" where
  "validateRecordLinks snapshot =
     and_then (guard (list_all (poll_linked snapshot) (polls_of snapshot))
       ''telemetry confirmation poll is not linked to its RPC request'') (\<lambda>_.
     guard (list_all (\<lambda>r. get r ''requestType'' = JStr ''SEND_RAW_TRANSACTION'' \<longrightarrow>
              length (filter (requestWithinSend r) (sends_of snapshot)) = 1) (requests_of snapshot))
       ''telemetry send RPC request is not linked to one send boundary'')"

definition int_text :: "js \<Rightarrow> string" where
  "int_text v = show_int \<lfloor>num_of v\<rfloor>"

text \<open>What the evidence of one expected chunk lacks.\<close>

definition missing_chunk :: "js \<Rightarrow> js \<Rightarrow> string list" where
  "missing_chunk snapshot chunk =
     (let n = int_text chunk; policy = get snapshot ''policy'' in
      case find (\<lambda>s. get s ''chunkIndex'' = chunk) (rev (sends_of snapshot)) of
        None \<Rightarrow> [''sends.'' @ n]
      | Some send \<Rightarrow>
          if get send ''sendFinishedElapsedMs'' = JNull \<or> get send ''outcome'' \<noteq> JStr ''SUCCESS''
          then [''sends.'' @ n]
          else
            (case requests_within snapshot send of
               [r] \<Rightarrow> if get r ''endElapsedMs'' = JNull \<or> get r ''outcome'' \<noteq> JStr ''SUCCESS''
                      then [''sends.'' @ n @ ''.rpcRequest''] else []
             | _ \<Rightarrow> [''sends.'' @ n @ ''.rpcRequest''])
            @ (if truthy (get send ''preSignCooldownRequired'')
                  \<and> num_of (get send ''preSignCooldownMs'') < num_of (get policy ''preSignCooldownMs'')
               then [''sends.'' @ n @ ''.preSignCooldownMs''] else [])
            @ (if length (filter (\<lambda>p. get p ''chunkIndex'' = chunk) (polls_of snapshot)) < 2
               then [''confirmationPolls.'' @ n] else []))"

definition missing_gap :: "js \<Rightarrow> string \<Rightarrow> js \<Rightarrow> string \<Rightarrow> bool \<Rightarrow> string list" where
  "missing_gap gap name wanted policy_name absent =
     (if absent \<or> gap = JNull then [name]
      else if num_of gap < num_of wanted then [''policy.'' @ policy_name] else [])"

definition computeMissing :: "js \<Rightarrow> string list" where
  "computeMissing snapshot =
     (let policy = get snapshot ''policy'' in
      if get snapshot ''finishedAt'' = JNull then [''terminal'']
      else
        missing_gap (get snapshot ''minimumRpcRequestGapMs'') ''minimumRpcRequestGapMs''
          (get policy ''globalRequestStartGapMs'') ''globalRequestStartGapMs''
          (length (requests_of snapshot) < 2)
        @ map (\<lambda>r. ''requests.'' @ int_text (get r ''sequence''))
            (filter (\<lambda>r. get r ''endElapsedMs'' = JNull) (requests_of snapshot))
        @ map (\<lambda>s. ''expectedChunkIndexes.'' @ int_text (get s ''chunkIndex''))
            (filter (\<lambda>s. get s ''chunkIndex'' \<notin> set (expected_of snapshot)) (sends_of snapshot))
        @ concat (map (missing_chunk snapshot) (expected_of snapshot))
        @ (if expected_of snapshot = [] then [''expectedChunkIndexes''] else [])
        @ missing_gap (get snapshot ''minimumConfirmationPollGapMs'') ''minimumConfirmationPollGapMs''
            (get policy ''confirmationPollIntervalMs'') ''confirmationPollIntervalMs'' False)"

definition verdict_of :: "string list \<Rightarrow> js" where
  "verdict_of missing = JStr (if missing = [] then ''COMPLETE'' else ''INCOMPLETE'')"

section \<open>Validation of a snapshot\<close>

text \<open>The texts of a list, joined by the character 0.\<close>

fun join_nul :: "string list \<Rightarrow> string" where
  "join_nul [] = []"
| "join_nul [s] = s"
| "join_nul (s # ss) = s @ CHR 0x00 # join_nul ss"

fun validate_each :: "(js \<Rightarrow> rat \<Rightarrow> unit result) \<Rightarrow> string \<Rightarrow> rat \<Rightarrow> js list \<Rightarrow> unit result" where
  "validate_each check key previous [] = Inr ()"
| "validate_each check key previous (v # vs) =
     and_then (check v previous) (\<lambda>_. validate_each check key (num_of (get v key)) vs)"

definition is_legacy :: "js \<Rightarrow> bool" where
  "is_legacy snapshot \<longleftrightarrow> get snapshot ''version'' = JStr LEGACY_VERSION"

definition timeout_count :: "js \<Rightarrow> nat" where
  "timeout_count snapshot =
     length (filter (\<lambda>r. get r ''outcome'' = JStr ''RPC_REQUEST_TIMEOUT'') (requests_of snapshot))"

definition snapshot_shape :: "(rat \<Rightarrow> string) \<Rightarrow> js \<Rightarrow> bool" where
  "snapshot_shape number_text snapshot \<longleftrightarrow>
     (let f = get snapshot; legacy = is_legacy snapshot in
      exact_keys snapshot (if legacy then LEGACY_SNAPSHOT_KEYS else SNAPSHOT_KEYS)
      \<and> (legacy \<or> f ''version'' = JStr VERSION)
      \<and> safe_identifier ''._-'' (js_text number_text (coalesce (f ''executionId'') (JStr [])))
      \<and> validIso (f ''startedAt'') \<and> nullableIso (f ''finishedAt'')
      \<and> is_finite_number (f ''monotonicOriginMs'')
      \<and> is_array (f ''requests'') \<and> is_array (f ''sends'') \<and> is_array (f ''confirmationPolls'')
      \<and> validIndexes (f ''expectedChunkIndexes'')
      \<and> nullableFiniteNonnegative (f ''minimumRpcRequestGapMs'')
      \<and> nullableFiniteNonnegative (f ''minimumConfirmationPollGapMs'')
      \<and> is_array (f ''missing'')
      \<and> list_all (\<lambda>m. case m of JStr s \<Rightarrow> s \<noteq> [] | _ \<Rightarrow> False) (elements (f ''missing''))
      \<and> (legacy \<or> safe_at_least 0 (f ''requestTimeoutCount''))
      \<and> str_in (f ''verdict'') [''COMPLETE'', ''INCOMPLETE''])"

definition validateSnapshot :: "(rat \<Rightarrow> string) \<Rightarrow> js \<Rightarrow> unit result" where
  "validateSnapshot number_text snapshot =
     and_then (guard (snapshot_shape number_text snapshot) ''telemetry snapshot schema is invalid'') (\<lambda>_.
     and_then (validatePolicy (get snapshot ''policy'')) (\<lambda>_.
     and_then (validate_each validateRequest ''sequence'' 0 (requests_of snapshot)) (\<lambda>_.
     and_then (guard (is_legacy snapshot \<or> get snapshot ''requestTimeoutCount'' = JNat (timeout_count snapshot))
       ''telemetry request timeout count is invalid'') (\<lambda>_.
     and_then (validate_each validateSend ''chunkIndex'' (- 1) (sends_of snapshot)) (\<lambda>_.
     and_then (validate_each validatePoll ''requestSequence'' 0 (polls_of snapshot)) (\<lambda>_.
     and_then (validateRecordLinks snapshot) (\<lambda>_.
     and_then (guard (get snapshot ''minimumRpcRequestGapMs'' = gap_js (computedMinimumGap (request_starts snapshot))
         \<and> get snapshot ''minimumConfirmationPollGapMs''
           = gap_js (computedMinimumConfirmationGap (polls_of snapshot)))
       ''telemetry computed minimum is invalid'') (\<lambda>_.
     guard (get snapshot ''verdict'' = verdict_of (computeMissing snapshot)
         \<and> join_nul (map text_of (elements (get snapshot ''missing''))) = join_nul (computeMissing snapshot))
       ''telemetry completeness verdict is invalid''))))))))"

section \<open>Growth of the evidence\<close>

definition COMPUTED_KEYS :: "string list" where
  "COMPUTED_KEYS =
     [''missing'', ''minimumRpcRequestGapMs'', ''requestTimeoutCount'', ''minimumConfirmationPollGapMs'',
      ''verdict'']"

lemma size_js_zip [termination_simp]:
  "(i, x, y) \<in> set (index_from j (zip vs ws)) \<Longrightarrow> size x < Suc (size_list size vs)"
  by (rule size_js_elem) (auto dest!: index_from_elem dest: set_zip_leftD)

fun extensionValue :: "js \<Rightarrow> js \<Rightarrow> string \<Rightarrow> unit result" where
  "extensionValue JNull next path = Inr ()"
| "extensionValue (JArr ps) next path =
     (case next of
        JArr ns \<Rightarrow>
          (if length ns < length ps then throw (''telemetry regression at '' @ path)
           else for_each (\<lambda>(i, p, n). extensionValue p n (path @ ''['' @ show_nat i @ '']''))
                  (index_from 0 (zip ps ns)))
      | _ \<Rightarrow> throw (''telemetry regression at '' @ path))"
| "extensionValue (JObj kvs) next path =
     (if \<not> is_object next then throw (''telemetry regression at '' @ path)
      else for_each (\<lambda>(k, p). if k \<in> set COMPUTED_KEYS then Inr ()
                              else extensionValue p (get next k) (path @ ''.'' @ k)) kvs)"
| "extensionValue p next path =
     (if strict_equal p next then Inr () else throw (''telemetry regression at '' @ path))"

definition assertMonotonicExtension :: "js \<Rightarrow> js \<Rightarrow> unit result" where
  "assertMonotonicExtension previous next =
     and_then (extensionValue previous next ''telemetry'') (\<lambda>_.
     guard (get previous ''verdict'' \<noteq> JStr ''COMPLETE'' \<or> get next ''verdict'' = JStr ''COMPLETE'')
       ''telemetry completeness regression'')"

definition refreshComputed :: "js \<Rightarrow> js" where
  "refreshComputed snapshot =
     (let s1 = assign_all snapshot
            [(''minimumRpcRequestGapMs'', gap_js (computedMinimumGap (request_starts snapshot))),
             (''minimumConfirmationPollGapMs'', gap_js (computedMinimumConfirmationGap (polls_of snapshot)))];
          s2 = (if ''requestTimeoutCount'' \<in> set (object_keys s1)
                then assign s1 ''requestTimeoutCount'' (JNat (timeout_count s1)) else s1);
          missing = computeMissing s2
      in assign_all s2 [(''missing'', JArr (map JStr missing)), (''verdict'', verdict_of missing)])"

section \<open>The store\<close>

record telemetry_env =
  te_number_text :: "rat \<Rightarrow> string"
  te_hash_json :: "js \<Rightarrow> string"
  te_path :: path
  te_temporary :: path

record telemetry_store =
  ts_startedAt :: string
  ts_startMonotonicMs :: rat
  ts_snapshot :: js
  ts_files :: io_state

record telemetry_evidence =
  ev_verdict :: js
  ev_sha256 :: string
  ev_snapshot :: js

definition canonicalTelemetryHash :: "telemetry_env \<Rightarrow> js \<Rightarrow> string result" where
  "canonicalTelemetryHash env snapshot =
     and_then (validateSnapshot (te_number_text env) snapshot)
       (\<lambda>_. Inr (te_hash_json env (sortedJsonValue snapshot)))"

definition evidence :: "telemetry_env \<Rightarrow> js \<Rightarrow> telemetry_evidence result" where
  "evidence env snapshot =
     and_then (canonicalTelemetryHash env snapshot) (\<lambda>h.
     Inr \<lparr> ev_verdict = get snapshot ''verdict'', ev_sha256 = h, ev_snapshot = snapshot \<rparr>)"

definition writeAtomic :: "telemetry_env \<Rightarrow> io \<Rightarrow> js \<Rightarrow> io_state \<Rightarrow> unit result \<times> io_state" where
  "writeAtomic env io snapshot fs =
     (case validateSnapshot (te_number_text env) snapshot of
        Inl e \<Rightarrow> (Inl e, fs)
      | Inr _ \<Rightarrow>
          (case writeCanonicalJsonAtomic io (te_temporary env) (te_path env) snapshot fs of
             (Inl e, fs') \<Rightarrow> (throw ''telemetry persistence failed'', fs')
           | (Inr u, fs') \<Rightarrow> (Inr (), fs')))"

text \<open>\<open>readUploadTelemetry\<close>: \<open>None\<close> when there is no file.\<close>

definition readUploadTelemetry :: "telemetry_env \<Rightarrow> fs \<Rightarrow> telemetry_evidence option result" where
  "readUploadTelemetry env fs =
     (if fs (te_path env) = None then Inr None
      else and_then (readJson fs (te_path env)) (\<lambda>snapshot.
           and_then (validateSnapshot (te_number_text env) snapshot) (\<lambda>_.
           and_then (evidence env snapshot) (\<lambda>ev. Inr (Some ev)))))"

definition new_snapshot :: "js \<Rightarrow> js \<Rightarrow> js \<Rightarrow> js \<Rightarrow> js" where
  "new_snapshot executionId startedAt startMonotonicMs policy =
     JObj [(''version'', JStr VERSION), (''executionId'', executionId), (''startedAt'', startedAt),
           (''finishedAt'', JNull), (''monotonicOriginMs'', startMonotonicMs), (''policy'', policy),
           (''requests'', JArr []), (''sends'', JArr []), (''confirmationPolls'', JArr []),
           (''minimumRpcRequestGapMs'', JNull), (''minimumConfirmationPollGapMs'', JNull),
           (''requestTimeoutCount'', JNum 0), (''expectedChunkIndexes'', JArr []),
           (''verdict'', JStr ''INCOMPLETE''), (''missing'', JArr [JStr ''terminal''])]"

definition same_json :: "js \<Rightarrow> js \<Rightarrow> bool" where
  "same_json v w \<longleftrightarrow> json_norm (sortedJsonValue v) = json_norm (sortedJsonValue w)"

definition createUploadTelemetryStore ::
    "telemetry_env \<Rightarrow> io \<Rightarrow> js \<Rightarrow> js \<Rightarrow> js \<Rightarrow> js \<Rightarrow> js \<Rightarrow> io_state \<Rightarrow> telemetry_store result \<times> io_state" where
  "createUploadTelemetryStore env io directory executionId startedAt startMonotonicMs policy fs =
     (if (case directory of JStr d \<Rightarrow> d = [] | _ \<Rightarrow> True)
         \<or> \<not> safe_identifier ''._-'' (js_text (te_number_text env) (coalesce executionId (JStr [])))
         \<or> \<not> validIso startedAt \<or> \<not> is_finite_number startMonotonicMs
      then (throw ''complete telemetry store identity is required'', fs)
      else case validatePolicy policy of Inl e \<Rightarrow> (Inl e, fs) | Inr _ \<Rightarrow>
      let store = (\<lambda>snapshot fs. \<lparr> ts_startedAt = text_of startedAt,
             ts_startMonotonicMs = num_of startMonotonicMs, ts_snapshot = snapshot, ts_files = fs \<rparr>) in
      case readUploadTelemetry env (files fs) of
        Inl e \<Rightarrow> (Inl e, fs)
      | Inr (Some existing) \<Rightarrow>
          (let snapshot = ev_snapshot existing in
           if \<not> strict_equal (get snapshot ''executionId'') executionId
              \<or> get snapshot ''startedAt'' \<noteq> startedAt
              \<or> \<not> strict_equal (get snapshot ''monotonicOriginMs'') startMonotonicMs
              \<or> \<not> same_json (get snapshot ''policy'') policy
           then (throw ''existing telemetry identity mismatch'', fs)
           else (Inr (store snapshot fs), fs))
      | Inr None \<Rightarrow>
          (let snapshot = new_snapshot executionId startedAt startMonotonicMs policy in
           case writeAtomic env io snapshot fs of
             (Inl e, fs') \<Rightarrow> (Inl e, fs')
           | (Inr _, fs') \<Rightarrow> (Inr (store snapshot fs'), fs')))"

type_synonym 'a telemetry_call = "telemetry_store \<Rightarrow> 'a result \<times> telemetry_store"

text \<open>\<open>persist\<close>: a snapshot that was refused, or could not be written, does not become the store's.\<close>

definition persist :: "telemetry_env \<Rightarrow> io \<Rightarrow> js \<Rightarrow> telemetry_evidence telemetry_call" where
  "persist env io proposed s =
     (let next = refreshComputed proposed in
      case and_then (validateSnapshot (te_number_text env) next)
             (\<lambda>_. assertMonotonicExtension (ts_snapshot s) next) of
        Inl e \<Rightarrow> (Inl e, s)
      | Inr _ \<Rightarrow>
          (case writeAtomic env io next (ts_files s) of
             (Inl e, fs') \<Rightarrow> (Inl e, s\<lparr>ts_files := fs'\<rparr>)
           | (Inr _, fs') \<Rightarrow> (evidence env next, s\<lparr>ts_files := fs', ts_snapshot := next\<rparr>)))"

definition elapsed :: "telemetry_store \<Rightarrow> js \<Rightarrow> rat result" where
  "elapsed s v =
     (if \<not> is_finite_number v \<or> num_of v < ts_startMonotonicMs s
      then throw ''telemetry monotonic clock regression''
      else Inr (num_of v - ts_startMonotonicMs s))"

section \<open>Recording\<close>

definition request_js ::
    "js \<Rightarrow> js \<Rightarrow> rat \<Rightarrow> js \<Rightarrow> js \<Rightarrow> string \<Rightarrow> js \<Rightarrow> js \<Rightarrow> js \<Rightarrow> js" where
  "request_js v requestType started ended d startedAt finishedAt outcome retry =
     JObj [(''sequence'', get v ''sequence''), (''requestType'', requestType),
           (''startElapsedMs'', JNum started), (''endElapsedMs'', ended), (''durationMs'', d),
           (''startedAt'', JStr startedAt), (''finishedAt'', finishedAt), (''outcome'', outcome),
           (''retryNumber'', retry), (''signaturePersisted'', get v ''signaturePersisted''),
           (''mutationCapability'', get v ''mutationCapability'')]"

definition poll_js :: "js \<Rightarrow> js \<Rightarrow> js" where
  "poll_js chunk request =
     JObj [(''chunkIndex'', chunk), (''requestSequence'', get request ''sequence''),
           (''startedElapsedMs'', get request ''startElapsedMs''), (''startedAt'', get request ''startedAt'')]"

definition push :: "js \<Rightarrow> string \<Rightarrow> js \<Rightarrow> js" where
  "push v key item = assign v key (JArr (elements (get v key) @ [item]))"

text \<open>The request and, in the context of a confirmation, its poll are appended.\<close>

definition push_request :: "js \<Rightarrow> js \<Rightarrow> js \<Rightarrow> js result" where
  "push_request snapshot request confirmationChunkIndex =
     (let next = push snapshot ''requests'' request in
      if confirmationChunkIndex = JNull then Inr next
      else if \<not> safe_at_least 0 confirmationChunkIndex
              \<or> get request ''requestType'' \<noteq> JStr ''GET_SIGNATURE_STATUSES''
      then throw ''telemetry confirmation poll context is invalid''
      else Inr (push next ''confirmationPolls'' (poll_js confirmationChunkIndex request)))"

text \<open>\<open>sequence <= requests.at(-1).sequence\<close> with at least one request.\<close>

definition not_after_last :: "js list \<Rightarrow> string \<Rightarrow> js \<Rightarrow> bool" where
  "not_after_last vs key n \<longleftrightarrow> vs \<noteq> [] \<and> num_of n \<le> num_of (get (last vs) key)"

definition recordRpcStart ::
    "telemetry_env \<Rightarrow> io \<Rightarrow> js \<Rightarrow> js \<Rightarrow> telemetry_evidence telemetry_call" where
  "recordRpcStart env io v confirmationChunkIndex s =
     (case and_then (guard (exact_keys v LEDGER_START_KEYS)
               ''telemetry ledger start schema violates whitelist'') (\<lambda>_.
           and_then (elapsed s (get v ''startMonotonicMs'')) (\<lambda>started.
           and_then (isoAt (ts_startedAt s) started) (\<lambda>iso.
           let request = request_js v (get v ''methodClass'') started JNull JNull iso JNull JNull
                 (get v ''retryNumber'') in
           and_then (validateRequest request 0) (\<lambda>_.
           and_then (guard (\<not> list_ex (\<lambda>r. strict_equal (get r ''sequence'') (get request ''sequence''))
                              (requests_of (ts_snapshot s))
                            \<and> \<not> not_after_last (requests_of (ts_snapshot s)) ''sequence'' (get request ''sequence''))
               ''telemetry request sequence conflicts with existing evidence'') (\<lambda>_.
           push_request (ts_snapshot s) request confirmationChunkIndex))))) of
        Inl e \<Rightarrow> (Inl e, s)
      | Inr next \<Rightarrow> persist env io next s)"

definition same_start :: "js \<Rightarrow> js \<Rightarrow> bool" where
  "same_start existing request \<longleftrightarrow>
     list_all (\<lambda>k. strict_equal (get existing k) (get request k))
       [''requestType'', ''startElapsedMs'', ''startedAt'', ''retryNumber'', ''signaturePersisted'',
        ''mutationCapability'']"

definition finish_request :: "js \<Rightarrow> js \<Rightarrow> js" where
  "finish_request existing request =
     assign_all existing
       (map (\<lambda>k. (k, get request k)) [''endElapsedMs'', ''durationMs'', ''finishedAt'', ''outcome''])"

text \<open>The first element with a property, changed in place.\<close>

fun update_first :: "('a \<Rightarrow> bool) \<Rightarrow> ('a \<Rightarrow> 'a) \<Rightarrow> 'a list \<Rightarrow> 'a list" where
  "update_first P f [] = []"
| "update_first P f (x # xs) = (if P x then f x # xs else x # update_first P f xs)"

definition recordRpcEntry ::
    "telemetry_env \<Rightarrow> io \<Rightarrow> js \<Rightarrow> js \<Rightarrow> telemetry_evidence telemetry_call" where
  "recordRpcEntry env io v confirmationChunkIndex s =
     (let f = get v; startMs = f ''startMonotonicMs''; endMs = f ''endMonotonicMs'';
          snapshot = ts_snapshot s in
      case and_then (guard (exact_keys v LEDGER_ENTRY_KEYS)
               ''telemetry ledger entry schema violates whitelist'') (\<lambda>_.
           and_then (guard (finiteNonnegative startMs \<and> finiteNonnegative endMs \<and> num_of startMs \<le> num_of endMs
               \<and> equivalentDuration (f ''durationMs'') (num_of endMs - num_of startMs)
                   [num_of startMs, num_of endMs, ts_startMonotonicMs s])
               ''telemetry ledger timing is invalid'') (\<lambda>_.
           and_then (elapsed s startMs) (\<lambda>started.
           and_then (elapsed s endMs) (\<lambda>ended.
           and_then (isoAt (ts_startedAt s) started) (\<lambda>startIso.
           and_then (isoAt (ts_startedAt s) ended) (\<lambda>endIso.
           let request = request_js v (f ''methodClass'') started (JNum ended) (JNum (ended - started))
                 startIso (JStr endIso) (f ''outcome'') (f ''retryNumber'');
               same = (\<lambda>r. strict_equal (get r ''sequence'') (get request ''sequence'')) in
           and_then (validateRequest request 0) (\<lambda>_.
           case find same (requests_of snapshot) of
             Some existing \<Rightarrow>
               if \<not> same_start existing request \<or> get existing ''endElapsedMs'' \<noteq> JNull
               then throw ''telemetry request sequence conflicts with existing evidence''
               else Inr (assign snapshot ''requests''
                      (JArr (update_first same (\<lambda>r. finish_request r request) (requests_of snapshot))))
           | None \<Rightarrow>
               if not_after_last (requests_of snapshot) ''sequence'' (get request ''sequence'')
               then throw ''telemetry request sequence regression''
               else push_request snapshot request confirmationChunkIndex))))))) of
        Inl e \<Rightarrow> (Inl e, s)
      | Inr next \<Rightarrow> persist env io next s)"

definition send_index :: "js list \<Rightarrow> js \<Rightarrow> nat option" where
  "send_index sends chunkIndex =
     find (\<lambda>i. strict_equal (get (sends ! i) ''chunkIndex'') chunkIndex) [0..<length sends]"

definition send_js :: "js \<Rightarrow> js \<Rightarrow> rat \<Rightarrow> rat \<Rightarrow> string \<Rightarrow> string \<Rightarrow> js" where
  "send_js chunkIndex required started finished startedAt finishedAt =
     JObj [(''chunkIndex'', chunkIndex), (''preSignCooldownRequired'', required),
           (''preSignCooldownStartedElapsedMs'', JNum started),
           (''preSignCooldownFinishedElapsedMs'', JNum finished),
           (''preSignCooldownMs'', JNum (finished - started)),
           (''preSignCooldownStartedAt'', JStr startedAt),
           (''preSignCooldownFinishedAt'', JStr finishedAt),
           (''sendStartedElapsedMs'', JNull), (''sendFinishedElapsedMs'', JNull),
           (''sendDurationMs'', JNull), (''sendStartedAt'', JNull), (''sendFinishedAt'', JNull),
           (''outcome'', JNull)]"

definition recordPreSignCooldown ::
    "telemetry_env \<Rightarrow> io \<Rightarrow> js \<Rightarrow> js \<Rightarrow> js \<Rightarrow> js \<Rightarrow> telemetry_evidence telemetry_call" where
  "recordPreSignCooldown env io chunkIndex required startedMonotonicMs finishedMonotonicMs s =
     (let sends = sends_of (ts_snapshot s) in
      case and_then (guard (safe_at_least 0 chunkIndex \<and> is_bool required)
               ''telemetry pre-sign cooldown context is invalid'') (\<lambda>_.
           and_then (elapsed s startedMonotonicMs) (\<lambda>started.
           and_then (elapsed s finishedMonotonicMs) (\<lambda>finished.
           and_then (guard (started \<le> finished) ''telemetry monotonic clock regression'') (\<lambda>_.
           and_then (guard (send_index sends chunkIndex = None) ''telemetry send evidence already exists'') (\<lambda>_.
           and_then (guard (\<not> not_after_last sends ''chunkIndex'' chunkIndex)
               ''telemetry chunk sequence regression'') (\<lambda>_.
           and_then (isoAt (ts_startedAt s) started) (\<lambda>startIso.
           and_then (isoAt (ts_startedAt s) finished) (\<lambda>endIso.
           Inr (push (ts_snapshot s) ''sends''
                  (send_js chunkIndex required started finished startIso endIso)))))))))) of
        Inl e \<Rightarrow> (Inl e, s)
      | Inr next \<Rightarrow> persist env io next s)"

definition update_send :: "js \<Rightarrow> nat \<Rightarrow> (string \<times> js) list \<Rightarrow> js" where
  "update_send snapshot i kvs =
     assign snapshot ''sends'' (JArr ((sends_of snapshot)[i := assign_all (sends_of snapshot ! i) kvs]))"

definition recordSendStart ::
    "telemetry_env \<Rightarrow> io \<Rightarrow> js \<Rightarrow> js \<Rightarrow> telemetry_evidence telemetry_call" where
  "recordSendStart env io chunkIndex monotonicMs s =
     (let snapshot = ts_snapshot s; sends = sends_of snapshot in
      case (case send_index sends chunkIndex of
              None \<Rightarrow> throw ''telemetry send start boundary is invalid''
            | Some i \<Rightarrow>
                if get (sends ! i) ''sendStartedElapsedMs'' \<noteq> JNull
                then throw ''telemetry send start boundary is invalid''
                else and_then (elapsed s monotonicMs) (\<lambda>v.
                     and_then (isoAt (ts_startedAt s) v) (\<lambda>iso.
                     Inr (update_send snapshot i
                       [(''sendStartedElapsedMs'', JNum v), (''sendStartedAt'', JStr iso)])))) of
        Inl e \<Rightarrow> (Inl e, s)
      | Inr next \<Rightarrow> persist env io next s)"

definition recordSendFinish ::
    "telemetry_env \<Rightarrow> io \<Rightarrow> js \<Rightarrow> js \<Rightarrow> js \<Rightarrow> telemetry_evidence telemetry_call" where
  "recordSendFinish env io chunkIndex monotonicMs outcome s =
     (let snapshot = ts_snapshot s; sends = sends_of snapshot in
      case and_then (guard (str_in outcome SEND_OUTCOME_SET) ''telemetry send outcome is invalid'') (\<lambda>_.
           case send_index sends chunkIndex of
              None \<Rightarrow> throw ''telemetry send finish boundary is invalid''
            | Some i \<Rightarrow>
                let send = sends ! i in
                if get send ''sendStartedElapsedMs'' = JNull \<or> get send ''sendFinishedElapsedMs'' \<noteq> JNull
                then throw ''telemetry send finish boundary is invalid''
                else and_then (elapsed s monotonicMs) (\<lambda>v.
                     let started = num_of (get send ''sendStartedElapsedMs'') in
                     and_then (guard (started \<le> v) ''telemetry monotonic clock regression'') (\<lambda>_.
                     and_then (isoAt (ts_startedAt s) v) (\<lambda>iso.
                     Inr (update_send snapshot i
                       [(''sendFinishedElapsedMs'', JNum v), (''sendFinishedAt'', JStr iso),
                        (''sendDurationMs'', JNum (v - started)), (''outcome'', outcome)]))))) of
        Inl e \<Rightarrow> (Inl e, s)
      | Inr next \<Rightarrow> persist env io next s)"

definition finish ::
    "telemetry_env \<Rightarrow> io \<Rightarrow> js \<Rightarrow> js \<Rightarrow> js \<Rightarrow> telemetry_evidence telemetry_call" where
  "finish env io finishedAt finishedMonotonicMs expectedChunkIndexes s =
     (let snapshot = ts_snapshot s in
      case and_then (guard (validIso finishedAt \<and> validIndexes expectedChunkIndexes)
               ''telemetry terminal boundary is invalid'') (\<lambda>_.
           and_then (elapsed s finishedMonotonicMs) (\<lambda>_.
           and_then (guard (get snapshot ''finishedAt'' = JNull \<or> get snapshot ''finishedAt'' = finishedAt)
               ''telemetry terminal boundary regression'') (\<lambda>_.
           and_then (guard (expected_of snapshot = []
                 \<or> get snapshot ''expectedChunkIndexes'' = expectedChunkIndexes)
               ''telemetry expected chunks regression'') (\<lambda>_.
           Inr (assign_all snapshot
             [(''finishedAt'', finishedAt), (''expectedChunkIndexes'', expectedChunkIndexes)]))))) of
        Inl e \<Rightarrow> (Inl e, s)
      | Inr next \<Rightarrow> persist env io next s)"

section \<open>Publication\<close>

definition evaluateUploadTelemetryPublication ::
    "telemetry_env \<Rightarrow> fs \<Rightarrow> js \<Rightarrow> js \<Rightarrow> (string \<times> bool \<times> string option) result" where
  "evaluateUploadTelemetryPublication env fs expectedSha256 terminalOutcome =
     (if \<not> (case coalesce expectedSha256 (JStr []) of JStr h \<Rightarrow> hex64 h | _ \<Rightarrow> False)
      then throw ''expected telemetry hash is invalid''
      else and_then (readUploadTelemetry env fs) (\<lambda>found.
        case found of None \<Rightarrow> Inr (''UNAVAILABLE'', False, None)
        | Some ev \<Rightarrow>
            let f = get terminalOutcome; g = get (ev_snapshot ev); texts = map (js_text (te_number_text env));
                terminalMatches = (is_object terminalOutcome
                  \<and> strict_equal (f ''executionId'') (g ''executionId'')
                  \<and> strict_equal (f ''startedAt'') (g ''startedAt'')
                  \<and> strict_equal (f ''finishedAt'') (g ''finishedAt'')
                  \<and> f ''terminal'' = JBool True \<and> str_in (f ''status'') [''COMPLETE'', ''WINDOW_LIMIT'']
                  \<and> is_safe_integer (f ''processed'') \<and> is_safe_integer (f ''sent'')
                  \<and> f ''processed'' = f ''sent''
                  \<and> f ''sent'' = JNat (length (expected_of (ev_snapshot ev)))
                  \<and> is_array (f ''confirmedIndexes'')
                  \<and> join_nul (texts (elements (f ''confirmedIndexes'')))
                    = join_nul (texts (expected_of (ev_snapshot ev)))
                  \<and> get (f ''telemetryEvidence'') ''verdict'' = ev_verdict ev
                  \<and> get (f ''telemetryEvidence'') ''sha256'' = JStr (ev_sha256 ev));
                publishable = (ev_verdict ev = JStr ''COMPLETE'' \<and> JStr (ev_sha256 ev) = expectedSha256
                  \<and> terminalMatches) in
            Inr (if publishable then ''COMPLETE'' else ''INCOMPLETE'', publishable, Some (ev_sha256 ev))))"

section \<open>What is kept\<close>

definition scalar :: "js \<Rightarrow> bool" where
  "scalar v = (case v of JBool b \<Rightarrow> True | JNum r \<Rightarrow> True | JStr s \<Rightarrow> True | _ \<Rightarrow> False)"

text \<open>A record keeps every value it has; what was \<open>null\<close> may be filled in.\<close>

definition record_kept :: "js \<Rightarrow> js \<Rightarrow> bool" where
  "record_kept r r' \<longleftrightarrow>
     (\<forall>k. k \<notin> set COMPUTED_KEYS \<longrightarrow> scalar (get r k) \<longrightarrow> get r' k = get r k)"

definition records_kept :: "js list \<Rightarrow> js list \<Rightarrow> bool" where
  "records_kept rs rs' \<longleftrightarrow>
     length rs \<le> length rs' \<and> (\<forall>i<length rs. record_kept (rs ! i) (rs' ! i))"

definition snapshot_kept :: "js \<Rightarrow> js \<Rightarrow> bool" where
  "snapshot_kept old new \<longleftrightarrow>
     record_kept old new \<and> records_kept (requests_of old) (requests_of new)
     \<and> records_kept (sends_of old) (sends_of new) \<and> records_kept (polls_of old) (polls_of new)
     \<and> (get old ''verdict'' = JStr ''COMPLETE'' \<longrightarrow> get new ''verdict'' = JStr ''COMPLETE'')"

lemma record_kept_refl: "record_kept r r"
  by (simp add: record_kept_def)

lemma record_kept_trans: "record_kept r r' \<Longrightarrow> record_kept r' r'' \<Longrightarrow> record_kept r r''"
  by (simp add: record_kept_def)

lemma snapshot_kept_refl: "snapshot_kept s s"
  by (simp add: snapshot_kept_def records_kept_def record_kept_refl)

lemma records_kept_trans:
  "records_kept rs rs' \<Longrightarrow> records_kept rs' rs'' \<Longrightarrow> records_kept rs rs''"
  unfolding records_kept_def by (meson less_le_trans order_trans record_kept_trans)

lemma snapshot_kept_trans:
  "snapshot_kept a b \<Longrightarrow> snapshot_kept b c \<Longrightarrow> snapshot_kept a c"
  unfolding snapshot_kept_def using record_kept_trans records_kept_trans by blast

text \<open>The check of an extension, without the path of its message.\<close>

fun grows :: "js \<Rightarrow> js \<Rightarrow> bool" where
  "grows JNull n = True"
| "grows (JArr ps) n =
     (case n of JArr ns \<Rightarrow> length ps \<le> length ns \<and> (\<forall>(i, p, m)\<in>set (index_from 0 (zip ps ns)). grows p m)
      | _ \<Rightarrow> False)"
| "grows (JObj kvs) n = (is_object n \<and> (\<forall>(k, p)\<in>set kvs. k \<in> set COMPUTED_KEYS \<or> grows p (get n k)))"
| "grows p n = strict_equal p n"

lemma extensionValue_grows: "extensionValue p n path = Inr () \<longleftrightarrow> grows p n"
proof (induction p n path rule: extensionValue.induct)
  case (2 ps n path)
  show ?case
  proof (cases n)
    case (JArr ns)
    have "extensionValue p m (path @ ''['' @ show_nat i @ '']'') = Inr () \<longleftrightarrow> grows p m"
      if "\<not> length ns < length ps" "(i, p, m) \<in> set (index_from 0 (zip ps ns))" for i p m
      using "2.IH" [OF JArr that refl refl] .
    with JArr show ?thesis by (auto simp: for_each_eq_Inr)
  qed auto
next
  case (3 kvs n path)
  have "extensionValue p (get n k) (path @ ''.'' @ k) = Inr () \<longleftrightarrow> grows p (get n k)"
    if "is_object n" "(k, p) \<in> set kvs" "k \<notin> set COMPUTED_KEYS" for k p
    using "3.IH" that by simp
  then show ?case by (fastforce simp: for_each_eq_Inr split: if_splits)
qed auto

lemma scalar_grows: "scalar p \<Longrightarrow> grows p n \<Longrightarrow> n = p"
  by (cases p) (auto simp: scalar_def dest: strict_equal_imp_eq)

lemma grows_get:
  assumes "grows p n" and "get p k \<noteq> Undefined" and "k \<notin> set COMPUTED_KEYS"
  shows "grows (get p k) (get n k)"
proof -
  from assms(2) obtain kvs x where "p = JObj kvs" "map_of kvs k = Some x"
    by (cases p) (auto split: option.splits)
  with assms(1,3) show ?thesis by (auto dest!: map_of_SomeD)
qed

lemma grows_record: "grows p n \<Longrightarrow> record_kept p n"
proof (unfold record_kept_def, intro allI impI)
  fix k
  assume "grows p n" "k \<notin> set COMPUTED_KEYS" and sc: "scalar (get p k)"
  moreover from sc have "get p k \<noteq> Undefined" by (auto simp: scalar_def)
  ultimately have "grows (get p k) (get n k)" by (blast intro: grows_get)
  with sc show "get n k = get p k" by (rule scalar_grows)
qed

lemma nth_index_from: "i < length xs \<Longrightarrow> index_from j xs ! i = (i + j, xs ! i)"
proof (induction xs arbitrary: i j)
  case (Cons x xs)
  then show ?case by (cases i) auto
qed simp

lemma grows_records:
  assumes "grows (JArr ps) n"
  shows "records_kept ps (elements n)"
proof -
  from assms obtain ns where n: "n = JArr ns" "length ps \<le> length ns"
    and all: "\<forall>(i, p, m)\<in>set (index_from 0 (zip ps ns)). grows p m"
    by (auto split: js.splits)
  have "grows (ps ! i) (ns ! i)" if "i < length ps" for i
  proof -
    have "index_from 0 (zip ps ns) ! i = (i, ps ! i, ns ! i)" using that n(2) by (simp add: nth_index_from)
    moreover have "index_from 0 (zip ps ns) ! i \<in> set (index_from 0 (zip ps ns))"
      using that n(2) by (intro nth_mem) simp
    ultimately show ?thesis using all by auto
  qed
  with n show ?thesis by (simp add: records_kept_def grows_record)
qed

lemma grows_array_field:
  assumes "grows p n" and "k \<notin> set COMPUTED_KEYS"
  shows "records_kept (elements (get p k)) (elements (get n k))"
proof (cases "get p k")
  case (JArr ps)
  with assms grows_get [of p n k] have "grows (JArr ps) (get n k)" by simp
  with JArr show ?thesis by (simp add: grows_records)
qed (simp_all add: records_kept_def)

lemma extension_kept:
  assumes "assertMonotonicExtension p n = Inr ()"
  shows "snapshot_kept p n"
proof -
  from assms have g: "grows p n"
    and v: "get p ''verdict'' = JStr ''COMPLETE'' \<longrightarrow> get n ''verdict'' = JStr ''COMPLETE''"
    by (auto simp: assertMonotonicExtension_def and_then_eq_Inr guard_eq_Inr
        extensionValue_grows [THEN iffD1])
  have "k \<notin> set COMPUTED_KEYS" if "k \<in> {''requests'', ''sends'', ''confirmationPolls''}" for k
    using that by (auto simp: COMPUTED_KEYS_def)
  with g v show ?thesis
    by (simp add: snapshot_kept_def requests_of_def sends_of_def polls_of_def grows_record grows_array_field)
qed

section \<open>Runs of the store\<close>

datatype telemetry_event =
    Rpc_Start js js
  | Rpc_Entry js js
  | Cool_Down js js js js
  | Send_Start js js
  | Send_Finish js js js
  | Finish js js js

fun record_event :: "telemetry_env \<Rightarrow> io \<Rightarrow> telemetry_event \<Rightarrow> telemetry_evidence telemetry_call" where
  "record_event env io (Rpc_Start v c) = recordRpcStart env io v c"
| "record_event env io (Rpc_Entry v c) = recordRpcEntry env io v c"
| "record_event env io (Cool_Down c r a b) = recordPreSignCooldown env io c r a b"
| "record_event env io (Send_Start c t) = recordSendStart env io c t"
| "record_event env io (Send_Finish c t oc) = recordSendFinish env io c t oc"
| "record_event env io (Finish at' t cs) = finish env io at' t cs"

text \<open>The caller may go on after a call that threw.\<close>

fun record_events :: "telemetry_env \<Rightarrow> (io \<times> telemetry_event) list \<Rightarrow> telemetry_store \<Rightarrow> telemetry_store" where
  "record_events env [] s = s"
| "record_events env ((io, e) # es) s = record_events env es (snd (record_event env io e s))"

definition valid_snapshot :: "telemetry_env \<Rightarrow> js \<Rightarrow> bool" where
  "valid_snapshot env snapshot \<longleftrightarrow> validateSnapshot (te_number_text env) snapshot = Inr ()"

definition snapshot_file :: "js \<Rightarrow> file_content" where
  "snapshot_file snapshot = Doc (json_norm (sortedJsonValue snapshot))"

text \<open>A file that was found holds the snapshot as it was read, a file that was written its
  canonical form.\<close>

definition holds_snapshot :: "file_content option \<Rightarrow> js \<Rightarrow> bool" where
  "holds_snapshot content snapshot \<longleftrightarrow>
     content = Some (Doc snapshot) \<or> content = Some (snapshot_file snapshot)"

text \<open>The memory of the store is a valid snapshot; the file holds it, or a valid extension of it
  whose write was reported as failed after the file had been replaced.\<close>

definition store_inv :: "telemetry_env \<Rightarrow> telemetry_store \<Rightarrow> bool" where
  "store_inv env s \<longleftrightarrow>
     valid_snapshot env (ts_snapshot s)
     \<and> (\<exists>stored. holds_snapshot (files (ts_files s) (te_path env)) stored
          \<and> valid_snapshot env stored \<and> snapshot_kept (ts_snapshot s) stored)"

lemma record_event_cases:
  "(\<exists>e. record_event env io ev s = (Inl e, s)) \<or> (\<exists>new. record_event env io ev s = persist env io new s)"
  by (cases ev) (auto simp: recordRpcStart_def recordRpcEntry_def recordPreSignCooldown_def
      recordSendStart_def recordSendFinish_def finish_def Let_def split: sum.splits)

lemma persist_cases:
  assumes "persist env io proposed s = (r, s')" and "te_temporary env \<noteq> te_path env"
  obtains (refused) "s' = s"
    | (unwritten) "ts_snapshot s' = ts_snapshot s"
        "files (ts_files s') (te_path env) = files (ts_files s) (te_path env)"
    | (ahead) new where "ts_snapshot s' = ts_snapshot s" "valid_snapshot env new"
        "snapshot_kept (ts_snapshot s) new"
        "files (ts_files s') (te_path env) = Some (snapshot_file new)"
    | (written) new where "ts_snapshot s' = new" "valid_snapshot env new"
        "snapshot_kept (ts_snapshot s) new"
        "files (ts_files s') (te_path env) = Some (snapshot_file new)"
proof -
  define new where "new = refreshComputed proposed"
  show thesis
  proof (cases "and_then (validateSnapshot (te_number_text env) new)
      (\<lambda>_. assertMonotonicExtension (ts_snapshot s) new)")
    case (Inl e)
    with assms(1) show ?thesis by (intro refused) (auto simp: persist_def Let_def new_def)
  next
    case (Inr u)
    then have new: "valid_snapshot env new" "snapshot_kept (ts_snapshot s) new"
      by (auto simp: and_then_eq_Inr valid_snapshot_def extension_kept)
    obtain w fs' where wrote: "writeCanonicalJsonAtomic io (te_temporary env) (te_path env) new (ts_files s) = (w, fs')"
      by fastforce
    show ?thesis
    proof (cases w)
      case (Inl e)
      with assms(1) Inr wrote new(1) have "s' = s\<lparr>ts_files := fs'\<rparr>"
        by (auto simp: persist_def Let_def new_def [symmetric] writeAtomic_def valid_snapshot_def)
      moreover from write_old_or_new [OF wrote assms(2)]
      have "files fs' (te_path env) = files (ts_files s) (te_path env)
          \<or> files fs' (te_path env) = Some (snapshot_file new)"
        by (simp add: snapshot_file_def)
      ultimately show ?thesis using unwritten ahead [OF _ new] by auto
    next
      case (Inr v)
      with assms(1) \<open>and_then _ _ = Inr u\<close> wrote new(1)
      have "s' = s\<lparr>ts_files := fs', ts_snapshot := new\<rparr>"
        by (auto simp: persist_def Let_def new_def [symmetric] writeAtomic_def valid_snapshot_def)
      moreover from wrote Inr write_success [of io "te_temporary env" "te_path env" new "ts_files s" fs'] assms(2)
      have "files fs' (te_path env) = Some (snapshot_file new)" by (simp add: snapshot_file_def)
      ultimately show ?thesis using written [OF _ new] by auto
    qed
  qed
qed

lemma record_event_step:
  assumes "store_inv env s" and "te_temporary env \<noteq> te_path env"
  shows "store_inv env (snd (record_event env io ev s))
    \<and> snapshot_kept (ts_snapshot s) (ts_snapshot (snd (record_event env io ev s)))"
proof -
  consider (same) e where "record_event env io ev s = (Inl e, s)"
    | (persists) new where "record_event env io ev s = persist env io new s"
    using record_event_cases by blast
  then show ?thesis
  proof cases
    case same
    with assms(1) show ?thesis by (simp add: snapshot_kept_refl)
  next
    case (persists new)
    obtain r s' where step: "persist env io new s = (r, s')" by fastforce
    from step assms(2) have "store_inv env s' \<and> snapshot_kept (ts_snapshot s) (ts_snapshot s')"
    proof (cases rule: persist_cases)
      case refused
      with assms(1) show ?thesis by (simp add: snapshot_kept_refl)
    next
      case unwritten
      with assms(1) show ?thesis by (simp add: store_inv_def snapshot_kept_refl)
    next
      case (ahead snap)
      with assms(1) show ?thesis by (auto simp: store_inv_def holds_snapshot_def snapshot_kept_refl)
    next
      case (written snap)
      then show ?thesis by (auto simp: store_inv_def holds_snapshot_def intro: snapshot_kept_refl)
    qed
    with persists step show ?thesis by simp
  qed
qed

lemma record_events_run:
  "store_inv env s \<Longrightarrow> te_temporary env \<noteq> te_path env \<Longrightarrow>
   store_inv env (record_events env es s) \<and> snapshot_kept (ts_snapshot s) (ts_snapshot (record_events env es s))"
proof (induction es arbitrary: s)
  case Nil
  then show ?case by (simp add: snapshot_kept_refl)
next
  case (Cons ie es)
  obtain io e where ie: "ie = (io, e)" by (cases ie)
  from record_event_step [OF Cons.prems] Cons.IH Cons.prems(2) show ?case
    unfolding ie record_events.simps by (blast intro: snapshot_kept_trans)
qed

lemma writeAtomic_ok:
  assumes "writeAtomic env io snapshot fs = (Inr (), fs')" and "te_temporary env \<noteq> te_path env"
  shows "valid_snapshot env snapshot \<and> files fs' (te_path env) = Some (snapshot_file snapshot)"
  using assms write_success [of io "te_temporary env" "te_path env" snapshot fs fs']
  by (auto simp: writeAtomic_def valid_snapshot_def snapshot_file_def split: sum.splits prod.splits)

lemma readUploadTelemetry_ok:
  assumes "readUploadTelemetry env fs = Inr (Some ev)"
  shows "valid_snapshot env (ev_snapshot ev) \<and> fs (te_path env) = Some (Doc (ev_snapshot ev))
    \<and> ev_verdict ev = get (ev_snapshot ev) ''verdict''
    \<and> ev_sha256 ev = te_hash_json env (sortedJsonValue (ev_snapshot ev))"
  using assms
  by (auto simp: readUploadTelemetry_def and_then_eq_Inr evidence_def canonicalTelemetryHash_def
      valid_snapshot_def readJson_def split: if_splits option.splits file_content.splits)

lemma store_invI:
  "valid_snapshot env (ts_snapshot s) \<Longrightarrow> holds_snapshot (files (ts_files s) (te_path env)) (ts_snapshot s) \<Longrightarrow>
   store_inv env s"
  using snapshot_kept_refl by (auto simp: store_inv_def)

lemma created_store_inv:
  assumes "createUploadTelemetryStore env io directory executionId startedAt startMonotonicMs policy fs = (Inr s, fs')"
    and "te_temporary env \<noteq> te_path env"
  shows "store_inv env s \<and> ts_files s = fs'"
  using assms
  by (auto simp: createUploadTelemetryStore_def holds_snapshot_def Let_def
      split: if_splits sum.splits option.splits prod.splits
      dest!: readUploadTelemetry_ok dest: writeAtomic_ok intro!: store_invI)

section \<open>What completeness means\<close>

lemma computedMinimumGap_bound:
  "computedMinimumGap xs = Some m \<Longrightarrow> Suc i < length xs \<Longrightarrow> m \<le> xs ! Suc i - xs ! i"
proof (induction xs arbitrary: m i rule: computedMinimumGap.induct)
  case (1 x y zs)
  show ?case
  proof (cases i)
    case 0
    with 1 show ?thesis by (auto split: option.splits)
  next
    case (Suc j)
    with "1.prems"(2) have "Suc j < length (y # zs)" by simp
    moreover from this have "computedMinimumGap (y # zs) \<noteq> None" by (cases zs) auto
    ultimately obtain m' where "computedMinimumGap (y # zs) = Some m'" "m' \<le> (y # zs) ! Suc j - (y # zs) ! j"
      using "1.IH" by auto
    with "1.prems"(1) Suc show ?thesis by auto
  qed
qed auto

definition spaced :: "rat \<Rightarrow> rat list \<Rightarrow> bool" where
  "spaced gap xs \<longleftrightarrow> (\<forall>i. Suc i < length xs \<longrightarrow> gap \<le> xs ! Suc i - xs ! i)"

lemma foldl_min_le: "x \<in> set (g # gs) \<Longrightarrow> foldl min g gs \<le> (x :: rat)"
proof (induction gs arbitrary: g x)
  case (Cons a gs)
  have "foldl min (min g a) gs \<le> min g a" by (rule Cons.IH) simp
  moreover have "foldl min (min g a) gs \<le> y" if "y \<in> set gs" for y
    using that by (intro Cons.IH) simp
  ultimately show ?case using Cons.prems by auto
qed simp

lemma confirmation_gap_bound:
  assumes "computedMinimumConfirmationGap polls = Some m"
  shows "spaced m (poll_starts polls chunk)"
proof (cases "computedMinimumGap (poll_starts polls chunk)")
  case None
  then have "length (poll_starts polls chunk) < 2" by (cases "poll_starts polls chunk" rule: computedMinimumGap.cases) auto
  then show ?thesis by (auto simp: spaced_def)
next
  case (Some g)
  then have "poll_starts polls chunk \<noteq> []" by auto
  then have "chunk \<in> set (remdups (map (\<lambda>p. get p ''chunkIndex'') polls))"
    by (auto simp: poll_starts_def filter_empty_conv)
  with Some have "g \<in> set (List.map_filter (\<lambda>c. computedMinimumGap (poll_starts polls c))
      (remdups (map (\<lambda>p. get p ''chunkIndex'') polls)))"
    by (auto simp: List.map_filter_def image_iff)
  with assms have "m \<le> g"
    using foldl_min_le by (auto simp: computedMinimumConfirmationGap_def Let_def split: list.splits)
  with computedMinimumGap_bound [OF Some] show ?thesis unfolding spaced_def by (meson order_trans)
qed

text \<open>Complete evidence of a chunk: its send succeeded, in one successful request inside the send's
  boundary, after the cool-off that was required, and it was polled at least twice.\<close>

definition chunk_evidenced :: "js \<Rightarrow> js \<Rightarrow> bool" where
  "chunk_evidenced snapshot chunk \<longleftrightarrow>
     (\<exists>send\<in>set (sends_of snapshot). \<exists>request.
        get send ''chunkIndex'' = chunk \<and> get send ''sendFinishedElapsedMs'' \<noteq> JNull
        \<and> get send ''outcome'' = JStr ''SUCCESS''
        \<and> requests_within snapshot send = [request]
        \<and> get request ''endElapsedMs'' \<noteq> JNull \<and> get request ''outcome'' = JStr ''SUCCESS''
        \<and> (get send ''preSignCooldownRequired'' = JBool True \<longrightarrow>
             num_of (get (get snapshot ''policy'') ''preSignCooldownMs'') \<le> num_of (get send ''preSignCooldownMs'')))
     \<and> 2 \<le> length (poll_starts (polls_of snapshot) chunk)"

definition complete_evidence :: "js \<Rightarrow> bool" where
  "complete_evidence snapshot \<longleftrightarrow>
     (let policy = get snapshot ''policy'' in
      get snapshot ''finishedAt'' \<noteq> JNull
      \<and> expected_of snapshot \<noteq> []
      \<and> (\<forall>chunk\<in>set (expected_of snapshot). chunk_evidenced snapshot chunk)
      \<and> (\<forall>send\<in>set (sends_of snapshot). get send ''chunkIndex'' \<in> set (expected_of snapshot))
      \<and> (\<forall>request\<in>set (requests_of snapshot). get request ''endElapsedMs'' \<noteq> JNull)
      \<and> 2 \<le> length (requests_of snapshot)
      \<and> spaced (num_of (get policy ''globalRequestStartGapMs'')) (request_starts snapshot)
      \<and> (\<forall>chunk. spaced (num_of (get policy ''confirmationPollIntervalMs''))
           (poll_starts (polls_of snapshot) chunk)))"

lemma missing_chunk_none:
  assumes "missing_chunk snapshot chunk = []"
  shows "chunk_evidenced snapshot chunk"
proof (cases "find (\<lambda>s. get s ''chunkIndex'' = chunk) (rev (sends_of snapshot))")
  case None
  with assms show ?thesis by (simp add: missing_chunk_def Let_def)
next
  case (Some send)
  note unfolded = assms [unfolded missing_chunk_def Let_def Some option.case]
  from unfolded have ok: "get send ''sendFinishedElapsedMs'' \<noteq> JNull" "get send ''outcome'' = JStr ''SUCCESS''"
    by (simp_all split: if_splits)
  note parts = unfolded [simplified ok simp_thms if_False append_is_Nil_conv]
  from parts obtain r where r: "requests_within snapshot send = [r]"
      "get r ''endElapsedMs'' \<noteq> JNull" "get r ''outcome'' = JStr ''SUCCESS''"
    by (cases "requests_within snapshot send" rule: remdups_adj.cases) (auto split: if_splits)
  from parts have polls: "2 \<le> length (poll_starts (polls_of snapshot) chunk)"
    by (simp add: poll_starts_def split: if_splits)
  from parts have cool: "\<not> (truthy (get send ''preSignCooldownRequired'')
      \<and> num_of (get send ''preSignCooldownMs'') < num_of (get (get snapshot ''policy'') ''preSignCooldownMs''))"
    by (simp split: if_splits)
  from Some have "send \<in> set (sends_of snapshot)" "get send ''chunkIndex'' = chunk"
    by (auto simp: find_Some_iff) (metis length_rev nth_mem set_rev)
  with ok r polls cool show ?thesis
    unfolding chunk_evidenced_def not_less by force
qed

lemma missing_gap_none:
  assumes "missing_gap (gap_js g) name wanted policy_name absent = []"
  shows "\<not> absent \<and> (\<exists>m. g = Some m \<and> num_of wanted \<le> m)"
  using assms by (cases g) (auto simp: missing_gap_def gap_js_def not_less split: if_splits)

lemma spaced_mono: "a \<le> b \<Longrightarrow> spaced b xs \<Longrightarrow> spaced a xs"
  by (auto simp: spaced_def intro: order_trans)

lemma complete_snapshot:
  assumes "valid_snapshot env snapshot" and "get snapshot ''verdict'' = JStr ''COMPLETE''"
  shows "complete_evidence snapshot"
proof -
  let ?policy = "get snapshot ''policy''"
  have gaps: "get snapshot ''minimumRpcRequestGapMs'' = gap_js (computedMinimumGap (request_starts snapshot))"
      "get snapshot ''minimumConfirmationPollGapMs'' = gap_js (computedMinimumConfirmationGap (polls_of snapshot))"
    and "computeMissing snapshot = []"
    using assms by (auto simp: valid_snapshot_def validateSnapshot_def and_then_eq_Inr guard_eq_Inr verdict_of_def
        split: if_splits)
  then have fin: "get snapshot ''finishedAt'' \<noteq> JNull"
    and rgap: "missing_gap (gap_js (computedMinimumGap (request_starts snapshot))) ''minimumRpcRequestGapMs''
      (get ?policy ''globalRequestStartGapMs'') ''globalRequestStartGapMs'' (length (requests_of snapshot) < 2) = []"
    and open_requests: "filter (\<lambda>r. get r ''endElapsedMs'' = JNull) (requests_of snapshot) = []"
    and unexpected: "filter (\<lambda>s. get s ''chunkIndex'' \<notin> set (expected_of snapshot)) (sends_of snapshot) = []"
    and chunks: "\<forall>chunk\<in>set (expected_of snapshot). missing_chunk snapshot chunk = []"
    and some: "expected_of snapshot \<noteq> []"
    and cgap: "missing_gap (gap_js (computedMinimumConfirmationGap (polls_of snapshot))) ''minimumConfirmationPollGapMs''
      (get ?policy ''confirmationPollIntervalMs'') ''confirmationPollIntervalMs'' False = []"
    by (simp_all add: computeMissing_def Let_def split: if_splits)
  from missing_gap_none [OF rgap] obtain m where m: "computedMinimumGap (request_starts snapshot) = Some m"
      "num_of (get ?policy ''globalRequestStartGapMs'') \<le> m" "2 \<le> length (requests_of snapshot)"
    by auto
  from missing_gap_none [OF cgap] obtain n where n: "computedMinimumConfirmationGap (polls_of snapshot) = Some n"
      "num_of (get ?policy ''confirmationPollIntervalMs'') \<le> n"
    by auto
  have "spaced m (request_starts snapshot)"
    using computedMinimumGap_bound [OF m(1)] by (simp add: spaced_def)
  with m n confirmation_gap_bound [OF n(1)] fin open_requests unexpected chunks some show ?thesis
    unfolding complete_evidence_def Let_def
    by (auto simp: filter_empty_conv intro: spaced_mono missing_chunk_none)
qed

end
