(* ===== verification/Terminal_Evidence.thy ===== *)
theory Terminal_Evidence imports Execution_Contract Iso_Time begin

text \<open>
  \<open>scripts/devnet/upload-terminal-evidence.mjs\<close>: the counters of one upload attempt, and the
  record that says, when the attempt failed, whether anything can have been sent.  The record is
  written once.  \<open>hash_json\<close> is the SHA-256 of the canonical text of a value.
\<close>

section \<open>Schema\<close>

definition TERMINAL_VERSION :: string where
  "TERMINAL_VERSION = ''UPLOAD_TERMINAL_EVIDENCE_V1''"

definition PHASES :: "string list" where
  "PHASES = [''TELEMETRY_INITIALIZATION'', ''TELEMETRY_REPLAY'', ''SUBSCRIBER_SETUP'',
     ''SIGNER_PREPARATION'', ''UPLOAD_EXECUTION'', ''TERMINALIZATION'']"

definition CLASSIFICATIONS :: "string list" where
  "CLASSIFICATIONS = [''FAILED_PRE_SELECTION_STALE_SAFE'', ''FAILED_POST_SELECTION_RECONCILIATION_REQUIRED'']"

definition RECORD_KEYS :: "string list" where
  "RECORD_KEYS =
     [''ambiguousWriteOutcome'', ''authority'', ''boundaries'', ''buffer'', ''classification'',
      ''executionId'', ''finishedAt'', ''leaseSha256'', ''primaryError'', ''program'',
      ''secondaryErrors'', ''startedAt'', ''stateSha256After'', ''stateSha256Before'', ''terminal'',
      ''version'', ''zeroSendProven'']"

definition BOUNDARY_KEYS :: "string list" where
  "BOUNDARY_KEYS =
     [''blockhashRequestCount'', ''candidateSelectionCount'', ''keypairAccessCount'',
      ''sendAttemptCount'', ''signatureRecordedCount'', ''signingAttemptCount'']"

definition ERROR_KEYS :: "string list" where
  "ERROR_KEYS = [''code'', ''diagnostic'', ''phase'']"

definition SECONDARY_ERROR_KEYS :: "string list" where
  "SECONDARY_ERROR_KEYS = [''code'', ''phase'']"

definition SAFE_PRIMARY_CLASSIFICATIONS :: "string list" where
  "SAFE_PRIMARY_CLASSIFICATIONS =
     [''RPC_DEADLINE_EXHAUSTED'', ''RPC_ERROR'', ''RPC_RATE_LIMITED'', ''RPC_REQUEST_TIMEOUT'',
      ''TELEMETRY_PERSISTENCE_FAILED'']"

definition SAFE_DIAGNOSTICS :: "string list" where
  "SAFE_DIAGNOSTICS = [''ERROR'', ''SAFE_RPC_REQUEST_ERROR'', ''TYPE_ERROR'', ''UNKNOWN_ERROR'']"

text \<open>\<open>regex.test(v ?? "")\<close>.\<close>

definition regex_test :: "(rat \<Rightarrow> string) \<Rightarrow> (string \<Rightarrow> bool) \<Rightarrow> js \<Rightarrow> bool" where
  "regex_test number_text P v \<longleftrightarrow> P (js_text number_text (coalesce v (JStr [])))"

text \<open>\<open>/^[A-Z][A-Z0-9_]{2,95}$/\<close> and \<open>/^[1-9A-HJ-NP-Za-km-z]{32,44}$/\<close>.\<close>

definition is_upper_char :: "char \<Rightarrow> bool" where
  "is_upper_char c = (let n = of_char c :: nat in 65 \<le> n \<and> n \<le> 90)"

definition safe_code :: "string \<Rightarrow> bool" where
  "safe_code s \<longleftrightarrow>
     (case s of [] \<Rightarrow> False
      | c # cs \<Rightarrow> is_upper_char c \<and> 2 \<le> length cs \<and> length cs \<le> 95
          \<and> list_all (\<lambda>d. is_upper_char d \<or> is_digit_char d \<or> d = CHR ''_'') cs)"

definition public_key_text :: "string \<Rightarrow> bool" where
  "public_key_text s \<longleftrightarrow>
     32 \<le> length s \<and> length s \<le> 44
     \<and> list_all (\<lambda>c. is_alnum_char c \<and> c \<notin> {CHR ''0'', CHR ''O'', CHR ''I'', CHR ''l''}) s"

definition safeDiagnostic :: "js \<Rightarrow> string" where
  "safeDiagnostic e =
     (if get e ''name'' = JStr ''SafeRpcRequestError'' then ''SAFE_RPC_REQUEST_ERROR''
      else if get e ''name'' = JStr ''TypeError'' then ''TYPE_ERROR''
      else if get e ''name'' = JStr ''Error'' then ''ERROR''
      else ''UNKNOWN_ERROR'')"

definition safePrimaryCode :: "string \<Rightarrow> js \<Rightarrow> string" where
  "safePrimaryCode phase e =
     (if str_in (get e ''classification'') SAFE_PRIMARY_CLASSIFICATIONS
      then text_of (get e ''classification'')
      else if phase = ''TELEMETRY_INITIALIZATION'' then ''TELEMETRY_INITIALIZATION_FAILED''
      else if phase = ''TELEMETRY_REPLAY'' then ''TELEMETRY_REPLAY_VALIDATION_FAILED''
      else if phase = ''SUBSCRIBER_SETUP'' then ''TELEMETRY_SUBSCRIBER_SETUP_FAILED''
      else if phase = ''SIGNER_PREPARATION'' then ''SIGNER_PREPARATION_FAILED''
      else if phase = ''TERMINALIZATION'' then ''TERMINALIZATION_FAILED''
      else ''UPLOAD_EXECUTION_FAILED'')"

definition validateBoundaries :: "js \<Rightarrow> unit result" where
  "validateBoundaries boundaries =
     guard (exact_keys boundaries BOUNDARY_KEYS \<and> list_all (\<lambda>k. safe_count (get boundaries k)) BOUNDARY_KEYS)
       ''terminal boundary schema is invalid''"

definition terminal_shape :: "(rat \<Rightarrow> string) \<Rightarrow> js \<Rightarrow> bool" where
  "terminal_shape number_text r \<longleftrightarrow>
     (let f = get r; err = get r ''primaryError''; test = regex_test number_text in
      exact_keys r RECORD_KEYS
      \<and> f ''version'' = JStr TERMINAL_VERSION
      \<and> test (safe_identifier ''._-'') (f ''executionId'')
      \<and> test hex64 (f ''leaseSha256'') \<and> test hex64 (f ''stateSha256Before'') \<and> test hex64 (f ''stateSha256After'')
      \<and> test public_key_text (f ''program'') \<and> test public_key_text (f ''buffer'')
      \<and> test public_key_text (f ''authority'')
      \<and> validIso (f ''startedAt'') \<and> validIso (f ''finishedAt'')
      \<and> f ''terminal'' = JBool True \<and> is_bool (f ''zeroSendProven'') \<and> is_bool (f ''ambiguousWriteOutcome'')
      \<and> str_in (f ''classification'') CLASSIFICATIONS
      \<and> exact_keys err ERROR_KEYS \<and> test safe_code (get err ''code'') \<and> str_in (get err ''phase'') PHASES
      \<and> str_in (get err ''diagnostic'') SAFE_DIAGNOSTICS
      \<and> is_array (f ''secondaryErrors'')
      \<and> list_all (\<lambda>e. exact_keys e SECONDARY_ERROR_KEYS \<and> test safe_code (get e ''code'')
                      \<and> str_in (get e ''phase'') PHASES) (elements (f ''secondaryErrors'')))"

definition validateTerminalRecord :: "(rat \<Rightarrow> string) \<Rightarrow> js \<Rightarrow> unit result" where
  "validateTerminalRecord number_text r =
     and_then (guard (terminal_shape number_text r) ''terminal evidence schema violates whitelist'') (\<lambda>_.
     and_then (validateBoundaries (get r ''boundaries'')) (\<lambda>_.
     let b = get (get r ''boundaries'');
         allZero = list_all (\<lambda>k. b k = JNum 0) BOUNDARY_KEYS;
         zeroSend = (b ''sendAttemptCount'' = JNum 0 \<and> b ''signatureRecordedCount'' = JNum 0);
         staleSafe = (allZero \<and> strict_equal (get r ''stateSha256Before'') (get r ''stateSha256After'')
                      \<and> get r ''zeroSendProven'' = JBool True \<and> get r ''ambiguousWriteOutcome'' = JBool False) in
     guard ((get r ''classification'' = JStr ''FAILED_PRE_SELECTION_STALE_SAFE'') = staleSafe
         \<and> get r ''zeroSendProven'' = JBool zeroSend
         \<and> get r ''ambiguousWriteOutcome''
           = JBool (0 < num_of (b ''sendAttemptCount'') \<or> 0 < num_of (b ''signatureRecordedCount'')))
       ''terminal evidence classification is invalid''))"

section \<open>The counters of an attempt\<close>

record tracker =
  tr_phase :: string
  tr_blockhashRequestCount :: nat
  tr_candidateSelectionCount :: nat
  tr_keypairAccessCount :: nat
  tr_sendAttemptCount :: nat
  tr_signatureRecordedCount :: nat
  tr_signingAttemptCount :: nat

definition createUploadLifecycleTracker :: tracker where
  "createUploadLifecycleTracker =
     \<lparr> tr_phase = ''TELEMETRY_INITIALIZATION'', tr_blockhashRequestCount = 0,
       tr_candidateSelectionCount = 0, tr_keypairAccessCount = 0, tr_sendAttemptCount = 0,
       tr_signatureRecordedCount = 0, tr_signingAttemptCount = 0 \<rparr>"

datatype tracker_event =
    Enter_Phase string | Candidate_Selection | Keypair_Access | Blockhash_Request
  | Signing_Attempt | Send_Attempt | Signature_Recorded

fun track :: "tracker_event \<Rightarrow> tracker \<Rightarrow> unit result \<times> tracker" where
  "track (Enter_Phase p) t =
     (if p \<notin> set PHASES then (throw ''terminal lifecycle phase is invalid'', t) else (Inr (), t\<lparr>tr_phase := p\<rparr>))"
| "track Candidate_Selection t = (Inr (), t\<lparr>tr_candidateSelectionCount := Suc (tr_candidateSelectionCount t)\<rparr>)"
| "track Keypair_Access t = (Inr (), t\<lparr>tr_keypairAccessCount := Suc (tr_keypairAccessCount t)\<rparr>)"
| "track Blockhash_Request t = (Inr (), t\<lparr>tr_blockhashRequestCount := Suc (tr_blockhashRequestCount t)\<rparr>)"
| "track Signing_Attempt t = (Inr (), t\<lparr>tr_signingAttemptCount := Suc (tr_signingAttemptCount t)\<rparr>)"
| "track Send_Attempt t = (Inr (), t\<lparr>tr_sendAttemptCount := Suc (tr_sendAttemptCount t)\<rparr>)"
| "track Signature_Recorded t = (Inr (), t\<lparr>tr_signatureRecordedCount := Suc (tr_signatureRecordedCount t)\<rparr>)"

fun track_all :: "tracker_event list \<Rightarrow> tracker \<Rightarrow> tracker" where
  "track_all [] t = t"
| "track_all (e # es) t = track_all es (snd (track e t))"

definition boundaries_js :: "tracker \<Rightarrow> js" where
  "boundaries_js t =
     JObj [(''blockhashRequestCount'', JNat (tr_blockhashRequestCount t)),
           (''candidateSelectionCount'', JNat (tr_candidateSelectionCount t)),
           (''keypairAccessCount'', JNat (tr_keypairAccessCount t)),
           (''sendAttemptCount'', JNat (tr_sendAttemptCount t)),
           (''signatureRecordedCount'', JNat (tr_signatureRecordedCount t)),
           (''signingAttemptCount'', JNat (tr_signingAttemptCount t))]"

section \<open>The record\<close>

record terminal_input =
  ti_executionId :: js
  ti_leaseSha256 :: js
  ti_stateSha256Before :: js
  ti_stateSha256After :: js
  ti_program :: js
  ti_buffer :: js
  ti_authority :: js
  ti_startedAt :: js
  ti_finishedAt :: js
  ti_primaryError :: js
  ti_secondaryErrors :: js

definition all_zero :: "tracker \<Rightarrow> bool" where
  "all_zero t \<longleftrightarrow>
     tr_blockhashRequestCount t = 0 \<and> tr_candidateSelectionCount t = 0 \<and> tr_keypairAccessCount t = 0
     \<and> tr_sendAttemptCount t = 0 \<and> tr_signatureRecordedCount t = 0 \<and> tr_signingAttemptCount t = 0"

definition terminal_classification :: "terminal_input \<Rightarrow> tracker \<Rightarrow> string" where
  "terminal_classification i t =
     (if all_zero t \<and> strict_equal (ti_stateSha256Before i) (ti_stateSha256After i)
         \<and> \<not> (0 < tr_sendAttemptCount t \<or> 0 < tr_signatureRecordedCount t)
      then ''FAILED_PRE_SELECTION_STALE_SAFE'' else ''FAILED_POST_SELECTION_RECONCILIATION_REQUIRED'')"

definition terminal_record :: "terminal_input \<Rightarrow> tracker \<Rightarrow> js" where
  "terminal_record i t =
     JObj [(''version'', JStr TERMINAL_VERSION), (''executionId'', ti_executionId i),
           (''leaseSha256'', ti_leaseSha256 i), (''stateSha256Before'', ti_stateSha256Before i),
           (''stateSha256After'', ti_stateSha256After i), (''program'', ti_program i),
           (''buffer'', ti_buffer i), (''authority'', ti_authority i),
           (''startedAt'', ti_startedAt i), (''finishedAt'', ti_finishedAt i),
           (''primaryError'', JObj [(''code'', JStr (safePrimaryCode (tr_phase t) (ti_primaryError i))),
              (''diagnostic'', JStr (safeDiagnostic (ti_primaryError i))), (''phase'', JStr (tr_phase t))]),
           (''secondaryErrors'', ti_secondaryErrors i), (''boundaries'', boundaries_js t),
           (''zeroSendProven'', JBool (tr_sendAttemptCount t = 0 \<and> tr_signatureRecordedCount t = 0)),
           (''ambiguousWriteOutcome'', JBool (0 < tr_sendAttemptCount t \<or> 0 < tr_signatureRecordedCount t)),
           (''classification'', JStr (terminal_classification i t)), (''terminal'', JBool True)]"

definition buildUploadTerminalRecord ::
    "(rat \<Rightarrow> string) \<Rightarrow> terminal_input \<Rightarrow> tracker option \<Rightarrow> js result" where
  "buildUploadTerminalRecord number_text i tracker =
     (case tracker of None \<Rightarrow> throw ''terminal lifecycle tracker is required''
      | Some t \<Rightarrow>
      if tr_phase t \<notin> set PHASES then throw ''terminal lifecycle tracker is required'' else
      and_then (validateBoundaries (boundaries_js t)) (\<lambda>_.
      and_then (validateTerminalRecord number_text (terminal_record i t)) (\<lambda>_.
      Inr (terminal_record i t))))"

section \<open>The file\<close>

record terminal_env =
  tm_number_text :: "rat \<Rightarrow> string"
  tm_hash_json :: "js \<Rightarrow> string"
  tm_path :: path
  tm_temporary :: path

record terminal_evidence =
  tv_sha256 :: string
  tv_record :: js

definition terminal_evidence_of :: "terminal_env \<Rightarrow> js \<Rightarrow> terminal_evidence result" where
  "terminal_evidence_of env r =
     and_then (validateTerminalRecord (tm_number_text env) r)
       (\<lambda>_. Inr \<lparr> tv_sha256 = tm_hash_json env (sortedJsonValue r), tv_record = r \<rparr>)"

definition readUploadTerminalEvidence :: "terminal_env \<Rightarrow> fs \<Rightarrow> terminal_evidence option result" where
  "readUploadTerminalEvidence env fs =
     (if fs (tm_path env) = None then Inr None
      else and_then (readJson fs (tm_path env)) (\<lambda>r.
           and_then (terminal_evidence_of env r) (\<lambda>ev. Inr (Some ev))))"

definition writeUploadTerminalEvidence ::
    "terminal_env \<Rightarrow> io \<Rightarrow> js \<Rightarrow> io_state \<Rightarrow> terminal_evidence result \<times> io_state" where
  "writeUploadTerminalEvidence env io r fs =
     (case terminal_evidence_of env r of
        Inl e \<Rightarrow> (Inl e, fs)
      | Inr new \<Rightarrow>
          if files fs (tm_path env) \<noteq> None
          then (case readUploadTerminalEvidence env (files fs) of
                  Inl e \<Rightarrow> (Inl e, fs)
                | Inr None \<Rightarrow> (throw ''existing terminal evidence regression'', fs)
                | Inr (Some old) \<Rightarrow>
                    if tv_sha256 old = tv_sha256 new then (Inr old, fs)
                    else (throw ''existing terminal evidence regression'', fs))
          else (case writeCanonicalJsonAtomic io (tm_temporary env) (tm_path env) r fs of
                  (Inl e, fs') \<Rightarrow> (Inl e, fs')
                | (Inr u, fs') \<Rightarrow> (Inr new, fs')))"

section \<open>What a record says\<close>

text \<open>The counters are zero as long as nothing but phases was recorded.\<close>

definition only_phases :: "tracker_event list \<Rightarrow> bool" where
  "only_phases es \<longleftrightarrow> (\<forall>e\<in>set es. \<exists>p. e = Enter_Phase p)"

lemma track_counts:
  "all_zero (snd (track e t)) \<longleftrightarrow> all_zero t \<and> (\<exists>p. e = Enter_Phase p)"
  by (cases e) (auto simp: all_zero_def)

lemma track_all_zero: "all_zero (track_all es t) \<longleftrightarrow> all_zero t \<and> only_phases es"
  by (induction es t rule: track_all.induct) (auto simp: only_phases_def track_counts)

lemma track_all_start: "all_zero (track_all es createUploadLifecycleTracker) \<longleftrightarrow> only_phases es"
proof -
  have "all_zero createUploadLifecycleTracker" by (simp add: all_zero_def createUploadLifecycleTracker_def)
  then show ?thesis by (simp add: track_all_zero)
qed

lemma get_terminal_record:
  "get (terminal_record i t) ''stateSha256Before'' = ti_stateSha256Before i"
  "get (terminal_record i t) ''stateSha256After'' = ti_stateSha256After i"
  "get (terminal_record i t) ''boundaries'' = boundaries_js t"
  "get (terminal_record i t) ''classification'' = JStr (terminal_classification i t)"
  "get (terminal_record i t) ''zeroSendProven''
     = JBool (tr_sendAttemptCount t = 0 \<and> tr_signatureRecordedCount t = 0)"
  by (simp_all add: terminal_record_def)

lemma built_record:
  assumes "buildUploadTerminalRecord number_text i (Some t) = Inr r"
  shows "r = terminal_record i t \<and> validateTerminalRecord number_text r = Inr ()
    \<and> (get r ''classification'' = JStr ''FAILED_PRE_SELECTION_STALE_SAFE'' \<longleftrightarrow>
         all_zero t \<and> strict_equal (ti_stateSha256Before i) (ti_stateSha256After i))"
proof -
  from assms have "r = terminal_record i t" "validateTerminalRecord number_text r = Inr ()"
    by (auto simp: buildUploadTerminalRecord_def and_then_eq_Inr split: if_splits)
  then show ?thesis by (auto simp: get_terminal_record terminal_classification_def all_zero_def)
qed

text \<open>The validator's own classification check accepts every record that is built: whether a record
  is accepted depends on the shape of the inputs only.\<close>

definition counters_safe :: "tracker \<Rightarrow> bool" where
  "counters_safe t \<longleftrightarrow> validateBoundaries (boundaries_js t) = Inr ()"

lemma built_record_consistent:
  assumes "counters_safe t"
  shows "validateTerminalRecord number_text (terminal_record i t) = Inr ()
    \<longleftrightarrow> terminal_shape number_text (terminal_record i t)"
proof -
  have b: "get (boundaries_js t) ''blockhashRequestCount'' = JNat (tr_blockhashRequestCount t)"
    "get (boundaries_js t) ''candidateSelectionCount'' = JNat (tr_candidateSelectionCount t)"
    "get (boundaries_js t) ''keypairAccessCount'' = JNat (tr_keypairAccessCount t)"
    "get (boundaries_js t) ''sendAttemptCount'' = JNat (tr_sendAttemptCount t)"
    "get (boundaries_js t) ''signatureRecordedCount'' = JNat (tr_signatureRecordedCount t)"
    "get (boundaries_js t) ''signingAttemptCount'' = JNat (tr_signingAttemptCount t)"
    by (simp_all add: boundaries_js_def)
  have amb: "get (terminal_record i t) ''ambiguousWriteOutcome''
      = JBool (0 < tr_sendAttemptCount t \<or> 0 < tr_signatureRecordedCount t)"
    by (simp add: terminal_record_def)
  show ?thesis
    using assms
    by (auto simp: validateTerminalRecord_def and_then_eq_Inr guard_eq_Inr Let_def counters_safe_def
        get_terminal_record amb b BOUNDARY_KEYS_def terminal_classification_def all_zero_def)
qed

text \<open>A record that was written is never replaced.\<close>

lemma terminal_evidence_is_final:
  assumes "writeUploadTerminalEvidence env io r fs = (res, fs')" and "files fs (tm_path env) \<noteq> None"
  shows "fs' = fs"
  using assms by (auto simp: writeUploadTerminalEvidence_def split: sum.splits option.splits if_splits)

lemma terminal_evidence_written:
  assumes "writeUploadTerminalEvidence env io r fs = (Inr ev, fs')" and "tm_temporary env \<noteq> tm_path env"
  shows "validateTerminalRecord (tm_number_text env) r = Inr ()
    \<and> (files fs (tm_path env) = None \<longrightarrow>
         files fs' (tm_path env) = Some (Doc (json_norm (sortedJsonValue r)))
         \<and> ev = \<lparr> tv_sha256 = tm_hash_json env (sortedJsonValue r), tv_record = r \<rparr>)"
proof -
  from assms(1) have valid: "terminal_evidence_of env r
      = Inr \<lparr> tv_sha256 = tm_hash_json env (sortedJsonValue r), tv_record = r \<rparr>"
    by (auto simp: writeUploadTerminalEvidence_def terminal_evidence_of_def and_then_eq_Inr split: sum.splits)
  then have "validateTerminalRecord (tm_number_text env) r = Inr ()"
    by (auto simp: terminal_evidence_of_def and_then_eq_Inr)
  moreover from assms valid have "files fs (tm_path env) = None \<longrightarrow>
      writeCanonicalJsonAtomic io (tm_temporary env) (tm_path env) r fs = (Inr (), fs')
      \<and> ev = \<lparr> tv_sha256 = tm_hash_json env (sortedJsonValue r), tv_record = r \<rparr>"
    by (cases "files fs (tm_path env)") (auto simp: writeUploadTerminalEvidence_def split: sum.splits prod.splits)
  ultimately show ?thesis using write_success assms(2) by blast
qed

end
