(* ===== verification/Upload_Lease.thy ===== *)
theory Upload_Lease imports Lease_Files Upload_Telemetry Terminal_Evidence Throttled_Uploader begin

text \<open>
  \<open>scripts/devnet/upload-execution-lease.mjs\<close>: the lease that an upload holds on its state file,
  the evaluation of the evidence about transactions whose outcome is open, and the two operations
  that end a lease, apply and release.  The recovery of a lease before any selection is in
  Lease_Recovery.

  State, lease and evidence are values as \<open>JSON.parse\<close> gives them; the type of bytes and the hash,
  parser and printers on it are in the environment, with the process table and the clock.
\<close>

section \<open>Environment\<close>

record 'b lease_env =
  ue_sha256 :: "'b \<Rightarrow> string"
  ue_parse :: "'b \<Rightarrow> js result"
  ue_pretty :: "js \<Rightarrow> 'b"
  ue_compact :: "js \<Rightarrow> 'b"
  ue_number_text :: "rat \<Rightarrow> string"
  ue_stringify :: "js \<Rightarrow> string"
  ue_sha_text :: "string \<Rightarrow> string"
  ue_tx :: tx_env
  ue_process_active :: "js \<Rightarrow> js \<Rightarrow> bool"
  ue_now :: js

text \<open>The texts printed with \<open>JSON.stringify(v, null, 2)\<close> are read back.\<close>

definition reads_back :: "'b lease_env \<Rightarrow> bool" where
  "reads_back env \<longleftrightarrow> (\<forall>v. ue_parse env (ue_pretty env v) = Inr (json_norm v))"

definition canonicalHash :: "'b lease_env \<Rightarrow> string \<Rightarrow> js \<Rightarrow> string" where
  "canonicalHash env domain v =
     ue_sha256 env (ue_compact env (sortedJsonValue (JObj [(''domain'', JStr domain), (''value'', v)])))"

definition serializedStateBytes :: "'b lease_env \<Rightarrow> js \<Rightarrow> 'b" where
  "serializedStateBytes env state = ue_pretty env state"

abbreviation hex_test :: "'b lease_env \<Rightarrow> js \<Rightarrow> bool" where
  "hex_test env v \<equiv> regex_test (ue_number_text env) hex64 v"

definition safe_execution_id :: "js \<Rightarrow> bool" where
  "safe_execution_id v = (case v of JStr s \<Rightarrow> safe_identifier ''._-'' s | _ \<Rightarrow> False)"

definition assertEvidenceHash :: "js \<Rightarrow> string \<Rightarrow> unit result" where
  "assertEvidenceHash v label =
     guard (case v of JStr s \<Rightarrow> hex64 s | _ \<Rightarrow> False) (label @ '' is required'')"

definition lease_directory :: "path \<Rightarrow> path" where
  "lease_directory statePath = statePath @ ''.upload-lease''"

definition archive_root :: "path \<Rightarrow> path" where
  "archive_root statePath = join_path (join_path (dirname statePath) ''history'') ''upload-leases''"

definition archive_directory :: "path \<Rightarrow> string \<Rightarrow> string \<Rightarrow> path" where
  "archive_directory statePath executionId evidenceHash =
     join_path (archive_root statePath) (executionId @ ''--'' @ evidenceHash)"

definition operationLockPath :: "path \<Rightarrow> path" where
  "operationLockPath statePath = statePath @ ''.upload-lease-operation-lock''"

definition parse_file :: "'b lease_env \<Rightarrow> 'b result \<Rightarrow> js result" where
  "parse_file env b = and_then b (ue_parse env)"

section \<open>Acquisition\<close>

record acquire_input =
  ai_executionId :: js
  ai_pid :: js
  ai_hostname :: js
  ai_startedAt :: js
  ai_program :: js
  ai_buffer :: js
  ai_planFingerprint :: js
  ai_stateSha256 :: js

definition nonempty_text :: "js \<Rightarrow> bool" where
  "nonempty_text v = (case v of JStr s \<Rightarrow> s \<noteq> [] | _ \<Rightarrow> False)"

definition hex_text :: "js \<Rightarrow> bool" where
  "hex_text v = (case v of JStr s \<Rightarrow> hex64 s | _ \<Rightarrow> False)"

definition validateAcquireInput :: "acquire_input \<Rightarrow> unit result" where
  "validateAcquireInput i =
     and_then (guard (safe_execution_id (ai_executionId i)) ''safe execution ID is required'') (\<lambda>_.
     and_then (guard (is_integer (ai_pid i) \<and> 1 \<le> num_of (ai_pid i)
         \<and> list_all nonempty_text [ai_hostname i, ai_startedAt i, ai_program i, ai_buffer i,
              ai_planFingerprint i, ai_stateSha256 i])
       ''complete public lease metadata is required'') (\<lambda>_.
     guard (hex_text (ai_planFingerprint i) \<and> hex_text (ai_stateSha256 i))
       ''complete public lease metadata is required''))"

definition lease_metadata :: "acquire_input \<Rightarrow> js" where
  "lease_metadata i =
     JObj [(''lifecycle'', JStr ''ACTIVE''), (''executionId'', ai_executionId i), (''pid'', ai_pid i),
           (''hostname'', ai_hostname i), (''startedAt'', ai_startedAt i), (''program'', ai_program i),
           (''buffer'', ai_buffer i), (''planFingerprint'', ai_planFingerprint i),
           (''stateSha256AtAcquire'', ai_stateSha256 i)]"

text \<open>The result is the hash of the metadata; \<open>mkdir\<close> is what makes the acquisition exclusive.\<close>

definition acquireUploadLease ::
    "'b lease_env \<Rightarrow> 'b lease_io \<Rightarrow> path \<Rightarrow> acquire_input \<Rightarrow> (string, 'b) disk_call" where
  "acquireUploadLease env io statePath i disk =
     (let directory = lease_directory statePath; metadataBytes = ue_pretty env (lease_metadata i) in
      case and_then (validateAcquireInput i) (\<lambda>_.
           and_then (readFile statePath disk) (\<lambda>bytes.
           guard (JStr (ue_sha256 env bytes) = ai_stateSha256 i)
             ''STATE_HASH_DRIFT before lease acquisition'')) of
        Inl e \<Rightarrow> (Inl e, disk)
      | Inr _ \<Rightarrow>
          then_do (mkdir_exclusive io Make_Lease directory ''ACTIVE_UPLOAD_LEASE already exists'') (\<lambda>_.
               then_do (writeNewFileIn io Write_Metadata directory ''lease.json.tmp'' metadataBytes) (\<lambda>_.
               then_do (renameFileIn io Rename_Metadata directory ''lease.json.tmp'' ''lease.json'') (\<lambda>_.
               give (ue_sha256 env metadataBytes)))) disk)"

section \<open>The stored plan\<close>

definition completeLease :: "'b lease_env \<Rightarrow> js \<Rightarrow> bool" where
  "completeLease env lease \<longleftrightarrow>
     get lease ''lifecycle'' = JStr ''ACTIVE''
     \<and> regex_test (ue_number_text env) (safe_identifier ''._-'') (get lease ''executionId'')
     \<and> is_integer (get lease ''pid'') \<and> 0 < num_of (get lease ''pid'')
     \<and> list_all (\<lambda>k. nonempty_text (get lease k)) [''hostname'', ''startedAt'', ''program'', ''buffer'']
     \<and> hex_test env (get lease ''planFingerprint'') \<and> hex_test env (get lease ''stateSha256AtAcquire'')"

definition chunks_of :: "js \<Rightarrow> js list" where
  "chunks_of state = elements (get (buffer_of state) ''chunks'')"

definition windows_of :: "js \<Rightarrow> js list" where
  "windows_of state = elements (get (buffer_of state) ''uploadWindows'')"

text \<open>The plan fingerprint of the stored chunks; whatever throws on the way is a mismatch.\<close>

definition stored_fingerprint :: "'b lease_env \<Rightarrow> js \<Rightarrow> js \<Rightarrow> string result" where
  "stored_fingerprint env state expected =
     and_then (validateChunkRecords (get (buffer_of state) ''chunks'')) (\<lambda>_.
     and_then (guard (sum_list (map (\<lambda>c. num_of (get c ''length'')) (chunks_of state))
           = num_of (get expected ''binaryLength'')) ''length'') (\<lambda>_.
     and_then (guard (is_text (get expected ''buffer'') \<and> is_text (get expected ''authority'')) ''key'') (\<lambda>_.
     and_then (deriveMaxWritePayload (ue_tx env) (text_of (get expected ''buffer''))
         (text_of (get expected ''authority''))) (\<lambda>maxPayload.
     createPlanFingerprint (ue_stringify env) (ue_sha_text env)
       (JObj [(''program'', get expected ''program''), (''buffer'', get expected ''buffer''),
              (''authority'', get expected ''authority''), (''allocation'', get expected ''allocation''),
              (''binarySha256'', get expected ''binarySha256''), (''maxPayload'', JNat maxPayload)])
       (chunks_of state)))))"

definition validateStoredPlan :: "'b lease_env \<Rightarrow> js \<Rightarrow> js \<Rightarrow> bool" where
  "validateStoredPlan env state expected \<longleftrightarrow>
     get state ''schemaVersion'' = JNum 3 \<and> truthy expected \<and> hex_test env (get expected ''binarySha256'')
     \<and> truthy (buffer_of state) \<and> is_array (get (buffer_of state) ''uploadWindows'')
     \<and> list_all (\<lambda>(actual, wanted, name). strict_equal actual wanted) (checkpoint_checks state expected)
     \<and> is_integer (get expected ''binaryLength'') \<and> 1 \<le> num_of (get expected ''binaryLength'')
     \<and> get expected ''allocation'' = JNum (num_of (get expected ''binaryLength'') + 37)
     \<and> (case stored_fingerprint env state expected of
          Inr fp \<Rightarrow> get expected ''planFingerprint'' = JStr fp | Inl e \<Rightarrow> False)"

section \<open>The terminal outcome\<close>

definition is_outcome :: "string \<Rightarrow> js \<Rightarrow> bool" where
  "is_outcome executionId window \<longleftrightarrow>
     get window ''executionId'' = JStr executionId \<and> get window ''terminal'' = JBool True"

definition uniqueTerminalOutcome :: "js \<Rightarrow> string \<Rightarrow> js option" where
  "uniqueTerminalOutcome state executionId =
     (case filter (is_outcome executionId) (windows_of state) of [w] \<Rightarrow> Some w | _ \<Rightarrow> None)"

text \<open>A change of that window in the state.\<close>

definition with_windows :: "js \<Rightarrow> js list \<Rightarrow> js" where
  "with_windows state ws = with_buffer state (assign (buffer_of state) ''uploadWindows'' (JArr ws))"

definition with_chunks :: "js \<Rightarrow> js list \<Rightarrow> js" where
  "with_chunks state cs = with_buffer state (assign (buffer_of state) ''chunks'' (JArr cs))"

definition change_outcome :: "string \<Rightarrow> (js \<Rightarrow> js) \<Rightarrow> js \<Rightarrow> js" where
  "change_outcome executionId f state =
     with_windows state (map (\<lambda>w. if is_outcome executionId w then f w else w) (windows_of state))"

definition delete_field :: "string \<Rightarrow> js \<Rightarrow> js" where
  "delete_field k v = (case v of JObj kvs \<Rightarrow> JObj (filter (\<lambda>(n, x). n \<noteq> k) kvs) | _ \<Rightarrow> v)"

definition unresolved :: "js \<Rightarrow> bool" where
  "unresolved chunk \<longleftrightarrow> str_in (get chunk ''status'') [''SENT'', ''UNKNOWN'']"

section \<open>Evidence about open transactions\<close>

definition EVIDENCE_KEYS :: "string list" where
  "EVIDENCE_KEYS =
     [''chunkIndex'', ''recordedStatus'', ''signature'', ''signatureStatusFound'', ''confirmationStatus'',
      ''statusSlot'', ''statusErr'', ''transactionFound'', ''transactionSignature'', ''signatureCount'',
      ''slot'', ''feeLamports'', ''metaErr'', ''legacyMessage'', ''instructionCount'',
      ''innerInstructionCount'', ''instructionDecoded'', ''program'', ''accountCount'', ''buffer'',
      ''authority'', ''bufferWritable'', ''authoritySigner'', ''offset'', ''payloadLength'',
      ''payloadSha256'', ''payloadExactMatch'', ''onchainLength'', ''onchainSha256'',
      ''onchainExactMatch'', ''snapshotSlot'']"

definition hasOwn :: "js \<Rightarrow> string \<Rightarrow> bool" where
  "hasOwn v key \<longleftrightarrow> key \<in> set (object_keys v)"

definition completeTransactionEvidence :: "js \<Rightarrow> bool" where
  "completeTransactionEvidence v \<longleftrightarrow> is_object v \<and> list_all (hasOwn v) EVIDENCE_KEYS"

definition PROJECTION_KEYS :: "string list" where
  "PROJECTION_KEYS =
     [''chunkIndex'', ''recordedStatus'', ''signature'', ''confirmationStatus'', ''statusSlot'',
      ''statusErr'', ''transactionSignature'', ''signatureCount'', ''slot'', ''feeLamports'', ''metaErr'',
      ''legacyMessage'', ''instructionCount'', ''innerInstructionCount'', ''instructionDecoded'',
      ''program'', ''accountCount'', ''buffer'', ''authority'', ''bufferWritable'', ''authoritySigner'',
      ''offset'', ''payloadLength'', ''payloadSha256'', ''payloadExactMatch'', ''onchainLength'',
      ''onchainSha256'', ''onchainExactMatch'']"

definition transactionProjection :: "js \<Rightarrow> js" where
  "transactionProjection v = JObj (map (\<lambda>k. (k, get v k)) PROJECTION_KEYS)"

record proof_target =
  pt_chunk :: js
  pt_from :: js
  pt_proposed :: bool

record chunk_proofs =
  cp_transitions :: "js list"
  cp_verified :: "js list"
  cp_normalized :: "js list"

definition INTEGER_EVIDENCE :: "string list" where
  "INTEGER_EVIDENCE =
     [''statusSlot'', ''signatureCount'', ''slot'', ''feeLamports'', ''instructionCount'',
      ''innerInstructionCount'', ''accountCount'', ''offset'', ''payloadLength'', ''onchainLength'',
      ''snapshotSlot'']"

definition transaction_matches :: "js \<Rightarrow> proof_target \<Rightarrow> js \<Rightarrow> bool" where
  "transaction_matches expected t ev \<longleftrightarrow>
     (let e = get ev; c = get (pt_chunk t) in
      strict_equal (e ''recordedStatus'') (pt_from t)
      \<and> strict_equal (e ''signature'') (c ''signature'')
      \<and> strict_equal (e ''transactionSignature'') (c ''signature'')
      \<and> e ''signatureCount'' = JNum 1 \<and> e ''statusSlot'' = e ''slot'' \<and> e ''legacyMessage'' = JBool True
      \<and> e ''instructionCount'' = JNum 1 \<and> e ''innerInstructionCount'' = JNum 0
      \<and> e ''instructionDecoded'' = JBool True
      \<and> strict_equal (e ''program'') (get expected ''owner'') \<and> e ''accountCount'' = JNum 2
      \<and> strict_equal (e ''buffer'') (get expected ''buffer'')
      \<and> strict_equal (e ''authority'') (get expected ''authority'')
      \<and> e ''bufferWritable'' = JBool True \<and> e ''authoritySigner'' = JBool True
      \<and> strict_equal (e ''offset'') (c ''offset'') \<and> strict_equal (e ''payloadLength'') (c ''length'')
      \<and> strict_equal (e ''payloadSha256'') (c ''sha256'') \<and> e ''payloadExactMatch'' = JBool True)"

definition onchain_matches :: "proof_target \<Rightarrow> js \<Rightarrow> bool" where
  "onchain_matches t ev \<longleftrightarrow>
     strict_equal (get ev ''onchainLength'') (get (pt_chunk t) ''length'')
     \<and> strict_equal (get ev ''onchainSha256'') (get (pt_chunk t) ''sha256'')
     \<and> get ev ''onchainExactMatch'' = JBool True"

text \<open>The checks of one piece of evidence, in their order: \<open>None\<close> when all pass, otherwise the
  failure.\<close>

definition evidence_failure :: "'b lease_env \<Rightarrow> js \<Rightarrow> js \<Rightarrow> proof_target \<Rightarrow> js option \<Rightarrow> string option" where
  "evidence_failure env expected observations t found =
     (case found of None \<Rightarrow> Some ''INSUFFICIENT_EVIDENCE''
      | Some ev \<Rightarrow>
      let e = get ev in
      if \<not> hasOwn ev ''signatureStatusFound'' \<or> \<not> hasOwn ev ''transactionFound''
      then Some ''INSUFFICIENT_EVIDENCE''
      else if e ''signatureStatusFound'' \<noteq> JBool True \<or> e ''transactionFound'' \<noteq> JBool True
              \<or> e ''confirmationStatus'' \<noteq> JStr ''finalized''
      then Some ''UNRESOLVED_SENT_OR_UNKNOWN''
      else if \<not> completeTransactionEvidence ev then Some ''INSUFFICIENT_EVIDENCE''
      else if \<not> is_bool (e ''statusErr'') \<or> \<not> is_bool (e ''metaErr'') then Some ''INSUFFICIENT_EVIDENCE''
      else if e ''statusErr'' = JBool True \<or> e ''metaErr'' = JBool True
      then Some ''CONFIRMED_TRANSACTION_FAILURE''
      else if list_ex (\<lambda>k. \<not> safe_count (e k)) INTEGER_EVIDENCE
              \<or> \<not> hex_test env (e ''payloadSha256'') \<or> \<not> hex_test env (e ''onchainSha256'')
      then Some ''INSUFFICIENT_EVIDENCE''
      else if \<not> transaction_matches expected t ev then Some ''TRANSACTION_EVIDENCE_MISMATCH''
      else if num_of (e ''snapshotSlot'') < num_of (e ''slot'')
              \<or> num_of (get observations ''bufferContextSlot'') < num_of (e ''slot'')
      then Some ''INSUFFICIENT_EVIDENCE''
      else if \<not> onchain_matches t ev then Some ''IDENTITY_OR_ONCHAIN_MISMATCH''
      else None)"

definition transition_js :: "proof_target \<Rightarrow> js \<Rightarrow> js" where
  "transition_js t ev =
     (let c = get (pt_chunk t) in
      JObj [(''chunkIndex'', c ''index''), (''from'', pt_from t), (''to'', JStr ''CONFIRMED''),
            (''signature'', c ''signature''), (''slot'', get ev ''slot''),
            (''feeLamports'', get ev ''feeLamports''), (''chunkSha256'', c ''sha256'')])"

definition verified_js :: "proof_target \<Rightarrow> js \<Rightarrow> js" where
  "verified_js t ev =
     JObj [(''chunkIndex'', get (pt_chunk t) ''index''), (''signature'', get (pt_chunk t) ''signature''),
           (''slot'', get ev ''slot''), (''feeLamports'', get ev ''feeLamports'')]"

text \<open>\<open>byIndex.get\<close>.\<close>

definition evidence_for :: "js list \<Rightarrow> js \<Rightarrow> js option" where
  "evidence_for transactions index = find (\<lambda>ev. strict_equal (get ev ''chunkIndex'') index) transactions"

fun prove_targets ::
    "'b lease_env \<Rightarrow> js \<Rightarrow> js \<Rightarrow> js list \<Rightarrow> proof_target list \<Rightarrow> chunk_proofs \<Rightarrow> string + chunk_proofs" where
  "prove_targets env expected observations transactions [] acc = Inr acc"
| "prove_targets env expected observations transactions (t # ts) acc =
     (let found = evidence_for transactions (get (pt_chunk t) ''index'') in
      case evidence_failure env expected observations t found of
        Some f \<Rightarrow> Inl f
      | None \<Rightarrow>
          let ev = the found in
          prove_targets env expected observations transactions ts
            \<lparr> cp_transitions = cp_transitions acc @ (if pt_proposed t then [transition_js t ev] else []),
              cp_verified = cp_verified acc @ [verified_js t ev],
              cp_normalized = cp_normalized acc @ [transactionProjection ev] \<rparr>)"

definition no_proofs :: chunk_proofs where
  "no_proofs = \<lparr> cp_transitions = [], cp_verified = [], cp_normalized = [] \<rparr>"

definition open_targets :: "js list \<Rightarrow> proof_target list" where
  "open_targets chunks =
     map (\<lambda>c. \<lparr> pt_chunk = c, pt_from = get c ''status'', pt_proposed = True \<rparr>) (filter unresolved chunks)"

definition evaluateChunkProofs ::
    "'b lease_env \<Rightarrow> js list \<Rightarrow> js \<Rightarrow> js \<Rightarrow> proof_target list \<Rightarrow> string + chunk_proofs" where
  "evaluateChunkProofs env chunks observations expected receiptTargets =
     (let targets = open_targets chunks @ receiptTargets;
          transactions = elements (get observations ''transactions'') in
      if \<not> distinct (map (\<lambda>t. get (pt_chunk t) ''index'') targets) then Inl ''INSUFFICIENT_EVIDENCE''
      else if \<not> is_array (get observations ''transactions'') \<or> length transactions \<noteq> length targets
      then Inl ''INSUFFICIENT_EVIDENCE''
      else if \<not> list_all (\<lambda>ev. is_integer (get ev ''chunkIndex'')) transactions
              \<or> \<not> distinct (map (\<lambda>ev. get ev ''chunkIndex'') transactions)
      then Inl ''INSUFFICIENT_EVIDENCE''
      else prove_targets env expected observations transactions targets no_proofs)"

section \<open>Receipts of applied reconciliations\<close>

definition RECEIPT_KEYS :: "string list" where
  "RECEIPT_KEYS =
     [''appliedAt'', ''evidenceHash'', ''executionId'', ''leaseSha256'', ''onchainEvidenceFingerprint'',
      ''stateSha256Before'', ''transitions'', ''version'']"

definition TRANSITION_KEYS :: "string list" where
  "TRANSITION_KEYS =
     [''chunkIndex'', ''chunkSha256'', ''feeLamports'', ''from'', ''signature'', ''slot'', ''to'']"

definition APPLY_RECEIPT_VERSION :: string where
  "APPLY_RECEIPT_VERSION = ''UPLOAD_RECONCILIATION_V1''"

record receipt_target =
  rt_chunk :: js
  rt_from :: js
  rt_transition :: js

text \<open>\<open>chunks[i]\<close>.\<close>

definition chunk_at :: "js list \<Rightarrow> js \<Rightarrow> js" where
  "chunk_at chunks i =
     (if is_integer i \<and> 0 \<le> num_of i then nth_or_undefined chunks (nat \<lfloor>num_of i\<rfloor>) else Undefined)"

definition receipt_transition_ok :: "js list \<Rightarrow> js \<Rightarrow> bool" where
  "receipt_transition_ok chunks tr \<longleftrightarrow>
     (let t = get tr; chunk = chunk_at chunks (t ''chunkIndex''); c = get chunk in
      exact_keys tr TRANSITION_KEYS \<and> is_integer (t ''chunkIndex'')
      \<and> truthy chunk \<and> str_in (t ''from'') [''SENT'', ''UNKNOWN''] \<and> t ''to'' = JStr ''CONFIRMED''
      \<and> c ''status'' = JStr ''CONFIRMED'' \<and> strict_equal (c ''signature'') (t ''signature'')
      \<and> strict_equal (c ''sha256'') (t ''chunkSha256'')
      \<and> safe_count (t ''slot'') \<and> safe_count (t ''feeLamports''))"

definition receipt_ok :: "'b lease_env \<Rightarrow> js \<Rightarrow> string \<Rightarrow> string \<Rightarrow> bool" where
  "receipt_ok env receipt executionId leaseSha256 \<longleftrightarrow>
     (let r = get receipt in
      exact_keys receipt RECEIPT_KEYS \<and> r ''version'' = JStr APPLY_RECEIPT_VERSION
      \<and> r ''executionId'' = JStr executionId \<and> nonempty_text (r ''appliedAt'')
      \<and> hex_test env (r ''evidenceHash'') \<and> hex_test env (r ''stateSha256Before'')
      \<and> hex_test env (r ''onchainEvidenceFingerprint'') \<and> r ''leaseSha256'' = JStr leaseSha256
      \<and> is_array (r ''transitions'') \<and> r ''transitions'' \<noteq> JArr [])"

text \<open>The receipt and what it moved, when there is exactly one and it is in order.\<close>

definition appliedReceiptTargets ::
    "'b lease_env \<Rightarrow> js \<Rightarrow> string \<Rightarrow> string \<Rightarrow> js list \<Rightarrow> (js \<times> receipt_target list) option" where
  "appliedReceiptTargets env receipts executionId leaseSha256 chunks =
     (case receipts of
        JArr [receipt] \<Rightarrow>
          let trs = elements (get receipt ''transitions'') in
          if receipt_ok env receipt executionId leaseSha256
             \<and> list_all (receipt_transition_ok chunks) trs
             \<and> distinct (map (\<lambda>tr. get tr ''chunkIndex'') trs)
          then Some (receipt, map (\<lambda>tr. \<lparr> rt_chunk = chunk_at chunks (get tr ''chunkIndex''),
                                         rt_from = get tr ''from'', rt_transition = tr \<rparr>) trs)
          else None
      | _ \<Rightarrow> None)"

definition receipt_proofs :: "receipt_target list \<Rightarrow> proof_target list" where
  "receipt_proofs ts = map (\<lambda>t. \<lparr> pt_chunk = rt_chunk t, pt_from = rt_from t, pt_proposed = False \<rparr>) ts"

definition verifiedAppliedReceipt ::
    "js \<times> receipt_target list \<Rightarrow> string \<Rightarrow> js list \<Rightarrow> bool" where
  "verifiedAppliedReceipt info fingerprint normalized \<longleftrightarrow>
     get (fst info) ''onchainEvidenceFingerprint'' = JStr fingerprint
     \<and> list_all (\<lambda>t.
          let tr = get (rt_transition t) in
          case find (\<lambda>n. get n ''chunkIndex'' = tr ''chunkIndex'') (rev normalized) of
            None \<Rightarrow> False
          | Some n \<Rightarrow> strict_equal (get n ''recordedStatus'') (tr ''from'')
              \<and> strict_equal (get n ''signature'') (tr ''signature'')
              \<and> strict_equal (get n ''slot'') (tr ''slot'')
              \<and> strict_equal (get n ''feeLamports'') (tr ''feeLamports'')
              \<and> strict_equal (get n ''payloadSha256'') (tr ''chunkSha256'')
              \<and> strict_equal (get n ''onchainSha256'') (tr ''chunkSha256'')) (snd info)"

text \<open>\<open>chunk.status = from\<close> in the list of chunks.\<close>

definition set_status :: "js list \<Rightarrow> js \<Rightarrow> js \<Rightarrow> js list" where
  "set_status chunks index status =
     (let i = nat \<lfloor>num_of index\<rfloor> in chunks[i := assign (chunks ! i) ''status'' status])"

fun undo_transitions :: "js list \<Rightarrow> js list \<Rightarrow> js list option" where
  "undo_transitions [] chunks = Some chunks"
| "undo_transitions (tr # trs) chunks =
     (let chunk = chunk_at chunks (get tr ''chunkIndex'') in
      if \<not> truthy chunk \<or> get chunk ''status'' \<noteq> JStr ''CONFIRMED'' then None
      else undo_transitions trs (set_status chunks (get tr ''chunkIndex'') (get tr ''from'')))"

text \<open>The state before the receipt was applied, whose bytes have the hash in the receipt.\<close>

definition reconstructReceiptPreState ::
    "'b lease_env \<Rightarrow> js \<Rightarrow> js \<times> receipt_target list \<Rightarrow> js \<Rightarrow> (js \<times> js) option" where
  "reconstructReceiptPreState env state info expected =
     (let receipt = fst info; executionId = text_of (get receipt ''executionId'');
          trs = map rt_transition (snd info) in
      case uniqueTerminalOutcome state executionId of None \<Rightarrow> None
      | Some outcome \<Rightarrow>
          if \<not> is_array (get (buffer_of state) ''chunks'')
             \<or> length (elements (get outcome ''reconciliationOutcomes'')) \<noteq> 1
          then None
          else case undo_transitions trs (chunks_of state) of None \<Rightarrow> None
          | Some chunks \<Rightarrow>
              let prior = with_chunks (change_outcome executionId (delete_field ''reconciliationOutcomes'') state) chunks;
                  opened = filter unresolved chunks in
              if length opened \<noteq> length trs
                 \<or> \<not> list_all (\<lambda>c.
                      case find (\<lambda>tr. strict_equal (get tr ''chunkIndex'') (get c ''index'')) (rev trs) of
                        None \<Rightarrow> False
                      | Some tr \<Rightarrow> strict_equal (get tr ''from'') (get c ''status'')
                          \<and> strict_equal (get tr ''signature'') (get c ''signature'')
                          \<and> strict_equal (get tr ''chunkSha256'') (get c ''sha256'')) opened
                 \<or> \<not> validateStoredPlan env prior expected
                 \<or> get receipt ''stateSha256Before'' \<noteq> JStr (ue_sha256 env (serializedStateBytes env prior))
              then None
              else Some (prior, delete_field ''reconciliationOutcomes'' outcome))"

section \<open>Reconciliation\<close>

record reconcile_input =
  ri_executionId :: js
  ri_expected :: js
  ri_observations :: js

record safe_reconciliation =
  sr_executionId :: string
  sr_releaseReady :: bool
  sr_preStateSha256 :: string
  sr_leaseSha256 :: string
  sr_onchainEvidenceFingerprint :: string
  sr_evidenceHash :: string
  sr_verifiedTransactions :: "js list"
  sr_proposedTransitions :: "js list"

datatype reconciliation =
    Reconcile_Failure (rf_result: string) (rf_lifecycle: string)
  | Safe_To_Release safe_reconciliation

definition insufficient :: reconciliation where
  "insufficient = Reconcile_Failure ''INSUFFICIENT_EVIDENCE'' ''RECONCILIATION_REQUIRED''"

definition lease_mismatch :: reconciliation where
  "lease_mismatch = Reconcile_Failure ''IDENTITY_OR_ONCHAIN_MISMATCH'' ''RECONCILIATION_REQUIRED''"

definition expectedEvidenceProjection :: "js \<Rightarrow> js" where
  "expectedEvidenceProjection expected =
     JObj (map (\<lambda>k. (k, get expected k))
       [''genesis'', ''program'', ''buffer'', ''authority'', ''owner'', ''allocation'', ''binaryLength'',
        ''binarySha256'', ''planFingerprint''])"

definition reconciliationEvidenceHash ::
    "'b lease_env \<Rightarrow> string \<Rightarrow> js \<Rightarrow> string \<Rightarrow> js \<Rightarrow> js \<Rightarrow> js \<Rightarrow> string \<Rightarrow> js list \<Rightarrow> js \<Rightarrow> string" where
  "reconciliationEvidenceHash env executionId preStateSha256 leaseSha256 lease expected terminalOutcome
       fingerprint normalized proposed =
     canonicalHash env ''UPLOAD_LEASE_RECONCILIATION_V2''
       (JObj [(''version'', JStr ''UPLOAD_LEASE_RECONCILIATION_V2''), (''executionId'', JStr executionId),
              (''preStateSha256'', preStateSha256), (''leaseSha256'', JStr leaseSha256),
              (''lease'', JObj (map (\<lambda>k. (k, get lease k))
                 [''executionId'', ''program'', ''buffer'', ''planFingerprint'', ''stateSha256AtAcquire''])),
              (''expected'', expectedEvidenceProjection expected),
              (''terminalOutcomeSha256'', JStr (canonicalHash env ''UPLOAD_WINDOW_TERMINAL_V1'' terminalOutcome)),
              (''onchainEvidenceFingerprint'', JStr fingerprint), (''transactions'', JArr normalized),
              (''proposedTransitions'', proposed)])"

definition onchain_projection :: "js \<Rightarrow> chunk_proofs \<Rightarrow> js" where
  "onchain_projection observed proofs =
     JObj [(''version'', JStr ''UPLOAD_LEASE_ONCHAIN_V1''), (''genesis'', get observed ''verifiedGenesis''),
           (''programAbsent'', JBool True),
           (''minimumEvidenceSlot'',
              JNum (foldl max 0 (map (\<lambda>n. num_of (get n ''slot'')) (cp_normalized proofs)))),
           (''bufferDataSha256'', get observed ''bufferDataSha256''),
           (''buffer'', JObj (map (\<lambda>k. (k, get (get observed ''buffer'') k))
              [''address'', ''owner'', ''authority'', ''allocation''])),
           (''confirmedChunksMatch'', JBool True), (''transactions'', JArr (cp_normalized proofs))]"

definition lease_identity :: "js \<Rightarrow> js \<Rightarrow> bool" where
  "lease_identity lease expected \<longleftrightarrow>
     list_all (\<lambda>k. strict_equal (get lease k) (get expected k)) [''program'', ''buffer'', ''planFingerprint'']"

definition observed_identity :: "'b lease_env \<Rightarrow> js \<Rightarrow> js \<Rightarrow> bool" where
  "observed_identity env observed expected \<longleftrightarrow>
     (let f = get observed; b = get (get observed ''buffer'') in
      f ''genesisVerified'' = JBool True \<and> strict_equal (f ''verifiedGenesis'') (get expected ''genesis'')
      \<and> f ''programAbsent'' = JBool True \<and> f ''confirmedChunksMatch'' = JBool True
      \<and> hex_test env (f ''bufferDataSha256'')
      \<and> safe_count (f ''programContextSlot'') \<and> safe_count (f ''bufferContextSlot'')
      \<and> strict_equal (b ''address'') (get expected ''buffer'')
      \<and> strict_equal (b ''owner'') (get expected ''owner'')
      \<and> strict_equal (b ''authority'') (get expected ''authority'')
      \<and> strict_equal (b ''allocation'') (get expected ''allocation'')
      \<and> strict_equal (b ''planFingerprint'') (get expected ''planFingerprint''))"

text \<open>The receipt stored with the outcome, read with the chunks: \<open>None\<close> when it is not in order.\<close>

definition stored_receipt ::
    "'b lease_env \<Rightarrow> js \<Rightarrow> js \<Rightarrow> string \<Rightarrow> string \<Rightarrow> (js \<times> receipt_target list) option option" where
  "stored_receipt env state outcome executionId leaseSha256 =
     (let stored = get outcome ''reconciliationOutcomes'' in
      if stored = Undefined then Some None
      else case appliedReceiptTargets env stored executionId leaseSha256 (chunks_of state) of
          Some info \<Rightarrow> if filter unresolved (chunks_of state) = [] then Some (Some info) else None
        | None \<Rightarrow> None)"

definition receipt_proven ::
    "'b lease_env \<Rightarrow> js \<Rightarrow> js \<times> receipt_target list \<Rightarrow> js \<Rightarrow> js \<Rightarrow> string \<Rightarrow> string \<Rightarrow> string \<Rightarrow> chunk_proofs \<Rightarrow> bool" where
  "receipt_proven env state info expected lease executionId leaseSha256 fingerprint proofs \<longleftrightarrow>
     verifiedAppliedReceipt info fingerprint (cp_normalized proofs)
     \<and> (case reconstructReceiptPreState env state info expected of
          None \<Rightarrow> False
        | Some (prior, outcome) \<Rightarrow>
            get (fst info) ''evidenceHash'' = JStr (reconciliationEvidenceHash env executionId
              (get (fst info) ''stateSha256Before'') leaseSha256 lease expected outcome fingerprint
              (cp_normalized proofs) (get (fst info) ''transitions'')))"

text \<open>From the evaluated evidence to the answer.\<close>

definition conclude ::
    "'b lease_env \<Rightarrow> reconcile_input \<Rightarrow> js \<Rightarrow> js \<Rightarrow> string \<Rightarrow> string \<Rightarrow> js \<Rightarrow> (js \<times> receipt_target list) option
     \<Rightarrow> chunk_proofs \<Rightarrow> reconciliation" where
  "conclude env i lease state preStateSha256 leaseSha256 outcome info proofs =
     (let expected = ri_expected i; executionId = text_of (ri_executionId i);
          fingerprint = canonicalHash env ''UPLOAD_LEASE_ONCHAIN_V1''
            (onchain_projection (ri_observations i) proofs) in
      if (case info of None \<Rightarrow> False
          | Some ri \<Rightarrow> \<not> receipt_proven env state ri expected lease executionId leaseSha256 fingerprint proofs)
      then insufficient
      else Safe_To_Release \<lparr> sr_executionId = executionId, sr_releaseReady = (cp_transitions proofs = []),
             sr_preStateSha256 = preStateSha256, sr_leaseSha256 = leaseSha256,
             sr_onchainEvidenceFingerprint = fingerprint,
             sr_evidenceHash = reconciliationEvidenceHash env executionId (JStr preStateSha256) leaseSha256
               lease expected outcome fingerprint (cp_normalized proofs) (JArr (cp_transitions proofs)),
             sr_verifiedTransactions = cp_verified proofs, sr_proposedTransitions = cp_transitions proofs \<rparr>)"

definition reconcile_documents ::
    "'b lease_env \<Rightarrow> reconcile_input \<Rightarrow> js \<Rightarrow> js \<Rightarrow> string \<Rightarrow> string \<Rightarrow> reconciliation" where
  "reconcile_documents env i lease state preStateSha256 leaseSha256 =
     (let expected = ri_expected i; observed = ri_observations i; executionId = text_of (ri_executionId i) in
      if \<not> completeLease env lease \<or> get lease ''executionId'' \<noteq> ri_executionId i then insufficient
      else if ue_process_active env (get lease ''pid'') (get lease ''hostname'')
      then Reconcile_Failure ''ACTIVE_PROCESS'' ''ACTIVE''
      else if get expected ''stateSha256'' \<noteq> JStr preStateSha256
      then Reconcile_Failure ''STATE_HASH_DRIFT'' ''RECONCILIATION_REQUIRED''
      else if \<not> list_all (\<lambda>(actual, wanted, name). strict_equal actual wanted) (checkpoint_checks state expected)
      then lease_mismatch
      else if \<not> validateStoredPlan env state expected then insufficient
      else if \<not> lease_identity lease expected \<or> \<not> observed_identity env observed expected
      then lease_mismatch
      else case uniqueTerminalOutcome state executionId of None \<Rightarrow> insufficient
      | Some outcome \<Rightarrow>
      case stored_receipt env state outcome executionId leaseSha256 of None \<Rightarrow> insufficient
      | Some info \<Rightarrow>
      if get outcome ''status'' = JStr ''RPC_OUTCOME_UNKNOWN'' \<and> filter unresolved (chunks_of state) = []
         \<and> info = None
      then insufficient
      else case evaluateChunkProofs env (chunks_of state) observed expected
             (case info of None \<Rightarrow> [] | Some ri \<Rightarrow> receipt_proofs (snd ri)) of
        Inl f \<Rightarrow> Reconcile_Failure f ''RECONCILIATION_REQUIRED''
      | Inr proofs \<Rightarrow> conclude env i lease state preStateSha256 leaseSha256 outcome info proofs)"

definition reconcileAtDirectory ::
    "'b lease_env \<Rightarrow> path \<Rightarrow> reconcile_input \<Rightarrow> path \<Rightarrow> 'b disk \<Rightarrow> reconciliation" where
  "reconcileAtDirectory env statePath i directory disk =
     (case and_then (guard (safe_execution_id (ri_executionId i)) ''safe execution ID is required'') (\<lambda>_.
           and_then (readFileIn directory ''lease.json'' disk) (\<lambda>leaseBytes.
           and_then (ue_parse env leaseBytes) (\<lambda>lease.
           and_then (readFile statePath disk) (\<lambda>stateBytes.
           and_then (ue_parse env stateBytes) (\<lambda>state.
           Inr (lease, state, ue_sha256 env stateBytes, ue_sha256 env leaseBytes)))))) of
        Inl e \<Rightarrow> insufficient
      | Inr (lease, state, preStateSha256, leaseSha256) \<Rightarrow>
          reconcile_documents env i lease state preStateSha256 leaseSha256)"

definition reconcileUploadLease ::
    "'b lease_env \<Rightarrow> path \<Rightarrow> reconcile_input \<Rightarrow> 'b disk \<Rightarrow> reconciliation" where
  "reconcileUploadLease env statePath i disk =
     reconcileAtDirectory env statePath i (lease_directory statePath) disk"

section \<open>Apply\<close>

definition matchingAppliedReceipt ::
    "'b lease_env \<Rightarrow> js \<Rightarrow> string \<Rightarrow> js \<Rightarrow> string \<Rightarrow> js option" where
  "matchingAppliedReceipt env state executionId evidenceHash leaseSha256 =
     (case uniqueTerminalOutcome state executionId of None \<Rightarrow> None
      | Some outcome \<Rightarrow>
          if \<not> is_array (get (buffer_of state) ''chunks'') then None
          else case appliedReceiptTargets env (get outcome ''reconciliationOutcomes'') executionId leaseSha256
                 (chunks_of state) of
              Some (receipt, ts) \<Rightarrow> if strict_equal (get receipt ''evidenceHash'') evidenceHash then Some receipt else None
            | None \<Rightarrow> None)"

definition save_state :: "'b lease_env \<Rightarrow> 'b lease_io \<Rightarrow> path \<Rightarrow> js \<Rightarrow> (unit, 'b) disk_call" where
  "save_state env io p state =
     then_do (lift_result (assertNoSecretMaterial state ''state'')) (\<lambda>_.
     then_do (mkdir_recursive io Save_Mkdir) (\<lambda>_.
     then_do (writeFile io Save_Write (p @ ''.tmp'') (ue_pretty env state)) (\<lambda>_.
     renamePath io Save_Rename (p @ ''.tmp'') p)))"

definition restoreStateBytesAtomic ::
    "'b lease_env \<Rightarrow> 'b lease_io \<Rightarrow> path \<Rightarrow> 'b \<Rightarrow> (unit, 'b) disk_call" where
  "restoreStateBytesAtomic env io statePath originalBytes =
     (let temporary = statePath @ ''.reconciliation-rollback.tmp'' in
      then_do (writeFile io Restore_Write temporary originalBytes) (\<lambda>_.
      then_do (renamePath io Restore_Rename temporary statePath) (\<lambda>_ disk.
        (and_then (readFile statePath disk) (\<lambda>b.
           guard (ue_sha256 env b = ue_sha256 env originalBytes) ''rollback verification failed''), disk))))"

definition validateAppliedState ::
    "'b lease_env \<Rightarrow> js \<Rightarrow> js \<Rightarrow> string \<Rightarrow> js \<Rightarrow> string \<Rightarrow> bool" where
  "validateAppliedState env state expected executionId receipt leaseSha256 \<longleftrightarrow>
     (case uniqueTerminalOutcome state executionId of None \<Rightarrow> False
      | Some outcome \<Rightarrow>
          (case appliedReceiptTargets env (get outcome ''reconciliationOutcomes'') executionId leaseSha256
                 (chunks_of state) of None \<Rightarrow> False
           | Some info \<Rightarrow>
               validateStoredPlan env state expected
               \<and> strict_equal (get (fst info) ''evidenceHash'') (get receipt ''evidenceHash'')
               \<and> reconstructReceiptPreState env state info expected \<noteq> None))"

text \<open>The proposed transitions, applied to the chunks that were read again.\<close>

fun apply_transitions :: "js list \<Rightarrow> js list \<Rightarrow> js list option" where
  "apply_transitions [] chunks = Some chunks"
| "apply_transitions (tr # trs) chunks =
     (let t = get tr; chunk = chunk_at chunks (t ''chunkIndex''); c = get chunk in
      if \<not> truthy chunk \<or> \<not> strict_equal (c ''status'') (t ''from'')
         \<or> \<not> strict_equal (c ''signature'') (t ''signature'') \<or> \<not> strict_equal (c ''sha256'') (t ''chunkSha256'')
         \<or> t ''to'' \<noteq> JStr ''CONFIRMED''
      then None else apply_transitions trs (set_status chunks (t ''chunkIndex'') (JStr ''CONFIRMED'')))"

definition receipt_js :: "'b lease_env \<Rightarrow> safe_reconciliation \<Rightarrow> js" where
  "receipt_js env fresh =
     JObj [(''version'', JStr APPLY_RECEIPT_VERSION), (''executionId'', JStr (sr_executionId fresh)),
           (''evidenceHash'', JStr (sr_evidenceHash fresh)), (''appliedAt'', ue_now env),
           (''stateSha256Before'', JStr (sr_preStateSha256 fresh)), (''leaseSha256'', JStr (sr_leaseSha256 fresh)),
           (''onchainEvidenceFingerprint'', JStr (sr_onchainEvidenceFingerprint fresh)),
           (''transitions'', JArr (sr_proposedTransitions fresh))]"

definition stale :: "'a result" where
  "stale = throw ''STATE_HASH_DRIFT_OR_STALE_EVIDENCE''"

text \<open>The next state: transitions applied, the receipt added to the outcome.\<close>

definition next_state :: "'b lease_env \<Rightarrow> safe_reconciliation \<Rightarrow> js \<Rightarrow> js result" where
  "next_state env fresh state =
     (case apply_transitions (sr_proposedTransitions fresh) (chunks_of state) of None \<Rightarrow> stale
      | Some chunks \<Rightarrow>
      case uniqueTerminalOutcome state (sr_executionId fresh) of None \<Rightarrow> stale
      | Some outcome \<Rightarrow>
          let receipts = coalesce (get outcome ''reconciliationOutcomes'') (JArr []) in
          if \<not> is_array receipts
             \<or> list_ex (\<lambda>r. get r ''evidenceHash'' = JStr (sr_evidenceHash fresh)) (elements receipts)
          then throw ''reconciliation evidence replay conflict''
          else Inr (change_outcome (sr_executionId fresh)
                 (\<lambda>w. assign w ''reconciliationOutcomes'' (JArr (elements receipts @ [receipt_js env fresh])))
                 (with_chunks state chunks)))"

datatype apply_result =
    Already_Applied
  | Applied (ar_evidenceHash: string) (ar_preStateSha256: string) (ar_postStateSha256: string)
      (ar_transitions: "js list")

text \<open>The save, its validation on what was saved, and the way back.\<close>

definition save_validated ::
    "'b lease_env \<Rightarrow> 'b lease_io \<Rightarrow> path \<Rightarrow> js \<Rightarrow> safe_reconciliation \<Rightarrow> 'b \<Rightarrow> js \<Rightarrow> (unit, 'b) disk_call" where
  "save_validated env io statePath expected fresh originalBytes new disk =
     (case then_do (save_state env io statePath new) (\<lambda>_ disk.
             (and_then (parse_file env (readFile statePath disk)) (\<lambda>reread.
              guard (validateAppliedState env reread expected (sr_executionId fresh) (receipt_js env fresh)
                (sr_leaseSha256 fresh)) ''post-write validation failed''), disk)) disk of
        (Inr u, disk1) \<Rightarrow> (Inr (), disk1)
      | (Inl e, disk1) \<Rightarrow>
          (case restoreStateBytesAtomic env io statePath originalBytes disk1 of
             (Inl e', disk2) \<Rightarrow> (throw ''reconciliation apply failed and rollback verification failed'', disk2)
           | (Inr u, disk2) \<Rightarrow> (throw ''reconciliation apply failed; original state restored'', disk2)))"

definition apply_fresh ::
    "'b lease_env \<Rightarrow> 'b lease_io \<Rightarrow> path \<Rightarrow> reconcile_input \<Rightarrow> safe_reconciliation \<Rightarrow> (apply_result, 'b) disk_call" where
  "apply_fresh env io statePath i fresh disk =
     (case and_then (guard (sr_proposedTransitions fresh \<noteq> []) ''no upload reconciliation transitions are available'') (\<lambda>_.
           and_then (readFile statePath disk) (\<lambda>originalBytes.
           and_then (readFileIn (lease_directory statePath) ''lease.json'' disk) (\<lambda>leaseBytes.
           and_then (if ue_sha256 env originalBytes = sr_preStateSha256 fresh
                        \<and> ue_sha256 env leaseBytes = sr_leaseSha256 fresh then Inr () else stale) (\<lambda>_.
           and_then (ue_parse env originalBytes) (\<lambda>state.
           and_then (guard (originalBytes = serializedStateBytes env state)
             ''state must use canonical atomic serialization before reconciliation apply'') (\<lambda>_.
           and_then (next_state env fresh state) (\<lambda>new. Inr (originalBytes, new)))))))) of
        Inl e \<Rightarrow> (Inl e, disk)
      | Inr (originalBytes, new) \<Rightarrow>
          then_do (save_validated env io statePath (ri_expected i) fresh originalBytes new) (\<lambda>_ disk.
            (and_then (readFile statePath disk) (\<lambda>b.
               Inr (Applied (sr_evidenceHash fresh) (sr_preStateSha256 fresh) (ue_sha256 env b)
                      (sr_proposedTransitions fresh))), disk)) disk)"

definition apply_under_lock ::
    "'b lease_env \<Rightarrow> 'b lease_io \<Rightarrow> path \<Rightarrow> reconcile_input \<Rightarrow> js \<Rightarrow> (apply_result, 'b) disk_call" where
  "apply_under_lock env io statePath i reconciliationHash disk =
     (case reconcileUploadLease env statePath i disk of
        Reconcile_Failure f l \<Rightarrow> (stale, disk)
      | Safe_To_Release fresh \<Rightarrow>
          if JStr (sr_evidenceHash fresh) = reconciliationHash then apply_fresh env io statePath i fresh disk
          else (case parse_file env (readFile statePath disk) of
              Inl e \<Rightarrow> (Inl e, disk)
            | Inr state \<Rightarrow>
                if matchingAppliedReceipt env state (sr_executionId fresh) reconciliationHash (sr_leaseSha256 fresh) \<noteq> None
                   \<and> sr_releaseReady fresh \<and> sr_proposedTransitions fresh = []
                then (Inr Already_Applied, disk) else (stale, disk)))"

definition acquireOperationLock :: "'b lease_io \<Rightarrow> path \<Rightarrow> (unit, 'b) disk_call" where
  "acquireOperationLock io statePath =
     mkdir_exclusive io Make_Lock (operationLockPath statePath) ''UPLOAD_LEASE_OPERATION_BUSY''"

definition under_operation_lock :: "'b lease_io \<Rightarrow> path \<Rightarrow> ('a, 'b) disk_call \<Rightarrow> ('a, 'b) disk_call" where
  "under_operation_lock io statePath m =
     then_do (acquireOperationLock io statePath) (\<lambda>_. with_lock_removed io (operationLockPath statePath) m)"

definition applyUploadReconciliation ::
    "'b lease_env \<Rightarrow> 'b lease_io \<Rightarrow> path \<Rightarrow> reconcile_input \<Rightarrow> js \<Rightarrow> js \<Rightarrow> (apply_result, 'b) disk_call" where
  "applyUploadReconciliation env io statePath i acknowledgement reconciliationHash =
     then_do (lift_result (guard (acknowledgement = JStr APPLY_RECONCILIATION_ACKNOWLEDGEMENT)
       ''explicit upload-reconciliation acknowledgement is required'')) (\<lambda>_.
     then_do (lift_result (assertEvidenceHash reconciliationHash ''matching reconciliation hash'')) (\<lambda>_.
     under_operation_lock io statePath (apply_under_lock env io statePath i reconciliationHash)))"

section \<open>Release\<close>

definition completeReleaseReceipt :: "js \<Rightarrow> js \<Rightarrow> js \<Rightarrow> safe_reconciliation \<Rightarrow> bool" where
  "completeReleaseReceipt receipt executionId reconciliationHash fresh \<longleftrightarrow>
     (let r = get receipt in
      exact_keys receipt [''authorization'', ''evidenceHash'', ''executionId'', ''leaseSha256'',
        ''stateSha256'', ''version'']
      \<and> r ''version'' = JStr ''UPLOAD_LEASE_RELEASE_V1'' \<and> r ''authorization'' = JStr ''SAFE_TO_ARCHIVE''
      \<and> strict_equal (r ''executionId'') executionId \<and> strict_equal (r ''evidenceHash'') reconciliationHash
      \<and> r ''stateSha256'' = JStr (sr_preStateSha256 fresh) \<and> r ''leaseSha256'' = JStr (sr_leaseSha256 fresh))"

definition release_receipt :: "safe_reconciliation \<Rightarrow> js" where
  "release_receipt fresh =
     JObj [(''version'', JStr ''UPLOAD_LEASE_RELEASE_V1''), (''authorization'', JStr ''SAFE_TO_ARCHIVE''),
           (''executionId'', JStr (sr_executionId fresh)), (''evidenceHash'', JStr (sr_evidenceHash fresh)),
           (''stateSha256'', JStr (sr_preStateSha256 fresh)), (''leaseSha256'', JStr (sr_leaseSha256 fresh))]"

text \<open>The evidence files of a directory, parsed.\<close>

definition parsed_files :: "'b lease_env \<Rightarrow> 'b node option \<Rightarrow> fs" where
  "parsed_files env n name =
     map_option (\<lambda>b. case ue_parse env b of Inr v \<Rightarrow> Doc v | Inl e \<Rightarrow> Junk) (dir_files n name)"

definition telemetry_env_of :: "'b lease_env \<Rightarrow> telemetry_env" where
  "telemetry_env_of env =
     \<lparr> te_number_text = ue_number_text env, te_hash_json = (\<lambda>v. ue_sha256 env (ue_compact env v)),
       te_path = ''telemetry.json'', te_temporary = ''telemetry.json.tmp'' \<rparr>"

definition telemetry_in :: "'b lease_env \<Rightarrow> path \<Rightarrow> 'b disk \<Rightarrow> telemetry_evidence option result" where
  "telemetry_in env directory disk =
     readUploadTelemetry (telemetry_env_of env) (parsed_files env (disk directory))"

definition verifyTelemetryStateBinding ::
    "'b lease_env \<Rightarrow> path \<Rightarrow> path \<Rightarrow> string \<Rightarrow> 'b disk \<Rightarrow> telemetry_evidence option result" where
  "verifyTelemetryStateBinding env statePath directory executionId disk =
     and_then (parse_file env (readFile statePath disk)) (\<lambda>state.
     case uniqueTerminalOutcome state executionId of
       None \<Rightarrow> throw ''telemetry terminal state is missing''
     | Some outcome \<Rightarrow>
         and_then (telemetry_in env directory disk) (\<lambda>found.
         let reference = get outcome ''telemetryEvidence'' in
         if reference = Undefined
         then (case found of None \<Rightarrow> Inr None | Some ev \<Rightarrow> throw ''telemetry state reference is missing'')
         else case found of
           None \<Rightarrow> throw ''telemetry state binding is invalid''
         | Some ev \<Rightarrow>
             if \<not> exact_keys reference [''sha256'', ''verdict'']
                \<or> \<not> str_in (get reference ''verdict'') [''COMPLETE'', ''INCOMPLETE'']
                \<or> \<not> hex_text (get reference ''sha256'')
                \<or> ev_verdict ev \<noteq> get reference ''verdict'' \<or> JStr (ev_sha256 ev) \<noteq> get reference ''sha256''
             then throw ''telemetry state binding is invalid''
             else and_then (parse_file env (readFileIn directory ''lease.json'' disk)) (\<lambda>lease.
               let g = get (ev_snapshot ev) in
               if g ''executionId'' \<noteq> JStr executionId \<or> \<not> strict_equal (g ''executionId'') (get lease ''executionId'')
                  \<or> \<not> strict_equal (g ''startedAt'') (get outcome ''startedAt'')
                  \<or> \<not> strict_equal (g ''startedAt'') (get lease ''startedAt'')
               then throw ''telemetry execution/start binding is invalid''
               else if \<not> strict_equal (coalesce (g ''finishedAt'') JNull) (coalesce (get outcome ''finishedAt'') JNull)
               then throw ''telemetry terminal finish timestamp binding is invalid''
               else Inr (Some ev))))"

text \<open>The result says whether the lease had been released before.\<close>

definition write_release_receipt ::
    "'b lease_env \<Rightarrow> 'b lease_io \<Rightarrow> path \<Rightarrow> reconcile_input \<Rightarrow> js \<Rightarrow> safe_reconciliation \<Rightarrow> (unit, 'b) disk_call" where
  "write_release_receipt env io active i reconciliationHash fresh disk =
     (case readFileIn active ''release.json'' disk of
        Inr b \<Rightarrow>
          ((case ue_parse env b of
              Inr stored \<Rightarrow> guard (completeReleaseReceipt stored (ri_executionId i) reconciliationHash fresh)
                ''active upload lease release receipt is invalid''
            | Inl e \<Rightarrow> throw ''active upload lease release receipt is invalid''), disk)
      | Inl e \<Rightarrow>
          (case then_do (writeNewFileIn io Write_Receipt active ''release.json.tmp''
                   (ue_pretty env (release_receipt fresh))) (\<lambda>_.
                 renameFileIn io Rename_Receipt active ''release.json.tmp'' ''release.json'') disk of
             (Inl e', disk') \<Rightarrow> (throw ''atomic lease release receipt write failed'', disk')
           | (Inr u, disk') \<Rightarrow> (Inr (), disk')))"

definition check_archived_telemetry ::
    "'b lease_env \<Rightarrow> path \<Rightarrow> path \<Rightarrow> string \<Rightarrow> telemetry_evidence option \<Rightarrow> 'b option \<Rightarrow> 'b disk \<Rightarrow> unit result" where
  "check_archived_telemetry env statePath archive executionId before bytes disk =
     and_then (case before of
         None \<Rightarrow> Inr ()
       | Some ev \<Rightarrow>
           (case (telemetry_in env archive disk, dir_files (disk archive) ''telemetry.json'') of
              (Inr (Some after), Some b) \<Rightarrow>
                guard (ev_sha256 after = ev_sha256 ev \<and> Some b = bytes)
                  ''telemetry archive integrity verification failed''
            | _ \<Rightarrow> throw ''telemetry archive integrity verification failed'')) (\<lambda>_.
     and_then (verifyTelemetryStateBinding env statePath archive executionId disk) (\<lambda>_. Inr ()))"

definition archive_lease ::
    "'b lease_env \<Rightarrow> 'b lease_io \<Rightarrow> path \<Rightarrow> path \<Rightarrow> path \<Rightarrow> string \<Rightarrow> telemetry_evidence option \<Rightarrow> (bool, 'b) disk_call" where
  "archive_lease env io statePath active archive executionId before disk =
     (let bytes = dir_files (disk active) ''telemetry.json'' in
      case renamePath io Rename_Archive active archive disk of
        (Inl e, disk1) \<Rightarrow> (throw ''atomic lease archive failed'', disk1)
      | (Inr u, disk1) \<Rightarrow>
          (and_then (check_archived_telemetry env statePath archive executionId before bytes disk1)
             (\<lambda>_. Inr False), disk1))"

definition release_fresh ::
    "'b lease_env \<Rightarrow> 'b lease_io \<Rightarrow> path \<Rightarrow> reconcile_input \<Rightarrow> js \<Rightarrow> path \<Rightarrow> bool \<Rightarrow> safe_reconciliation
     \<Rightarrow> (bool, 'b) disk_call" where
  "release_fresh env io statePath i reconciliationHash archive activeExists fresh disk =
     (let active = lease_directory statePath; directory = (if activeExists then active else archive);
          executionId = sr_executionId fresh in
      case verifyTelemetryStateBinding env statePath directory executionId disk of
        Inl e \<Rightarrow> (Inl e, disk)
      | Inr before \<Rightarrow>
          if \<not> activeExists
          then (case parse_file env (readFileIn archive ''release.json'' disk) of
                  Inl e \<Rightarrow> (throw ''archived upload lease release receipt is invalid'', disk)
                | Inr receipt \<Rightarrow>
                    (and_then (guard (completeReleaseReceipt receipt (ri_executionId i) reconciliationHash fresh)
                       ''archived upload lease release receipt is invalid'') (\<lambda>_. Inr True), disk))
          else then_do (mkdir_recursive io Make_Archive_Root) (\<lambda>_.
               then_do (write_release_receipt env io active i reconciliationHash fresh) (\<lambda>_.
               archive_lease env io statePath active archive executionId before)) disk)"

definition release_under_lock ::
    "'b lease_env \<Rightarrow> 'b lease_io \<Rightarrow> path \<Rightarrow> reconcile_input \<Rightarrow> js \<Rightarrow> (bool, 'b) disk_call" where
  "release_under_lock env io statePath i reconciliationHash disk =
     (let active = lease_directory statePath;
          archive = archive_directory statePath (text_of (ri_executionId i)) (text_of reconciliationHash);
          activeExists = existsPath active disk; archiveExists = existsPath archive disk in
      if \<not> safe_execution_id (ri_executionId i) then (throw ''safe execution ID is required'', disk)
      else if activeExists \<and> archiveExists then (throw ''ambiguous active and archived upload lease'', disk)
      else if \<not> activeExists \<and> \<not> archiveExists then (throw ''matching upload lease was not found'', disk)
      else case reconcileAtDirectory env statePath i (if activeExists then active else archive) disk of
        Reconcile_Failure f l \<Rightarrow> (stale, disk)
      | Safe_To_Release fresh \<Rightarrow>
          if JStr (sr_evidenceHash fresh) \<noteq> reconciliationHash then (stale, disk)
          else if \<not> sr_releaseReady fresh \<or> sr_proposedTransitions fresh \<noteq> []
          then (throw ''reconciliation transitions must be applied before lease release; evidence is not release-ready'', disk)
          else release_fresh env io statePath i reconciliationHash archive activeExists fresh disk)"

definition releaseUploadLease ::
    "'b lease_env \<Rightarrow> 'b lease_io \<Rightarrow> path \<Rightarrow> reconcile_input \<Rightarrow> js \<Rightarrow> js \<Rightarrow> (bool, 'b) disk_call" where
  "releaseUploadLease env io statePath i acknowledgement reconciliationHash =
     then_do (lift_result (guard (acknowledgement = JStr RELEASE_LEASE_ACKNOWLEDGEMENT)
       ''explicit lease-release acknowledgement is required'')) (\<lambda>_.
     then_do (lift_result (assertEvidenceHash reconciliationHash ''matching reconciliation hash'')) (\<lambda>_.
     under_operation_lock io statePath (release_under_lock env io statePath i reconciliationHash)))"

end
