(* ===== verification/Lease_Recovery.thy ===== *)
theory Lease_Recovery imports Upload_Lease begin

text \<open>
  \<open>scripts/devnet/upload-execution-lease.mjs\<close>: the recovery of a lease whose upload died before it
  selected a chunk.  The lease, the state, the evidence of the run and the evidence of its host are
  read again, everything is bound to what the operator expects and to fresh observations, and only
  then the lease directory moves to the archive, with a receipt.

  \<open>Date.parse\<close>, \<open>path.resolve\<close>, the length of a byte string, the bytes of an empty file and the
  random part of a temporary name are in the adapters; \<open>refreshInput\<close> is a parameter.
\<close>

section \<open>Inputs\<close>

record recovery_input =
  vi_statePath :: path
  vi_expected :: js
  vi_observations :: js
  vi_outerEvidenceDirectory :: path
  vi_acknowledgement :: js
  vi_recoveryHash :: js

record 'b recovery_adapters =
  ra_length :: "'b \<Rightarrow> nat"
  ra_date :: "js \<Rightarrow> js"
  ra_resolve :: "string \<Rightarrow> string"
  ra_uuid :: string
  ra_empty :: 'b
  ra_owner_status :: "(js \<Rightarrow> js) option"

definition PRE_SELECTION_RECOVERY_VERSION :: string where
  "PRE_SELECTION_RECOVERY_VERSION = ''UPLOAD_PRE_SELECTION_RECOVERY_V1''"

text \<open>\<open>return preSelectionFailure(reason)\<close>; the exceptions on the way are failures for
  \<open>INSUFFICIENT_EVIDENCE\<close>.\<close>

type_synonym 'a refusable = "string + 'a"

definition refuse_unless :: "bool \<Rightarrow> string \<Rightarrow> unit refusable" where
  "refuse_unless c reason = (if c then Inr () else Inl reason)"

definition attempt :: "'a result \<Rightarrow> 'a refusable" where
  "attempt m = (case m of Inl e \<Rightarrow> Inl ''INSUFFICIENT_EVIDENCE'' | Inr x \<Rightarrow> Inr x)"

lemma refuse_unless_eq_Inr [result_simps]: "refuse_unless c reason = Inr u \<longleftrightarrow> c"
  by (simp add: refuse_unless_def)

lemma attempt_eq_Inr [result_simps]: "attempt m = Inr x \<longleftrightarrow> m = Inr x"
  by (simp add: attempt_def split: sum.split)

definition read_names :: "path \<Rightarrow> 'b disk \<Rightarrow> string list result" where
  "read_names p disk =
     (case disk p of
        Some (Dir d) \<Rightarrow> Inr (file_names (Some (Dir d)))
      | Some (File b) \<Rightarrow> throw ''ENOTDIR''
      | None \<Rightarrow> throw ''ENOENT'')"

definition file_projection_of :: "'b lease_env \<Rightarrow> 'b recovery_adapters \<Rightarrow> 'b \<Rightarrow> js" where
  "file_projection_of env ra b =
     JObj [(''bytes'', JNat (ra_length ra b)), (''sha256'', JStr (ue_sha256 env b))]"

definition fileProjection ::
    "'b lease_env \<Rightarrow> 'b recovery_adapters \<Rightarrow> path \<Rightarrow> string list \<Rightarrow> 'b disk \<Rightarrow> js result" where
  "fileProjection env ra directory names disk =
     and_then (map_result (\<lambda>name. and_then (readFileIn directory name disk) (\<lambda>b.
         Inr (name, file_projection_of env ra b))) names)
       (\<lambda>kvs. Inr (JObj kvs))"

definition without_receipt :: "string list \<Rightarrow> string list" where
  "without_receipt names = filter (\<lambda>name. name \<noteq> ''recovery.json'') names"

definition archiveEvidenceHash ::
    "'b lease_env \<Rightarrow> 'b recovery_adapters \<Rightarrow> path \<Rightarrow> string list \<Rightarrow> 'b disk \<Rightarrow> string result" where
  "archiveEvidenceHash env ra directory names disk =
     and_then (fileProjection env ra directory (without_receipt names) disk) (\<lambda>v.
       Inr (canonicalHash env ''UPLOAD_PRE_SELECTION_ARCHIVE_EVIDENCE_V1'' v))"

definition ownerProcessStatus :: "'b lease_env \<Rightarrow> 'b recovery_adapters \<Rightarrow> js \<Rightarrow> js" where
  "ownerProcessStatus env ra lease =
     (case ra_owner_status ra of
        Some f \<Rightarrow> f lease
      | None \<Rightarrow>
          if ue_process_active env (get lease ''pid'') (get lease ''hostname'')
          then JStr ''LIVE'' else JStr ''DEAD'')"

section \<open>What the operator expects\<close>

definition plain_fields :: "js \<Rightarrow> bool" where
  "plain_fields v = (case v of JObj kvs \<Rightarrow> True | JArr vs \<Rightarrow> True | _ \<Rightarrow> False)"

text \<open>\<open>resolve(expected.leasePath ?? "") === expected.leasePath\<close>; it throws on a value that is not
  a text.\<close>

definition resolved_lease_path :: "'b recovery_adapters \<Rightarrow> js \<Rightarrow> bool result" where
  "resolved_lease_path ra expected =
     (case coalesce (get expected ''leasePath'') (JStr []) of
        JStr p \<Rightarrow> Inr (get expected ''leasePath'' = JStr (ra_resolve ra p))
      | _ \<Rightarrow> Inl TypeError)"

definition completePreSelectionExpected ::
    "'b lease_env \<Rightarrow> 'b recovery_adapters \<Rightarrow> js \<Rightarrow> bool result" where
  "completePreSelectionExpected env ra expected =
     (let e = get expected;
          sha = regex_test (ue_number_text env) hex40;
          name = regex_test (ue_number_text env) (safe_identifier ''._-'') in
      if \<not> plain_fields expected then Inr False
      else and_then (resolved_lease_path ra expected) (\<lambda>resolved.
        Inr (resolved
          \<and> hex_test env (e ''leaseSha256'') \<and> hex_test env (e ''evidenceSha256'')
          \<and> name (e ''outerExecutionId'') \<and> name (e ''innerExecutionId'')
          \<and> sha (e ''repositorySha'') \<and> sha (e ''incidentRepositorySha'')
          \<and> hex_test env (e ''stateSha256'') \<and> hex_test env (e ''bufferSha256'')
          \<and> is_text (e ''program'') \<and> is_text (e ''buffer'') \<and> is_text (e ''authority'')
          \<and> (case e ''candidateIndexes'' of
               JArr vs \<Rightarrow> vs \<noteq> [] \<and> increasing_indexes None vs | _ \<Rightarrow> False)
          \<and> e ''zeroSend'' = JBool True \<and> e ''deadOwner'' = JBool True)))"

definition RECOVERY_RECEIPT_KEYS :: "string list" where
  "RECOVERY_RECEIPT_KEYS = [''archiveEvidenceSha256'', ''bufferSha256'', ''evidenceSha256'',
     ''innerExecutionId'', ''leaseSha256'', ''lifecycle'', ''outerExecutionId'', ''recoveredAt'',
     ''recoveryHash'', ''repositorySha'', ''stateSha256'', ''version'']"

definition completeRecoveryReceipt :: "js \<Rightarrow> js \<Rightarrow> js \<Rightarrow> string \<Rightarrow> bool" where
  "completeRecoveryReceipt receipt expected recoveryHash archiveSha256 \<longleftrightarrow>
     (let r = get receipt in
      exact_keys receipt RECOVERY_RECEIPT_KEYS
      \<and> r ''version'' = JStr PRE_SELECTION_RECOVERY_VERSION
      \<and> r ''lifecycle'' = JStr ''FAILED_PRE_SELECTION_STALE_SAFE''
      \<and> strict_equal (r ''recoveryHash'') recoveryHash
      \<and> r ''archiveEvidenceSha256'' = JStr archiveSha256
      \<and> list_all (\<lambda>k. strict_equal (r k) (get expected k))
          [''outerExecutionId'', ''innerExecutionId'', ''repositorySha'', ''stateSha256'',
           ''bufferSha256'', ''leaseSha256'', ''evidenceSha256'']
      \<and> is_text (r ''recoveredAt''))"

section \<open>The evidence of the host\<close>

definition OUTER_FILES :: "string list" where
  "OUTER_FILES = [''authorization.json'', ''host-result.json'', ''invocation.json'',
     ''supervisor-stderr.log'', ''supervisor-stdout.log'']"

definition PUBLIC_FAILURES :: "string list" where
  "PUBLIC_FAILURES = [''COMMAND_FAILED_SAFE'', ''TELEMETRY_REPLAY_VALIDATION_FAILED'',
     ''TELEMETRY_INITIALIZATION_FAILED'', ''TELEMETRY_PERSISTENCE_FAILED'',
     ''TELEMETRY_SUBSCRIBER_SETUP_FAILED'']"

text \<open>\<open>vs.join("\0")\<close>.\<close>

fun joined_by_zero :: "(rat \<Rightarrow> string) \<Rightarrow> js list \<Rightarrow> string" where
  "joined_by_zero number_text [] = []"
| "joined_by_zero number_text [v] = js_text number_text (coalesce v (JStr []))"
| "joined_by_zero number_text (v # vs) =
     js_text number_text (coalesce v (JStr [])) @ CHR 0x00 # joined_by_zero number_text vs"

record outer_documents =
  od_authorization :: js
  od_invocation :: js
  od_hostResult :: js
  od_supervisor :: js
  od_publicError :: js
  od_stdout :: js
  od_stderr :: js

definition read_outer_documents ::
    "'b lease_env \<Rightarrow> 'b recovery_adapters \<Rightarrow> path \<Rightarrow> 'b disk \<Rightarrow> outer_documents result" where
  "read_outer_documents env ra directory disk =
     (let doc = (\<lambda>name. parse_file env (readFileIn directory name disk)) in
      and_then (read_names directory disk) (\<lambda>names.
      and_then (guard (names = sort OUTER_FILES) ''outer evidence file set mismatch'') (\<lambda>_.
      and_then (doc ''authorization.json'') (\<lambda>authorization.
      and_then (doc ''invocation.json'') (\<lambda>invocation.
      and_then (doc ''host-result.json'') (\<lambda>hostResult.
      and_then (readFileIn directory ''supervisor-stdout.log'' disk) (\<lambda>stdoutBytes.
      and_then (readFileIn directory ''supervisor-stderr.log'' disk) (\<lambda>stderrBytes.
      and_then (ue_parse env stdoutBytes) (\<lambda>supervisor.
      and_then (ue_parse env stderrBytes) (\<lambda>publicError.
        Inr \<lparr> od_authorization = authorization, od_invocation = invocation, od_hostResult = hostResult,
          od_supervisor = supervisor, od_publicError = publicError,
          od_stdout = file_projection_of env ra stdoutBytes,
          od_stderr = file_projection_of env ra stderrBytes \<rparr>))))))))))"

definition same_projection :: "js \<Rightarrow> js \<Rightarrow> bool" where
  "same_projection stored projection \<longleftrightarrow>
     list_all (\<lambda>k. strict_equal (get stored k) (get projection k)) [''bytes'', ''sha256'']"

definition authorization_ok :: "'b lease_env \<Rightarrow> js \<Rightarrow> js \<Rightarrow> js \<Rightarrow> bool" where
  "authorization_ok env expected authorization manifest \<longleftrightarrow>
     (let a = get authorization; m = get manifest; texts = joined_by_zero (ue_number_text env) in
      a ''schemaVersion'' = JStr ''UPLOAD_WINDOW_HOST_AUTHORIZATION_V2''
      \<and> strict_equal (a ''executionId'') (get expected ''outerExecutionId'')
      \<and> is_safe_integer (a ''hostPid'') \<and> a ''expectedInvocations'' = JNum 1
      \<and> a ''retryAllowed'' = JBool False
      \<and> strict_equal (m ''expectedStateSha'') (get expected ''stateSha256'')
      \<and> strict_equal (m ''expectedBufferSha'') (get expected ''bufferSha256'')
      \<and> m ''expectedInvocations'' = JNum 1
      \<and> is_array (m ''expectedCandidates'')
      \<and> texts (elements (m ''expectedCandidates'')) = texts (elements (get expected ''candidateIndexes'')))"

definition invocation_ok :: "js \<Rightarrow> js \<Rightarrow> js \<Rightarrow> bool" where
  "invocation_ok expected authorization invocation \<longleftrightarrow>
     (let i = get invocation in
      i ''schemaVersion'' = JStr ''UPLOAD_WINDOW_HOST_INVOCATION_V1''
      \<and> strict_equal (i ''executionId'') (get expected ''outerExecutionId'')
      \<and> strict_equal (i ''hostPid'') (get authorization ''hostPid'')
      \<and> is_safe_integer (i ''childPid'') \<and> i ''childSpawnCount'' = JNum 1
      \<and> i ''retryOccurred'' = JBool False)"

text \<open>The order of the times in the documents.\<close>

definition times_ok :: "'b recovery_adapters \<Rightarrow> outer_documents \<Rightarrow> js \<Rightarrow> bool" where
  "times_ok ra d lease \<longleftrightarrow>
     (let consumedAt = ra_date ra (get (od_authorization d) ''consumedAt'');
          spawnedAt = ra_date ra (get (od_invocation d) ''spawnedAt'');
          hostStartedAt = ra_date ra (get (od_hostResult d) ''startedAt'');
          leaseStartedAt = ra_date ra (get lease ''startedAt'');
          hostFinishedAt = ra_date ra (get (od_hostResult d) ''finishedAt'') in
      list_all is_finite_number [consumedAt, spawnedAt, hostStartedAt, leaseStartedAt, hostFinishedAt]
      \<and> num_of consumedAt \<le> num_of spawnedAt \<and> num_of hostStartedAt \<le> num_of spawnedAt
      \<and> num_of spawnedAt \<le> num_of leaseStartedAt \<and> num_of leaseStartedAt \<le> num_of hostFinishedAt)"

definition host_result_ok :: "'b lease_env \<Rightarrow> js \<Rightarrow> outer_documents \<Rightarrow> js \<Rightarrow> bool" where
  "host_result_ok env expected d manifest \<longleftrightarrow>
     (let h = get (od_hostResult d); terminal = get (h ''innerTerminalResult'');
          canonical = (\<lambda>v. ue_compact env (sortedJsonValue v)) in
      h ''schemaVersion'' = JStr ''UPLOAD_WINDOW_HOST_RESULT_V2''
      \<and> strict_equal (h ''executionId'') (get expected ''outerExecutionId'')
      \<and> strict_equal (h ''hostPid'') (get (od_authorization d) ''hostPid'')
      \<and> strict_equal (h ''childPid'') (get (od_invocation d) ''childPid'')
      \<and> canonical (h ''expectedManifest'') = canonical manifest
      \<and> h ''childSpawnCount'' = JNum 1 \<and> h ''childExitCode'' = JNum 1
      \<and> h ''verdict'' = JStr ''HOST_CHILD_NONZERO'' \<and> h ''retryOccurred'' = JBool False
      \<and> h ''innerTerminalStatus'' = JStr ''VALID''
      \<and> terminal ''classification'' = JStr ''UPLOAD_PROCESS_EXITED''
      \<and> terminal ''uploaderInvocationCount'' = JNum 1
      \<and> same_projection (h ''stdout'') (od_stdout d) \<and> same_projection (h ''stderr'') (od_stderr d))"

definition process_output_ok :: "outer_documents \<Rightarrow> bool" where
  "process_output_ok d \<longleftrightarrow>
     (let s = get (od_supervisor d); e = get (od_publicError d) in
      s ''classification'' = JStr ''UPLOAD_PROCESS_EXITED'' \<and> s ''uploaderInvocationCount'' = JNum 1
      \<and> s ''childExitCode'' = JNum 1 \<and> s ''cleanupCompleted'' = JBool True
      \<and> e ''terminal'' = JBool True \<and> str_in (e ''code'') PUBLIC_FAILURES)"

text \<open>A \<open>PreSelectionEvidenceError\<close> carries its reason, any other exception is
  \<open>INSUFFICIENT_EVIDENCE\<close> where it is caught.\<close>

definition readOuterPreSelectionEvidence ::
    "'b lease_env \<Rightarrow> 'b recovery_adapters \<Rightarrow> path \<Rightarrow> js \<Rightarrow> js \<Rightarrow> 'b disk \<Rightarrow> js refusable" where
  "readOuterPreSelectionEvidence env ra directory expected lease disk =
     and_then (attempt (read_outer_documents env ra directory disk)) (\<lambda>d.
     and_then (attempt (get_strict (od_authorization d) ''expectedManifest'')) (\<lambda>manifest.
     and_then (refuse_unless (truthy manifest \<longrightarrow>
         strict_equal (get manifest ''expectedRepositorySha'') (get expected ''incidentRepositorySha''))
       ''INCIDENT_REPOSITORY_IDENTITY_MISMATCH'') (\<lambda>_.
     and_then (attempt (guard (authorization_ok env expected (od_authorization d) manifest
         \<and> invocation_ok expected (od_authorization d) (od_invocation d) \<and> times_ok ra d lease
         \<and> host_result_ok env expected d manifest \<and> process_output_ok d)
       ''outer pre-selection evidence mismatch'')) (\<lambda>_.
       attempt (fileProjection env ra directory (sort OUTER_FILES) disk)))))"

section \<open>Whether a lease may be recovered\<close>

record pre_eligible =
  pe_recoveryHash :: string
  pe_archiveEvidenceSha256 :: string

definition LEASE_FILES :: "string list" where
  "LEASE_FILES = [''lease.json'', ''recovery.json'', ''telemetry.json'', ''terminal.json'']"

definition terminal_env_of :: "'b lease_env \<Rightarrow> terminal_env" where
  "terminal_env_of env =
     \<lparr> tm_number_text = ue_number_text env, tm_hash_json = (\<lambda>v. ue_sha256 env (ue_compact env v)),
       tm_path = ''terminal.json'', tm_temporary = ''terminal.json.tmp'' \<rparr>"

definition terminal_in :: "'b lease_env \<Rightarrow> path \<Rightarrow> 'b disk \<Rightarrow> terminal_evidence option result" where
  "terminal_in env directory disk =
     readUploadTerminalEvidence (terminal_env_of env) (parsed_files env (disk directory))"

definition binding_check ::
    "'b lease_env \<Rightarrow> 'b recovery_adapters \<Rightarrow> recovery_input \<Rightarrow> unit refusable" where
  "binding_check env ra i =
     and_then (attempt (completePreSelectionExpected env ra (vi_expected i))) (\<lambda>complete.
       refuse_unless (complete
         \<and> ra_resolve ra (text_of (get (vi_expected i) ''leasePath''))
           = ra_resolve ra (lease_directory (vi_statePath i))) ''BINDING_MISMATCH'')"

definition observation_check :: "bool \<Rightarrow> recovery_input \<Rightarrow> 'b disk \<Rightarrow> unit refusable" where
  "observation_check allowOwnedOperationLock i disk =
     (let e = get (vi_expected i); obs = get (vi_observations i) in
      and_then (refuse_unless (strict_equal (obs ''repositorySha'') (e ''repositorySha'')
          \<and> strict_equal (obs ''bufferDataSha256'') (e ''bufferSha256'')
          \<and> list_all (\<lambda>k. obs k = JBool True)
              [''programAbsent'', ''confirmedChunksMatch'', ''retainedProcessesClear'', ''operationLockAbsent'']
          \<and> (allowOwnedOperationLock \<or> \<not> existsPath (operationLockPath (vi_statePath i)) disk))
        ''OBSERVATION_MISMATCH'') (\<lambda>_.
      refuse_unless (obs ''incidentRepositoryIsAncestor'' = JBool True) ''HISTORICAL_REPOSITORY_NOT_ANCESTOR''))"

definition lease_names_ok :: "string list \<Rightarrow> bool" where
  "lease_names_ok names \<longleftrightarrow>
     list_all (\<lambda>n. n \<in> set LEASE_FILES) names \<and> ''lease.json'' \<in> set names
     \<and> (''telemetry.json'' \<in> set names \<or> ''terminal.json'' \<in> set names)"

definition lease_check ::
    "'b lease_env \<Rightarrow> 'b recovery_adapters \<Rightarrow> js \<Rightarrow> 'b \<Rightarrow> js \<Rightarrow> bool" where
  "lease_check env ra expected leaseBytes lease \<longleftrightarrow>
     completeLease env lease
     \<and> JStr (ue_sha256 env leaseBytes) = get expected ''leaseSha256''
     \<and> strict_equal (get lease ''executionId'') (get expected ''innerExecutionId'')
     \<and> strict_equal (get lease ''program'') (get expected ''program'')
     \<and> strict_equal (get lease ''buffer'') (get expected ''buffer'')
     \<and> strict_equal (get lease ''stateSha256AtAcquire'') (get expected ''stateSha256'')
     \<and> ownerProcessStatus env ra lease = JStr ''DEAD''"

definition state_check :: "'b lease_env \<Rightarrow> js \<Rightarrow> js \<Rightarrow> 'b \<Rightarrow> js \<Rightarrow> bool" where
  "state_check env expected lease stateBytes state \<longleftrightarrow>
     (let b = get (buffer_of state) in
      JStr (ue_sha256 env stateBytes) = get expected ''stateSha256''
      \<and> strict_equal (get (get state ''identities'') ''program'') (get expected ''program'')
      \<and> strict_equal (b ''publicKey'') (get expected ''buffer'')
      \<and> strict_equal (b ''expectedAuthority'') (get expected ''authority'')
      \<and> strict_equal (b ''planFingerprint'') (get lease ''planFingerprint'')
      \<and> is_array (b ''chunks''))"

definition onchain_check :: "recovery_input \<Rightarrow> js \<Rightarrow> bool" where
  "onchain_check i state \<longleftrightarrow>
     (let obs = get (get (vi_observations i) ''buffer''); b = get (buffer_of state); e = get (vi_expected i) in
      strict_equal (obs ''address'') (e ''buffer'') \<and> strict_equal (obs ''owner'') (b ''expectedOwner'')
      \<and> strict_equal (obs ''authority'') (e ''authority'') \<and> strict_equal (obs ''allocation'') (b ''allocatedLength''))"

text \<open>A chunk that may have been sent.\<close>

definition maybe_sent :: "js \<Rightarrow> bool" where
  "maybe_sent chunk \<longleftrightarrow>
     str_in (get chunk ''status'') [''SENT'', ''UNKNOWN'']
     \<or> (get chunk ''status'' = JStr ''PLANNED'' \<and> get chunk ''signature'' \<noteq> JNull)"

definition candidate_ok :: "js \<Rightarrow> js \<Rightarrow> bool" where
  "candidate_ok state index \<longleftrightarrow>
     (let chunk = chunk_at (chunks_of state) index in
      truthy chunk \<and> strict_equal (get chunk ''index'') index
      \<and> get chunk ''status'' = JStr ''PLANNED'' \<and> get chunk ''signature'' = JNull)"

definition terminal_ok :: "js \<Rightarrow> js \<Rightarrow> bool" where
  "terminal_ok expected terminal \<longleftrightarrow>
     (let t = get terminal; e = get expected in
      list_all (\<lambda>(k, k'). strict_equal (t k) (e k'))
        [(''executionId'', ''innerExecutionId''), (''leaseSha256'', ''leaseSha256''),
         (''stateSha256Before'', ''stateSha256''), (''stateSha256After'', ''stateSha256''),
         (''program'', ''program''), (''buffer'', ''buffer''), (''authority'', ''authority'')]
      \<and> t ''classification'' = JStr ''FAILED_PRE_SELECTION_STALE_SAFE''
      \<and> t ''zeroSendProven'' = JBool True \<and> t ''ambiguousWriteOutcome'' = JBool False)"

text \<open>Which file the evidence of the run is, its bytes, and the terminal record when there is one.\<close>

definition evidence_check ::
    "'b lease_env \<Rightarrow> js \<Rightarrow> path \<Rightarrow> string list \<Rightarrow> 'b disk \<Rightarrow> string refusable" where
  "evidence_check env expected directory names disk =
     (let kind = (if ''terminal.json'' \<in> set names then ''terminal'' else ''telemetry'') in
      and_then (attempt (readFileIn directory (kind @ ''.json'') disk)) (\<lambda>evidenceBytes.
      and_then (if kind = ''terminal'' then
          and_then (attempt (terminal_in env directory disk)) (\<lambda>found.
            case found of
              None \<Rightarrow> Inl ''INSUFFICIENT_EVIDENCE''
            | Some ev \<Rightarrow> refuse_unless (terminal_ok expected (tv_record ev)) ''TERMINAL_EVIDENCE_MISMATCH'')
        else Inr ()) (\<lambda>_.
      and_then (refuse_unless (JStr (ue_sha256 env evidenceBytes) = get expected ''evidenceSha256'')
        ''EVIDENCE_HASH_MISMATCH'') (\<lambda>_. Inr kind))))"

definition write_request :: "js \<Rightarrow> bool" where
  "write_request r \<longleftrightarrow>
     get r ''requestType'' = JStr ''SEND_RAW_TRANSACTION'' \<or> get r ''mutationCapability'' = JStr ''write''
     \<or> truthy (get r ''signaturePersisted'')"

definition telemetry_ok :: "js \<Rightarrow> js \<Rightarrow> string \<Rightarrow> telemetry_evidence \<Rightarrow> bool" where
  "telemetry_ok expected lease evidenceKind ev \<longleftrightarrow>
     (let s = get (ev_snapshot ev) in
      strict_equal (s ''executionId'') (get expected ''innerExecutionId'')
      \<and> strict_equal (s ''startedAt'') (get lease ''startedAt'')
      \<and> elements (s ''sends'') = []
      \<and> \<not> list_ex write_request (elements (s ''requests''))
      \<and> (evidenceKind = ''telemetry'' \<longrightarrow>
          ev_verdict ev = JStr ''INCOMPLETE'' \<and> elements (s ''requests'') \<noteq> []
          \<and> elements (s ''expectedChunkIndexes'') = []))"

definition telemetry_check ::
    "'b lease_env \<Rightarrow> js \<Rightarrow> js \<Rightarrow> path \<Rightarrow> string list \<Rightarrow> string \<Rightarrow> 'b disk \<Rightarrow> unit refusable" where
  "telemetry_check env expected lease directory names evidenceKind disk =
     (if ''telemetry.json'' \<notin> set names then Inr ()
      else and_then (attempt (telemetry_in env directory disk)) (\<lambda>found.
        refuse_unless (case found of None \<Rightarrow> False | Some ev \<Rightarrow> telemetry_ok expected lease evidenceKind ev)
          ''SEND_OR_TELEMETRY_MISMATCH''))"

definition recovery_projection :: "js \<Rightarrow> js \<Rightarrow> string \<Rightarrow> js \<Rightarrow> js \<Rightarrow> js" where
  "recovery_projection expected lease evidenceKind leaseFiles outerFiles =
     JObj [(''version'', JStr PRE_SELECTION_RECOVERY_VERSION), (''expected'', expected),
       (''lease'', JObj (map (\<lambda>k. (k, get lease k)) [''executionId'', ''pid'', ''hostname'', ''startedAt''])),
       (''evidenceKind'', JStr evidenceKind), (''leaseFiles'', leaseFiles), (''outerFiles'', outerFiles)]"

text \<open>The documents of the lease directory and the state, and what they must say.\<close>

definition zero_send_check ::
    "'b lease_env \<Rightarrow> 'b recovery_adapters \<Rightarrow> recovery_input \<Rightarrow> path \<Rightarrow> 'b disk \<Rightarrow> js refusable" where
  "zero_send_check env ra i directory disk =
     (let expected = vi_expected i in
      and_then (attempt (readFileIn directory ''lease.json'' disk)) (\<lambda>leaseBytes.
      and_then (attempt (ue_parse env leaseBytes)) (\<lambda>lease.
      and_then (refuse_unless (lease_check env ra expected leaseBytes lease) ''LEASE_OR_OWNER_MISMATCH'') (\<lambda>_.
      and_then (attempt (readFile (vi_statePath i) disk)) (\<lambda>stateBytes.
      and_then (attempt (ue_parse env stateBytes)) (\<lambda>state.
      and_then (refuse_unless (state_check env expected lease stateBytes state) ''STATE_OR_IDENTITY_MISMATCH'') (\<lambda>_.
      and_then (refuse_unless (onchain_check i state) ''ONCHAIN_IDENTITY_MISMATCH'') (\<lambda>_.
      and_then (refuse_unless (\<not> list_ex maybe_sent (chunks_of state)) ''STATE_NOT_ZERO_SEND'') (\<lambda>_.
      and_then (refuse_unless (list_all (candidate_ok state) (elements (get expected ''candidateIndexes'')))
        ''CANDIDATE_NOT_ZERO_SEND'') (\<lambda>_.
        Inr lease))))))))))"

definition recovery_documents ::
    "'b lease_env \<Rightarrow> 'b recovery_adapters \<Rightarrow> recovery_input \<Rightarrow> path \<Rightarrow> string list \<Rightarrow> js \<Rightarrow> 'b disk
     \<Rightarrow> pre_eligible refusable" where
  "recovery_documents env ra i directory names lease disk =
     (let expected = vi_expected i in
      and_then (evidence_check env expected directory names disk) (\<lambda>evidenceKind.
      and_then (telemetry_check env expected lease directory names evidenceKind disk) (\<lambda>_.
      and_then (readOuterPreSelectionEvidence env ra (vi_outerEvidenceDirectory i) expected lease disk) (\<lambda>outerFiles.
      and_then (attempt (fileProjection env ra directory (without_receipt names) disk)) (\<lambda>leaseFiles.
      and_then (attempt (archiveEvidenceHash env ra directory names disk)) (\<lambda>archiveSha256.
      let recoveryHash = canonicalHash env PRE_SELECTION_RECOVERY_VERSION
            (recovery_projection expected lease evidenceKind leaseFiles outerFiles) in
      and_then (if ''recovery.json'' \<in> set names then
          and_then (attempt (parse_file env (readFileIn directory ''recovery.json'' disk))) (\<lambda>stored.
            refuse_unless (completeRecoveryReceipt stored expected (JStr recoveryHash) archiveSha256)
              ''RECOVERY_RECEIPT_MISMATCH'')
        else Inr ()) (\<lambda>_.
      Inr \<lparr> pe_recoveryHash = recoveryHash, pe_archiveEvidenceSha256 = archiveSha256 \<rparr>)))))))"

definition reconcilePreSelectionUploadLease ::
    "'b lease_env \<Rightarrow> 'b recovery_adapters \<Rightarrow> bool \<Rightarrow> recovery_input \<Rightarrow> 'b disk \<Rightarrow> pre_eligible refusable" where
  "reconcilePreSelectionUploadLease env ra allowOwnedOperationLock i disk =
     and_then (binding_check env ra i) (\<lambda>_.
     and_then (observation_check allowOwnedOperationLock i disk) (\<lambda>_.
     let directory = text_of (get (vi_expected i) ''leasePath'') in
     and_then (attempt (read_names directory disk)) (\<lambda>names.
     and_then (refuse_unless (lease_names_ok names) ''LEASE_FILE_SET_MISMATCH'') (\<lambda>_.
     and_then (zero_send_check env ra i directory disk) (\<lambda>lease.
     recovery_documents env ra i directory names lease disk)))))"

section \<open>The recovery\<close>

text \<open>\<open>writeCanonicalJsonAtomic\<close> on the bytes of a file in a directory.\<close>

definition canonical_body ::
    "'b lease_env \<Rightarrow> 'b recovery_adapters \<Rightarrow> 'b lease_io \<Rightarrow> path \<Rightarrow> string \<Rightarrow> string \<Rightarrow> js \<Rightarrow> (unit, 'b) disk_call" where
  "canonical_body env ra io directory tmp name v disk =
     (let call = (\<lambda>c. li_fails io (Receipt_Io c)); bytes = ue_pretty env (sortedJsonValue v) in
      if dir_files (disk directory) tmp \<noteq> None then (throw ''EEXIST'', disk) else
      case call IoOpen of Some c \<Rightarrow> (throw c, disk) | None \<Rightarrow>
      (case call IoWrite of
         Some c \<Rightarrow> (throw c, set_file_in directory tmp (Some (case li_left io (Receipt_Io IoWrite) of
             Some b \<Rightarrow> b | None \<Rightarrow> ra_empty ra)) disk)
       | None \<Rightarrow>
           let written = set_file_in directory tmp (Some bytes) disk in
           case call IoFsync of Some c \<Rightarrow> (throw c, written) | None \<Rightarrow>
           (case call IoClose of Some c \<Rightarrow> (throw c, written) | None \<Rightarrow>
            (case call IoRename of Some c \<Rightarrow> (throw c, written) | None \<Rightarrow>
             (flushDirectory call, set_file_in directory tmp None (set_file_in directory name (Some bytes) written))))))"

definition write_canonical_in ::
    "'b lease_env \<Rightarrow> 'b recovery_adapters \<Rightarrow> 'b lease_io \<Rightarrow> path \<Rightarrow> string \<Rightarrow> js \<Rightarrow> (unit, 'b) disk_call" where
  "write_canonical_in env ra io directory name v disk =
     (let tmp = ''.'' @ name @ ''.'' @ ra_uuid ra @ ''.tmp'' in
      case canonical_body env ra io directory tmp name v disk of
        (Inr u, disk') \<Rightarrow> (Inr u, disk')
      | (Inl e, disk') \<Rightarrow>
          (Inl e,
           if li_fails io (Receipt_Io IoExists) = None \<and> dir_files (disk' directory) tmp \<noteq> None
              \<and> li_fails io (Receipt_Io IoUnlink) = None
           then set_file_in directory tmp None disk' else disk'))"

definition recovery_receipt :: "'b lease_env \<Rightarrow> js \<Rightarrow> js \<Rightarrow> pre_eligible \<Rightarrow> js" where
  "recovery_receipt env expected recoveryHash fresh =
     (let e = (\<lambda>k. (k, get expected k)) in
      JObj [(''version'', JStr PRE_SELECTION_RECOVERY_VERSION),
        (''lifecycle'', JStr ''FAILED_PRE_SELECTION_STALE_SAFE''),
        (''archiveEvidenceSha256'', JStr (pe_archiveEvidenceSha256 fresh)),
        e ''outerExecutionId'', e ''innerExecutionId'', e ''repositorySha'', e ''stateSha256'',
        e ''bufferSha256'', e ''leaseSha256'', e ''evidenceSha256'',
        (''recoveryHash'', recoveryHash), (''recoveredAt'', ue_now env)])"

text \<open>\<open>leasePaths\<close> with what identifies the archive: a missing execution id leaves no archive.\<close>

definition recovery_archive :: "recovery_input \<Rightarrow> path option result" where
  "recovery_archive i =
     (let executionId = get (vi_expected i) ''innerExecutionId'' in
      if nullish executionId then Inr None
      else and_then (guard (safe_execution_id executionId) ''safe execution ID is required'') (\<lambda>_.
        Inr (Some (archive_directory (vi_statePath i) (text_of executionId) (text_of (vi_recoveryHash i))))))"

definition archived_recovery ::
    "'b lease_env \<Rightarrow> 'b recovery_adapters \<Rightarrow> recovery_input \<Rightarrow> path \<Rightarrow> 'b disk \<Rightarrow> unit result" where
  "archived_recovery env ra i archive disk =
     (let expected = vi_expected i; invalid = ''archived pre-selection recovery receipt is invalid'' in
      and_then (read_names archive disk) (\<lambda>names.
      and_then (guard (lease_names_ok names \<and> ''recovery.json'' \<in> set names)
        ''archived pre-selection evidence is invalid'') (\<lambda>_.
      and_then (archiveEvidenceHash env ra archive names disk) (\<lambda>archiveSha256.
      and_then (parse_file env (readFileIn archive ''recovery.json'' disk)) (\<lambda>receipt.
      and_then (readFileIn archive ''lease.json'' disk) (\<lambda>leaseBytes.
      and_then (readFileIn archive
        (if ''terminal.json'' \<in> set names then ''terminal.json'' else ''telemetry.json'') disk) (\<lambda>evidenceBytes.
      and_then (guard (JStr (ue_sha256 env leaseBytes) = get expected ''leaseSha256''
          \<and> JStr (ue_sha256 env evidenceBytes) = get expected ''evidenceSha256'') invalid) (\<lambda>_.
      and_then (if ''telemetry.json'' \<in> set names
          then and_then (telemetry_in env archive disk) (\<lambda>found. guard (found \<noteq> None) invalid) else Inr ()) (\<lambda>_.
      and_then (if ''terminal.json'' \<in> set names
          then and_then (terminal_in env archive disk) (\<lambda>found. guard (found \<noteq> None) invalid) else Inr ()) (\<lambda>_.
      guard (completeRecoveryReceipt receipt expected (vi_recoveryHash i) archiveSha256) invalid))))))))))"

text \<open>What the refreshed observations were made for.\<close>

definition same_binding :: "'b lease_env \<Rightarrow> recovery_input \<Rightarrow> recovery_input \<Rightarrow> bool" where
  "same_binding env i refreshed \<longleftrightarrow>
     vi_statePath refreshed = vi_statePath i
     \<and> vi_outerEvidenceDirectory refreshed = vi_outerEvidenceDirectory i
     \<and> ue_compact env (sortedJsonValue (vi_expected refreshed))
       = ue_compact env (sortedJsonValue (vi_expected i))"

definition fresh_recovery ::
    "'b lease_env \<Rightarrow> 'b recovery_adapters \<Rightarrow> (recovery_input \<Rightarrow> recovery_input result) option
     \<Rightarrow> recovery_input \<Rightarrow> 'b disk \<Rightarrow> pre_eligible result" where
  "fresh_recovery env ra refreshInput i disk =
     (case refreshInput of
        None \<Rightarrow> throw ''fresh under-lock recovery observations are required''
      | Some refresh \<Rightarrow>
          and_then (refresh i) (\<lambda>refreshed.
          and_then (guard (same_binding env i refreshed) ''fresh recovery bindings changed under lock'') (\<lambda>_.
          case reconcilePreSelectionUploadLease env ra True refreshed disk of
            Inl reason \<Rightarrow> throw ''STATE_HASH_DRIFT_OR_STALE_PRE_SELECTION_EVIDENCE''
          | Inr fresh \<Rightarrow>
              and_then (guard (strict_equal (JStr (pe_recoveryHash fresh)) (vi_recoveryHash i))
                ''STATE_HASH_DRIFT_OR_STALE_PRE_SELECTION_EVIDENCE'') (\<lambda>_. Inr fresh))))"

definition store_recovery_receipt ::
    "'b lease_env \<Rightarrow> 'b recovery_adapters \<Rightarrow> 'b lease_io \<Rightarrow> recovery_input \<Rightarrow> path \<Rightarrow> pre_eligible
     \<Rightarrow> (unit, 'b) disk_call" where
  "store_recovery_receipt env ra io i active fresh disk =
     (if dir_files (disk active) ''recovery.json'' \<noteq> None
      then (and_then (parse_file env (readFileIn active ''recovery.json'' disk)) (\<lambda>receipt.
              guard (completeRecoveryReceipt receipt (vi_expected i) (vi_recoveryHash i) (pe_archiveEvidenceSha256 fresh))
                ''active pre-selection recovery receipt is invalid''), disk)
      else write_canonical_in env ra io active ''recovery.json''
             (recovery_receipt env (vi_expected i) (vi_recoveryHash i) fresh) disk)"

text \<open>What is checked after the directory has moved.\<close>

definition verify_archive ::
    "'b lease_env \<Rightarrow> 'b recovery_adapters \<Rightarrow> 'b lease_io \<Rightarrow> recovery_input \<Rightarrow> path \<Rightarrow> js \<Rightarrow> pre_eligible \<Rightarrow> 'b disk
     \<Rightarrow> unit result" where
  "verify_archive env ra io i archive before fresh disk =
     (let failed = ''pre-selection lease archive integrity verification failed'' in
      and_then (flushDirectory (\<lambda>c. li_fails io (Parent_Io c))) (\<lambda>_.
      and_then (flushDirectory (\<lambda>c. li_fails io (Archive_Io c))) (\<lambda>_.
      and_then (read_names archive disk) (\<lambda>afterNames.
      and_then (fileProjection env ra archive afterNames disk) (\<lambda>after.
      and_then (guard (ue_compact env (sortedJsonValue before) = ue_compact env (sortedJsonValue after)) failed) (\<lambda>_.
      and_then (parse_file env (readFileIn archive ''recovery.json'' disk)) (\<lambda>receipt.
      guard (completeRecoveryReceipt receipt (vi_expected i) (vi_recoveryHash i) (pe_archiveEvidenceSha256 fresh))
        failed)))))))"

text \<open>The move itself; a missing archive path is a missing execution id, which no expectation that is
  complete has, and \<open>rename\<close> refuses it.\<close>

definition move_recovered ::
    "'b lease_env \<Rightarrow> 'b recovery_adapters \<Rightarrow> 'b lease_io \<Rightarrow> recovery_input \<Rightarrow> path \<Rightarrow> path option
     \<Rightarrow> pre_eligible \<Rightarrow> (bool, 'b) disk_call" where
  "move_recovered env ra io i active archive fresh disk =
     (case and_then (read_names active disk) (\<lambda>names. fileProjection env ra active names disk) of
        Inl e \<Rightarrow> (Inl e, disk)
      | Inr before \<Rightarrow>
          (case archive of
             None \<Rightarrow> (throw ''atomic pre-selection lease archive failure'', disk)
           | Some p \<Rightarrow>
               (case renamePath io Rename_Archive active p disk of
                  (Inl e, disk1) \<Rightarrow> (throw ''atomic pre-selection lease archive failure'', disk1)
                | (Inr u, disk1) \<Rightarrow>
                    (and_then (verify_archive env ra io i p before fresh disk1) (\<lambda>_. Inr False), disk1))))"

text \<open>The result says whether the lease had been recovered before.\<close>

definition recover_under_lock ::
    "'b lease_env \<Rightarrow> 'b recovery_adapters \<Rightarrow> 'b lease_io \<Rightarrow> (recovery_input \<Rightarrow> recovery_input result) option
     \<Rightarrow> recovery_input \<Rightarrow> path option \<Rightarrow> (bool, 'b) disk_call" where
  "recover_under_lock env ra io refreshInput i archive disk =
     (let active = lease_directory (vi_statePath i);
          activeExists = existsPath active disk;
          archiveExists = (case archive of None \<Rightarrow> False | Some p \<Rightarrow> existsPath p disk) in
      if activeExists \<and> archiveExists then (throw ''ambiguous active and archived pre-selection lease'', disk)
      else if \<not> activeExists then
        (case archive of
           Some p \<Rightarrow>
             if archiveExists then (and_then (archived_recovery env ra i p disk) (\<lambda>_. Inr True), disk)
             else (throw ''matching pre-selection lease was not found'', disk)
         | None \<Rightarrow> (throw ''matching pre-selection lease was not found'', disk))
      else case fresh_recovery env ra refreshInput i disk of
        Inl e \<Rightarrow> (Inl e, disk)
      | Inr fresh \<Rightarrow>
          then_do (mkdir_recursive io Make_Archive_Root) (\<lambda>_.
          then_do (store_recovery_receipt env ra io i active fresh) (\<lambda>_.
          move_recovered env ra io i active archive fresh)) disk)"

definition recoverPreSelectionUploadLease ::
    "'b lease_env \<Rightarrow> 'b recovery_adapters \<Rightarrow> 'b lease_io \<Rightarrow> (recovery_input \<Rightarrow> recovery_input result) option
     \<Rightarrow> recovery_input \<Rightarrow> (bool, 'b) disk_call" where
  "recoverPreSelectionUploadLease env ra io refreshInput i =
     then_do (lift_result (guard (vi_acknowledgement i = JStr RECOVER_PRE_SELECTION_LEASE_ACKNOWLEDGEMENT)
       ''explicit pre-selection lease recovery acknowledgement is required'')) (\<lambda>_.
     then_do (lift_result (and_then (assertEvidenceHash (vi_recoveryHash i) ''matching pre-selection recovery hash'')
         (\<lambda>_. recovery_archive i))) (\<lambda>archive.
     under_operation_lock io (vi_statePath i) (recover_under_lock env ra io refreshInput i archive)))"

end
