(* ===== verification/Lease_Refinement.thy ===== *)
theory Lease_Refinement imports Lease_Recovery begin

text \<open>
  What the lease of an upload promises, as a small machine: who holds the state file, the status of
  each chunk in it, and the archive of leases that were released.  Every call of the lease, with
  whatever result and whatever failures of the file system, is a step of that machine.
\<close>

section \<open>The machine\<close>

text \<open>A holder is \<open>Some None\<close> when the lease directory holds no lease that can be read.\<close>

record lease_view =
  lv_holder :: "js option option"
  lv_statuses :: "js list option"
  lv_archives :: "path \<Rightarrow> js option option"

definition open_status :: "js \<Rightarrow> bool" where
  "open_status st \<longleftrightarrow> str_in st [''SENT'', ''UNKNOWN'']"

definition settled :: "js \<Rightarrow> js" where
  "settled st = (if open_status st then JStr ''CONFIRMED'' else st)"

text \<open>The first argument says which leases belong to a process that is alive.\<close>

inductive lease_step :: "(js \<Rightarrow> bool) \<Rightarrow> lease_view \<Rightarrow> lease_view \<Rightarrow> bool" for alive where
  idle: "lease_step alive v v"
| take: "lv_holder v = None \<Longrightarrow> lease_step alive v (v\<lparr>lv_holder := Some l\<rparr>)"
| settle: "lv_holder v = Some (Some l) \<Longrightarrow> \<not> alive l \<Longrightarrow> lv_statuses v = Some ss \<Longrightarrow> list_ex open_status ss \<Longrightarrow>
    lease_step alive v (v\<lparr>lv_statuses := Some (map settled ss)\<rparr>)"
| free: "lv_holder v = Some (Some l) \<Longrightarrow> \<not> alive l \<Longrightarrow> lv_statuses v = Some ss \<Longrightarrow> \<not> list_ex open_status ss \<Longrightarrow>
    lv_archives v p = None \<Longrightarrow>
    lease_step alive v (v\<lparr>lv_holder := None, lv_archives := (lv_archives v)(p := Some (Some l))\<rparr>)"

inductive_cases lease_stepE: "lease_step alive v v'"

section \<open>The view of a disk\<close>

definition lease_document :: "'b lease_env \<Rightarrow> 'b node option \<Rightarrow> js option" where
  "lease_document env n =
     (case dir_files n ''lease.json'' of None \<Rightarrow> None
      | Some b \<Rightarrow> (case ue_parse env b of Inr v \<Rightarrow> Some v | Inl e \<Rightarrow> None))"

definition holder :: "'b lease_env \<Rightarrow> 'b node option \<Rightarrow> js option option" where
  "holder env n = (if n = None then None else Some (lease_document env n))"

definition statuses_of :: "js \<Rightarrow> js list" where
  "statuses_of state = map (\<lambda>c. get c ''status'') (chunks_of state)"

definition stored_statuses :: "'b lease_env \<Rightarrow> path \<Rightarrow> 'b disk \<Rightarrow> js list option" where
  "stored_statuses env statePath disk =
     (case parse_file env (readFile statePath disk) of Inl e \<Rightarrow> None | Inr state \<Rightarrow> Some (statuses_of state))"

definition is_archive :: "path \<Rightarrow> path \<Rightarrow> bool" where
  "is_archive statePath p \<longleftrightarrow> (\<exists>executionId evidenceHash. p = archive_directory statePath executionId evidenceHash)"

definition view_of :: "'b lease_env \<Rightarrow> path \<Rightarrow> 'b disk \<Rightarrow> lease_view" where
  "view_of env statePath disk =
     \<lparr> lv_holder = holder env (disk (lease_directory statePath)),
       lv_statuses = stored_statuses env statePath disk,
       lv_archives = (\<lambda>p. if is_archive statePath p then holder env (disk p) else None) \<rparr>"

lemma view_of_cong:
  assumes "\<And>q. q = statePath \<or> q = lease_directory statePath \<or> is_archive statePath q \<Longrightarrow> disk' q = disk q"
  shows "view_of env statePath disk' = view_of env statePath disk"
  using assms by (auto simp: view_of_def stored_statuses_def readFile_def)

section \<open>Paths\<close>

definition slashes :: "path \<Rightarrow> nat" where
  "slashes p = length (filter (\<lambda>c. c = CHR ''/'') p)"

lemma slashes_append [simp]: "slashes (p @ q) = slashes p + slashes q"
  by (simp add: slashes_def)

lemma slashes_dirname: "slashes p \<le> Suc (slashes (dirname p))"
proof (cases "CHR ''/'' \<in> set p")
  case True
  then have "CHR ''/'' \<in> set (rev p)" by simp
  then obtain base rest where split: "rev p = base @ CHR ''/'' # rest" "CHR ''/'' \<notin> set base"
    by (blast dest: split_list_first)
  then have tail: "dropWhile (\<lambda>c. c \<noteq> CHR ''/'') (rev p) = CHR ''/'' # rest"
    by (auto simp: dropWhile_append)
  have "p = rev rest @ CHR ''/'' # rev base" using arg_cong [OF split(1), of rev] by simp
  moreover have "filter (\<lambda>c. c = CHR ''/'') (rev base) = []"
    using split(2) by (auto simp: filter_empty_conv)
  ultimately have "slashes p = Suc (slashes (rev rest))" by (simp add: slashes_def)
  moreover have "dirname p = (if rev rest = [] then ''/'' else rev rest)"
    using True by (simp add: dirname_def tail)
  ultimately show ?thesis by (auto simp: slashes_def)
next
  case False
  then have "filter (\<lambda>c. c = CHR ''/'') p = []" by (auto simp: filter_empty_conv)
  then show ?thesis by (simp add: slashes_def)
qed

lemma slashes_join_path: "slashes d \<le> slashes (join_path d p)"
  "2 \<le> length d \<Longrightarrow> slashes (join_path d p) = Suc (slashes d + slashes p)"
  "length p \<le> length (join_path d p)"
  by (auto simp: join_path_def slashes_def)

lemma slashes_archive: "slashes statePath < slashes (archive_directory statePath executionId evidenceHash)"
proof -
  let ?h = "join_path (dirname statePath) ''history''"
  have "2 \<le> length ?h" using slashes_join_path(3) [of "''history''" "dirname statePath"] by simp
  then have root: "slashes (archive_root statePath) = Suc (slashes ?h)"
    unfolding archive_root_def by (subst slashes_join_path(2)) (simp_all add: slashes_def)
  have "length ''upload-leases'' \<le> length (archive_root statePath)"
    unfolding archive_root_def by (rule slashes_join_path(3))
  then have "slashes (archive_root statePath)
      < slashes (archive_directory statePath executionId evidenceHash)"
    unfolding archive_directory_def by (subst slashes_join_path(2)) simp_all
  moreover have "slashes (dirname statePath) \<le> slashes ?h" by (rule slashes_join_path(1))
  ultimately show ?thesis using root slashes_dirname [of statePath] by linarith
qed

text \<open>The places that the calls change, besides the archive, are not in it, and differ.\<close>

lemma not_archive [simp]:
  "\<not> is_archive s s" "\<not> is_archive s (lease_directory s)" "\<not> is_archive s (operationLockPath s)"
  "\<not> is_archive s (s @ ''.tmp'')" "\<not> is_archive s (s @ ''.reconciliation-rollback.tmp'')"
proof -
  have "\<not> is_archive s (s @ t)" if "slashes t = 0" for t
    using slashes_archive [of s] that by (auto simp: is_archive_def) (metis add_0_right less_irrefl slashes_append)
  from this [of "[]"] this show "\<not> is_archive s s" "\<not> is_archive s (lease_directory s)"
    "\<not> is_archive s (operationLockPath s)"
    "\<not> is_archive s (s @ ''.tmp'')" "\<not> is_archive s (s @ ''.reconciliation-rollback.tmp'')"
    by (simp_all add: lease_directory_def operationLockPath_def slashes_def)
qed

lemma lease_paths [simp]:
  "lease_directory s \<noteq> s" "operationLockPath s \<noteq> s" "lease_directory s \<noteq> operationLockPath s"
  "s @ ''.tmp'' \<noteq> lease_directory s" "s @ ''.tmp'' \<noteq> s"
  "s @ ''.reconciliation-rollback.tmp'' \<noteq> lease_directory s" "s @ ''.reconciliation-rollback.tmp'' \<noteq> s"
  by (simp_all add: lease_directory_def operationLockPath_def)

lemmas lease_paths_symmetric [simp] = lease_paths [THEN not_sym]

section \<open>Calls under the operation lock\<close>

lemma view_of_lock [simp]: "view_of env s (disk(operationLockPath s := n)) = view_of env s disk"
  by (rule view_of_cong) auto

lemma under_operation_lock_view:
  assumes "under_operation_lock io s m disk = (r, disk')"
  obtains (busy) e where "r = Inl e" "view_of env s disk' = view_of env s disk"
    | (ran) r1 disk1 where "m (disk(operationLockPath s := Some (Dir []))) = (r1, disk1)"
        "view_of env s disk' = view_of env s disk1" "r = r1 \<or> (\<exists>e. r = Inl e)"
        "disk (operationLockPath s) = None"
proof (cases "acquireOperationLock io s disk")
  case (Pair r0 disk0)
  show thesis
  proof (cases r0)
    case (Inl e)
    then have "disk0 = disk"
      using Pair by (auto simp: acquireOperationLock_def mkdir_exclusive_def mkdir_def may_fail_def
          split: if_splits option.splits)
    with Inl Pair assms show thesis by (intro busy) (auto simp: under_operation_lock_def)
  next
    case (Inr u)
    then have disk0: "disk0 = disk(operationLockPath s := Some (Dir []))" "disk (operationLockPath s) = None"
      using Pair by (auto simp: acquireOperationLock_def mkdir_exclusive_def mkdir_def may_fail_def existsPath_def
          split: if_splits option.splits)
    obtain r1 disk1 where m: "m disk0 = (r1, disk1)" by (cases "m disk0")
    have "(r, disk') = with_lock_removed io (operationLockPath s) m disk0"
      using assms Pair Inr by (simp add: under_operation_lock_def)
    then have "view_of env s disk' = view_of env s disk1 \<and> (r = r1 \<or> (\<exists>e. r = Inl e))"
      by (auto simp: with_lock_removed_def m split: option.splits)
    with m disk0 show thesis by (intro ran) auto
  qed
qed

section \<open>Acquisition\<close>

lemma acquire_view:
  assumes "acquireUploadLease env io s i disk = (r, disk')" and "reads_back env"
  shows "view_of env s disk' = view_of env s disk \<and> (\<exists>e. r = Inl e)
    \<or> disk (lease_directory s) = None
      \<and> (\<exists>l. view_of env s disk' = (view_of env s disk)\<lparr>lv_holder := Some l\<rparr>
          \<and> ((\<exists>e. r = Inl e) \<or> l = Some (json_norm (lease_metadata i))))"
proof -
  let ?d = "lease_directory s"
  have frame: "view_of env s (disk(?d := n)) = (view_of env s disk)\<lparr>lv_holder := holder env n\<rparr>" for n
    by (auto simp: view_of_def stored_statuses_def readFile_def)
  have parsed: "ue_parse env (ue_pretty env v) = Inr (json_norm v)" for v
    using assms(2) by (simp add: reads_back_def)
  show ?thesis
    using assms(1)
    by (auto simp: acquireUploadLease_def Let_def then_do_def mkdir_exclusive_def mkdir_def may_fail_def
        writeNewFileIn_def renameFileIn_def set_file_in_def existsPath_def frame holder_def lease_document_def
        parsed give_def
        split: sum.splits option.splits if_splits prod.splits)
qed

section \<open>What a reconciliation says\<close>

lemma prove_targets_transitions:
  "prove_targets env expected observations transactions ts acc = Inr p \<Longrightarrow>
   \<exists>trs. cp_transitions p = cp_transitions acc @ trs
     \<and> list_all2 (\<lambda>t tr. \<exists>ev. tr = transition_js t ev) (filter pt_proposed ts) trs"
proof (induction ts arbitrary: acc)
  case (Cons t ts)
  let ?ev = "the (evidence_for transactions (get (pt_chunk t) ''index''))"
  from Cons.prems obtain acc' where step: "prove_targets env expected observations transactions ts acc' = Inr p"
      "cp_transitions acc' = cp_transitions acc @ (if pt_proposed t then [transition_js t ?ev] else [])"
    by (auto simp: Let_def split: option.splits)
  from Cons.IH [OF step(1)] obtain trs where "cp_transitions p = cp_transitions acc' @ trs"
      "list_all2 (\<lambda>t tr. \<exists>ev. tr = transition_js t ev) (filter pt_proposed ts) trs"
    by blast
  with step(2) show ?case
    by (intro exI [of _ "(if pt_proposed t then [transition_js t ?ev] else []) @ trs"]) auto
qed simp

lemma receipts_not_proposed: "filter pt_proposed (receipt_proofs ts) = []"
  by (auto simp: receipt_proofs_def filter_empty_conv)

text \<open>The transitions of a set of chunks: one for each that is open, in their order.\<close>

definition transitions_of :: "js list \<Rightarrow> js list \<Rightarrow> bool" where
  "transitions_of chunks trs \<longleftrightarrow>
     list_all2 (\<lambda>c tr. get tr ''chunkIndex'' = get c ''index'' \<and> get tr ''from'' = get c ''status'')
       (filter unresolved chunks) trs"

lemma evaluated_transitions:
  assumes "evaluateChunkProofs env chunks observations expected rs = Inr proofs"
    and "filter pt_proposed rs = []"
  shows "transitions_of chunks (cp_transitions proofs)"
proof -
  have "filter pt_proposed (open_targets chunks @ rs) = open_targets chunks"
    using assms(2) by (auto simp: open_targets_def filter_map comp_def)
  moreover have "prove_targets env expected observations (elements (get observations ''transactions''))
      (open_targets chunks @ rs) no_proofs = Inr proofs"
    using assms(1) by (auto simp: evaluateChunkProofs_def Let_def split: if_splits)
  ultimately have "list_all2 (\<lambda>t tr. \<exists>ev. tr = transition_js t ev) (open_targets chunks) (cp_transitions proofs)"
    by (auto simp: no_proofs_def dest!: prove_targets_transitions)
  then show ?thesis
    by (auto simp: transitions_of_def open_targets_def list_all2_map1 transition_js_def Let_def elim!: list_all2_mono)
qed

lemma conclude_safe:
  assumes "conclude env i lease state pre lsha outcome info proofs = Safe_To_Release fresh"
  shows "sr_proposedTransitions fresh = cp_transitions proofs"
    and "sr_releaseReady fresh \<longleftrightarrow> cp_transitions proofs = []"
  using assms unfolding conclude_def Let_def insufficient_def by (auto split: if_splits option.splits)

text \<open>What the documents say when a lease may be released.\<close>

definition reconciled :: "'b lease_env \<Rightarrow> reconcile_input \<Rightarrow> js \<Rightarrow> js \<Rightarrow> safe_reconciliation \<Rightarrow> bool" where
  "reconciled env i lease state fresh \<longleftrightarrow>
     \<not> ue_process_active env (get lease ''pid'') (get lease ''hostname'')
     \<and> get lease ''executionId'' = ri_executionId i
     \<and> validateStoredPlan env state (ri_expected i)
     \<and> transitions_of (chunks_of state) (sr_proposedTransitions fresh)
     \<and> (sr_releaseReady fresh \<longleftrightarrow> sr_proposedTransitions fresh = [])"

lemma reconcile_documents_safe:
  assumes "reconcile_documents env i lease state pre lsha = Safe_To_Release fresh"
  shows "reconciled env i lease state fresh"
  using assms
  unfolding reconcile_documents_def Let_def insufficient_def lease_mismatch_def reconciled_def
  by (auto split: if_splits option.splits sum.splits simp: conclude_safe receipts_not_proposed
      dest!: evaluated_transitions)

lemma reconcile_safe:
  assumes "reconcileAtDirectory env s i directory disk = Safe_To_Release fresh"
  obtains leaseBytes lease stateBytes state where
    "readFileIn directory ''lease.json'' disk = Inr leaseBytes" "ue_parse env leaseBytes = Inr lease"
    "readFile s disk = Inr stateBytes" "ue_parse env stateBytes = Inr state"
    "reconciled env i lease state fresh"
    "safe_execution_id (ri_executionId i)"
  using assms
  by (auto simp: reconcileAtDirectory_def insufficient_def and_then_eq_Inr guard_eq_Inr split: sum.splits
      dest!: reconcile_documents_safe)

lemma reconciled_view:
  assumes "readFileIn directory ''lease.json'' disk = Inr leaseBytes" "ue_parse env leaseBytes = Inr lease"
    "readFile s disk = Inr stateBytes" "ue_parse env stateBytes = Inr state"
  shows "holder env (disk directory) = Some (Some lease)" "disk directory \<noteq> None" "disk s \<noteq> None"
    "lv_statuses (view_of env s disk) = Some (statuses_of state)"
proof -
  have "dir_files (disk directory) ''lease.json'' = Some leaseBytes"
    using assms(1) by (simp add: readFileIn_def split: option.splits)
  moreover from this show "disk directory \<noteq> None" by (cases "disk directory") auto
  ultimately show "holder env (disk directory) = Some (Some lease)"
    using assms(2) by (simp add: holder_def lease_document_def)
  show "disk s \<noteq> None" using assms(3) by (auto simp: readFile_def split: option.splits)
  show "lv_statuses (view_of env s disk) = Some (statuses_of state)"
    using assms(3,4) by (simp add: view_of_def stored_statuses_def parse_file_def)
qed

section \<open>Apply\<close>

lemma validate_chunk_ok:
  assumes "validate_chunk c sc = Inr sc1"
  shows "get c ''index'' = JNat (length (indices sc))" "\<exists>st. get c ''status'' = JStr st"
    "length (indices sc1) = Suc (length (indices sc))"
proof -
  have *: "is_integer (get c ''index'')" "num_of (get c ''index'') = of_nat (length (indices sc))"
      "str_in (get c ''status'') CHUNK_STATUS" "indices sc1 = indices sc @ [num_of (get c ''index'')]"
    using assms by (auto simp only: validate_chunk_def Let_def chunk_scan.simps sum.inject sum.distinct split: if_splits)
  from *(1,2) show "get c ''index'' = JNat (length (indices sc))"
    by (cases "get c ''index''") (auto simp: is_integer_def)
  from *(3) show "\<exists>st. get c ''status'' = JStr st" by (cases "get c ''status''") (auto simp: str_in_def)
  from *(4) show "length (indices sc1) = Suc (length (indices sc))" by simp
qed

lemma validate_chunks_index:
  "validate_chunks cs sc = Inr sc' \<Longrightarrow> j < length cs \<Longrightarrow>
   get (cs ! j) ''index'' = JNat (length (indices sc) + j) \<and> (\<exists>st. get (cs ! j) ''status'' = JStr st)"
proof (induction cs arbitrary: sc j)
  case (Cons c cs)
  from Cons.prems(1) obtain sc1 where first: "validate_chunk c sc = Inr sc1" "validate_chunks cs sc1 = Inr sc'"
    by (auto simp: and_then_eq_Inr)
  note c = validate_chunk_ok [OF first(1)]
  show ?case
    using Cons.prems(2) c Cons.IH [OF first(2)] by (cases j) auto
qed simp

text \<open>The chunks of a stored plan: the index of a chunk is its place, its status is a text, and the
  document, the deployment and the buffer are objects.\<close>

lemma stored_plan_chunks:
  assumes "validateStoredPlan env state expected"
  shows "get (buffer_of state) ''chunks'' = JArr (chunks_of state)"
    and "j < length (chunks_of state) \<Longrightarrow> get (chunks_of state ! j) ''index'' = JNat j"
    and "j < length (chunks_of state) \<Longrightarrow> \<exists>st. get (chunks_of state ! j) ''status'' = JStr st"
proof -
  have "validateChunkRecords (get (buffer_of state) ''chunks'') = Inr ()"
    using assms by (auto simp: validateStoredPlan_def stored_fingerprint_def and_then_eq_Inr split: sum.splits)
  then obtain cs sc where cs: "get (buffer_of state) ''chunks'' = JArr cs" "validate_chunks cs scan_start = Inr sc"
    by (auto simp: validateChunkRecords_def and_then_eq_Inr split: js.splits)
  then show "get (buffer_of state) ''chunks'' = JArr (chunks_of state)" by (simp add: chunks_of_def)
  from cs have "chunks_of state = cs" by (simp add: chunks_of_def)
  then show "j < length (chunks_of state) \<Longrightarrow> get (chunks_of state ! j) ''index'' = JNat j"
    and "j < length (chunks_of state) \<Longrightarrow> \<exists>st. get (chunks_of state ! j) ''status'' = JStr st"
    using validate_chunks_index [OF cs(2)] by (auto simp: scan_start_def)
qed

lemma get_text_object: "get v k = JStr s \<Longrightarrow> \<exists>kvs. v = JObj kvs"
  by (cases v) auto

lemma get_array_object: "get v k = JArr vs \<Longrightarrow> \<exists>kvs. v = JObj kvs"
  by (cases v) auto

lemma get_object_object: "get v k = JObj vs \<Longrightarrow> \<exists>kvs. v = JObj kvs"
  by (cases v) auto

lemma chunk_at_truthy:
  assumes "truthy (chunk_at chunks i)"
  obtains j where "i = JNat j" "j < length chunks" "chunk_at chunks i = chunks ! j"
proof -
  from assms have int: "is_integer i" "0 \<le> num_of i"
    by (auto simp: chunk_at_def split: if_splits)
  then obtain j where j: "i = JNat j"
    by (auto elim!: is_integer_nonneg simp: num_of_case)
  with assms have "j < length chunks" "chunk_at chunks i = chunks ! j"
    by (auto simp: chunk_at_def nth_or_undefined_def split: if_splits)
  with j show thesis by (rule that)
qed

text \<open>What the transitions do to the statuses.\<close>

lemma apply_transitions_statuses:
  assumes "apply_transitions trs chunks = Some chunks'" and "\<forall>tr\<in>set trs. \<exists>s. get tr ''from'' = JStr s"
  shows "length chunks' = length chunks
    \<and> (\<forall>j<length chunks. get (chunks' ! j) ''status''
         = (if JNat j \<in> set (map (\<lambda>tr. get tr ''chunkIndex'') trs) then JStr ''CONFIRMED''
            else get (chunks ! j) ''status''))"
  using assms
proof (induction trs arbitrary: chunks)
  case (Cons tr trs)
  from Cons.prems(1) have tr: "truthy (chunk_at chunks (get tr ''chunkIndex''))"
      "strict_equal (get (chunk_at chunks (get tr ''chunkIndex'')) ''status'') (get tr ''from'')"
      "apply_transitions trs (set_status chunks (get tr ''chunkIndex'') (JStr ''CONFIRMED'')) = Some chunks'"
    by (auto simp: Let_def split: if_splits)
  from tr(1) obtain j where j: "get tr ''chunkIndex'' = JNat j" "j < length chunks"
      "chunk_at chunks (get tr ''chunkIndex'') = chunks ! j"
    by (rule chunk_at_truthy)
  from Cons.prems(2) obtain s where "get tr ''from'' = JStr s" by auto
  with tr(2) j(3) have "get (chunks ! j) ''status'' = JStr s"
    by (cases "get (chunks ! j) ''status''") auto
  then obtain kvs where kvs: "chunks ! j = JObj kvs" using get_text_object by blast
  let ?next = "set_status chunks (JNat j) (JStr ''CONFIRMED'')"
  have nxt: "?next = chunks[j := assign (JObj kvs) ''status'' (JStr ''CONFIRMED'')]"
    by (simp add: set_status_def kvs)
  have IH: "length chunks' = length ?next \<and> (\<forall>k<length ?next. get (chunks' ! k) ''status''
         = (if JNat k \<in> set (map (\<lambda>tr. get tr ''chunkIndex'') trs) then JStr ''CONFIRMED''
            else get (?next ! k) ''status''))"
    using Cons.IH [of ?next] tr(3) j(1) Cons.prems(2) by simp
  have "get (?next ! k) ''status'' = (if k = j then JStr ''CONFIRMED'' else get (chunks ! k) ''status'')"
    if "k < length chunks" for k
    using j(2) that by (simp add: nxt nth_list_update)
  with IH j(1) show ?case by (simp add: nxt)
qed simp

lemma transitions_settle:
  assumes "transitions_of chunks trs" and "apply_transitions trs chunks = Some chunks'"
    and index: "\<And>j. j < length chunks \<Longrightarrow> get (chunks ! j) ''index'' = JNat j"
  shows "map (\<lambda>c. get c ''status'') chunks' = map settled (map (\<lambda>c. get c ''status'') chunks)"
proof (rule nth_equalityI)
  have from_text: "\<exists>s. get tr ''from'' = JStr s" if tr: "tr \<in> set trs" for tr
  proof -
    from tr obtain k where k: "k < length trs" "tr = trs ! k" by (auto simp: in_set_conv_nth)
    with assms(1) have len: "k < length (filter unresolved chunks)"
        and eq: "get tr ''from'' = get (filter unresolved chunks ! k) ''status''"
      by (auto simp: transitions_of_def list_all2_conv_all_nth)
    from len have "unresolved (filter unresolved chunks ! k)" using nth_mem [OF len] by simp
    with eq show ?thesis by (auto simp: unresolved_def str_in_def split: js.splits)
  qed
  have moved: "JNat j \<in> set (map (\<lambda>tr. get tr ''chunkIndex'') trs) \<longleftrightarrow> unresolved (chunks ! j)"
    if j: "j < length chunks" for j
  proof -
    have "map (\<lambda>tr. get tr ''chunkIndex'') trs = map (\<lambda>c. get c ''index'') (filter unresolved chunks)"
      using assms(1) by (auto simp: transitions_of_def list_all2_conv_all_nth intro!: nth_equalityI)
    moreover have "JNat j \<in> (\<lambda>c. get c ''index'') ` {c \<in> set chunks. unresolved c} \<longleftrightarrow> unresolved (chunks ! j)"
      using j index by (force simp: in_set_conv_nth)
    ultimately show ?thesis by simp
  qed
  note statuses = apply_transitions_statuses [OF assms(2)]
  show "length (map (\<lambda>c. get c ''status'') chunks') = length (map settled (map (\<lambda>c. get c ''status'') chunks))"
    using statuses from_text by simp
  fix j
  assume "j < length (map (\<lambda>c. get c ''status'') chunks')"
  then have "j < length chunks" using statuses from_text by simp
  with statuses from_text moved
  show "map (\<lambda>c. get c ''status'') chunks' ! j = map settled (map (\<lambda>c. get c ''status'') chunks) ! j"
    by (simp add: settled_def open_status_def unresolved_def)
qed

lemma chunks_of_with_windows:
  assumes "get (buffer_of state) ''chunks'' = JArr cs"
  shows "get (buffer_of (with_windows state ws)) ''chunks'' = JArr cs"
    and "get (buffer_of (with_chunks state cs')) ''chunks'' = JArr cs'"
proof -
  from assms obtain buf where b: "buffer_of state = JObj buf" using get_array_object by blast
  then obtain dep where d: "get state ''deployment'' = JObj dep"
    unfolding buffer_of_def using get_object_object by blast
  then obtain kvs where "state = JObj kvs" using get_object_object by blast
  with assms b d show "get (buffer_of (with_windows state ws)) ''chunks'' = JArr cs"
    and "get (buffer_of (with_chunks state cs')) ''chunks'' = JArr cs'"
    by (simp_all add: with_windows_def with_chunks_def with_buffer_def buffer_of_def assign_def)
qed

lemma statuses_json_norm:
  assumes "get (buffer_of state) ''chunks'' = JArr cs" and "\<forall>c\<in>set cs. \<exists>st. get c ''status'' = JStr st"
  shows "statuses_of (json_norm state) = map (\<lambda>c. get c ''status'') cs"
proof -
  from assms(1) have "get (buffer_of (json_norm state)) ''chunks'' = JArr (map json_norm cs)"
  proof -
    from assms(1) obtain buf where b: "buffer_of state = JObj buf" using get_array_object by blast
    then obtain dep where d: "get state ''deployment'' = JObj dep"
      unfolding buffer_of_def using get_object_object by blast
    have "get (json_norm state) ''deployment'' = json_norm (JObj dep)" by (rule get_json_norm [OF d]) simp
    moreover have "get (json_norm (JObj dep)) ''buffer'' = json_norm (JObj buf)"
      using b d by (intro get_json_norm) (simp_all add: buffer_of_def)
    moreover have "get (json_norm (JObj buf)) ''chunks'' = json_norm (JArr cs)"
      using assms(1) b by (intro get_json_norm) simp_all
    ultimately show ?thesis by (simp add: buffer_of_def)
  qed
  moreover have "get (json_norm c) ''status'' = get c ''status''" if c: "c \<in> set cs" for c
  proof -
    from assms(2) c obtain st where "get c ''status'' = JStr st" by blast
    then show ?thesis using get_json_norm [of c "''status''" "JStr st"] by simp
  qed
  ultimately show ?thesis by (simp add: statuses_of_def chunks_of_def)
qed

lemma next_state_settles:
  assumes "next_state env fresh state = Inr new" and "reconciled env i lease state fresh"
  shows "statuses_of (json_norm new) = map settled (statuses_of state)"
proof -
  from assms(2) have plan: "validateStoredPlan env state (ri_expected i)"
      and trs: "transitions_of (chunks_of state) (sr_proposedTransitions fresh)"
    by (simp_all add: reconciled_def)
  note chunks = stored_plan_chunks [OF plan]
  from assms(1) obtain cs where cs: "apply_transitions (sr_proposedTransitions fresh) (chunks_of state) = Some cs"
      and new: "\<exists>f. new = change_outcome (sr_executionId fresh) f (with_chunks state cs)"
    by (auto simp: next_state_def stale_def Let_def split: option.splits if_splits)
  have st: "map (\<lambda>c. get c ''status'') cs = map settled (statuses_of state)"
    using transitions_settle [OF trs cs chunks(2)] by (simp add: statuses_of_def)
  have "get (buffer_of new) ''chunks'' = JArr cs"
    using new chunks_of_with_windows(1) [OF chunks_of_with_windows(2) [OF chunks(1)]]
    by (auto simp: change_outcome_def)
  moreover have "\<exists>s. get c ''status'' = JStr s" if "c \<in> set cs" for c
  proof -
    from that obtain j where j: "j < length cs" "c = cs ! j" by (auto simp: in_set_conv_nth)
    from st have "length cs = length (chunks_of state)"
      by (metis length_map statuses_of_def)
    moreover from arg_cong [OF st, of "\<lambda>l. l ! j"] calculation j
    have "get c ''status'' = settled (get (chunks_of state ! j) ''status'')"
      by (simp add: statuses_of_def)
    moreover obtain s where "get (chunks_of state ! j) ''status'' = JStr s"
      using chunks(3) j calculation(1) by auto
    ultimately show ?thesis by (simp add: settled_def)
  qed
  ultimately show ?thesis using statuses_json_norm [of new cs] st by simp
qed

lemma save_state_disk:
  assumes "save_state env io s new disk = (r, disk')"
  shows "disk' s = disk s \<and> r \<noteq> Inr () \<or> disk' s = Some (File (ue_pretty env new))"
  using assms
  by (auto simp: save_state_def then_do_def mkdir_recursive_def may_fail_def writeFile_def renamePath_def give_def
      split: sum.splits option.splits prod.splits node.splits if_splits)

lemma restore_disk:
  assumes "restoreStateBytesAtomic env io s b disk = (r, disk')"
  shows "disk' s = disk s \<or> disk' s = Some (File b)"
  using assms
  by (auto simp: restoreStateBytesAtomic_def Let_def then_do_def may_fail_def writeFile_def renamePath_def
      split: sum.splits option.splits prod.splits node.splits if_splits)

lemma touches_save [touches_intros]:
  "s \<in> ps \<Longrightarrow> s @ ''.tmp'' \<in> ps \<Longrightarrow> touches ps (save_state env io s new)"
  unfolding save_state_def by (intro touches_intros)

lemma touches_restore [touches_intros]:
  "s \<in> ps \<Longrightarrow> s @ ''.reconciliation-rollback.tmp'' \<in> ps \<Longrightarrow> touches ps (restoreStateBytesAtomic env io s b)"
  unfolding restoreStateBytesAtomic_def Let_def
  by (intro touches_intros) (auto simp: touches_def)

definition saved_places :: "path \<Rightarrow> path set" where
  "saved_places s = {s, s @ ''.tmp'', s @ ''.reconciliation-rollback.tmp''}"

lemma save_validated_disk:
  assumes "save_validated env io s expected fresh original new disk = (r, disk')" and "disk s = Some (File original)"
  shows "disk' s = disk s \<and> r \<noteq> Inr () \<or> disk' s = Some (File (ue_pretty env new))"
    and "q \<notin> saved_places s \<Longrightarrow> disk' q = disk q"
proof -
  obtain r1 disk1 where save: "save_state env io s new disk = (r1, disk1)" by (cases "save_state env io s new disk")
  have q1: "q \<notin> saved_places s \<Longrightarrow> disk1 q = disk q"
    using touchesD [OF touches_save save, of "saved_places s" q] by (simp add: saved_places_def)
  have step: "disk' s = disk1 s \<and> r1 = r \<or> r \<noteq> Inr () \<and> (disk' s = disk1 s \<or> disk' s = disk s)"
    "q \<notin> saved_places s \<Longrightarrow> disk' q = disk1 q"
  proof -
    consider "r = Inr ()" "r1 = Inr ()" "disk' = disk1"
      | r2 where "r \<noteq> Inr ()" "restoreStateBytesAtomic env io s original disk1 = (r2, disk')"
      using assms(1) by (auto simp: save_validated_def then_do_def save split: sum.splits prod.splits)
    then have "(disk' s = disk1 s \<and> r1 = r \<or> r \<noteq> Inr () \<and> (disk' s = disk1 s \<or> disk' s = disk s))
        \<and> (q \<notin> saved_places s \<longrightarrow> disk' q = disk1 q)"
    proof cases
      case (2 r2)
      note undone = 2
      have "q \<notin> saved_places s \<longrightarrow> disk' q = disk1 q"
        using touchesD [OF touches_restore undone(2), of "saved_places s" q] by (simp add: saved_places_def)
      with restore_disk [OF undone(2)] undone(1) assms(2) show ?thesis by simp
    qed simp
    then show "disk' s = disk1 s \<and> r1 = r \<or> r \<noteq> Inr () \<and> (disk' s = disk1 s \<or> disk' s = disk s)"
      "q \<notin> saved_places s \<Longrightarrow> disk' q = disk1 q" by blast+
  qed
  from step(1) save_state_disk [OF save]
  show "disk' s = disk s \<and> r \<noteq> Inr () \<or> disk' s = Some (File (ue_pretty env new))" by metis
  show "q \<notin> saved_places s \<Longrightarrow> disk' q = disk q" using q1 step(2) by simp
qed

definition owner_alive :: "'b lease_env \<Rightarrow> js \<Rightarrow> bool" where
  "owner_alive env l = ue_process_active env (get l ''pid'') (get l ''hostname'')"

lemma open_statuses: "list_ex open_status (statuses_of state) \<longleftrightarrow> filter unresolved (chunks_of state) \<noteq> []"
  by (auto simp: statuses_of_def list_ex_iff open_status_def unresolved_def filter_empty_conv)

lemma reconciled_open:
  assumes "reconciled env i lease state fresh"
  shows "list_ex open_status (statuses_of state) \<longleftrightarrow> sr_proposedTransitions fresh \<noteq> []"
  using assms unfolding reconciled_def transitions_of_def open_statuses
  by (cases "filter unresolved (chunks_of state)") auto

lemma settled_closed: "\<not> list_ex open_status (map settled ss)"
  by (auto simp: list_ex_iff settled_def open_status_def str_in_def)

definition closed :: "lease_view \<Rightarrow> bool" where
  "closed v \<longleftrightarrow> (\<exists>ss. lv_statuses v = Some ss \<and> \<not> list_ex open_status ss)"

lemma not_saved_places [simp]: "lease_directory s \<notin> saved_places s" "is_archive s p \<Longrightarrow> p \<notin> saved_places s"
  by (auto simp: saved_places_def)

lemma saved_view:
  assumes "\<And>q. q \<notin> saved_places s \<Longrightarrow> disk' q = disk q" and "disk' s = Some (File (ue_pretty env new))"
    and "reads_back env"
  shows "view_of env s disk' = (view_of env s disk)\<lparr>lv_statuses := Some (statuses_of (json_norm new))\<rparr>"
proof -
  have same: "disk' (lease_directory s) = disk (lease_directory s)" "is_archive s p \<Longrightarrow> disk' p = disk p" for p
    using assms(1) by simp_all
  have "stored_statuses env s disk' = Some (statuses_of (json_norm new))"
    using assms(2,3) by (simp add: stored_statuses_def readFile_def parse_file_def reads_back_def)
  with same show ?thesis by (auto simp: view_of_def)
qed

lemma apply_fresh_view:
  assumes call: "apply_fresh env io s i fresh disk = (r, disk')" and "reads_back env"
    and bytes: "readFile s disk = Inr stateBytes" "ue_parse env stateBytes = Inr state"
    and safe: "reconciled env i lease state fresh"
    and holder: "lv_holder (view_of env s disk) = Some (Some lease)"
  shows "lease_step (owner_alive env) (view_of env s disk) (view_of env s disk')
    \<and> ((\<exists>x. r = Inr x) \<longrightarrow> closed (view_of env s disk'))"
proof -
  have st: "lv_statuses (view_of env s disk) = Some (statuses_of state)"
    using bytes by (simp add: view_of_def stored_statuses_def parse_file_def)
  consider (refused) e where "r = Inl e" "disk' = disk"
    | (saved) new r1 where "sr_proposedTransitions fresh \<noteq> []" "next_state env fresh state = Inr new"
        "save_validated env io s (ri_expected i) fresh stateBytes new disk = (r1, disk')"
        "(\<exists>x. r = Inr x) \<longrightarrow> r1 = Inr ()"
    using call bytes unfolding apply_fresh_def
    by (auto simp: and_then_eq_Inr guard_eq_Inr then_do_def split: sum.splits prod.splits if_splits)
  then show ?thesis
  proof cases
    case refused
    then show ?thesis by (simp add: lease_step.idle)
  next
    case saved
    have "disk s = Some (File stateBytes)"
      using bytes(1) by (auto simp: readFile_def split: option.splits node.splits)
    note disk' = save_validated_disk [OF saved(3) this]
    show ?thesis
    proof (cases "disk' s = Some (File (ue_pretty env new))")
      case True
      then have view: "view_of env s disk' = (view_of env s disk)\<lparr>lv_statuses := Some (map settled (statuses_of state))\<rparr>"
        using saved_view [OF disk'(2) _ assms(2)] next_state_settles [OF saved(2) safe] by simp
      have "lease_step (owner_alive env) (view_of env s disk) (view_of env s disk')"
        unfolding view using holder st reconciled_open [OF safe] saved(1) safe
        by (intro lease_step.settle) (auto simp: owner_alive_def reconciled_def)
      with settled_closed show ?thesis by (auto simp: view closed_def)
    next
      case False
      with disk'(1) have same: "disk' s = disk s" "r1 \<noteq> Inr ()" by auto
      have "disk' q = disk q" if "q = lease_directory s \<or> is_archive s q" for q
        using disk'(2) [of q] that by auto
      with same(1) have "view_of env s disk' = view_of env s disk"
        by (intro view_of_cong) auto
      with saved(4) same(2) show ?thesis by (simp add: lease_step.idle)
    qed
  qed
qed

lemma apply_view:
  assumes call: "apply_under_lock env io s i h disk = (r, disk')" and "reads_back env"
  shows "lease_step (owner_alive env) (view_of env s disk) (view_of env s disk')
    \<and> ((\<exists>x. r = Inr x) \<longrightarrow> closed (view_of env s disk'))"
proof (cases "reconcileUploadLease env s i disk")
  case (Reconcile_Failure f l)
  with call show ?thesis by (auto simp: apply_under_lock_def stale_def lease_step.idle)
next
  case (Safe_To_Release fresh)
  then obtain leaseBytes lease stateBytes state where
    docs: "readFileIn (lease_directory s) ''lease.json'' disk = Inr leaseBytes" "ue_parse env leaseBytes = Inr lease"
      "readFile s disk = Inr stateBytes" "ue_parse env stateBytes = Inr state"
      and safe: "reconciled env i lease state fresh"
    unfolding reconcileUploadLease_def by (elim reconcile_safe)
  note view = reconciled_view [OF docs]
  show ?thesis
  proof (cases "JStr (sr_evidenceHash fresh) = h")
    case True
    with call Safe_To_Release have "apply_fresh env io s i fresh disk = (r, disk')"
      by (simp add: apply_under_lock_def)
    from apply_fresh_view [OF this assms(2) docs(3,4) safe] view(1) show ?thesis by (simp add: view_of_def)
  next
    case False
    with call Safe_To_Release docs(3,4) have "disk' = disk"
        "(\<exists>x. r = Inr x) \<longrightarrow> sr_proposedTransitions fresh = []"
      by (auto simp: apply_under_lock_def parse_file_def stale_def split: if_splits)
    with view(4) reconciled_open [OF safe] show ?thesis by (auto simp: closed_def lease_step.idle)
  qed
qed

section \<open>Release\<close>

definition same_lease :: "path \<Rightarrow> 'b disk \<Rightarrow> 'b disk \<Rightarrow> bool" where
  "same_lease p disk disk' \<longleftrightarrow>
     (\<forall>q. q \<noteq> p \<longrightarrow> disk' q = disk q)
     \<and> dir_files (disk' p) ''lease.json'' = dir_files (disk p) ''lease.json''
     \<and> (disk' p = None \<longleftrightarrow> disk p = None)"

lemma same_lease_refl: "same_lease p disk disk"
  by (simp add: same_lease_def)

lemma same_lease_trans: "same_lease p a b \<Longrightarrow> same_lease p b c \<Longrightarrow> same_lease p a c"
  by (simp add: same_lease_def)

lemma same_lease_set_file: "name \<noteq> ''lease.json'' \<Longrightarrow> same_lease p disk (set_file_in p name b disk)"
  by (auto simp: same_lease_def set_file_in_def split: option.splits node.splits)

lemma same_lease_writeNew:
  assumes "writeNewFileIn io c p name b disk = (r, disk')" and "name \<noteq> ''lease.json''"
  shows "same_lease p disk disk'"
  using assms same_lease_set_file same_lease_refl
  by (auto simp: writeNewFileIn_def split: if_splits option.splits)

lemma same_lease_rename:
  assumes "renameFileIn io c p a b disk = (r, disk')" and "a \<noteq> ''lease.json''" and "b \<noteq> ''lease.json''"
  shows "same_lease p disk disk'"
proof -
  have "same_lease p disk (set_file_in p a None (set_file_in p b (Some x) disk))" for x
    using same_lease_trans [OF same_lease_set_file [OF assms(3)] same_lease_set_file [OF assms(2)]] .
  then show ?thesis
    using assms(1) same_lease_refl by (auto simp: renameFileIn_def may_fail_def split: option.splits)
qed

lemma receipt_keeps_lease:
  assumes "write_release_receipt env io p i h fresh disk = (r, disk')"
  shows "same_lease p disk disk'"
proof -
  let ?w = "writeNewFileIn io Write_Receipt p ''release.json.tmp'' (ue_pretty env (release_receipt fresh))"
  let ?n = "renameFileIn io Rename_Receipt p ''release.json.tmp'' ''release.json''"
  have both: "same_lease p disk d" if "then_do ?w (\<lambda>_. ?n) disk = (x, d)" for x d
    using that
  proof (cases rule: then_do_cases)
    case (throws e)
    then show ?thesis using same_lease_writeNew by fastforce
  next
    case (returns u s1)
    then show ?thesis using same_lease_writeNew [OF returns(1)] same_lease_rename [OF returns(2)] same_lease_trans by simp
  qed
  show ?thesis
  proof (cases "readFileIn p ''release.json'' disk")
    case (Inr b)
    with assms show ?thesis by (auto simp: write_release_receipt_def same_lease_refl)
  next
    case (Inl e)
    obtain x d where run: "then_do ?w (\<lambda>_. ?n) disk = (x, d)" by (cases "then_do ?w (\<lambda>_. ?n) disk")
    with assms Inl have "disk' = d" by (auto simp: write_release_receipt_def split: sum.splits)
    with both [OF run] show ?thesis by simp
  qed
qed

lemma same_lease_view:
  assumes "same_lease (lease_directory s) disk disk'"
  shows "view_of env s disk' = view_of env s disk"
proof -
  have *: "disk' s = disk s" using assms by (simp add: same_lease_def)
  have **: "disk' p = disk p" if "is_archive s p" for p
  proof -
    have "p \<noteq> lease_directory s" using that not_archive(2) by metis
    with assms show ?thesis by (simp add: same_lease_def)
  qed
  have "holder env (disk' (lease_directory s)) = holder env (disk (lease_directory s))"
    using assms by (simp add: same_lease_def holder_def lease_document_def)
  with * ** show ?thesis by (auto simp: view_of_def stored_statuses_def readFile_def)
qed

lemma archive_lease_disk:
  assumes "archive_lease env io s active archive executionId before disk = (r, disk')"
  shows "disk' = disk \<and> (\<exists>e. r = Inl e) \<or> disk' = (disk(active := None))(archive := disk active)"
proof (cases "renamePath io Rename_Archive active archive disk")
  case (Pair r1 disk1)
  then have "disk1 = disk \<and> (\<exists>e. r1 = Inl e) \<or> disk1 = (disk(active := None))(archive := disk active)"
    by (auto simp: renamePath_def may_fail_def split: option.splits node.splits if_splits)
  moreover have "disk' = disk1" "(\<exists>e. r1 = Inl e) \<Longrightarrow> \<exists>e. r = Inl e"
    using assms Pair by (auto simp: archive_lease_def Let_def split: sum.splits)
  ultimately show ?thesis by blast
qed

text \<open>The lease directory moves to a free place of the archive.\<close>

lemma freed_step:
  assumes kept: "same_lease (lease_directory s) disk disk1"
    and archive: "is_archive s archive" "disk archive = None"
    and held: "holder env (disk (lease_directory s)) = Some (Some lease)"
    and statuses: "lv_statuses (view_of env s disk) = Some ss"
    and "\<not> owner_alive env lease" and "\<not> list_ex open_status ss"
    and disk': "disk' = (disk1(lease_directory s := None))(archive := disk1 (lease_directory s))"
  shows "lease_step (owner_alive env) (view_of env s disk) (view_of env s disk')
    \<and> lv_holder (view_of env s disk') = None"
proof -
  let ?a = "lease_directory s"
  note same = same_lease_view [OF kept, of env]
  have apart: "archive \<noteq> ?a" "archive \<noteq> s" using archive(1) not_archive by metis+
  have free: "disk1 archive = None" using archive(2) kept apart by (simp add: same_lease_def)
  have held1: "holder env (disk1 ?a) = Some (Some lease)"
    using held same by (simp add: view_of_def)
  have view: "view_of env s disk' = (view_of env s disk1)
      \<lparr>lv_holder := None, lv_archives := (lv_archives (view_of env s disk1))(archive := Some (Some lease))\<rparr>"
    using apart archive(1) held1
    by (auto simp: view_of_def disk' stored_statuses_def readFile_def holder_def [of env None] fun_eq_iff)
  have "lease_step (owner_alive env) (view_of env s disk1) (view_of env s disk')"
    unfolding view
  proof (rule lease_step.free)
    show "lv_holder (view_of env s disk1) = Some (Some lease)" using held1 by (simp add: view_of_def)
    show "lv_statuses (view_of env s disk1) = Some ss" using statuses same by simp
    show "lv_archives (view_of env s disk1) archive = None"
      using free by (simp add: view_of_def holder_def)
  qed fact+
  then show ?thesis using same by (simp add: view)
qed

lemma release_fresh_view:
  assumes call: "release_fresh env io s i h archive activeExists fresh disk = (r, disk')"
    and archive: "is_archive s archive" "disk archive = None \<or> \<not> activeExists"
    and active: "activeExists \<longleftrightarrow> disk (lease_directory s) \<noteq> None"
    and docs: "activeExists \<Longrightarrow> holder env (disk (lease_directory s)) = Some (Some lease)"
      "lv_statuses (view_of env s disk) = Some (statuses_of state)"
    and safe: "reconciled env i lease state fresh" "sr_proposedTransitions fresh = []"
  shows "lease_step (owner_alive env) (view_of env s disk) (view_of env s disk')
    \<and> ((\<exists>x. r = Inr x) \<longrightarrow> lv_holder (view_of env s disk') = None)"
proof -
  let ?a = "lease_directory s"
  consider (quiet) "disk' = disk" "(\<exists>x. r = Inr x) \<Longrightarrow> \<not> activeExists"
    | (receipt) r1 where "write_release_receipt env io ?a i h fresh disk = (r1, disk')" "\<exists>e. r = Inl e"
    | (moved) r1 before disk1 where "activeExists" "write_release_receipt env io ?a i h fresh disk = (r1, disk1)"
        "archive_lease env io s ?a archive (sr_executionId fresh) before disk1 = (r, disk')"
    using call
    by (auto simp: release_fresh_def Let_def then_do_def mkdir_recursive_def may_fail_def give_def
        split: sum.splits option.splits prod.splits if_splits)
  then show ?thesis
  proof cases
    case quiet
    then show ?thesis using active by (auto simp: lease_step.idle view_of_def holder_def)
  next
    case receipt
    then show ?thesis using same_lease_view [OF receipt_keeps_lease [OF receipt(1)]] by (auto simp: lease_step.idle)
  next
    case moved
    note kept = receipt_keeps_lease [OF moved(2)]
    have free: "disk archive = None" using archive(2) moved(1) by simp
    from archive_lease_disk [OF moved(3)] show ?thesis
    proof
      assume "disk' = disk1 \<and> (\<exists>e. r = Inl e)"
      then show ?thesis using same_lease_view [OF kept] by (auto simp: lease_step.idle)
    next
      assume disk': "disk' = (disk1(?a := None))(archive := disk1 ?a)"
      from freed_step [OF kept archive(1) free docs(1) [OF moved(1)] docs(2) _ _ disk']
      show ?thesis using safe reconciled_open [OF safe(1)] by (simp add: owner_alive_def reconciled_def)
    qed
  qed
qed

lemma release_view:
  assumes "release_under_lock env io s i h disk = (r, disk')"
  shows "lease_step (owner_alive env) (view_of env s disk) (view_of env s disk')
    \<and> ((\<exists>x. r = Inr x) \<longrightarrow> lv_holder (view_of env s disk') = None)"
proof -
  let ?a = "lease_directory s"
  let ?archive = "archive_directory s (text_of (ri_executionId i)) (text_of h)"
  let ?ae = "existsPath ?a disk"
  consider (refused) "disk' = disk" "\<exists>e. r = Inl e"
    | (fresh) fresh where "reconcileAtDirectory env s i (if ?ae then ?a else ?archive) disk = Safe_To_Release fresh"
        "sr_proposedTransitions fresh = []" "\<not> (?ae \<and> existsPath ?archive disk)"
        "release_fresh env io s i h ?archive ?ae fresh disk = (r, disk')"
    using assms
    by (auto simp: release_under_lock_def Let_def stale_def split: if_splits reconciliation.splits)
  then show ?thesis
  proof cases
    case refused
    then show ?thesis by (auto simp: lease_step.idle)
  next
    case fresh
    from fresh(1) obtain leaseBytes lease stateBytes state where
      docs: "readFileIn (if ?ae then ?a else ?archive) ''lease.json'' disk = Inr leaseBytes"
        "ue_parse env leaseBytes = Inr lease" "readFile s disk = Inr stateBytes" "ue_parse env stateBytes = Inr state"
        and safe: "reconciled env i lease state fresh"
      by (elim reconcile_safe)
    note view = reconciled_view [OF docs]
    show ?thesis
    proof (rule release_fresh_view [OF fresh(4) _ _ _ _ view(4) safe fresh(2)])
      show "is_archive s ?archive" by (auto simp: is_archive_def)
      show "disk ?archive = None \<or> \<not> ?ae" using fresh(3) by (auto simp: existsPath_def)
      show "?ae \<longleftrightarrow> disk ?a \<noteq> None" by (simp add: existsPath_def)
      show "?ae \<Longrightarrow> holder env (disk ?a) = Some (Some lease)" using view(1) by simp
    qed
  qed
qed

section \<open>Recovery\<close>

text \<open>The adapters of production: the process table says who is dead, and the lease directory is its
  own resolved path.\<close>

definition plain_adapters :: "'b recovery_adapters \<Rightarrow> path \<Rightarrow> bool" where
  "plain_adapters ra s \<longleftrightarrow> ra_owner_status ra = None \<and> ra_resolve ra (lease_directory s) = lease_directory s"

lemma binding_directory:
  assumes "binding_check env ra i = Inr u" and "plain_adapters ra (vi_statePath i)"
  shows "text_of (get (vi_expected i) ''leasePath'') = lease_directory (vi_statePath i)"
proof -
  have "\<exists>p. get (vi_expected i) ''leasePath'' = JStr (ra_resolve ra p)
      \<and> coalesce (get (vi_expected i) ''leasePath'') (JStr []) = JStr p"
    using assms(1)
    by (auto simp: binding_check_def completePreSelectionExpected_def resolved_lease_path_def and_then_eq_Inr
        attempt_eq_Inr refuse_unless_eq_Inr Let_def split: if_splits js.splits)
  then obtain p where p: "get (vi_expected i) ''leasePath'' = JStr p" "ra_resolve ra p = p"
    by (auto simp: coalesce_def nullish_def split: if_splits)
  moreover have "ra_resolve ra (text_of (get (vi_expected i) ''leasePath''))
      = ra_resolve ra (lease_directory (vi_statePath i))"
    using assms(1) by (auto simp: binding_check_def and_then_eq_Inr refuse_unless_eq_Inr)
  ultimately show ?thesis
    using assms(2) by (simp add: plain_adapters_def text_of_def)
qed

lemma not_maybe_sent: "\<not> list_ex maybe_sent cs \<Longrightarrow> \<not> list_ex open_status (map (\<lambda>c. get c ''status'') cs)"
  by (auto simp: list_ex_iff maybe_sent_def open_status_def)

lemma pre_selection_safe:
  assumes "reconcilePreSelectionUploadLease env ra allow i disk = Inr fresh"
    and "plain_adapters ra (vi_statePath i)"
  obtains leaseBytes lease stateBytes state where
    "readFileIn (lease_directory (vi_statePath i)) ''lease.json'' disk = Inr leaseBytes"
    "ue_parse env leaseBytes = Inr lease"
    "readFile (vi_statePath i) disk = Inr stateBytes" "ue_parse env stateBytes = Inr state"
    "\<not> owner_alive env lease" "\<not> list_ex open_status (statuses_of state)"
proof -
  let ?d = "text_of (get (vi_expected i) ''leasePath'')"
  from assms(1) obtain u lease where binding: "binding_check env ra i = Inr u"
      and zero: "zero_send_check env ra i ?d disk = Inr lease"
    by (auto simp: reconcilePreSelectionUploadLease_def and_then_eq_Inr Let_def)
  note d = binding_directory [OF binding assms(2)]
  from zero obtain leaseBytes stateBytes state where docs:
      "readFileIn ?d ''lease.json'' disk = Inr leaseBytes" "ue_parse env leaseBytes = Inr lease"
      "readFile (vi_statePath i) disk = Inr stateBytes" "ue_parse env stateBytes = Inr state"
      "ownerProcessStatus env ra lease = JStr ''DEAD''" "\<not> list_ex maybe_sent (chunks_of state)"
    by (auto simp: zero_send_check_def and_then_eq_Inr attempt_eq_Inr refuse_unless_eq_Inr Let_def lease_check_def)
  have "\<not> owner_alive env lease"
    using docs(5) assms(2) by (auto simp: ownerProcessStatus_def plain_adapters_def owner_alive_def split: if_splits)
  with docs d not_maybe_sent [OF docs(6)] show thesis by (intro that) (auto simp: statuses_of_def)
qed

lemma canonical_body_keeps_lease:
  assumes "canonical_body env ra io p tmp name v disk = (r, disk')"
    and "tmp \<noteq> ''lease.json''" and "name \<noteq> ''lease.json''"
  shows "same_lease p disk disk'"
proof -
  have one: "same_lease p disk (set_file_in p tmp b disk)" for b by (rule same_lease_set_file [OF assms(2)])
  have all: "same_lease p disk (set_file_in p tmp None (set_file_in p name c (set_file_in p tmp b disk)))" for b c
    by (blast intro: same_lease_trans same_lease_set_file [OF assms(2)] same_lease_set_file [OF assms(3)])
  show ?thesis
    using assms(1) by (auto simp: canonical_body_def Let_def one all same_lease_refl split: if_splits option.splits)
qed

lemma canonical_write_keeps_lease:
  assumes "write_canonical_in env ra io p name v disk = (r, disk')" and "name \<noteq> ''lease.json''"
  shows "same_lease p disk disk'"
proof -
  obtain tmp where tmp: "tmp = ''.'' @ name @ ''.'' @ ra_uuid ra @ ''.tmp''" by blast
  then have lease: "tmp \<noteq> ''lease.json''" by simp
  obtain r1 disk1 where body: "canonical_body env ra io p tmp name v disk = (r1, disk1)"
    by (cases "canonical_body env ra io p tmp name v disk")
  have "same_lease p disk disk1" by (rule canonical_body_keeps_lease [OF body lease assms(2)])
  moreover have "same_lease p disk1 (set_file_in p tmp None disk1)" by (rule same_lease_set_file [OF lease])
  moreover have "disk' = disk1 \<or> disk' = set_file_in p tmp None disk1"
    using assms(1) unfolding write_canonical_in_def Let_def tmp [symmetric] body
    by (simp split: sum.splits if_splits)
  ultimately show ?thesis using same_lease_trans by metis
qed

lemma recovery_receipt_keeps_lease:
  "store_recovery_receipt env ra io i p fresh disk = (r, disk') \<Longrightarrow> same_lease p disk disk'"
  by (auto simp: store_recovery_receipt_def same_lease_refl split: if_splits dest: canonical_write_keeps_lease)

lemma move_recovered_disk:
  assumes "move_recovered env ra io i active archive fresh disk = (r, disk')"
  shows "disk' = disk \<and> (\<exists>e. r = Inl e)
    \<or> (\<exists>p. archive = Some p \<and> disk' = (disk(active := None))(p := disk active))"
proof (cases archive)
  case None
  with assms show ?thesis by (auto simp: move_recovered_def split: sum.splits)
next
  case (Some p)
  obtain r1 disk1 where move: "renamePath io Rename_Archive active p disk = (r1, disk1)"
    by (cases "renamePath io Rename_Archive active p disk")
  then have "disk1 = disk \<and> (\<exists>e. r1 = Inl e) \<or> disk1 = (disk(active := None))(p := disk active)"
    by (auto simp: renamePath_def may_fail_def split: option.splits node.splits if_splits)
  with assms Some move show ?thesis
    by (auto simp: move_recovered_def split: sum.splits)
qed

lemma fresh_recovery_safe:
  assumes "fresh_recovery env ra refreshInput i disk = Inr fresh"
  obtains refresh refreshed where "refreshInput = Some refresh" "refresh i = Inr refreshed"
    "vi_statePath refreshed = vi_statePath i"
    "reconcilePreSelectionUploadLease env ra True refreshed disk = Inr fresh"
proof -
  from assms obtain refresh refreshed where same: "refreshInput = Some refresh" "refresh i = Inr refreshed"
        "vi_statePath refreshed = vi_statePath i"
      and checked: "(case reconcilePreSelectionUploadLease env ra True refreshed disk of
          Inl reason \<Rightarrow> throw ''STATE_HASH_DRIFT_OR_STALE_PRE_SELECTION_EVIDENCE''
        | Inr fresh \<Rightarrow>
            and_then (guard (strict_equal (JStr (pe_recoveryHash fresh)) (vi_recoveryHash i))
              ''STATE_HASH_DRIFT_OR_STALE_PRE_SELECTION_EVIDENCE'') (\<lambda>_. Inr fresh)) = Inr fresh"
    by (auto simp only: fresh_recovery_def and_then_eq_Inr guard_eq_Inr same_binding_def split: option.splits)
  then have "reconcilePreSelectionUploadLease env ra True refreshed disk = Inr fresh"
    by (cases "reconcilePreSelectionUploadLease env ra True refreshed disk") (auto simp: and_then_eq_Inr)
  with same show thesis by (rule that)
qed

lemma recover_view:
  assumes call: "recover_under_lock env ra io refreshInput i archive disk = (r, disk')"
    and plain: "plain_adapters ra (vi_statePath i)"
    and archive: "\<And>p. archive = Some p \<Longrightarrow> is_archive (vi_statePath i) p"
  shows "lease_step (owner_alive env) (view_of env (vi_statePath i) disk) (view_of env (vi_statePath i) disk')
    \<and> ((\<exists>x. r = Inr x) \<longrightarrow> lv_holder (view_of env (vi_statePath i) disk') = None)"
proof -
  let ?s = "vi_statePath i"
  let ?a = "lease_directory ?s"
  consider (quiet) "disk' = disk" "(\<exists>x. r = Inr x) \<Longrightarrow> disk ?a = None"
    | (receipt) fresh r1 where "store_recovery_receipt env ra io i ?a fresh disk = (r1, disk')" "\<exists>e. r = Inl e"
    | (moved) fresh r1 disk1 where "fresh_recovery env ra refreshInput i disk = Inr fresh"
        "\<And>p. archive = Some p \<Longrightarrow> disk p = None"
        "store_recovery_receipt env ra io i ?a fresh disk = (r1, disk1)"
        "move_recovered env ra io i ?a archive fresh disk1 = (r, disk')"
    using call
    by (auto simp: recover_under_lock_def Let_def then_do_def mkdir_recursive_def may_fail_def give_def existsPath_def
        split: sum.splits option.splits prod.splits if_splits)
  then show ?thesis
  proof cases
    case quiet
    then show ?thesis by (auto simp: lease_step.idle view_of_def holder_def)
  next
    case receipt
    then show ?thesis
      using same_lease_view [OF recovery_receipt_keeps_lease [OF receipt(1)]] by (auto simp: lease_step.idle)
  next
    case moved
    note kept = recovery_receipt_keeps_lease [OF moved(3)]
    from moved(1) obtain refreshed where "vi_statePath refreshed = ?s"
        "reconcilePreSelectionUploadLease env ra True refreshed disk = Inr fresh"
      by (elim fresh_recovery_safe)
    with plain obtain leaseBytes lease stateBytes state where docs:
        "readFileIn ?a ''lease.json'' disk = Inr leaseBytes" "ue_parse env leaseBytes = Inr lease"
        "readFile ?s disk = Inr stateBytes" "ue_parse env stateBytes = Inr state"
        "\<not> owner_alive env lease" "\<not> list_ex open_status (statuses_of state)"
      by (metis pre_selection_safe)
    note view = reconciled_view [OF docs(1-4)]
    from move_recovered_disk [OF moved(4)] show ?thesis
    proof (elim disjE exE conjE)
      fix p assume p: "archive = Some p" and disk': "disk' = (disk1(?a := None))(p := disk1 ?a)"
      from freed_step [OF kept archive [OF p] moved(2) [OF p] view(1) view(4) docs(5,6) disk'] show ?thesis by simp
    qed (use same_lease_view [OF kept] in \<open>auto simp: lease_step.idle\<close>)
  qed
qed

lemma recovery_archive_is_archive: "recovery_archive i = Inr (Some p) \<Longrightarrow> is_archive (vi_statePath i) p"
  by (auto simp: recovery_archive_def is_archive_def Let_def and_then_eq_Inr split: if_splits)

section \<open>Every call is a step\<close>

datatype 'b lease_op =
    Acquire acquire_input
  | Reconcile reconcile_input
  | Apply_Outcome reconcile_input js js
  | Release reconcile_input js js
  | Reconcile_Recovery "'b recovery_adapters" recovery_input
  | Recover "'b recovery_adapters" recovery_input "(recovery_input \<Rightarrow> recovery_input result) option"

text \<open>Whether the call returned, and the disk after it.\<close>

fun lease_run :: "'b lease_env \<Rightarrow> 'b lease_io \<Rightarrow> path \<Rightarrow> 'b lease_op \<Rightarrow> 'b disk \<Rightarrow> bool \<times> 'b disk" where
  "lease_run env io s (Acquire i) disk = map_prod returns id (acquireUploadLease env io s i disk)"
| "lease_run env io s (Reconcile i) disk =
     (case reconcileUploadLease env s i disk of Safe_To_Release fresh \<Rightarrow> True | Reconcile_Failure f l \<Rightarrow> False, disk)"
| "lease_run env io s (Apply_Outcome i ack h) disk = map_prod returns id (applyUploadReconciliation env io s i ack h disk)"
| "lease_run env io s (Release i ack h) disk = map_prod returns id (releaseUploadLease env io s i ack h disk)"
| "lease_run env io s (Reconcile_Recovery ra i) disk =
     (case reconcilePreSelectionUploadLease env ra False (i\<lparr>vi_statePath := s\<rparr>) disk of Inr fresh \<Rightarrow> True | Inl reason \<Rightarrow> False, disk)"
| "lease_run env io s (Recover ra i refreshInput) disk =
     map_prod returns id (recoverPreSelectionUploadLease env ra io refreshInput (i\<lparr>vi_statePath := s\<rparr>) disk)"

text \<open>What a recovery relies on in production; the other calls have no adapters.\<close>

fun production_op :: "path \<Rightarrow> 'b lease_op \<Rightarrow> bool" where
  "production_op s (Recover ra i refreshInput) \<longleftrightarrow> plain_adapters ra s"
| "production_op s op \<longleftrightarrow> True"

text \<open>What a call that returned has done.\<close>

fun fulfilled :: "'b lease_op \<Rightarrow> lease_view \<Rightarrow> lease_view \<Rightarrow> bool" where
  "fulfilled (Acquire i) v v' \<longleftrightarrow> lv_holder v = None \<and> lv_holder v' = Some (Some (json_norm (lease_metadata i)))"
| "fulfilled (Reconcile i) v v' \<longleftrightarrow> v' = v"
| "fulfilled (Apply_Outcome i ack h) v v' \<longleftrightarrow> closed v'"
| "fulfilled (Release i ack h) v v' \<longleftrightarrow> lv_holder v' = None"
| "fulfilled (Reconcile_Recovery ra i) v v' \<longleftrightarrow> v' = v"
| "fulfilled (Recover ra i refreshInput) v v' \<longleftrightarrow> lv_holder v' = None"

lemma locked_step:
  assumes "under_operation_lock io s m disk = (r, disk')"
    and "\<And>d r d'. m d = (r, d') \<Longrightarrow> lease_step alive (view_of env s d) (view_of env s d') \<and> ((\<exists>x. r = Inr x) \<longrightarrow> P (view_of env s d'))"
  shows "lease_step alive (view_of env s disk) (view_of env s disk') \<and> ((\<exists>x. r = Inr x) \<longrightarrow> P (view_of env s disk'))"
  using assms(1)
proof (cases rule: under_operation_lock_view [where env = env])
  case (ran r1 disk1)
  from assms(2) [OF ran(1)] ran(2,3) show ?thesis by auto
qed (auto simp: lease_step.idle)

lemma checked_call:
  assumes "then_do (lift_result c1) (\<lambda>_. then_do (lift_result c2) (\<lambda>_. m)) disk = (r, disk')"
  shows "disk' = disk \<and> (\<exists>e. r = Inl e) \<or> m disk = (r, disk')"
  using assms by (auto simp: then_do_def split: sum.splits)

lemma recover_call:
  assumes "recoverPreSelectionUploadLease env ra io refreshInput i disk = (r, disk')"
  shows "disk' = disk \<and> (\<exists>e. r = Inl e)
    \<or> (\<exists>archive. recovery_archive i = Inr archive
        \<and> under_operation_lock io (vi_statePath i) (recover_under_lock env ra io refreshInput i archive) disk = (r, disk'))"
  using assms by (auto simp: recoverPreSelectionUploadLease_def then_do_def and_then_eq_Inr split: sum.splits)

lemma lease_run_simulates:
  assumes "lease_run env io s op disk = (ok, disk')" and "reads_back env" and "production_op s op"
  shows "lease_step (owner_alive env) (view_of env s disk) (view_of env s disk')
    \<and> (ok \<longrightarrow> fulfilled op (view_of env s disk) (view_of env s disk'))"
proof (cases op)
  case (Acquire i)
  obtain r d where run: "acquireUploadLease env io s i disk = (r, d)" by (cases "acquireUploadLease env io s i disk")
  with assms(1) Acquire have "disk' = d" "ok \<longleftrightarrow> returns r" by auto
  with acquire_view [OF run assms(2)] Acquire show ?thesis
    by (auto simp: returns_iff view_of_def holder_def intro: lease_step.idle
        intro!: lease_step.take [where v = "view_of env s disk", unfolded view_of_def, simplified])
next
  case (Reconcile i)
  with assms(1) show ?thesis by (simp add: lease_step.idle)
next
  case (Apply_Outcome i ack h)
  obtain r d where run: "applyUploadReconciliation env io s i ack h disk = (r, d)"
    by (cases "applyUploadReconciliation env io s i ack h disk")
  with assms(1) Apply_Outcome have fin: "disk' = d" "ok \<longleftrightarrow> returns r" by auto
  have "lease_step (owner_alive env) (view_of env s disk) (view_of env s d) \<and> ((\<exists>x. r = Inr x) \<longrightarrow> closed (view_of env s d))"
    using checked_call [OF run [unfolded applyUploadReconciliation_def]]
  proof
    assume "under_operation_lock io s (apply_under_lock env io s i h) disk = (r, d)"
    then show ?thesis by (rule locked_step) (rule apply_view [OF _ assms(2)])
  qed (auto simp: lease_step.idle)
  with fin Apply_Outcome show ?thesis by (auto simp: returns_iff)
next
  case (Release i ack h)
  obtain r d where run: "releaseUploadLease env io s i ack h disk = (r, d)"
    by (cases "releaseUploadLease env io s i ack h disk")
  with assms(1) Release have fin: "disk' = d" "ok \<longleftrightarrow> returns r" by auto
  have "lease_step (owner_alive env) (view_of env s disk) (view_of env s d)
      \<and> ((\<exists>x. r = Inr x) \<longrightarrow> lv_holder (view_of env s d) = None)"
    using checked_call [OF run [unfolded releaseUploadLease_def]]
  proof
    assume "under_operation_lock io s (release_under_lock env io s i h) disk = (r, d)"
    then show ?thesis by (rule locked_step) (rule release_view)
  qed (auto simp: lease_step.idle)
  with fin Release show ?thesis by (auto simp: returns_iff)
next
  case (Reconcile_Recovery ra i)
  with assms(1) show ?thesis by (simp add: lease_step.idle)
next
  case (Recover ra j refreshInput)
  let ?i = "j\<lparr>vi_statePath := s\<rparr>"
  obtain r d where run: "recoverPreSelectionUploadLease env ra io refreshInput ?i disk = (r, d)"
    by (cases "recoverPreSelectionUploadLease env ra io refreshInput ?i disk")
  with assms(1) Recover have fin: "disk' = d" "ok \<longleftrightarrow> returns r" by auto
  have plain: "plain_adapters ra (vi_statePath ?i)" using assms(3) Recover by simp
  have "lease_step (owner_alive env) (view_of env s disk) (view_of env s d)
      \<and> ((\<exists>x. r = Inr x) \<longrightarrow> lv_holder (view_of env s d) = None)"
    using recover_call [OF run]
  proof (elim disjE exE conjE)
    fix archive
    assume archive: "recovery_archive ?i = Inr archive"
      and "under_operation_lock io (vi_statePath ?i) (recover_under_lock env ra io refreshInput ?i archive) disk = (r, d)"
    then have locked: "under_operation_lock io s (recover_under_lock env ra io refreshInput ?i archive) disk = (r, d)"
      by simp
    have place: "is_archive (vi_statePath ?i) p" if "archive = Some p" for p
      using archive that recovery_archive_is_archive by blast
    from locked show ?thesis
    proof (rule locked_step)
      fix d1 r1 d2
      assume "recover_under_lock env ra io refreshInput ?i archive d1 = (r1, d2)"
      from recover_view [OF this plain place]
      show "lease_step (owner_alive env) (view_of env s d1) (view_of env s d2)
          \<and> ((\<exists>x. r1 = Inr x) \<longrightarrow> lv_holder (view_of env s d2) = None)" by simp
    qed
  qed (auto simp: lease_step.idle)
  with fin Recover show ?thesis by (auto simp: returns_iff)
qed

section \<open>Runs\<close>

text \<open>Between the calls the upload itself writes the state file and the evidence files.\<close>

datatype 'b lease_event =
    Called "'b lease_env" "'b lease_io" "'b lease_op"
  | State_Written "'b node option"
  | Evidence_Written string "'b option"

fun lease_event_run :: "path \<Rightarrow> 'b lease_event \<Rightarrow> 'b disk \<Rightarrow> 'b disk" where
  "lease_event_run s (Called env io op) disk = snd (lease_run env io s op disk)"
| "lease_event_run s (State_Written n) disk = disk(s := n)"
| "lease_event_run s (Evidence_Written name b) disk = set_file_in (lease_directory s) name b disk"

fun lease_events_run :: "path \<Rightarrow> 'b lease_event list \<Rightarrow> 'b disk \<Rightarrow> 'b disk" where
  "lease_events_run s [] disk = disk"
| "lease_events_run s (e # es) disk = lease_events_run s es (lease_event_run s e disk)"

text \<open>The calls read and print alike; evidence is never written over the lease.\<close>

fun regular :: "'b lease_env \<Rightarrow> path \<Rightarrow> 'b lease_event \<Rightarrow> bool" where
  "regular env s (Called env' io op) \<longleftrightarrow>
     ue_parse env' = ue_parse env \<and> reads_back env' \<and> production_op s op"
| "regular env s (State_Written n) \<longleftrightarrow> True"
| "regular env s (Evidence_Written name b) \<longleftrightarrow> name \<noteq> ''lease.json''"

text \<open>Whether the owner of a lease is seen alive by a call.\<close>

fun sees_alive :: "js \<Rightarrow> 'b lease_event \<Rightarrow> bool" where
  "sees_alive l (Called env io op) \<longleftrightarrow> owner_alive env l"
| "sees_alive l (State_Written n) \<longleftrightarrow> True"
| "sees_alive l (Evidence_Written name b) \<longleftrightarrow> True"

definition kept_lease :: "js \<Rightarrow> lease_view \<Rightarrow> bool" where
  "kept_lease l v \<longleftrightarrow> lv_holder v = Some (Some l) \<or> (\<exists>p. lv_archives v p = Some (Some l))"

lemma lease_step_keeps:
  assumes "lease_step alive v v'"
  shows "kept_lease l v \<Longrightarrow> kept_lease l v'"
    and "lv_archives v p = Some x \<Longrightarrow> lv_archives v' p = Some x"
    and "lv_holder v = Some (Some l) \<Longrightarrow> alive l \<Longrightarrow> lv_holder v' = Some (Some l)"
  using assms by (auto simp: kept_lease_def elim!: lease_stepE) (metis option.distinct(1))+

lemma view_of_parse: "ue_parse env' = ue_parse env \<Longrightarrow> view_of env' s disk = view_of env s disk"
proof -
  assume "ue_parse env' = ue_parse env"
  moreover from this have "holder env' = holder env"
    by (auto simp: fun_eq_iff holder_def lease_document_def split: option.split)
  moreover from calculation(1) have "stored_statuses env' s disk = stored_statuses env s disk"
    by (simp add: stored_statuses_def parse_file_def)
  ultimately show ?thesis unfolding view_of_def by metis
qed

lemma lease_event_keeps:
  assumes "regular env s e"
  shows "kept_lease l (view_of env s disk) \<Longrightarrow> kept_lease l (view_of env s (lease_event_run s e disk))"
    and "lv_archives (view_of env s disk) p = Some x \<Longrightarrow> lv_archives (view_of env s (lease_event_run s e disk)) p = Some x"
    and "lv_holder (view_of env s disk) = Some (Some l) \<Longrightarrow> sees_alive l e \<Longrightarrow>
      lv_holder (view_of env s (lease_event_run s e disk)) = Some (Some l)"
proof -
  have "\<exists>alive. (lease_step alive (view_of env s disk) (view_of env s (lease_event_run s e disk))
        \<and> (sees_alive l e \<longrightarrow> alive l))
      \<or> (lv_holder (view_of env s (lease_event_run s e disk)) = lv_holder (view_of env s disk)
        \<and> lv_archives (view_of env s (lease_event_run s e disk)) = lv_archives (view_of env s disk))"
  proof (cases e)
    case (Called env' io op)
    obtain ok d where run: "lease_run env' io s op disk = (ok, d)" by (cases "lease_run env' io s op disk")
    with lease_run_simulates [OF run] assms Called view_of_parse [of env' env s]
    have "lease_step (owner_alive env') (view_of env s disk) (view_of env s (lease_event_run s e disk))" by simp
    with Called show ?thesis by (intro exI [of _ "owner_alive env'"]) simp
  next
    case (State_Written n)
    then show ?thesis by (auto simp: view_of_def fun_eq_iff)
  next
    case (Evidence_Written name b)
    with assms same_lease_view [OF same_lease_set_file [of name "lease_directory s" disk b]] show ?thesis
      by (auto intro: lease_step.idle)
  qed
  then show "kept_lease l (view_of env s disk) \<Longrightarrow> kept_lease l (view_of env s (lease_event_run s e disk))"
    and "lv_archives (view_of env s disk) p = Some x \<Longrightarrow> lv_archives (view_of env s (lease_event_run s e disk)) p = Some x"
    and "lv_holder (view_of env s disk) = Some (Some l) \<Longrightarrow> sees_alive l e \<Longrightarrow>
      lv_holder (view_of env s (lease_event_run s e disk)) = Some (Some l)"
    by (auto simp: kept_lease_def dest: lease_step_keeps [unfolded kept_lease_def])
qed

lemma lease_events_keep:
  assumes "\<forall>e\<in>set es. regular env s e"
  shows "kept_lease l (view_of env s disk) \<Longrightarrow> kept_lease l (view_of env s (lease_events_run s es disk))"
    and "lv_archives (view_of env s disk) p = Some x \<Longrightarrow> lv_archives (view_of env s (lease_events_run s es disk)) p = Some x"
    and "lv_holder (view_of env s disk) = Some (Some l) \<Longrightarrow> \<forall>e\<in>set es. sees_alive l e \<Longrightarrow>
      lv_holder (view_of env s (lease_events_run s es disk)) = Some (Some l)"
proof -
  have "(kept_lease l (view_of env s disk) \<longrightarrow> kept_lease l (view_of env s (lease_events_run s es disk)))
    \<and> (lv_archives (view_of env s disk) p = Some x \<longrightarrow> lv_archives (view_of env s (lease_events_run s es disk)) p = Some x)
    \<and> (lv_holder (view_of env s disk) = Some (Some l) \<longrightarrow> (\<forall>e\<in>set es. sees_alive l e) \<longrightarrow>
      lv_holder (view_of env s (lease_events_run s es disk)) = Some (Some l))"
    using assms
  proof (induction es arbitrary: disk)
    case (Cons e es)
    from Cons.prems have reg: "regular env s e" by simp
    from Cons.IH [of "lease_event_run s e disk"] Cons.prems lease_event_keeps [OF reg, where disk = disk]
    show ?case by auto
  qed simp
  then show "kept_lease l (view_of env s disk) \<Longrightarrow> kept_lease l (view_of env s (lease_events_run s es disk))"
    and "lv_archives (view_of env s disk) p = Some x \<Longrightarrow> lv_archives (view_of env s (lease_events_run s es disk)) p = Some x"
    and "lv_holder (view_of env s disk) = Some (Some l) \<Longrightarrow> \<forall>e\<in>set es. sees_alive l e \<Longrightarrow>
      lv_holder (view_of env s (lease_events_run s es disk)) = Some (Some l)" by blast+
qed

section \<open>A receipt that was half written\<close>

text \<open>A temporary receipt that a failed write has left behind.\<close>

definition receipt_left :: "path \<Rightarrow> 'b disk \<Rightarrow> bool" where
  "receipt_left s disk \<longleftrightarrow>
     dir_files (disk (lease_directory s)) ''release.json.tmp'' \<noteq> None
     \<and> dir_files (disk (lease_directory s)) ''release.json'' = None"

lemma receipt_left_blocks:
  assumes "release_under_lock env io s i h disk = (r, disk')" and "receipt_left s disk"
  shows "(\<exists>e. r = Inl e) \<and> disk' = disk"
proof -
  let ?a = "lease_directory s"
  have ae: "existsPath ?a disk" using assms(2) by (cases "disk ?a") (auto simp: receipt_left_def existsPath_def)
  have stuck: "write_release_receipt env io ?a i h fresh disk = (throw ''atomic lease release receipt write failed'', disk)" for fresh
    using assms(2) by (auto simp: write_release_receipt_def readFileIn_def receipt_left_def writeNewFileIn_def then_do_def)
  have "(\<exists>e. r = Inl e) \<and> disk' = disk"
    if "release_fresh env io s i h archive True fresh disk = (r, disk')" for archive fresh
    using that
    by (auto simp: release_fresh_def Let_def then_do_def mkdir_recursive_def may_fail_def give_def stuck
        split: sum.splits option.splits)
  with assms(1) ae show ?thesis
    by (auto simp: release_under_lock_def Let_def stale_def split: if_splits reconciliation.splits)
qed

lemma release_never_recovers:
  assumes "releaseUploadLease env io s i ack h disk = (r, disk')" and "receipt_left s disk"
  shows "(\<exists>e. r = Inl e) \<and> receipt_left s disk'"
  using checked_call [OF assms(1) [unfolded releaseUploadLease_def]]
proof
  assume locked: "under_operation_lock io s (release_under_lock env io s i h) disk = (r, disk')"
  have left: "receipt_left s (disk(operationLockPath s := n)) \<longleftrightarrow> receipt_left s disk" for n
    by (simp add: receipt_left_def)
  from locked show ?thesis
    using assms(2)
    by (auto simp: under_operation_lock_def then_do_def acquireOperationLock_def mkdir_exclusive_def mkdir_def
        may_fail_def with_lock_removed_def left split: sum.splits prod.splits option.splits if_splits
        dest!: receipt_left_blocks)
qed (use assms(2) in simp)

end
