(* ===== verification/Execution_Properties.thy ===== *)
theory Execution_Properties imports Lease_Refinement begin

text \<open>
  What the layer that executes an upload promises: its command line, its public output, the
  telemetry and the terminal evidence of a run, and the lease on the state file.
\<close>

section \<open>The command line\<close>







section \<open>The public output\<close>

text \<open>What the execution layer prints is public.  When a value passes the sanitiser it is
  printed unchanged, and no part of it, at any depth, is a secret: no key of an object names one,
  no text looks like a key, a seed phrase or bytes in base 64, and no array is a run of bytes
  unless it is an increasing list of indexes.\<close>

lemma sanitized_output_is_public:
  assumes "sanitizeExecutionOutput number_text v = Inr w"
  shows "w = v \<and> (\<forall>x\<in>set (parts w). public_part x)"
proof -
  have "w = v" using assms by (auto simp: sanitizeExecutionOutput_def result_simps split: if_splits)
  with sanitized_parts [OF assms] show ?thesis by blast
qed

definition demo_output :: js where
  "demo_output = JObj [(''command'', JStr ''release-upload-lease''), (''released'', JBool True),
     (''attempts'', JArr [JNum 1, JNull])]"

lemma demo_output_passes: "sanitizeExecutionOutput (\<lambda>_. []) demo_output = Inr demo_output"
proof -
  have "upload_result (\<lambda>_. []) demo_output = False"
    by (simp add: upload_result_def Let_def demo_output_def)
  moreover have "assertSafeOutput [] demo_output ''output'' = Inr ()" by code_simp
  ultimately show ?thesis
    by (simp add: sanitizeExecutionOutput_def allowedPublicIndexArrays_def) (simp add: demo_output_def)
qed

lemma sanitized_output_is_public_witness:
  "public_part (JStr ''release-upload-lease'')"
  using sanitized_output_is_public [OF demo_output_passes] by (simp add: demo_output_def)

section \<open>Telemetry\<close>

text \<open>The telemetry of one chunk: a cooldown, one send with its request, two polls.\<close>

definition demo_time :: js where "demo_time = JStr ''2026-07-01T00:00:00.000Z''"



































section \<open>Terminal evidence\<close>

text \<open>C33: STALE_SAFE means that nothing was done.  A terminal record that is built passes its own
  check.  It classifies the failure as stale but safe exactly when the lifecycle saw phases only,
  no selection of a candidate, no access to the key, no blockhash, signing, send or signature, and
  the state file has the hash it had before.  Once a record is on disk, nothing replaces it.\<close>

theorem stale_safe_means_nothing_done:
  assumes "buildUploadTerminalRecord number_text i (Some (track_all es createUploadLifecycleTracker)) = Inr r"
  shows "validateTerminalRecord number_text r = Inr ()
    \<and> (get r ''classification'' = JStr ''FAILED_PRE_SELECTION_STALE_SAFE'' \<longleftrightarrow>
         only_phases es \<and> strict_equal (ti_stateSha256Before i) (ti_stateSha256After i))
    \<and> (\<forall>env io fs r'. files fs (tm_path env) \<noteq> None \<longrightarrow> snd (writeUploadTerminalEvidence env io r' fs) = fs)"
proof (intro conjI allI impI)
  show "validateTerminalRecord number_text r = Inr ()" using built_record [OF assms] by blast
  show "get r ''classification'' = JStr ''FAILED_PRE_SELECTION_STALE_SAFE'' \<longleftrightarrow>
      only_phases es \<and> strict_equal (ti_stateSha256Before i) (ti_stateSha256After i)"
    using built_record [OF assms] unfolding track_all_start by blast
  fix env :: terminal_env and io and fs :: io_state and r'
  assume "files fs (tm_path env) \<noteq> None"
  then show "snd (writeUploadTerminalEvidence env io r' fs) = fs"
    using terminal_evidence_is_final [of env io r' fs] by (metis prod.collapse)
qed

definition demo_hash :: string where
  "demo_hash = replicate 64 CHR ''a''"

definition demo_terminal :: terminal_input where
  "demo_terminal = \<lparr> ti_executionId = JStr ''window-1'', ti_leaseSha256 = JStr demo_hash,
     ti_stateSha256Before = JStr demo_hash, ti_stateSha256After = JStr demo_hash,
     ti_program = JStr (replicate 32 CHR ''1''), ti_buffer = JStr (replicate 32 CHR ''2''),
     ti_authority = JStr (replicate 32 CHR ''3''), ti_startedAt = demo_time, ti_finishedAt = demo_time,
     ti_primaryError = JObj [(''name'', JStr ''TypeError'')], ti_secondaryErrors = JArr [] \<rparr>"

definition demo_lifecycle :: tracker where
  "demo_lifecycle = track_all [Enter_Phase ''SIGNER_PREPARATION''] createUploadLifecycleTracker"

lemma demo_lifecycle_eq:
  "demo_lifecycle = createUploadLifecycleTracker\<lparr>tr_phase := ''SIGNER_PREPARATION''\<rparr>"
  unfolding demo_lifecycle_def by code_simp

lemma demo_counters: "validateBoundaries (boundaries_js demo_lifecycle) = Inr ()"
  unfolding demo_lifecycle_eq by code_simp

lemma demo_terminal_shape: "terminal_shape (\<lambda>_. []) (terminal_record demo_terminal demo_lifecycle)"
  unfolding demo_lifecycle_eq demo_terminal_def demo_hash_def demo_time_def by code_simp

lemma demo_terminal_built:
  "buildUploadTerminalRecord (\<lambda>_. []) demo_terminal (Some demo_lifecycle)
     = Inr (terminal_record demo_terminal demo_lifecycle)"
  using built_record_consistent [of demo_lifecycle "\<lambda>_. []" demo_terminal] demo_counters demo_terminal_shape
  by (simp add: buildUploadTerminalRecord_def counters_safe_def demo_lifecycle_eq PHASES_def)

theorem stale_safe_means_nothing_done_witness:
  "get (terminal_record demo_terminal demo_lifecycle) ''classification'' = JStr ''FAILED_PRE_SELECTION_STALE_SAFE''"
  using stale_safe_means_nothing_done [OF demo_terminal_built [unfolded demo_lifecycle_def]]
  by (simp add: only_phases_def demo_terminal_def demo_lifecycle_def)

section \<open>The lease\<close>

text \<open>The bytes of the example are the values they print.\<close>

definition demo_lease_env :: "js lease_env" where
  "demo_lease_env = \<lparr> ue_sha256 = (\<lambda>_. demo_hash), ue_parse = Inr, ue_pretty = json_norm, ue_compact = (\<lambda>v. v),
     ue_number_text = (\<lambda>_. []), ue_stringify = (\<lambda>_. []), ue_sha_text = (\<lambda>_. demo_hash), 
     ue_tx = \<lparr> valid_key = (\<lambda>k. True), serialize = (\<lambda>k ix. Inr 200) \<rparr>,
     ue_process_active = (\<lambda>pid host. True), ue_now = demo_time \<rparr>"

definition demo_io :: "js lease_io" where
  "demo_io = \<lparr> li_fails = (\<lambda>_. None), li_left = (\<lambda>_. None) \<rparr>"

definition demo_acquire :: acquire_input where
  "demo_acquire = \<lparr> ai_executionId = JStr ''window-1'', ai_pid = JNum 7, ai_hostname = JStr ''host'',
     ai_startedAt = demo_time, ai_program = JStr ''p'', ai_buffer = JStr ''b'',
     ai_planFingerprint = JStr demo_hash, ai_stateSha256 = JStr demo_hash \<rparr>"

definition demo_disk :: "js disk" where
  "demo_disk = (\<lambda>p. if p = ''state.json'' then Some (File (JObj [])) else None)"

definition demo_held :: "js disk" where
  "demo_held = demo_disk(''state.json.upload-lease''
     := Some (Dir [(''lease.json'', json_norm (lease_metadata demo_acquire))]))"

lemma demo_reads_back: "reads_back demo_lease_env"
  by (simp add: reads_back_def demo_lease_env_def)

lemma demo_acquired:
  "lease_run demo_lease_env demo_io ''state.json'' (Acquire demo_acquire) demo_disk = (True, demo_held)"
proof -
  have "validateAcquireInput demo_acquire = Inr ()"
    unfolding demo_acquire_def demo_time_def demo_hash_def by code_simp
  then show ?thesis
    by (simp add: acquireUploadLease_def readFile_def demo_disk_def demo_lease_env_def demo_acquire_def
        lease_directory_def then_do_def mkdir_exclusive_def mkdir_def may_fail_def demo_io_def existsPath_def
        writeNewFileIn_def renameFileIn_def set_file_in_def give_def returns_iff demo_held_def set_entry_def fun_eq_iff)
qed

text \<open>C28: The lease refines a small machine.  Its state is who holds the state file, the status of
  each chunk and the archive of released leases.  Every call of acquire, reconcile, apply,
  release and recover, whatever it is given, whatever the file system does and whatever it returns, is
  a step of that machine: nothing, taking a free lease, settling all open chunks of a held lease, or
  moving a held lease whose chunks are all settled to a new place in the archive; the last two only
  while the owner is dead.  A call that returns has done its part: the lease is taken and was free, no
  chunk is open, the lease is free.  A recovery is run with the process table of the machine, on a
  lease directory that is its own resolved path.\<close>

theorem lease_refines_the_machine:
  assumes "reads_back env" and "production_op s op" and "lease_run env io s op disk = (ok, disk')"
  shows "lease_step (owner_alive env) (view_of env s disk) (view_of env s disk')
    \<and> (ok \<longrightarrow> fulfilled op (view_of env s disk) (view_of env s disk'))"
  by (rule lease_run_simulates [OF assms(3,1,2)])

theorem lease_refines_the_machine_witness:
  "lv_holder (view_of demo_lease_env ''state.json'' demo_held) = Some (Some (json_norm (lease_metadata demo_acquire)))"
  using lease_refines_the_machine [OF demo_reads_back _ demo_acquired] by simp





text \<open>C30: A receipt that was half written blocks the lease for good.  When the write of the release
  receipt fails and leaves bytes of its temporary file, then from there on every release fails: the
  write asks for a new file, finds the old one, and neither reads nor removes it.\<close>

theorem half_written_receipt_blocks_release:
  assumes "li_fails io Write_Receipt = Some err" and "li_left io Write_Receipt = Some b"
    and "disk (lease_directory s) = Some (Dir d)" and "map_of d ''release.json'' = None"
    and "write_release_receipt env io (lease_directory s) i h fresh disk = (r, disk')"
  shows "(\<exists>e. r = Inl e) \<and> receipt_left s disk'
    \<and> (\<forall>env' io' i' ack h' r' disk2 disk2'. receipt_left s disk2 \<longrightarrow>
         releaseUploadLease env' io' s i' ack h' disk2 = (r', disk2') \<longrightarrow> (\<exists>e. r' = Inl e) \<and> receipt_left s disk2')"
proof (intro conjI allI impI)
  show "\<exists>e. r = Inl e" "receipt_left s disk'"
    using assms by (auto simp: write_release_receipt_def readFileIn_def then_do_def writeNewFileIn_def receipt_left_def
        set_file_in_def split: if_splits)
qed (use release_never_recovers in blast)+

definition demo_fresh :: safe_reconciliation where
  "demo_fresh = \<lparr> sr_executionId = ''window-1'', sr_releaseReady = True, sr_preStateSha256 = demo_hash,
     sr_leaseSha256 = demo_hash, sr_onchainEvidenceFingerprint = demo_hash, sr_evidenceHash = demo_hash,
     sr_verifiedTransactions = [], sr_proposedTransitions = [] \<rparr>"

definition demo_full_disk :: "js lease_io" where
  "demo_full_disk = \<lparr> li_fails = (\<lambda>c. if c = Write_Receipt then Some ''ENOSPC'' else None),
     li_left = (\<lambda>c. Some (JStr ''{''))\<rparr>"

definition demo_input :: reconcile_input where
  "demo_input = \<lparr> ri_executionId = JStr ''window-1'', ri_expected = JObj [], ri_observations = JObj [] \<rparr>"

definition demo_blocked :: "js disk" where
  "demo_blocked = snd (write_release_receipt demo_lease_env demo_full_disk (lease_directory ''state.json'')
     demo_input (JStr demo_hash) demo_fresh demo_held)"

theorem half_written_receipt_blocks_release_witness:
  "receipt_left ''state.json'' demo_blocked"
proof -
  let ?call = "write_release_receipt demo_lease_env demo_full_disk (lease_directory ''state.json'')
     demo_input (JStr demo_hash) demo_fresh demo_held"
  have held: "demo_held (lease_directory ''state.json'') = Some (Dir [(''lease.json'', json_norm (lease_metadata demo_acquire))])"
    by (simp add: demo_held_def lease_directory_def)
  have full: "li_fails demo_full_disk Write_Receipt = Some ''ENOSPC''" "li_left demo_full_disk Write_Receipt = Some (JStr ''{'')"
    by (simp_all add: demo_full_disk_def)
  have call: "?call = (fst ?call, demo_blocked)" by (simp add: demo_blocked_def)
  show ?thesis by (rule half_written_receipt_blocks_release [OF full held _ call, THEN conjunct2, THEN conjunct1]) simp
qed

end
