(* ===== verification/Command_Lines.thy ===== *)
theory Command_Lines imports Live_Deployment Deployment begin

text \<open>
  The two command-line parsers of \<open>scripts/devnet/upload-process-classifier.mjs\<close>: the one for
  Windows, where a process has one text and takes it apart itself, and the one for the output of
  \<open>ps\<close>.  A command line is written for Windows by \<open>quote_command\<close>: every argument in quotes,
  a quote escaped by a backslash, and the backslashes before a quote doubled.
\<close>

section \<open>Windows\<close>

abbreviation backslash :: char where
  "backslash \<equiv> CHR 0x5C"

abbreviation double_quote :: char where
  "double_quote \<equiv> CHR 0x22"

abbreviation single_quote :: char where
  "single_quote \<equiv> CHR 0x27"

text \<open>One round of the loop over an argument, at the character \<open>c\<close>: \<open>quoted\<close> and
  \<open>argument\<close> are its variables; the result is their next values and what is left of the input.\<close>

definition windows_step :: "bool \<Rightarrow> string \<Rightarrow> char \<Rightarrow> string \<Rightarrow> bool \<times> string \<times> string" where
  "windows_step quoted argument c cs =
     (if c = backslash then
        (let slashCount = length (takeWhile ((=) backslash) (c # cs)) in
         case dropWhile ((=) backslash) cs of
           [] \<Rightarrow> (quoted, argument @ replicate slashCount backslash, [])
         | d # ds \<Rightarrow>
             if d = double_quote then
               (if odd slashCount
                then (quoted, argument @ replicate (slashCount div 2) backslash @ [double_quote], ds)
                else (\<not> quoted, argument @ replicate (slashCount div 2) backslash, ds))
             else (quoted, argument @ replicate slashCount backslash, d # ds))
      else if c = double_quote then
        (case cs of
           d # ds \<Rightarrow> if quoted \<and> d = double_quote then (quoted, argument @ [double_quote], ds)
                      else (\<not> quoted, argument, cs)
         | [] \<Rightarrow> (\<not> quoted, argument, cs))
      else (quoted, argument @ [c], cs))"

lemma windows_step_shorter:
  assumes "windows_step quoted argument c cs = (q, a, r)"
  shows "length r \<le> length cs"
proof -
  obtain rest where rest: "dropWhile ((=) backslash) cs = rest" by blast
  then have "length rest \<le> length cs" by (metis length_dropWhile_le)
  with assms show ?thesis
    by (auto simp: windows_step_def Let_def rest split: if_splits list.splits)
qed

function windows_argument :: "bool \<Rightarrow> string \<Rightarrow> string \<Rightarrow> string \<times> string" where
  "windows_argument quoted argument [] = (argument, [])"
| "windows_argument quoted argument (c # cs) =
     (if \<not> quoted \<and> is_space_char c then (argument, c # cs)
      else case windows_step quoted argument c cs of (q, a, r) \<Rightarrow> windows_argument q a r)"
  by pat_completeness auto
termination
proof (relation "measure (\<lambda>(_, _, s). length s)", goal_cases)
  case prems: 2
  then show ?case by (auto simp: le_imp_less_Suc dest!: windows_step_shorter split: prod.splits)
qed simp

lemma windows_argument_shorter:
  "windows_argument quoted argument s = (a, r) \<Longrightarrow> length r \<le> length s"
proof (induction quoted argument s arbitrary: a r rule: windows_argument.induct)
  case (2 quoted argument c cs)
  obtain q b t where step: "windows_step quoted argument c cs = (q, b, t)" by (metis prod_cases3)
  with 2 windows_step_shorter [OF step] show ?case by (fastforce split: if_splits)
qed simp

text \<open>The loop over the arguments; each starts at a character that is not white space.\<close>

function windows_arguments :: "string \<Rightarrow> string list" where
  "windows_arguments input =
     (case dropWhile is_space_char input of
        [] \<Rightarrow> []
      | c # cs \<Rightarrow>
          (case windows_argument False [] (c # cs) of (argument, after) \<Rightarrow>
             argument # windows_arguments (dropWhile is_space_char after)))"
  by pat_completeness auto

lemma windows_argument_consumes:
  assumes "dropWhile is_space_char input = c # cs"
    and "windows_argument False [] (c # cs) = (a, r)"
  shows "length r \<le> length cs"
proof -
  have c: "\<not> is_space_char c" using assms(1) hd_dropWhile [of is_space_char input] by simp
  obtain q b t where step: "windows_step False [] c cs = (q, b, t)" by (metis prod_cases3)
  with assms(2) c have "windows_argument q b t = (a, r)" by simp
  from windows_argument_shorter [OF this] windows_step_shorter [OF step] show ?thesis by simp
qed

termination windows_arguments
proof (relation "measure length", goal_cases)
  case (2 input c cs argument after)
  have "length (dropWhile is_space_char after) \<le> length after" by (rule length_dropWhile_le)
  also have "length after \<le> length cs"
    using 2 by (intro windows_argument_consumes [of input c cs argument after]) auto
  also have "length cs < length input"
    using 2(1) length_dropWhile_le [of is_space_char input] by simp
  finally show ?case by simp
qed simp

declare windows_arguments.simps [simp del]

definition parseWindowsCommandLine :: "string \<Rightarrow> string list" where
  "parseWindowsCommandLine commandLine = windows_arguments commandLine"

text \<open>The same line, written: \<open>n\<close> counts the backslashes that are not written yet.\<close>

fun quote_text :: "nat \<Rightarrow> string \<Rightarrow> string" where
  "quote_text n [] = replicate (2 * n) backslash @ [double_quote]"
| "quote_text n (c # cs) =
     (if c = backslash then quote_text (Suc n) cs
      else if c = double_quote then replicate (Suc (2 * n)) backslash @ double_quote # quote_text 0 cs
      else replicate n backslash @ c # quote_text 0 cs)"

definition quote_argument :: "string \<Rightarrow> string" where
  "quote_argument s = double_quote # quote_text 0 s"

fun quote_command :: "string list \<Rightarrow> string" where
  "quote_command [] = []"
| "quote_command [a] = quote_argument a"
| "quote_command (a # as) = quote_argument a @ CHR '' '' # quote_command as"

lemma takeWhile_replicate: "c \<noteq> b \<Longrightarrow> takeWhile ((=) b) (replicate n b @ c # cs) = replicate n b"
  by (induction n) auto

lemma dropWhile_replicate: "c \<noteq> b \<Longrightarrow> dropWhile ((=) b) (replicate n b @ c # cs) = c # cs"
  by (induction n) auto

lemma slashes_step:
  assumes "c \<noteq> backslash"
  shows "windows_step q a backslash (replicate n backslash @ c # cs) =
    (if c = double_quote
     then (if even n then (q, a @ replicate (Suc n div 2) backslash @ [double_quote], cs)
           else (\<not> q, a @ replicate (Suc n div 2) backslash, cs))
     else (q, a @ replicate (Suc n) backslash, c # cs))"
  using assms by (simp add: windows_step_def Let_def takeWhile_replicate dropWhile_replicate)

text \<open>What follows the closing quote of an argument.\<close>

definition ends_argument :: "string \<Rightarrow> bool" where
  "ends_argument t \<longleftrightarrow> t = [] \<or> is_space_char (hd t)"

lemma ends_argument_stops: "ends_argument t \<Longrightarrow> windows_argument False a t = (a, t)"
  by (cases t) (auto simp: ends_argument_def)

lemma ends_argument_no_quote: "ends_argument (double_quote # t) \<longleftrightarrow> False"
  by (simp add: ends_argument_def is_space_char_def)

lemma read_plain:
  assumes "c \<noteq> backslash" "c \<noteq> double_quote"
  shows "windows_argument True a (replicate n backslash @ c # cs)
    = windows_argument True (a @ replicate n backslash @ [c]) cs"
proof (cases n)
  case 0
  with assms show ?thesis by (simp add: windows_step_def)
next
  case (Suc m)
  have plain: "windows_step True b c cs = (True, b @ [c], cs)" for b
    using assms by (simp add: windows_step_def)
  show ?thesis using assms by (simp add: Suc slashes_step plain replicate_append_same)
qed

lemma read_escaped:
  "windows_argument True a (replicate (Suc (2 * n)) backslash @ double_quote # cs)
    = windows_argument True (a @ replicate n backslash @ [double_quote]) cs"
  by (simp add: slashes_step)

lemma read_closing:
  assumes "ends_argument t"
  shows "windows_argument True a (replicate (2 * n) backslash @ double_quote # t)
    = (a @ replicate n backslash, t)"
proof (cases n)
  case 0
  have "t = [] \<or> hd t \<noteq> double_quote"
    using assms ends_argument_no_quote by (cases t) auto
  then have "windows_step True a double_quote t = (False, a, t)"
    by (auto simp: windows_step_def split: list.splits)
  with 0 assms show ?thesis by (simp add: ends_argument_stops)
next
  case (Suc m)
  then have "replicate (2 * n) backslash = backslash # replicate (Suc (2 * m)) backslash" by simp
  then show ?thesis using assms by (simp add: slashes_step Suc ends_argument_stops del: replicate.simps)
qed

lemma read_quoted:
  assumes "ends_argument t"
  shows "windows_argument True a (quote_text n s @ t) = (a @ replicate n backslash @ s, t)"
proof (induction n s arbitrary: a rule: quote_text.induct)
  case (1 n)
  then show ?case using assms by (simp add: read_closing)
next
  case (2 n c cs)
  consider "c = backslash" | "c = double_quote" | "c \<noteq> backslash" "c \<noteq> double_quote" by blast
  then show ?case
  proof cases
    case 1
    with 2 show ?thesis by (simp add: replicate_append_same)
  next
    case 2
    then show ?thesis
      using "2.IH"(2) by (simp add: read_escaped [simplified])
  next
    case 3
    then show ?thesis using "2.IH"(3) by (simp add: read_plain)
  qed
qed

lemma read_argument:
  assumes "ends_argument t"
  shows "windows_argument False [] (quote_argument s @ t) = (s, t)"
proof -
  have "windows_step False [] double_quote (quote_text 0 s @ t) = (True, [], quote_text 0 s @ t)"
    by (simp add: windows_step_def split: list.split)
  with read_quoted [OF assms, of "[]" 0 s] show ?thesis
    by (simp add: quote_argument_def is_space_char_def)
qed

lemma quote_command_eq: "as \<noteq> [] \<Longrightarrow> quote_command (a # as) = quote_argument a @ CHR '' '' # quote_command as"
  by (cases as) auto

lemma windows_arguments_quoted:
  assumes "ends_argument t"
  shows "windows_arguments (quote_argument s @ t) = s # windows_arguments (dropWhile is_space_char t)"
  using read_argument [OF assms, of s]
  by (subst windows_arguments.simps) (simp add: quote_argument_def is_space_char_def)

lemma quoted_commands_are_read: "parseWindowsCommandLine (quote_command as) = as"
  unfolding parseWindowsCommandLine_def
proof (induction as rule: quote_command.induct)
  case 1
  then show ?case by (simp add: windows_arguments.simps)
next
  case (2 a)
  have "windows_arguments [] = []" by (simp add: windows_arguments.simps)
  with windows_arguments_quoted [of "[]" a] show ?case by (simp add: ends_argument_def)
next
  case (3 a b as)
  have blank: "dropWhile is_space_char (quote_command (b # as)) = quote_command (b # as)"
    by (cases as) (simp_all add: quote_argument_def is_space_char_def)
  have "ends_argument (CHR '' '' # quote_command (b # as))"
    by (simp add: ends_argument_def is_space_char_def)
  from windows_arguments_quoted [OF this, of a] 3 blank show ?case
    by (simp add: is_space_char_def)
qed

section \<open>The output of ps\<close>

text \<open>The loop over the characters: \<open>current\<close>, \<open>quote\<close> and \<open>escaped\<close> are its variables.\<close>

fun posix_words :: "string \<Rightarrow> char option \<Rightarrow> bool \<Rightarrow> string \<Rightarrow> string list" where
  "posix_words current quote escaped [] =
     (let last_word = current @ (if escaped then [backslash] else []) in
      if last_word = [] then [] else [last_word])"
| "posix_words current quote escaped (c # cs) =
     (if escaped then posix_words (current @ [c]) quote False cs
      else if c = backslash \<and> quote \<noteq> Some single_quote then posix_words current quote True cs
      else if quote = Some c then posix_words current None False cs
      else if quote = None \<and> (c = single_quote \<or> c = double_quote)
      then posix_words current (Some c) False cs
      else if quote = None \<and> is_space_char c
      then (if current = [] then posix_words [] quote False cs
            else current # posix_words [] quote False cs)
      else posix_words (current @ [c]) quote False cs)"

definition trimmed :: "string \<Rightarrow> string" where
  "trimmed s = rev (dropWhile is_space_char (rev (dropWhile is_space_char s)))"

definition parsePosixCommandLine :: "string \<Rightarrow> string list" where
  "parsePosixCommandLine commandLine = posix_words [] None False (trimmed commandLine)"

text \<open>One line of \<open>ps\<close>, the pattern \<open>/^\s*(\d+)\s+(\d+)\s+(\S+)\s+(.*)$/\<close>; the dot does not
  match the end of a line.\<close>

definition parse_process_line :: "string \<Rightarrow> js option" where
  "parse_process_line line =
     (let a = dropWhile is_space_char line;
          pid = takeWhile is_digit_char a; b = dropWhile is_digit_char a;
          b' = dropWhile is_space_char b;
          parent = takeWhile is_digit_char b'; c = dropWhile is_digit_char b';
          c' = dropWhile is_space_char c;
          name = takeWhile (\<lambda>x. \<not> is_space_char x) c'; d = dropWhile (\<lambda>x. \<not> is_space_char x) c';
          args = dropWhile is_space_char d in
      if pid \<noteq> [] \<and> b \<noteq> b' \<and> parent \<noteq> [] \<and> c \<noteq> c' \<and> name \<noteq> [] \<and> d \<noteq> []
         \<and> CHR 0x0A \<notin> set args \<and> CHR 0x0D \<notin> set args
      then Some (JObj [(''pid'', JNat (digits_value pid)), (''parentPid'', JNat (digits_value parent)),
             (''name'', JStr name), (''commandLine'', JStr args)])
      else None)"

text \<open>\<open>split(/\r?\n/)\<close>: of the pieces between line feeds every one but the last loses a
  carriage return at its end.\<close>

definition without_return :: "string \<Rightarrow> string" where
  "without_return s = (if s \<noteq> [] \<and> last s = CHR 0x0D then butlast s else s)"

fun split_lines :: "string list \<Rightarrow> string list" where
  "split_lines [] = []"
| "split_lines [s] = [s]"
| "split_lines (s # ss) = without_return s # split_lines ss"

definition parsePosixProcessRecords :: "string \<Rightarrow> js list" where
  "parsePosixProcessRecords stdout =
     List.map_filter parse_process_line (split_lines (split_on CHR 0x0A stdout))"

text \<open>Arguments that print as they are: \<open>ps\<close> prints the arguments between blanks, unquoted.\<close>

definition plain_word :: "string \<Rightarrow> bool" where
  "plain_word w \<longleftrightarrow> w \<noteq> []
     \<and> list_all (\<lambda>c. \<not> is_space_char c \<and> c \<noteq> backslash \<and> c \<noteq> single_quote \<and> c \<noteq> double_quote) w"

fun blank_separated :: "string list \<Rightarrow> string" where
  "blank_separated [] = []"
| "blank_separated [w] = w"
| "blank_separated (w # ws) = w @ CHR '' '' # blank_separated ws"

lemma posix_words_plain:
  "list_all (\<lambda>c. \<not> is_space_char c \<and> c \<noteq> backslash \<and> c \<noteq> single_quote \<and> c \<noteq> double_quote) w \<Longrightarrow>
   posix_words a None False (w @ t) = posix_words (a @ w) None False t"
  by (induction w arbitrary: a) auto

lemma plain_words_are_split:
  "list_all plain_word ws \<Longrightarrow> posix_words [] None False (blank_separated ws) = ws"
proof (induction ws rule: blank_separated.induct)
  case (2 w)
  then show ?case using posix_words_plain [of w "[]" "[]"] by (simp add: plain_word_def)
next
  case (3 w v vs)
  then show ?case
    using posix_words_plain [of w "[]" "CHR '' '' # blank_separated (v # vs)"]
    by (simp add: plain_word_def is_space_char_def)
qed simp

lemma blank_separated_ends:
  assumes "list_all plain_word ws" and "ws \<noteq> []"
  shows "blank_separated ws \<noteq> [] \<and> \<not> is_space_char (hd (blank_separated ws))
    \<and> \<not> is_space_char (last (blank_separated ws))"
  using assms
proof (induction ws rule: blank_separated.induct)
  case (2 w)
  then show ?case by (cases w rule: rev_cases) (auto simp: plain_word_def list_all_iff hd_append)
next
  case (3 w v vs)
  then show ?case by (auto simp: plain_word_def list_all_iff hd_append)
qed simp

lemma dropWhile_hd: "s \<noteq> [] \<Longrightarrow> \<not> P (hd s) \<Longrightarrow> dropWhile P s = s"
  by (cases s) auto

lemma trimmed_plain:
  assumes "list_all plain_word ws"
  shows "trimmed (blank_separated ws) = blank_separated ws"
proof (cases "ws = []")
  case False
  from blank_separated_ends [OF assms False] show ?thesis
    by (simp add: trimmed_def dropWhile_hd hd_rev)
qed (simp add: trimmed_def)

lemma plain_commands_are_read:
  "list_all plain_word ws \<Longrightarrow> parsePosixCommandLine (blank_separated ws) = ws"
  by (simp add: parsePosixCommandLine_def trimmed_plain plain_words_are_split)

end
