(* ===== verification/Process_Classifier.thy ===== *)
theory Process_Classifier imports Command_Lines Execution_Contract begin

text \<open>
  \<open>scripts/devnet/upload-process-classifier.mjs\<close>: which processes of the machine run an upload
  of the same program, buffer and state file.

  The process table comes from a command that the parameter \<open>run\<close> stands for.  \<open>path.posix\<close> is
  modelled; \<open>path.win32\<close>, the text of a number, the number of a text, \<open>JSON.parse\<close>,
  \<open>JSON.stringify\<close> and \<open>localeCompare\<close> are parameters.
\<close>

section \<open>Paths\<close>

record path_api =
  pa_absolute :: "string \<Rightarrow> bool"
  pa_normalize :: "string \<Rightarrow> string"
  pa_resolve :: "string \<Rightarrow> string \<Rightarrow> string"

text \<open>The segments of a path without the dots, the last one first; \<open>dots\<close> keeps the dots that
  lead above the start.\<close>

fun normalize_segments :: "bool \<Rightarrow> string list \<Rightarrow> string list \<Rightarrow> string list" where
  "normalize_segments dots acc [] = rev acc"
| "normalize_segments dots acc (s # ss) =
     (if s = [] \<or> s = ''.'' then normalize_segments dots acc ss
      else if s = ''..'' then
        (case acc of
           a # rest \<Rightarrow> if a \<noteq> ''..'' then normalize_segments dots rest ss
                       else normalize_segments dots (if dots then s # acc else acc) ss
         | [] \<Rightarrow> normalize_segments dots (if dots then [s] else []) ss)
      else normalize_segments dots (s # acc) ss)"

fun with_slashes :: "string list \<Rightarrow> string" where
  "with_slashes [] = []"
| "with_slashes [s] = s"
| "with_slashes (s # ss) = s @ CHR ''/'' # with_slashes ss"

definition posix_absolute :: "string \<Rightarrow> bool" where
  "posix_absolute s \<longleftrightarrow> s \<noteq> [] \<and> hd s = CHR ''/''"

definition posix_normalize :: "string \<Rightarrow> string" where
  "posix_normalize s =
     (if s = [] then ''.''
      else
        let absolute = posix_absolute s; trailing = (last s = CHR ''/'');
            p = with_slashes (normalize_segments (\<not> absolute) [] (split_on CHR ''/'' s)) in
        if p = [] then (if absolute then ''/'' else if trailing then ''./'' else ''.'')
        else (if absolute then ''/'' else []) @ p @ (if trailing then ''/'' else []))"

text \<open>\<open>resolve(base, value)\<close>: the value, before it the base, before it the working directory,
  until the path is absolute.\<close>

definition posix_resolve :: "string \<Rightarrow> string \<Rightarrow> string \<Rightarrow> string" where
  "posix_resolve cwd base value =
     (let p = (if posix_absolute value then value
               else let q = (if base = [] then value else base @ CHR ''/'' # value) in
                 if posix_absolute base then q else cwd @ CHR ''/'' # q);
          absolute = posix_absolute p;
          r = with_slashes (normalize_segments (\<not> absolute) [] (split_on CHR ''/'' p)) in
      if absolute then CHR ''/'' # r else if r = [] then ''.'' else r)"

definition posix_paths :: "string \<Rightarrow> path_api" where
  "posix_paths cwd = \<lparr> pa_absolute = posix_absolute, pa_normalize = posix_normalize,
     pa_resolve = posix_resolve cwd \<rparr>"

record process_env =
  pe_platform :: string
  pe_cwd :: string
  pe_win32 :: path_api
  pe_number_text :: "rat \<Rightarrow> string"
  pe_text_number :: "string \<Rightarrow> js"
  pe_stringify :: "js \<Rightarrow> string"
  pe_parse_json :: "string \<Rightarrow> js result"
  pe_locale_compare :: "string \<Rightarrow> string \<Rightarrow> int"

definition pathApi :: "process_env \<Rightarrow> string \<Rightarrow> path_api" where
  "pathApi env platform = (if platform = ''win32'' then pe_win32 env else posix_paths (pe_cwd env))"

definition normalizePath :: "process_env \<Rightarrow> string \<Rightarrow> string \<Rightarrow> js \<Rightarrow> string option" where
  "normalizePath env platform repoRoot value =
     (case value of
        JStr s \<Rightarrow>
          if s = [] then None
          else
            let paths = pathApi env platform;
                n = pa_normalize paths (if pa_absolute paths s then s else pa_resolve paths repoRoot s) in
            Some (if platform = ''win32'' then to_lower n else n)
      | _ \<Rightarrow> None)"

section \<open>Values\<close>

text \<open>\<open>Number(v)\<close>.\<close>

fun js_number :: "process_env \<Rightarrow> js \<Rightarrow> js" where
  "js_number env Undefined = JNonFinite"
| "js_number env JNull = JNum 0"
| "js_number env (JBool b) = JNum (if b then 1 else 0)"
| "js_number env (JNum r) = JNum r"
| "js_number env JNonFinite = JNonFinite"
| "js_number env (JStr s) = pe_text_number env s"
| "js_number env (JArr vs) = pe_text_number env (js_text (pe_number_text env) (JArr vs))"
| "js_number env (JObj kvs) = JNonFinite"

definition asPositivePid :: "process_env \<Rightarrow> js \<Rightarrow> nat option" where
  "asPositivePid env value =
     (let pid = js_number env value in
      if is_safe_integer pid \<and> 0 < num_of pid then Some (nat \<lfloor>num_of pid\<rfloor>) else None)"

definition executableBasename :: "process_env \<Rightarrow> js \<Rightarrow> string" where
  "executableBasename env value =
     (let s = js_text (pe_number_text env) (coalesce value (JStr []));
          normalized = map (\<lambda>c. if c = backslash then CHR ''/'' else c) s in
      to_lower (rev (takeWhile (\<lambda>c. c \<noteq> CHR ''/'') (rev normalized))))"

definition NODE_EXECUTABLES :: "string list" where
  "NODE_EXECUTABLES = [''node'', ''node.exe'']"

definition MAX_DIAGNOSTICS :: nat where
  "MAX_DIAGNOSTICS = 16"

text \<open>\<open>argv[i]\<close>.\<close>

definition arg_at :: "string list \<Rightarrow> nat \<Rightarrow> js" where
  "arg_at argv i = (if i < length argv then JStr (argv ! i) else Undefined)"

section \<open>Records of processes\<close>

record process_record =
  rp_pid :: "nat option"
  rp_parent :: "nat option"
  rp_name :: js
  rp_executable :: js
  rp_command :: js
  rp_argv :: "string list option"
  rp_creation :: js

definition either_field :: "js \<Rightarrow> string \<Rightarrow> string \<Rightarrow> js" where
  "either_field v k k' = coalesce (get v k) (get v k')"

definition normalizedRecord :: "process_env \<Rightarrow> js \<Rightarrow> process_record result" where
  "normalizedRecord env v =
     (if nullish v then Inl TypeError
      else Inr \<lparr> rp_pid = asPositivePid env (either_field v ''pid'' ''ProcessId''),
        rp_parent = asPositivePid env (either_field v ''parentPid'' ''ParentProcessId''),
        rp_name = coalesce (either_field v ''name'' ''Name'') JNull,
        rp_executable = coalesce (either_field v ''executablePath'' ''ExecutablePath'') JNull,
        rp_command = coalesce (either_field v ''commandLine'' ''CommandLine'') JNull,
        rp_argv = (case get v ''argv'' of
            JArr vs \<Rightarrow> Some (map (js_text (pe_number_text env)) vs) | _ \<Rightarrow> None),
        rp_creation = coalesce (either_field v ''creationTime'' ''CreationDate'') JNull \<rparr>)"

definition pid_js :: "nat option \<Rightarrow> js" where
  "pid_js p = (case p of Some n \<Rightarrow> JNat n | None \<Rightarrow> JNull)"

definition argv_js :: "string list option \<Rightarrow> js" where
  "argv_js argv = (case argv of Some as \<Rightarrow> JArr (map JStr as) | None \<Rightarrow> JNull)"

text \<open>The normalised record as the object it is.\<close>

definition record_js :: "process_record \<Rightarrow> js" where
  "record_js r = JObj [(''pid'', pid_js (rp_pid r)), (''parentPid'', pid_js (rp_parent r)),
     (''name'', rp_name r), (''executablePath'', rp_executable r), (''commandLine'', rp_command r),
     (''argv'', argv_js (rp_argv r)), (''creationTime'', rp_creation r)]"

definition argvForRecord :: "string \<Rightarrow> process_record \<Rightarrow> string list option" where
  "argvForRecord platform r =
     (case rp_argv r of
        Some argv \<Rightarrow> Some argv
      | None \<Rightarrow>
          (case rp_command r of
             JStr s \<Rightarrow>
               if trimmed s = [] then None
               else Some (if platform = ''win32'' then parseWindowsCommandLine s
                          else parsePosixCommandLine s)
           | _ \<Rightarrow> None))"

definition first_argument :: "string list option \<Rightarrow> js" where
  "first_argument argv = (case argv of Some as \<Rightarrow> arg_at as 0 | None \<Rightarrow> Undefined)"

definition isNodeExecutable :: "process_env \<Rightarrow> process_record \<Rightarrow> string list option \<Rightarrow> bool" where
  "isNodeExecutable env r argv =
     list_ex (\<lambda>v. executableBasename env v \<in> set NODE_EXECUTABLES)
       [rp_executable r, rp_name r, first_argument argv]"

section \<open>The shape of an upload\<close>

datatype process_role = OUTER_HOST | INNER_SUPERVISOR | UPLOADER

definition ROLE_ENTRYPOINTS :: "(process_role \<times> string) list" where
  "ROLE_ENTRYPOINTS =
     [(OUTER_HOST, ''scripts/devnet/upload-window-host.mjs''),
      (INNER_SUPERVISOR, ''scripts/devnet/upload-process-supervisor.mjs''),
      (UPLOADER, ''scripts/devnet/upload-buffer-cli.mjs'')]"

fun entrypoint :: "process_role \<Rightarrow> string" where
  "entrypoint role = the (map_of ROLE_ENTRYPOINTS role)"

record upload_context =
  cx_platform :: "string option"
  cx_repo_root :: string
  cx_current_pid :: js
  cx_state_path :: js
  cx_state_argument :: js
  cx_program :: js
  cx_buffer :: js

definition platform_of :: "process_env \<Rightarrow> upload_context \<Rightarrow> string" where
  "platform_of env cx = (case cx_platform cx of Some p \<Rightarrow> p | None \<Rightarrow> pe_platform env)"

definition context_path :: "process_env \<Rightarrow> upload_context \<Rightarrow> js \<Rightarrow> string option" where
  "context_path env cx = normalizePath env (platform_of env cx) (cx_repo_root cx)"

fun exactOptionValue :: "string list \<Rightarrow> string \<Rightarrow> js" where
  "exactOptionValue [] name = JNull"
| "exactOptionValue (a # as) name =
     (if a = name then (case as of v # _ \<Rightarrow> JStr v | [] \<Rightarrow> JNull) else exactOptionValue as name)"

definition matchesWorkflowIdentity :: "process_env \<Rightarrow> upload_context \<Rightarrow> string list \<Rightarrow> bool" where
  "matchesWorkflowIdentity env cx argv =
     (let program = exactOptionValue argv ''--program''; buffer = exactOptionValue argv ''--buffer'';
          state = exactOptionValue argv ''--state'' in
      strict_equal program (cx_program cx) \<and> strict_equal buffer (cx_buffer cx) \<and> state \<noteq> JNull
      \<and> (case context_path env cx state of
           None \<Rightarrow> False
         | Some normalizedState \<Rightarrow>
             normalizedState \<in> set (filter (\<lambda>p. p \<noteq> [])
               (List.map_filter (context_path env cx) [cx_state_path cx, cx_state_argument cx]))))"

definition roleForArgv :: "process_env \<Rightarrow> upload_context \<Rightarrow> string list \<Rightarrow> process_role option" where
  "roleForArgv env cx argv =
     (if length argv < 2 then None
      else map_option fst (find (\<lambda>(role, p). context_path env cx (JStr (argv ! 1)) = context_path env cx (JStr p))
        ROLE_ENTRYPOINTS))"

text \<open>\<open>argv[argv.indexOf("--") + i]\<close>.\<close>

definition after_separator :: "string list \<Rightarrow> nat \<Rightarrow> js" where
  "after_separator argv i = arg_at argv (length (takeWhile (\<lambda>a. a \<noteq> ''--'') argv) + i)"

definition hasProductionRoleShape ::
  "process_env \<Rightarrow> upload_context \<Rightarrow> process_role \<Rightarrow> string list \<Rightarrow> bool" where
  "hasProductionRoleShape env cx role argv \<longleftrightarrow>
     matchesWorkflowIdentity env cx argv
     \<and> (case role of
          UPLOADER \<Rightarrow> arg_at argv 2 = JStr ''upload-buffer-throttled''
        | INNER_SUPERVISOR \<Rightarrow>
            ''--'' \<in> set argv \<and> after_separator argv 1 = JStr ''upload-buffer-throttled''
        | OUTER_HOST \<Rightarrow>
            ''--'' \<in> set argv
            \<and> executableBasename env (after_separator argv 1) \<in> set NODE_EXECUTABLES
            \<and> context_path env cx (after_separator argv 2)
                = context_path env cx (JStr (entrypoint INNER_SUPERVISOR)))"

section \<open>The classification\<close>

record process_diagnostic =
  pd_code :: string
  pd_pid :: "nat option"
  pd_missing :: "string list"

definition metadataDiagnostic ::
  "process_env \<Rightarrow> upload_context \<Rightarrow> process_record \<Rightarrow> string list option \<Rightarrow> process_diagnostic option" where
  "metadataDiagnostic env cx r argv =
     (case argv of
        None \<Rightarrow> None
      | Some as \<Rightarrow>
          if roleForArgv env cx as \<noteq> None \<and> \<not> isNodeExecutable env r argv
          then Some \<lparr> pd_code = ''EXECUTABLE_IDENTITY_UNAVAILABLE'', pd_pid = rp_pid r,
                 pd_missing = [''executablePath'', ''name'', ''argv[0]''] \<rparr>
          else None)"

record classification =
  cl_pid :: "nat option"
  cl_role :: "process_role option"
  cl_conflicts :: bool
  cl_diagnostic :: "process_diagnostic option"

definition classify_record :: "process_env \<Rightarrow> upload_context \<Rightarrow> process_record \<Rightarrow> classification" where
  "classify_record env cx r =
     (let argv = argvForRecord (platform_of env cx) r in
      case metadataDiagnostic env cx r argv of
        Some d \<Rightarrow> \<lparr> cl_pid = rp_pid r, cl_role = None, cl_conflicts = False, cl_diagnostic = Some d \<rparr>
      | None \<Rightarrow>
          (case argv of
             None \<Rightarrow> \<lparr> cl_pid = rp_pid r, cl_role = None, cl_conflicts = False, cl_diagnostic = None \<rparr>
           | Some as \<Rightarrow>
               if \<not> isNodeExecutable env r argv
               then \<lparr> cl_pid = rp_pid r, cl_role = None, cl_conflicts = False, cl_diagnostic = None \<rparr>
               else
                 let role = roleForArgv env cx as in
                 \<lparr> cl_pid = rp_pid r, cl_role = role,
                    cl_conflicts = (rp_pid r \<noteq> asPositivePid env (cx_current_pid cx)
                      \<and> (case role of None \<Rightarrow> False | Some x \<Rightarrow> hasProductionRoleShape env cx x as)),
                    cl_diagnostic = None \<rparr>))"

definition classifyRetainedUploadProcess ::
  "process_env \<Rightarrow> js \<Rightarrow> upload_context \<Rightarrow> classification result" where
  "classifyRetainedUploadProcess env inputRecord cx =
     and_then (normalizedRecord env inputRecord) (\<lambda>r. Inr (classify_record env cx r))"

section \<open>Every process once\<close>

definition stable_record_values :: "process_record \<Rightarrow> js" where
  "stable_record_values r = JArr [pid_js (rp_pid r), pid_js (rp_parent r), rp_creation r, rp_name r,
     rp_executable r, rp_command r, argv_js (rp_argv r)]"

definition stableRecordKey :: "process_env \<Rightarrow> process_record \<Rightarrow> string" where
  "stableRecordKey env r = pe_stringify env (stable_record_values r)"

definition metadataScore :: "process_record \<Rightarrow> nat" where
  "metadataScore r = length (filter (\<lambda>v. v \<noteq> JNull)
     [pid_js (rp_parent r), rp_name r, rp_executable r, rp_command r, argv_js (rp_argv r), rp_creation r])"

definition pid_rank :: "process_record \<Rightarrow> int" where
  "pid_rank r = (case rp_pid r of Some n \<Rightarrow> int n | None \<Rightarrow> MAX_SAFE_INTEGER)"

definition compare_records :: "process_env \<Rightarrow> process_record \<Rightarrow> process_record \<Rightarrow> int" where
  "compare_records env left right =
     (let pidOrder = pid_rank left - pid_rank right;
          score = int (metadataScore right) - int (metadataScore left) in
      if pidOrder \<noteq> 0 then pidOrder
      else if score \<noteq> 0 then score
      else pe_locale_compare env (stableRecordKey env left) (stableRecordKey env right))"

text \<open>\<open>sort\<close> with a comparison is stable.\<close>

fun insert_by :: "('a \<Rightarrow> 'a \<Rightarrow> int) \<Rightarrow> 'a \<Rightarrow> 'a list \<Rightarrow> 'a list" where
  "insert_by cmp x [] = [x]"
| "insert_by cmp x (y # ys) = (if cmp x y \<le> 0 then x # y # ys else y # insert_by cmp x ys)"

fun sort_by :: "('a \<Rightarrow> 'a \<Rightarrow> int) \<Rightarrow> 'a list \<Rightarrow> 'a list" where
  "sort_by cmp [] = []"
| "sort_by cmp (x # xs) = insert_by cmp x (sort_by cmp xs)"

definition record_identity :: "process_env \<Rightarrow> process_record \<Rightarrow> string + nat" where
  "record_identity env r = (case rp_pid r of None \<Rightarrow> Inl (stableRecordKey env r) | Some n \<Rightarrow> Inr n)"

fun first_of_each :: "('a \<Rightarrow> 'k) \<Rightarrow> 'k list \<Rightarrow> 'a list \<Rightarrow> 'a list" where
  "first_of_each key seenPids [] = []"
| "first_of_each key seenPids (r # rs) =
     (if key r \<in> set seenPids then first_of_each key seenPids rs
      else r # first_of_each key (key r # seenPids) rs)"

definition deduplicateRecords :: "process_env \<Rightarrow> js list \<Rightarrow> process_record list result" where
  "deduplicateRecords env records =
     and_then (map_result (normalizedRecord env) records) (\<lambda>rs.
       Inr (first_of_each (record_identity env) [] (sort_by (compare_records env) rs)))"

section \<open>The inspection\<close>

record conflict =
  cf_pid :: "nat option"
  cf_parent :: "nat option"
  cf_role :: "process_role option"
  cf_executable :: string
  cf_entrypoint :: string
  cf_creation :: js

record inspection =
  in_conflicts :: "conflict list"
  in_diagnostics :: "process_diagnostic list"

definition conflict_of :: "process_env \<Rightarrow> upload_context \<Rightarrow> process_record \<Rightarrow> classification \<Rightarrow> conflict" where
  "conflict_of env cx r result =
     \<lparr> cf_pid = cl_pid result, cf_parent = rp_parent r, cf_role = cl_role result,
       cf_executable = executableBasename env
         (coalesce (coalesce (rp_executable r) (rp_name r))
            (first_argument (argvForRecord (platform_of env cx) r))),
       cf_entrypoint = (case cl_role result of Some role \<Rightarrow> entrypoint role | None \<Rightarrow> []),
       cf_creation = rp_creation r \<rparr>"

text \<open>The loop over the records; the classifier normalises each again.\<close>

fun inspect_records :: "process_env \<Rightarrow> upload_context \<Rightarrow> inspection \<Rightarrow> process_record list \<Rightarrow> inspection result" where
  "inspect_records env cx found [] = Inr found"
| "inspect_records env cx found (r # rs) =
     and_then (classifyRetainedUploadProcess env (record_js r) cx) (\<lambda>result.
       let found' = (if cl_conflicts result
                     then found\<lparr> in_conflicts := in_conflicts found @ [conflict_of env cx r result] \<rparr>
                     else found) in
       inspect_records env cx
         (case cl_diagnostic result of
            Some d \<Rightarrow>
              if length (in_diagnostics found') < MAX_DIAGNOSTICS
              then found'\<lparr> in_diagnostics := in_diagnostics found' @ [d] \<rparr> else found'
          | None \<Rightarrow> found') rs)"

definition inspectRetainedUploadProcesses ::
  "process_env \<Rightarrow> js \<Rightarrow> upload_context \<Rightarrow> inspection result" where
  "inspectRetainedUploadProcesses env records cx =
     and_then (deduplicateRecords env (case records of JArr vs \<Rightarrow> vs | _ \<Rightarrow> [])) (\<lambda>rs.
       inspect_records env cx \<lparr> in_conflicts = [], in_diagnostics = [] \<rparr> rs)"

definition parseWindowsProcessRecords :: "process_env \<Rightarrow> string \<Rightarrow> js result" where
  "parseWindowsProcessRecords env stdout =
     and_then (if trimmed stdout \<noteq> [] then pe_parse_json env stdout else Inr (JArr [])) (\<lambda>parsed.
       Inr (case parsed of JArr vs \<Rightarrow> JArr vs | v \<Rightarrow> JArr [v]))"

record spawned =
  sp_status :: "int option"
  sp_stdout :: string

definition process_command :: "string \<Rightarrow> string \<times> string list" where
  "process_command platform =
     (if platform = ''win32''
      then (''powershell'', [''-NoProfile'', ''-NonInteractive'', ''-Command'',
        ''Get-CimInstance Win32_Process | Select-Object ProcessId,ParentProcessId,Name,ExecutablePath,CommandLine,CreationDate | ConvertTo-Json -Compress''])
      else (''ps'', [''-eo'', ''pid=,ppid=,comm=,args='']))"

definition inspectRetainedUploadProcessesProduction ::
  "process_env \<Rightarrow> (string \<Rightarrow> string list \<Rightarrow> spawned) \<Rightarrow> string option \<Rightarrow> upload_context \<Rightarrow> inspection result" where
  "inspectRetainedUploadProcessesProduction env run adapter_platform cx =
     (let platform = (case adapter_platform of Some p \<Rightarrow> p | None \<Rightarrow> pe_platform env);
          result = (case process_command platform of (command, args) \<Rightarrow> run command args) in
      and_then (guard (sp_status result = Some 0) ''retained uploader process inspection failed'') (\<lambda>_.
      and_then (if platform = ''win32'' then parseWindowsProcessRecords env (sp_stdout result)
                else Inr (JArr (parsePosixProcessRecords (sp_stdout result)))) (\<lambda>records.
        inspectRetainedUploadProcesses env records (cx\<lparr> cx_platform := Some platform \<rparr>))))"

section \<open>What the inspection reports\<close>

lemma asPositivePid_range:
  assumes "asPositivePid env v = Some n"
  shows "0 < n \<and> int n \<le> MAX_SAFE_INTEGER"
proof -
  from assms have pid: "is_safe_integer (js_number env v)" "0 < num_of (js_number env v)"
    "n = nat \<lfloor>num_of (js_number env v)\<rfloor>"
    by (auto simp: asPositivePid_def Let_def split: if_splits)
  then obtain r where r: "js_number env v = JNum r" "of_int \<lfloor>r\<rfloor> = r" "safe_int \<lfloor>r\<rfloor>"
    by (auto simp: is_safe_integer_def split: js.splits)
  with pid(2) have "0 < \<lfloor>r\<rfloor>" by (metis num_of.simps(1) of_int_0_less_iff)
  with pid(3) r show ?thesis by (simp add: safe_int_def)
qed

lemma asPositivePid_JNat [simp]:
  "0 < n \<Longrightarrow> int n \<le> MAX_SAFE_INTEGER \<Longrightarrow> asPositivePid env (JNat n) = Some n"
  by (simp add: asPositivePid_def is_safe_integer_def safe_int_def)

lemma asPositivePid_JNull [simp]: "asPositivePid env JNull = None"
  by (simp add: asPositivePid_def)

lemma asPositivePid_again: "asPositivePid env (pid_js (asPositivePid env v)) = asPositivePid env v"
proof (cases "asPositivePid env v")
  case (Some n)
  with asPositivePid_range [OF Some] show ?thesis by (simp add: pid_js_def)
qed (simp add: pid_js_def)

lemma asPositivePid_found: "asPositivePid env v = Some n \<Longrightarrow> asPositivePid env (pid_js (Some n)) = Some n"
  using asPositivePid_again [of env v] by simp

lemma coalesce_absent [simp]: "coalesce (coalesce (coalesce v JNull) Undefined) JNull = coalesce v JNull"
  by (auto simp: coalesce_def nullish_def)

lemma pid_js_present [simp]: "coalesce (pid_js p) Undefined = (if p = None then Undefined else pid_js p)"
  by (auto simp: coalesce_def nullish_def pid_js_def split: option.splits)

lemma asPositivePid_absent [simp]: "asPositivePid env Undefined = None"
  by (simp add: asPositivePid_def is_safe_integer_def)

lemma normalized_again:
  assumes "normalizedRecord env v = Inr r"
  shows "normalizedRecord env (record_js r) = Inr r"
proof -
  from assms have r: "rp_pid r = asPositivePid env (either_field v ''pid'' ''ProcessId'')"
    "rp_parent r = asPositivePid env (either_field v ''parentPid'' ''ParentProcessId'')"
    "\<exists>x. rp_name r = coalesce x JNull" "\<exists>x. rp_executable r = coalesce x JNull"
    "\<exists>x. rp_command r = coalesce x JNull" "\<exists>x. rp_creation r = coalesce x JNull"
    by (auto simp: normalizedRecord_def split: if_splits)
  have pid: "asPositivePid env (if p = None then Undefined else pid_js p) = p"
    if "\<exists>x. p = asPositivePid env x" for p
    using that asPositivePid_again by auto
  have argv: "(case argv_js a of JArr vs \<Rightarrow> Some (map (js_text (pe_number_text env)) vs) | _ \<Rightarrow> None) = a" for a
    by (cases a) (simp_all add: argv_js_def comp_def)
  show ?thesis
    using r
    by (cases r) (auto simp: normalizedRecord_def record_js_def either_field_def pid argv nullish_def
        intro: asPositivePid_found)
qed

lemma classify_normalized:
  "normalizedRecord env v = Inr r \<Longrightarrow>
   classifyRetainedUploadProcess env (record_js r) cx = Inr (classify_record env cx r)"
  by (simp add: classifyRetainedUploadProcess_def normalized_again)

lemma set_insert_by [simp]: "set (insert_by cmp x ys) = insert x (set ys)"
  by (induction cmp x ys rule: insert_by.induct) auto

lemma set_sort_by [simp]: "set (sort_by cmp xs) = set xs"
  by (induction xs) auto

lemma set_first_of_each: "set (first_of_each key seen xs) \<subseteq> set xs"
  by (induction key seen xs rule: first_of_each.induct) auto

lemma first_of_each_keys:
  "x \<in> set xs \<Longrightarrow> key x \<notin> set seen \<Longrightarrow> \<exists>y\<in>set (first_of_each key seen xs). key y = key x"
proof (induction key seen xs rule: first_of_each.induct)
  case (2 key seen r rs)
  then show ?case by (cases "key x = key r") auto
qed simp

lemma first_of_each_inj:
  assumes "inj_on key (set xs)"
  shows "set (first_of_each key [] xs) = set xs"
proof
  show "set xs \<subseteq> set (first_of_each key [] xs)"
  proof
    fix x assume x: "x \<in> set xs"
    with first_of_each_keys [of x xs key "[]"] obtain y
      where "y \<in> set (first_of_each key [] xs)" "key y = key x" by auto
    with x assms set_first_of_each [of key "[]" xs] show "x \<in> set (first_of_each key [] xs)"
      by (metis inj_onD subsetD)
  qed
qed (rule set_first_of_each)

lemma inspect_records_eq:
  assumes "\<forall>r\<in>set rs. \<exists>v. normalizedRecord env v = Inr r"
    and "length (in_diagnostics found) \<le> MAX_DIAGNOSTICS"
  shows "inspect_records env cx found rs = Inr
    \<lparr> in_conflicts = in_conflicts found @ map (\<lambda>r. conflict_of env cx r (classify_record env cx r))
        (filter (\<lambda>r. cl_conflicts (classify_record env cx r)) rs),
      in_diagnostics = take MAX_DIAGNOSTICS (in_diagnostics found
        @ List.map_filter (\<lambda>r. cl_diagnostic (classify_record env cx r)) rs) \<rparr>"
  using assms
proof (induction rs arbitrary: found)
  case Nil
  then show ?case by (cases found) (simp add: map_filter_simps)
next
  case (Cons r rs)
  then obtain v where v: "normalizedRecord env v = Inr r" by auto
  show ?case
  proof (cases "cl_diagnostic (classify_record env cx r)")
    case None
    with Cons v show ?thesis by (simp add: classify_normalized [OF v] map_filter_simps Let_def)
  next
    case (Some d)
    with Cons v show ?thesis
      by (cases "length (in_diagnostics found) < MAX_DIAGNOSTICS")
        (simp_all add: classify_normalized [OF v] map_filter_simps Let_def take_Cons')
  qed
qed

lemma inspection_of_records:
  assumes rs: "map_result (normalizedRecord env) vs = Inr rs"
    and distinct: "inj_on (record_identity env) (set rs)"
  obtains found where "inspectRetainedUploadProcesses env (JArr vs) cx = Inr found"
    and "set (in_conflicts found) = (\<lambda>r. conflict_of env cx r (classify_record env cx r))
      ` {r \<in> set rs. cl_conflicts (classify_record env cx r)}"
    and "in_diagnostics found = [] \<longleftrightarrow> (\<forall>r\<in>set rs. cl_diagnostic (classify_record env cx r) = None)"
proof -
  define us where "us = first_of_each (record_identity env) [] (sort_by (compare_records env) rs)"
  have us: "set us = set rs" using distinct by (simp add: us_def first_of_each_inj)
  have dedup: "deduplicateRecords env vs = Inr us"
    by (simp add: deduplicateRecords_def rs us_def)
  have norm: "\<forall>r\<in>set us. \<exists>v. normalizedRecord env v = Inr r"
  proof
    fix r assume "r \<in> set us"
    with us obtain i where i: "i < length rs" "r = rs ! i" by (metis in_set_conv_nth)
    with rs have "normalizedRecord env (vs ! i) = Inr r"
      by (simp add: map_result_eq_Inr list_all2_conv_all_nth)
    then show "\<exists>v. normalizedRecord env v = Inr r" by blast
  qed
  have none: "List.map_filter f xs = [] \<longleftrightarrow> (\<forall>x\<in>set xs. f x = None)" for f :: "process_record \<Rightarrow> process_diagnostic option" and xs
    by (induction xs) (auto simp: map_filter_simps split: option.splits)
  show thesis
    by (rule that) (auto simp: inspectRetainedUploadProcesses_def dedup inspect_records_eq [OF norm] us none MAX_DIAGNOSTICS_def)
qed

section \<open>The process table of Windows\<close>

text \<open>A process as it was started, and the object \<open>Get-CimInstance\<close> describes it with.\<close>

record win_process =
  wp_pid :: nat
  wp_parent :: nat
  wp_name :: string
  wp_executable :: string
  wp_argv :: "string list"
  wp_created :: js

definition cim_record :: "win_process \<Rightarrow> js" where
  "cim_record p = JObj [(''ProcessId'', JNat (wp_pid p)), (''ParentProcessId'', JNat (wp_parent p)),
     (''Name'', JStr (wp_name p)), (''ExecutablePath'', JStr (wp_executable p)),
     (''CommandLine'', JStr (quote_command (wp_argv p))), (''CreationDate'', wp_created p)]"

text \<open>Whether it runs node, and whether its arguments are those of an upload of the context.\<close>

definition runs_node :: "process_env \<Rightarrow> win_process \<Rightarrow> bool" where
  "runs_node env p \<longleftrightarrow>
     list_ex (\<lambda>v. executableBasename env v \<in> set NODE_EXECUTABLES)
       [JStr (wp_executable p), JStr (wp_name p), arg_at (wp_argv p) 0]"

definition is_upload :: "process_env \<Rightarrow> upload_context \<Rightarrow> string list \<Rightarrow> bool" where
  "is_upload env cx argv \<longleftrightarrow>
     (case roleForArgv env cx argv of None \<Rightarrow> False | Some role \<Rightarrow> hasProductionRoleShape env cx role argv)"

definition valid_pid :: "nat \<Rightarrow> bool" where
  "valid_pid n \<longleftrightarrow> 0 < n \<and> int n \<le> MAX_SAFE_INTEGER"

definition win_record :: "process_env \<Rightarrow> win_process \<Rightarrow> process_record" where
  "win_record env p = \<lparr> rp_pid = Some (wp_pid p), rp_parent = asPositivePid env (JNat (wp_parent p)),
     rp_name = JStr (wp_name p), rp_executable = JStr (wp_executable p),
     rp_command = JStr (quote_command (wp_argv p)), rp_argv = None,
     rp_creation = coalesce (wp_created p) JNull \<rparr>"

lemma cim_record_normalized:
  "valid_pid (wp_pid p) \<Longrightarrow> normalizedRecord env (cim_record p) = Inr (win_record env p)"
  by (simp add: normalizedRecord_def cim_record_def either_field_def win_record_def nullish_def
      coalesce_def valid_pid_def)

lemma quote_command_not_blank: "as \<noteq> [] \<Longrightarrow> trimmed (quote_command as) \<noteq> []"
proof -
  assume "as \<noteq> []"
  then obtain s where s: "quote_command as = double_quote # s"
    by (cases as rule: quote_command.cases) (auto simp: quote_argument_def)
  have "double_quote \<in> set (quote_command as)" by (simp add: s)
  moreover have "\<not> is_space_char double_quote" by (simp add: is_space_char_def)
  ultimately show ?thesis
    by (auto simp: trimmed_def s dropWhile_eq_Nil_conv)
qed

lemma win_record_argv:
  "argvForRecord ''win32'' (win_record env p) = (if wp_argv p = [] then None else Some (wp_argv p))"
  using quote_command_not_blank [of "wp_argv p"]
  by (auto simp: argvForRecord_def win_record_def quoted_commands_are_read trimmed_def)

lemma win_record_node:
  "isNodeExecutable env (win_record env p) (Some (wp_argv p)) = runs_node env p"
  by (simp add: isNodeExecutable_def runs_node_def win_record_def first_argument_def)

lemma roleForArgv_Nil [simp]: "roleForArgv env cx [] = None"
  by (simp add: roleForArgv_def)

lemma classify_win_record:
  assumes "platform_of env cx = ''win32''"
  shows "cl_conflicts (classify_record env cx (win_record env p)) \<longleftrightarrow>
      Some (wp_pid p) \<noteq> asPositivePid env (cx_current_pid cx) \<and> runs_node env p
      \<and> is_upload env cx (wp_argv p)"
    and "cl_diagnostic (classify_record env cx (win_record env p)) = None \<longleftrightarrow>
      roleForArgv env cx (wp_argv p) = None \<or> runs_node env p"
    and "cl_pid (classify_record env cx (win_record env p)) = Some (wp_pid p)"
proof -
  have pid: "rp_pid (win_record env p) = Some (wp_pid p)" by (simp add: win_record_def)
  note defs = classify_record_def metadataDiagnostic_def win_record_argv win_record_node is_upload_def
    assms pid Let_def
  show "cl_conflicts (classify_record env cx (win_record env p)) \<longleftrightarrow>
      Some (wp_pid p) \<noteq> asPositivePid env (cx_current_pid cx) \<and> runs_node env p
      \<and> is_upload env cx (wp_argv p)"
    by (auto simp: defs split: option.splits)
  show "cl_diagnostic (classify_record env cx (win_record env p)) = None \<longleftrightarrow>
      roleForArgv env cx (wp_argv p) = None \<or> runs_node env p"
    by (auto simp: defs split: option.splits)
  show "cl_pid (classify_record env cx (win_record env p)) = Some (wp_pid p)"
    by (auto simp: defs split: option.splits)
qed

lemma win_records_normalized:
  "list_all (\<lambda>p. valid_pid (wp_pid p)) ps \<Longrightarrow>
   map_result (normalizedRecord env) (map cim_record ps) = Inr (map (win_record env) ps)"
  by (induction ps) (simp_all add: cim_record_normalized)

lemma win_record_identities:
  "distinct (map wp_pid ps) \<Longrightarrow> inj_on (record_identity env) (set (map (win_record env) ps))"
  by (auto simp: distinct_map inj_on_def record_identity_def win_record_def)

lemma windows_inspection:
  assumes table: "list_all (\<lambda>p. valid_pid (wp_pid p)) ps" "distinct (map wp_pid ps)"
    and win: "platform_of env cx = ''win32''"
  obtains found where "inspectRetainedUploadProcesses env (JArr (map cim_record ps)) cx = Inr found"
    and "set (map cf_pid (in_conflicts found)) = Some ` wp_pid `
      {p \<in> set ps. Some (wp_pid p) \<noteq> asPositivePid env (cx_current_pid cx) \<and> runs_node env p
         \<and> is_upload env cx (wp_argv p)}"
    and "in_diagnostics found = [] \<longleftrightarrow>
      (\<forall>p\<in>set ps. roleForArgv env cx (wp_argv p) = None \<or> runs_node env p)"
proof -
  obtain found where found:
    "inspectRetainedUploadProcesses env (JArr (map cim_record ps)) cx = Inr found"
    "set (in_conflicts found) = (\<lambda>r. conflict_of env cx r (classify_record env cx r))
      ` {r \<in> set (map (win_record env) ps). cl_conflicts (classify_record env cx r)}"
    "in_diagnostics found = [] \<longleftrightarrow>
      (\<forall>r\<in>set (map (win_record env) ps). cl_diagnostic (classify_record env cx r) = None)"
    using inspection_of_records [OF win_records_normalized [OF table(1)] win_record_identities [OF table(2)]]
    by blast
  have pid: "cf_pid (conflict_of env cx r c) = cl_pid c" for r c by (simp add: conflict_of_def)
  have selected: "{r \<in> f ` set ps. Q r} = f ` {p \<in> set ps. Q (f p)}" for f :: "win_process \<Rightarrow> process_record" and Q
    by auto
  have "set (map cf_pid (in_conflicts found)) = Some ` wp_pid `
      {p \<in> set ps. Some (wp_pid p) \<noteq> asPositivePid env (cx_current_pid cx) \<and> runs_node env p
         \<and> is_upload env cx (wp_argv p)}"
    by (simp add: found(2) selected image_image pid classify_win_record [OF win])
  moreover have "in_diagnostics found = [] \<longleftrightarrow>
      (\<forall>p\<in>set ps. roleForArgv env cx (wp_argv p) = None \<or> runs_node env p)"
    using found(3) by (simp add: classify_win_record [OF win])
  ultimately show thesis using that found(1) by blast
qed

end
