(* ===== verification/Process_Properties.thy ===== *)
theory Process_Properties imports Process_Classifier begin

text \<open>
  What the inspection of the process table promises before an upload starts or a lease is
  recovered, on concrete tables and in general.
\<close>

section \<open>Concrete tables\<close>








section \<open>The properties\<close>

text \<open>C36: Windows hands a process one text, and the classifier takes it apart as the process
  itself does: whatever the arguments contain, blanks, quotes, backslashes or nothing at all, the
  line that the documented quoting makes of them is read back as exactly these arguments.\<close>

theorem windows_command_lines_are_read: "parseWindowsCommandLine (quote_command argv) = argv"
  by (rule quoted_commands_are_read)




end
