(* ===== verification/Recovery_Properties.thy ===== *)
theory Recovery_Properties imports Execution_Properties Process_Properties begin

text \<open>
  The recovery of a lease from start to end: what it leaves behind, that nothing else is touched and
  that it may be repeated.
\<close>

section \<open>What the steps leave\<close>

text \<open>The refresh that production uses looks again and expects the same.\<close>

definition keeps_expected :: "(recovery_input \<Rightarrow> recovery_input result) \<Rightarrow> recovery_input \<Rightarrow> bool" where
  "keeps_expected refresh i \<longleftrightarrow>
     (case refresh i of Inl e \<Rightarrow> True | Inr j \<Rightarrow> vi_expected j = vi_expected i)"

text \<open>The directory after a receipt was stored: as before, except for the receipt.\<close>

definition receipt_added :: "path \<Rightarrow> 'b disk \<Rightarrow> 'b disk \<Rightarrow> bool" where
  "receipt_added p disk disk' \<longleftrightarrow>
     (\<forall>q. q \<noteq> p \<longrightarrow> disk' q = disk q)
     \<and> (\<forall>name. name \<noteq> ''recovery.json'' \<longrightarrow> dir_files (disk' p) name = dir_files (disk p) name)
     \<and> without_receipt (file_names (disk' p)) = without_receipt (file_names (disk p))
     \<and> dir_files (disk' p) ''recovery.json'' \<noteq> None"

lemma without_receipt_names:
  "without_receipt (file_names n) = sort (filter (\<lambda>x. x \<noteq> ''recovery.json'') (map fst (dir_entries n)))"
  by (simp add: without_receipt_def file_names_def filter_sort)

lemma names_set_entry: "filter (\<lambda>x. x \<noteq> name) (map fst (set_entry name b d)) = filter (\<lambda>x. x \<noteq> name) (map fst d)"
  by (induction d) (auto simp: set_entry_def split: option.splits)

lemma set_entry_absent: "name \<notin> set (map fst d) \<Longrightarrow> set_entry name None (set_entry name (Some b) d) = d"
  by (induction d) (auto simp: set_entry_def filter_id_conv)

lemma set_entries_commute:
  "a \<noteq> b \<Longrightarrow> a \<notin> set (map fst d) \<Longrightarrow>
   set_entry a None (set_entry b (Some y) (set_entry a (Some x) d)) = set_entry b (Some y) d"
  by (auto simp: set_entry_def filter_empty_conv filter_id_conv image_iff intro!: filter_cong)

lemma written_receipt:
  assumes "write_canonical_in env ra io p ''recovery.json'' v disk = (Inr u, disk')"
    and "disk p = Some (Dir d)"
  shows "disk' = disk(p := Some (Dir (set_entry ''recovery.json'' (Some (ue_pretty env (sortedJsonValue v))) d)))"
proof -
  let ?name = "''recovery.json''" and ?bytes = "ue_pretty env (sortedJsonValue v)"
  obtain tmp where tmp: "tmp = ''.'' @ ?name @ ''.'' @ ra_uuid ra @ ''.tmp''" by blast
  then have apart: "tmp \<noteq> ?name" by simp
  from assms(1) have body: "canonical_body env ra io p tmp ?name v disk = (Inr u, disk')"
    unfolding write_canonical_in_def Let_def tmp [symmetric] by (auto split: prod.splits sum.splits)
  then have absent: "map_of d tmp = None"
      and disk': "disk' = set_file_in p tmp None (set_file_in p ?name (Some ?bytes) (set_file_in p tmp (Some ?bytes) disk))"
    using assms(2) by (auto simp: canonical_body_def Let_def split: if_splits option.splits)
  from absent have "tmp \<notin> set (map fst d)" by (simp add: map_of_eq_None_iff)
  from set_entries_commute [OF apart this] show ?thesis
    using assms(2) by (simp add: disk' set_file_in_def)
qed

lemma stored_receipt_added:
  assumes "store_recovery_receipt env ra io i p fresh disk = (Inr u, disk')" and "disk p = Some (Dir d)"
  shows "receipt_added p disk disk'"
proof (cases "map_of d ''recovery.json''")
  case (Some b)
  with assms show ?thesis
    by (auto simp: store_recovery_receipt_def receipt_added_def and_then_eq_Inr)
next
  case None
  with assms have "write_canonical_in env ra io p ''recovery.json''
      (recovery_receipt env (vi_expected i) (vi_recoveryHash i) fresh) disk = (Inr u, disk')"
    by (simp add: store_recovery_receipt_def)
  from written_receipt [OF this assms(2)] assms(2) show ?thesis
    by (simp add: receipt_added_def without_receipt_names names_set_entry)
qed

lemma move_recovered_success:
  assumes "move_recovered env ra io i active archive fresh disk = (Inr again, disk')"
  obtains p before where "archive = Some p" "again = False" "disk' = (disk(active := None))(p := disk active)"
    "verify_archive env ra io i p before fresh disk' = Inr ()"
proof (cases archive)
  case None
  with assms show ?thesis by (simp add: move_recovered_def split: sum.splits)
next
  case (Some p)
  obtain r1 disk1 where move: "renamePath io Rename_Archive active p disk = (r1, disk1)"
    by (cases "renamePath io Rename_Archive active p disk")
  from assms Some move obtain before where done1: "r1 = Inr ()" "disk' = disk1" "again = False"
      "verify_archive env ra io i p before fresh disk1 = Inr ()"
    by (auto simp: move_recovered_def and_then_eq_Inr split: sum.splits)
  have "disk1 = (disk(active := None))(p := disk active)"
    using move done1(1) by (auto simp: renamePath_def may_fail_def split: option.splits node.splits if_splits)
  with done1 Some show thesis by (intro that [of p before]) auto
qed

section \<open>Reading a copy\<close>

lemma map_result_cong_set: "(\<And>x. x \<in> set xs \<Longrightarrow> f x = g x) \<Longrightarrow> map_result f xs = map_result g xs"
  by (induction xs) auto

lemma archive_hash_of_copy:
  assumes "\<And>name. name \<noteq> ''recovery.json'' \<Longrightarrow> dir_files (disk' p) name = dir_files (disk q) name"
    and "without_receipt names' = without_receipt names"
  shows "archiveEvidenceHash env ra p names' disk' = archiveEvidenceHash env ra q names disk"
proof -
  have "fileProjection env ra p (without_receipt names) disk' = fileProjection env ra q (without_receipt names) disk"
    unfolding fileProjection_def
    by (rule arg_cong [where f = "\<lambda>m. and_then m (\<lambda>kvs. Inr (JObj kvs))"], rule map_result_cong_set)
      (simp add: without_receipt_def readFileIn_def assms(1))
  with assms(2) show ?thesis by (simp add: archiveEvidenceHash_def)
qed

lemma evidence_of_copy:
  assumes "\<And>name. name \<noteq> ''recovery.json'' \<Longrightarrow> dir_files (disk' p) name = dir_files (disk q) name"
  shows "telemetry_in env p disk' = telemetry_in env q disk"
    and "terminal_in env p disk' = terminal_in env q disk"
  using assms
  by (simp_all add: telemetry_in_def terminal_in_def readUploadTelemetry_def readUploadTerminalEvidence_def
      telemetry_env_of_def terminal_env_of_def readJson_def parsed_files_def)
section \<open>A recovery, and the same call again\<close>

text \<open>What an eligible lease says of its directory.\<close>

lemma eligible_directory:
  assumes "reconcilePreSelectionUploadLease env ra allow i disk = Inr fresh"
    and "plain_adapters ra (vi_statePath i)"
  obtains d names leaseBytes evidenceBytes where
    "disk (lease_directory (vi_statePath i)) = Some (Dir d)" "names = file_names (Some (Dir d))"
    "lease_names_ok names"
    "readFileIn (lease_directory (vi_statePath i)) ''lease.json'' disk = Inr leaseBytes"
    "JStr (ue_sha256 env leaseBytes) = get (vi_expected i) ''leaseSha256''"
    "readFileIn (lease_directory (vi_statePath i))
       (if ''terminal.json'' \<in> set names then ''terminal.json'' else ''telemetry.json'') disk = Inr evidenceBytes"
    "JStr (ue_sha256 env evidenceBytes) = get (vi_expected i) ''evidenceSha256''"
    "''telemetry.json'' \<in> set names \<Longrightarrow> \<exists>ev. telemetry_in env (lease_directory (vi_statePath i)) disk = Inr (Some ev)"
    "''terminal.json'' \<in> set names \<Longrightarrow> \<exists>ev. terminal_in env (lease_directory (vi_statePath i)) disk = Inr (Some ev)"
    "archiveEvidenceHash env ra (lease_directory (vi_statePath i)) names disk = Inr (pe_archiveEvidenceSha256 fresh)"
proof -
  let ?d = "text_of (get (vi_expected i) ''leasePath'')"
  from assms(1) obtain u names lease where call: "binding_check env ra i = Inr u"
      "read_names ?d disk = Inr names" "lease_names_ok names" "zero_send_check env ra i ?d disk = Inr lease"
      "recovery_documents env ra i ?d names lease disk = Inr fresh"
    by (auto simp: reconcilePreSelectionUploadLease_def and_then_eq_Inr attempt_eq_Inr refuse_unless_eq_Inr Let_def)
  note d = binding_directory [OF call(1) assms(2)]
  from call(2) obtain entries where entries: "disk ?d = Some (Dir entries)" "names = file_names (Some (Dir entries))"
    by (auto simp: read_names_def split: option.splits node.splits)
  from call(4) obtain leaseBytes where leaseBytes: "readFileIn ?d ''lease.json'' disk = Inr leaseBytes"
      "JStr (ue_sha256 env leaseBytes) = get (vi_expected i) ''leaseSha256''"
    by (auto simp: zero_send_check_def and_then_eq_Inr attempt_eq_Inr refuse_unless_eq_Inr Let_def lease_check_def)
  from call(5) obtain kind where docs: "evidence_check env (vi_expected i) ?d names disk = Inr kind"
      "telemetry_check env (vi_expected i) lease ?d names kind disk = Inr ()"
      "archiveEvidenceHash env ra ?d names disk = Inr (pe_archiveEvidenceSha256 fresh)"
    by (auto simp: recovery_documents_def and_then_eq_Inr attempt_eq_Inr Let_def)
  from docs(1) obtain evidenceBytes where evidence:
      "readFileIn ?d (if ''terminal.json'' \<in> set names then ''terminal.json'' else ''telemetry.json'') disk
        = Inr evidenceBytes"
      "JStr (ue_sha256 env evidenceBytes) = get (vi_expected i) ''evidenceSha256''"
      "''terminal.json'' \<in> set names \<Longrightarrow> \<exists>ev. terminal_in env ?d disk = Inr (Some ev)"
    by (auto simp: evidence_check_def and_then_eq_Inr attempt_eq_Inr refuse_unless_eq_Inr Let_def
        split: if_splits option.splits)
  from docs(2) have "''telemetry.json'' \<in> set names \<Longrightarrow> \<exists>ev. telemetry_in env ?d disk = Inr (Some ev)"
    by (auto simp: telemetry_check_def and_then_eq_Inr attempt_eq_Inr refuse_unless_eq_Inr split: option.splits)
  with entries call(3) leaseBytes evidence docs(3) show thesis unfolding d by (intro that) auto
qed

lemma receipt_names:
  assumes "receipt_added p disk disk'" and "lease_names_ok (file_names (disk p))"
  shows "lease_names_ok (file_names (disk' p))" and "''recovery.json'' \<in> set (file_names (disk' p))"
    and "name \<noteq> ''recovery.json'' \<Longrightarrow> name \<in> set (file_names (disk' p)) \<longleftrightarrow> name \<in> set (file_names (disk p))"
proof -
  have files: "name \<in> set (file_names n) \<longleftrightarrow> dir_files n name \<noteq> None" for n :: "'a node option" and name
    by (auto simp: file_names_def map_of_eq_None_iff)
  show other: "name \<noteq> ''recovery.json'' \<Longrightarrow> name \<in> set (file_names (disk' p)) \<longleftrightarrow> name \<in> set (file_names (disk p))" for name
    using assms(1) by (simp add: files receipt_added_def)
  show receipt: "''recovery.json'' \<in> set (file_names (disk' p))"
    using assms(1) by (simp add: files receipt_added_def)
  have "n \<in> set LEASE_FILES" if "n \<in> set (file_names (disk' p))" for n
    using that other [of n] assms(2) by (cases "n = ''recovery.json''") (auto simp: lease_names_ok_def list_all_iff LEASE_FILES_def)
  with other assms(2) show "lease_names_ok (file_names (disk' p))"
    by (simp add: lease_names_ok_def list_all_iff)
qed

text \<open>The recovery proper, below the lock.\<close>

lemma recovered_once:
  assumes call: "recover_under_lock env ra io (Some refresh) i archive disk = (Inr False, disk')"
    and plain: "plain_adapters ra (vi_statePath i)" and same: "keeps_expected refresh i"
  obtains p d1 where "archive = Some p" "disk p = None"
    "disk' = disk(lease_directory (vi_statePath i) := None, p := Some (Dir d1))"
    "\<And>name. name \<noteq> ''recovery.json'' \<Longrightarrow>
       map_of d1 name = dir_files (disk (lease_directory (vi_statePath i))) name"
    "\<And>disk2. disk2 p = Some (Dir d1) \<Longrightarrow> archived_recovery env ra i p disk2 = Inr ()"
proof -
  let ?a = "lease_directory (vi_statePath i)"
  from call obtain fresh u disk1 where run: "fresh_recovery env ra (Some refresh) i disk = Inr fresh"
      "\<And>p. archive = Some p \<Longrightarrow> disk p = None"
      "store_recovery_receipt env ra io i ?a fresh disk = (Inr u, disk1)"
      "move_recovered env ra io i ?a archive fresh disk1 = (Inr False, disk')"
    by (auto simp: recover_under_lock_def Let_def then_do_def mkdir_recursive_def may_fail_def give_def existsPath_def
        and_then_eq_Inr split: sum.splits option.splits prod.splits if_splits)
  from run(1) obtain refreshed where refreshed: "vi_statePath refreshed = vi_statePath i"
      "reconcilePreSelectionUploadLease env ra True refreshed disk = Inr fresh" "refresh i = Inr refreshed"
    by (elim fresh_recovery_safe) auto
  have expected: "vi_expected refreshed = vi_expected i"
    using same refreshed(3) by (simp add: keeps_expected_def)
  have plain': "plain_adapters ra (vi_statePath refreshed)" using plain refreshed(1) by simp
  from eligible_directory [OF refreshed(2) plain', unfolded expected refreshed(1)]
  obtain d names leaseBytes evidenceBytes where dir:
    "disk ?a = Some (Dir d)" "names = file_names (Some (Dir d))" "lease_names_ok names"
    "readFileIn ?a ''lease.json'' disk = Inr leaseBytes"
    "JStr (ue_sha256 env leaseBytes) = get (vi_expected i) ''leaseSha256''"
    "readFileIn ?a (if ''terminal.json'' \<in> set names then ''terminal.json'' else ''telemetry.json'') disk = Inr evidenceBytes"
    "JStr (ue_sha256 env evidenceBytes) = get (vi_expected i) ''evidenceSha256''"
    "''telemetry.json'' \<in> set names \<Longrightarrow> \<exists>ev. telemetry_in env ?a disk = Inr (Some ev)"
    "''terminal.json'' \<in> set names \<Longrightarrow> \<exists>ev. terminal_in env ?a disk = Inr (Some ev)"
    "archiveEvidenceHash env ra ?a names disk = Inr (pe_archiveEvidenceSha256 fresh)"
    by blast
  note added = stored_receipt_added [OF run(3) dir(1)]
  from move_recovered_success [OF run(4)] obtain p before where moved: "archive = Some p"
      "disk' = (disk1(?a := None))(p := disk1 ?a)" "verify_archive env ra io i p before fresh disk' = Inr ()"
    by metis
  from added have "dir_files (disk1 ?a) ''recovery.json'' \<noteq> None" by (simp add: receipt_added_def)
  then obtain d1 where d1: "disk1 ?a = Some (Dir d1)" by (cases "disk1 ?a" rule: dir_entries.cases) auto
  from moved(2) d1 added have disk': "disk' = disk(?a := None, p := Some (Dir d1))"
    by (auto simp: receipt_added_def fun_eq_iff)
  have files: "map_of d1 name = dir_files (disk ?a) name" if "name \<noteq> ''recovery.json''" for name
    using added d1 that by (simp add: receipt_added_def)
  have names: "lease_names_ok (file_names (disk ?a))" using dir(1-3) by simp
  note names1 = receipt_names [OF added names, unfolded d1]
  have "archived_recovery env ra i p disk2 = Inr ()" if disk2: "disk2 p = Some (Dir d1)" for disk2
  proof -
    have copy: "dir_files (disk2 p) name = dir_files (disk ?a) name" if "name \<noteq> ''recovery.json''" for name
      using files that disk2 by simp
    have hash: "archiveEvidenceHash env ra p (file_names (Some (Dir d1))) disk2
        = Inr (pe_archiveEvidenceSha256 fresh)"
      using archive_hash_of_copy [where disk' = disk2 and p = p and disk = disk and q = ?a, OF copy,
          of "file_names (Some (Dir d1))" names env ra] dir(1,2,10) added d1
      by (simp add: receipt_added_def)
    from moved(3) obtain receipt where receipt: "parse_file env (readFileIn p ''recovery.json'' disk') = Inr receipt"
        "completeRecoveryReceipt receipt (vi_expected i) (vi_recoveryHash i) (pe_archiveEvidenceSha256 fresh)"
      by (auto simp: verify_archive_def and_then_eq_Inr guard_eq_Inr Let_def)
    have receipt2: "parse_file env (readFileIn p ''recovery.json'' disk2) = Inr receipt"
      using receipt(1) disk' disk2 by (simp add: readFileIn_def)
    have read: "readFileIn p name disk2 = readFileIn ?a name disk" if "name \<noteq> ''recovery.json''" for name
      using copy that by (simp add: readFileIn_def)
    have kind: "''terminal.json'' \<in> set (file_names (Some (Dir d1))) \<longleftrightarrow> ''terminal.json'' \<in> set names"
        "''telemetry.json'' \<in> set (file_names (Some (Dir d1))) \<longleftrightarrow> ''telemetry.json'' \<in> set names"
      using names1(3) dir(1,2) by simp_all
    show ?thesis
      using disk2 names1(1,2) hash receipt(2) receipt2 read dir(4-9)
        evidence_of_copy [where disk' = disk2 and p = p and disk = disk and q = ?a, OF copy, of env]
      by (auto simp: archived_recovery_def read_names_def kind Let_def)
  qed
  with moved(1) run(2) disk' files show thesis by (intro that [of p d1]) auto
qed

text \<open>The call as a whole.\<close>

lemma recovered:
  assumes call: "recoverPreSelectionUploadLease env ra io (Some refresh) i disk = (Inr False, disk')"
    and plain: "plain_adapters ra (vi_statePath i)" and same: "keeps_expected refresh i"
    and lock: "li_fails io' Make_Lock = None" "li_fails io' Remove_Lock = None"
  obtains p d1 where "recovery_archive i = Inr (Some p)" "disk p = None"
    "disk' = disk(lease_directory (vi_statePath i) := None, p := Some (Dir d1))"
    "\<And>name. name \<noteq> ''recovery.json'' \<Longrightarrow>
       map_of d1 name = dir_files (disk (lease_directory (vi_statePath i))) name"
    "recoverPreSelectionUploadLease env ra io' again i disk' = (Inr True, disk')"
proof -
  let ?s = "vi_statePath i"
  let ?lock = "operationLockPath ?s" and ?a = "lease_directory ?s"
  from call obtain archive where guards: "vi_acknowledgement i = JStr RECOVER_PRE_SELECTION_LEASE_ACKNOWLEDGEMENT"
      "assertEvidenceHash (vi_recoveryHash i) ''matching pre-selection recovery hash'' = Inr ()"
      "recovery_archive i = Inr archive"
      and locked: "under_operation_lock io ?s (recover_under_lock env ra io (Some refresh) i archive) disk = (Inr False, disk')"
    by (auto simp: recoverPreSelectionUploadLease_def then_do_def guard_def and_then_eq_Inr split: sum.splits if_splits)
  let ?disk0 = "disk(?lock := Some (Dir []))"
  from locked obtain disk1 where lock_free: "disk ?lock = None"
      and inner: "recover_under_lock env ra io (Some refresh) i archive ?disk0 = (Inr False, disk1)"
      and disk': "disk' = disk1(?lock := None)"
    by (auto simp: under_operation_lock_def then_do_def acquireOperationLock_def mkdir_exclusive_def mkdir_def
        may_fail_def existsPath_def with_lock_removed_def split: sum.splits prod.splits option.splits if_splits)
  from recovered_once [OF inner plain same] obtain p d1 where once: "archive = Some p" "?disk0 p = None"
      "disk1 = ?disk0(?a := None, p := Some (Dir d1))"
      "\<And>name. name \<noteq> ''recovery.json'' \<Longrightarrow> map_of d1 name = dir_files (?disk0 ?a) name"
      "\<And>disk2. disk2 p = Some (Dir d1) \<Longrightarrow> archived_recovery env ra i p disk2 = Inr ()"
    by blast
  have archive: "is_archive ?s p" using guards(3) once(1) recovery_archive_is_archive by blast
  then have apart: "p \<noteq> ?lock" "p \<noteq> ?a" using not_archive by metis+
  have final: "disk' = disk(?a := None, p := Some (Dir d1))"
    using disk' once(3) lock_free apart by (auto simp: fun_eq_iff)
  have "recover_under_lock env ra io' again i archive (disk'(?lock := Some (Dir [])))
      = (Inr True, disk'(?lock := Some (Dir [])))"
    using final apart once(1) once(5) [of "disk'(?lock := Some (Dir []))"]
    by (simp add: recover_under_lock_def existsPath_def)
  moreover have "disk' ?lock = None" using final lock_free apart by simp
  ultimately have "under_operation_lock io' ?s (recover_under_lock env ra io' again i archive) disk' = (Inr True, disk')"
    using lock by (simp add: under_operation_lock_def then_do_def acquireOperationLock_def mkdir_exclusive_def mkdir_def
        may_fail_def existsPath_def with_lock_removed_def fun_upd_idem)
  then have "recoverPreSelectionUploadLease env ra io' again i disk' = (Inr True, disk')"
    using guards by (simp add: recoverPreSelectionUploadLease_def then_do_def)
  with guards(3) once(1,2,4) final apart show thesis by (intro that [of p d1]) (auto split: if_splits)
qed

section \<open>A concrete recovery\<close>

definition demo_dead_env :: "js lease_env" where
  "demo_dead_env = demo_lease_env\<lparr> ue_process_active := (\<lambda>pid host. False) \<rparr>"

definition demo_adapters :: "js recovery_adapters" where
  "demo_adapters = \<lparr> ra_length = (\<lambda>_. 0), ra_date = (\<lambda>_. JNum 0), ra_resolve = (\<lambda>p. p), ra_uuid = ''x'',
     ra_empty = JNull, ra_owner_status = None \<rparr>"

definition demo_sha1 :: js where
  "demo_sha1 = JStr (replicate 40 CHR ''a'')"

definition demo_expected :: js where
  "demo_expected = JObj
     [(''leasePath'', JStr ''state.json.upload-lease''), (''leaseSha256'', JStr demo_hash),
      (''evidenceSha256'', JStr demo_hash), (''outerExecutionId'', JStr ''outer-1''),
      (''innerExecutionId'', JStr ''window-1''), (''repositorySha'', demo_sha1),
      (''incidentRepositorySha'', demo_sha1), (''stateSha256'', JStr demo_hash),
      (''bufferSha256'', JStr demo_hash), (''program'', JStr (replicate 32 CHR ''1'')),
      (''buffer'', JStr (replicate 32 CHR ''2'')), (''authority'', JStr (replicate 32 CHR ''3'')),
      (''candidateIndexes'', JArr [JNum 0]), (''zeroSend'', JBool True), (''deadOwner'', JBool True)]"

definition demo_dead_lease :: js where
  "demo_dead_lease = lease_metadata (demo_acquire\<lparr> ai_program := JStr (replicate 32 CHR ''1''),
     ai_buffer := JStr (replicate 32 CHR ''2'') \<rparr>)"

definition demo_stored_state :: js where
  "demo_stored_state = JObj
     [(''identities'', JObj [(''program'', JStr (replicate 32 CHR ''1''))]),
      (''deployment'', JObj [(''buffer'', JObj
         [(''publicKey'', JStr (replicate 32 CHR ''2'')), (''expectedAuthority'', JStr (replicate 32 CHR ''3'')),
          (''planFingerprint'', JStr demo_hash), (''expectedOwner'', JStr ''loader''), (''allocatedLength'', JNum 1),
          (''chunks'', JArr [JObj [(''index'', JNum 0), (''status'', JStr ''PLANNED''), (''signature'', JNull)]])])])]"

definition demo_manifest :: js where
  "demo_manifest = JObj
     [(''expectedRepositorySha'', demo_sha1), (''expectedStateSha'', JStr demo_hash),
      (''expectedBufferSha'', JStr demo_hash), (''expectedInvocations'', JNum 1),
      (''expectedCandidates'', JArr [JNum 0])]"

definition demo_projection :: js where
  "demo_projection = JObj [(''bytes'', JNum 0), (''sha256'', JStr demo_hash)]"

definition demo_outer :: "(string \<times> js) list" where
  "demo_outer =
     [(''authorization.json'', JObj
         [(''schemaVersion'', JStr ''UPLOAD_WINDOW_HOST_AUTHORIZATION_V2''), (''executionId'', JStr ''outer-1''),
          (''hostPid'', JNum 3), (''expectedInvocations'', JNum 1), (''retryAllowed'', JBool False),
          (''expectedManifest'', demo_manifest)]),
      (''invocation.json'', JObj
         [(''schemaVersion'', JStr ''UPLOAD_WINDOW_HOST_INVOCATION_V1''), (''executionId'', JStr ''outer-1''),
          (''hostPid'', JNum 3), (''childPid'', JNum 4), (''childSpawnCount'', JNum 1),
          (''retryOccurred'', JBool False)]),
      (''host-result.json'', JObj
         [(''schemaVersion'', JStr ''UPLOAD_WINDOW_HOST_RESULT_V2''), (''executionId'', JStr ''outer-1''),
          (''hostPid'', JNum 3), (''childPid'', JNum 4), (''expectedManifest'', demo_manifest),
          (''childSpawnCount'', JNum 1), (''childExitCode'', JNum 1), (''verdict'', JStr ''HOST_CHILD_NONZERO''),
          (''retryOccurred'', JBool False), (''innerTerminalStatus'', JStr ''VALID''),
          (''innerTerminalResult'', JObj
             [(''classification'', JStr ''UPLOAD_PROCESS_EXITED''), (''uploaderInvocationCount'', JNum 1)]),
          (''stdout'', demo_projection), (''stderr'', demo_projection)]),
      (''supervisor-stdout.log'', JObj
         [(''classification'', JStr ''UPLOAD_PROCESS_EXITED''), (''uploaderInvocationCount'', JNum 1),
          (''childExitCode'', JNum 1), (''cleanupCompleted'', JBool True)]),
      (''supervisor-stderr.log'', JObj [(''terminal'', JBool True), (''code'', JStr ''COMMAND_FAILED_SAFE'')])]"

definition demo_crashed :: "js disk" where
  "demo_crashed p =
     (if p = ''state.json'' then Some (File demo_stored_state)
      else if p = ''state.json.upload-lease'' then Some (Dir [(''lease.json'', demo_dead_lease),
        (''terminal.json'', terminal_record demo_terminal demo_lifecycle)])
      else if p = ''outer'' then Some (Dir demo_outer) else None)"

definition demo_recovery :: recovery_input where
  "demo_recovery = \<lparr> vi_statePath = ''state.json'', vi_expected = demo_expected,
     vi_observations = JObj
       [(''repositorySha'', demo_sha1), (''bufferDataSha256'', JStr demo_hash), (''programAbsent'', JBool True),
        (''confirmedChunksMatch'', JBool True), (''retainedProcessesClear'', JBool True),
        (''operationLockAbsent'', JBool True), (''incidentRepositoryIsAncestor'', JBool True),
        (''buffer'', JObj [(''address'', JStr (replicate 32 CHR ''2'')), (''owner'', JStr ''loader''),
           (''authority'', JStr (replicate 32 CHR ''3'')), (''allocation'', JNum 1)])],
     vi_outerEvidenceDirectory = ''outer'',
     vi_acknowledgement = JStr RECOVER_PRE_SELECTION_LEASE_ACKNOWLEDGEMENT,
     vi_recoveryHash = JStr demo_hash \<rparr>"

definition demo_recovered :: "bool result \<times> js disk" where
  "demo_recovered = recoverPreSelectionUploadLease demo_dead_env demo_adapters demo_io (Some Inr) demo_recovery demo_crashed"

abbreviation demo_locked :: "js disk" where
  "demo_locked \<equiv> demo_crashed(operationLockPath ''state.json'' := Some (Dir []))"

lemma demo_binding: "binding_check demo_dead_env demo_adapters demo_recovery = Inr ()"
  by code_simp

lemma demo_observations: "observation_check True demo_recovery demo_locked = Inr ()"
  by code_simp

lemma demo_zero_send:
  "zero_send_check demo_dead_env demo_adapters demo_recovery ''state.json.upload-lease'' demo_locked = Inr demo_dead_lease"
  by code_simp

lemma demo_evidence:
  "evidence_check demo_dead_env demo_expected ''state.json.upload-lease'' [''lease.json'', ''terminal.json''] demo_locked
    = Inr ''terminal''"
  by code_simp

lemma demo_outer_evidence:
  "case readOuterPreSelectionEvidence demo_dead_env demo_adapters ''outer'' demo_expected demo_dead_lease demo_locked of
     Inr v \<Rightarrow> True | Inl r \<Rightarrow> False"
  by code_simp

lemma demo_archive_hash:
  "archiveEvidenceHash demo_dead_env demo_adapters ''state.json.upload-lease'' [''lease.json'', ''terminal.json''] demo_locked
    = Inr demo_hash"
  by code_simp

definition demo_fresh_recovery :: pre_eligible where
  "demo_fresh_recovery = \<lparr> pe_recoveryHash = demo_hash, pe_archiveEvidenceSha256 = demo_hash \<rparr>"

lemma demo_hashes: "canonicalHash demo_dead_env domain v = demo_hash"
  by (simp add: canonicalHash_def demo_dead_env_def demo_lease_env_def)

lemma demo_names: "read_names ''state.json.upload-lease'' demo_locked = Inr [''lease.json'', ''terminal.json'']"
  "lease_names_ok [''lease.json'', ''terminal.json'']"
  by code_simp+

lemma demo_files:
  "returns (fileProjection demo_dead_env demo_adapters ''state.json.upload-lease''
     [''lease.json'', ''terminal.json''] demo_locked)"
  by code_simp

lemma demo_reconciled:
  "reconcilePreSelectionUploadLease demo_dead_env demo_adapters True demo_recovery demo_locked = Inr demo_fresh_recovery"
proof -
  obtain outerFiles where outer:
    "readOuterPreSelectionEvidence demo_dead_env demo_adapters ''outer'' demo_expected demo_dead_lease demo_locked = Inr outerFiles"
    using demo_outer_evidence by (auto split: sum.splits)
  obtain leaseFiles where lease:
    "fileProjection demo_dead_env demo_adapters ''state.json.upload-lease'' [''lease.json'', ''terminal.json''] demo_locked
      = Inr leaseFiles"
    using demo_files by (auto simp: returns_iff)
  have inputs: "vi_expected demo_recovery = demo_expected" "vi_outerEvidenceDirectory demo_recovery = ''outer''"
    "text_of (get demo_expected ''leasePath'') = ''state.json.upload-lease''"
    by (simp_all add: demo_recovery_def demo_expected_def text_of_def)
  have names: "without_receipt [''lease.json'', ''terminal.json''] = [''lease.json'', ''terminal.json'']"
    by (simp add: without_receipt_def)
  note stages = demo_binding demo_observations demo_zero_send demo_evidence outer lease demo_archive_hash demo_names
    inputs names demo_hashes
  show ?thesis
    by (simp add: reconcilePreSelectionUploadLease_def recovery_documents_def telemetry_check_def stages
        attempt_def refuse_unless_def Let_def demo_fresh_recovery_def del: fun_upd_apply)
qed

definition demo_archive_path :: path where
  "demo_archive_path = archive_directory ''state.json'' ''window-1'' demo_hash"

lemma demo_archive_paths: "recovery_archive demo_recovery = Inr (Some demo_archive_path)"
  by code_simp

definition demo_receipt :: js where
  "demo_receipt = recovery_receipt demo_dead_env demo_expected (JStr demo_hash) demo_fresh_recovery"

lemma demo_receipt_complete:
  "completeRecoveryReceipt (json_norm (sortedJsonValue demo_receipt)) demo_expected (JStr demo_hash) demo_hash"
  by code_simp

text \<open>The disk after the receipt and after the move.\<close>

abbreviation demo_with_receipt :: "js disk" where
  "demo_with_receipt \<equiv> demo_locked(''state.json.upload-lease'' := Some (Dir
     [(''lease.json'', demo_dead_lease), (''terminal.json'', terminal_record demo_terminal demo_lifecycle),
      (''recovery.json'', json_norm (sortedJsonValue demo_receipt))]))"

lemma demo_stored:
  "store_recovery_receipt demo_dead_env demo_adapters demo_io demo_recovery ''state.json.upload-lease''
     demo_fresh_recovery demo_locked = (Inr (), demo_with_receipt)"
  by (simp add: store_recovery_receipt_def write_canonical_in_def canonical_body_def Let_def demo_io_def
      demo_crashed_def operationLockPath_def set_file_in_def set_entry_def flushDirectory_def
      demo_receipt_def demo_recovery_def demo_dead_env_def demo_lease_env_def demo_adapters_def fun_eq_iff)

lemma demo_moved:
  "fst (move_recovered demo_dead_env demo_adapters demo_io demo_recovery ''state.json.upload-lease''
     (Some demo_archive_path) demo_fresh_recovery demo_with_receipt) = Inr False"
  by code_simp

lemma demo_recover:
  "fst (recover_under_lock demo_dead_env demo_adapters demo_io (Some Inr) demo_recovery (Some demo_archive_path) demo_locked)
    = Inr False"
proof -
  have path: "lease_directory (vi_statePath demo_recovery) = ''state.json.upload-lease''"
    by (simp add: lease_directory_def demo_recovery_def)
  have places: "existsPath ''state.json.upload-lease'' demo_locked" "\<not> existsPath demo_archive_path demo_locked"
    by code_simp+
  have fresh: "fresh_recovery demo_dead_env demo_adapters (Some Inr) demo_recovery demo_locked = Inr demo_fresh_recovery"
    by (simp add: fresh_recovery_def same_binding_def demo_reconciled del: fun_upd_apply)
      (simp add: demo_fresh_recovery_def demo_recovery_def)
  have mkdir: "mkdir_recursive demo_io Make_Archive_Root disk = (Inr (), disk)" for disk
    by (simp add: mkdir_recursive_def may_fail_def demo_io_def)
  show ?thesis
    using demo_moved by (simp add: recover_under_lock_def Let_def path places fresh mkdir demo_stored del: fun_upd_apply)
qed

lemma demo_recovered_ok: "fst demo_recovered = Inr False"
proof -
  have lock: "acquireOperationLock demo_io ''state.json'' demo_crashed = (Inr (), demo_locked)"
    by (simp add: acquireOperationLock_def mkdir_exclusive_def mkdir_def may_fail_def demo_io_def existsPath_def
        demo_crashed_def operationLockPath_def fun_eq_iff)
  have guards: "vi_acknowledgement demo_recovery = JStr RECOVER_PRE_SELECTION_LEASE_ACKNOWLEDGEMENT"
    "assertEvidenceHash (vi_recoveryHash demo_recovery) ''matching pre-selection recovery hash'' = Inr ()"
    "vi_statePath demo_recovery = ''state.json''"
    by (simp add: demo_recovery_def, code_simp, simp add: demo_recovery_def)
  show ?thesis
    using demo_recover
    by (simp add: demo_recovered_def recoverPreSelectionUploadLease_def guards demo_archive_paths
        under_operation_lock_def lock with_lock_removed_def demo_io_def [THEN arg_cong [where f = li_fails]]
        split_beta del: fun_upd_apply)
qed

section \<open>The property\<close>

text \<open>C35: A recovery moves the evidence of a dead upload to the archive, and nothing else.  When it
  returns, for the first time, the lease is free and stands in a place of the archive that was free,
  under its execution id and the hash the operator confirmed; every file of the lease is there with the
  bytes it had, together with a receipt; no other path of the disk has changed, the state file
  included.  The same call again, with whatever observations, finds the archive complete, changes
  nothing and answers that the lease was recovered before.\<close>

theorem recovery_archives_the_evidence:
  assumes "plain_adapters ra (vi_statePath i)" and "keeps_expected refresh i"
    and "recoverPreSelectionUploadLease env ra io (Some refresh) i disk = (Inr False, disk')"
    and "li_fails io' Make_Lock = None" and "li_fails io' Remove_Lock = None"
  shows "\<exists>p. recovery_archive i = Inr (Some p) \<and> disk p = None
    \<and> disk' (lease_directory (vi_statePath i)) = None
    \<and> (\<forall>name. name \<noteq> ''recovery.json'' \<longrightarrow>
          dir_files (disk' p) name = dir_files (disk (lease_directory (vi_statePath i))) name)
    \<and> (\<forall>q. q \<noteq> p \<longrightarrow> q \<noteq> lease_directory (vi_statePath i) \<longrightarrow> disk' q = disk q)
    \<and> recoverPreSelectionUploadLease env ra io' again i disk' = (Inr True, disk')"
proof -
  obtain p d1 where done1: "recovery_archive i = Inr (Some p)" "disk p = None"
    "disk' = disk(lease_directory (vi_statePath i) := None, p := Some (Dir d1))"
    "\<And>name. name \<noteq> ''recovery.json'' \<Longrightarrow>
       map_of d1 name = dir_files (disk (lease_directory (vi_statePath i))) name"
    "recoverPreSelectionUploadLease env ra io' again i disk' = (Inr True, disk')"
    using recovered [OF assms(3,1,2,4,5), where again = again] by blast
  have "p \<noteq> lease_directory (vi_statePath i)"
    using recovery_archive_is_archive [OF done1(1)] not_archive(2) by metis
  then show ?thesis using done1 by (intro exI [of _ p]) auto
qed

theorem recovery_archives_the_evidence_witness:
  "fst (recoverPreSelectionUploadLease demo_dead_env demo_adapters demo_io None demo_recovery (snd demo_recovered)) = Inr True
   \<and> snd demo_recovered ''state.json.upload-lease'' = None"
proof -
  have call: "recoverPreSelectionUploadLease demo_dead_env demo_adapters demo_io (Some Inr) demo_recovery demo_crashed
      = (Inr False, snd demo_recovered)"
    using demo_recovered_ok unfolding demo_recovered_def by (metis prod.collapse)
  have "plain_adapters demo_adapters (vi_statePath demo_recovery)" "keeps_expected Inr demo_recovery"
    "li_fails demo_io Make_Lock = None" "li_fails demo_io Remove_Lock = None"
    by (simp_all add: plain_adapters_def demo_adapters_def keeps_expected_def demo_io_def)
  from recovery_archives_the_evidence [OF this(1,2) call this(3,4), where again = None] show ?thesis
    by (auto simp: lease_directory_def demo_recovery_def)
qed

end
