(* ===== verification/Candidate_Evidence.thy ===== *)
theory Candidate_Evidence imports Throttled_Uploader Terminal_Evidence begin

text \<open>
  \<open>scripts/devnet/candidate-evidence.mjs\<close>: the document that fixes which chunks a window may
  write, its canonical bytes and their digest.

  SHA-256 of bytes and of texts, the parser of the state and the text of a number are parameters; a
  text is its bytes, all of them ASCII here.
\<close>

section \<open>JSON texts\<close>

definition hex_digit :: "nat \<Rightarrow> char" where
  "hex_digit d = (if d < 10 then char_of (48 + d) else char_of (87 + d))"

definition json_char :: "char \<Rightarrow> string" where
  "json_char c =
     (let n = of_char c :: nat in
      if c = CHR 0x22 \<or> c = CHR 0x5C then [CHR 0x5C, c]
      else if n = 8 then [CHR 0x5C, CHR ''b''] else if n = 9 then [CHR 0x5C, CHR ''t'']
      else if n = 10 then [CHR 0x5C, CHR ''n''] else if n = 12 then [CHR 0x5C, CHR ''f'']
      else if n = 13 then [CHR 0x5C, CHR ''r'']
      else if n < 32 then CHR 0x5C # ''u00'' @ [hex_digit (n div 16), hex_digit (n mod 16)]
      else [c])"

definition json_quote :: "string \<Rightarrow> string" where
  "json_quote s = CHR 0x22 # concat (map json_char s) @ [CHR 0x22]"

fun comma_joined :: "string list \<Rightarrow> string" where
  "comma_joined [] = []"
| "comma_joined [s] = s"
| "comma_joined (s # ss) = s @ CHR '','' # comma_joined ss"

text \<open>\<open>`${JSON.stringify(v)}`\<close>: an absent value prints as \<open>undefined\<close>, inside an array as
  \<open>null\<close>, and an absent property is left out.\<close>

fun json_text :: "(rat \<Rightarrow> string) \<Rightarrow> js \<Rightarrow> string" where
  "json_text number_text Undefined = ''undefined''"
| "json_text number_text JNull = ''null''"
| "json_text number_text (JBool b) = (if b then ''true'' else ''false'')"
| "json_text number_text (JNum r) = number_text r"
| "json_text number_text JNonFinite = ''null''"
| "json_text number_text (JStr s) = json_quote s"
| "json_text number_text (JArr vs) =
     ''['' @ comma_joined (map (\<lambda>v. if v = Undefined then ''null'' else json_text number_text v) vs) @ '']''"
| "json_text number_text (JObj kvs) =
     ''{'' @ comma_joined (map (\<lambda>(k, v). json_quote k @ '':'' @ json_text number_text v)
       (filter (\<lambda>(k, v). v \<noteq> Undefined) kvs)) @ ''}''"

section \<open>The schema\<close>

definition CANDIDATE_EVIDENCE_SCHEMA :: string where
  "CANDIDATE_EVIDENCE_SCHEMA = ''R4_CANDIDATE_EVIDENCE_V1''"

definition CANDIDATE_EVIDENCE_DOMAIN :: string where
  "CANDIDATE_EVIDENCE_DOMAIN = ''R4_CANDIDATE_EVIDENCE_V1''"

text \<open>\<open>/^[1-9A-HJ-NP-Za-km-z]{1,128}$/\<close>.\<close>

definition is_base58_char :: "char \<Rightarrow> bool" where
  "is_base58_char c =
     (let n = of_char c :: nat in
      (49 \<le> n \<and> n \<le> 57) \<or> (65 \<le> n \<and> n \<le> 90 \<and> n \<noteq> 73 \<and> n \<noteq> 79) \<or> (97 \<le> n \<and> n \<le> 122 \<and> n \<noteq> 108))"

definition signature_text :: "string \<Rightarrow> bool" where
  "signature_text s \<longleftrightarrow> 1 \<le> length s \<and> length s \<le> 128 \<and> list_all is_base58_char s"

definition CANDIDATE_STATES :: "string list" where
  "CANDIDATE_STATES = [''PLANNED'', ''SENT'', ''UNKNOWN'', ''CONFIRMED'', ''FAILED'']"

definition TOP_LEVEL_KEYS :: "string list" where
  "TOP_LEVEL_KEYS = [''schema'', ''stateSha256'', ''binarySha256'', ''planFingerprint'', ''candidateCount'', ''candidates'']"

definition BUILD_KEYS :: "string list" where
  "BUILD_KEYS = [''stateSha256'', ''binarySha256'', ''planFingerprint'', ''candidates'']"

definition CANDIDATE_KEYS :: "string list" where
  "CANDIDATE_KEYS = [''index'', ''offset'', ''length'', ''payloadSha256'', ''serializedTransactionBytes'',
     ''expectedState'', ''expectedSignature'']"

definition assertHash :: "(rat \<Rightarrow> string) \<Rightarrow> js \<Rightarrow> string \<Rightarrow> unit result" where
  "assertHash nt v label = guard (regex_test nt hex64 v) (label @ '' must be a lowercase SHA-256'')"

text \<open>\<open>SIGNATURE.test(v)\<close>.\<close>

definition signature_test :: "(rat \<Rightarrow> string) \<Rightarrow> js \<Rightarrow> bool" where
  "signature_test nt v \<longleftrightarrow> signature_text (js_text nt v)"

definition validateCandidate :: "(rat \<Rightarrow> string) \<Rightarrow> js \<Rightarrow> unit result" where
  "validateCandidate nt candidate =
     (let c = get candidate in
      and_then (guard (exact_keys candidate CANDIDATE_KEYS) ''candidate evidence candidate schema mismatch'') (\<lambda>_.
      and_then (for_each (\<lambda>key. guard (is_safe_integer (c key)
            \<and> (if key = ''length'' then 1 else 0) \<le> num_of (c key)) (''candidate evidence '' @ key @ '' is invalid''))
          [''index'', ''offset'', ''length'', ''serializedTransactionBytes'']) (\<lambda>_.
      and_then (guard (1 \<le> num_of (c ''serializedTransactionBytes''))
        ''candidate evidence serialized transaction size is invalid'') (\<lambda>_.
      and_then (assertHash nt (c ''payloadSha256'') ''candidate evidence payload hash'') (\<lambda>_.
      and_then (guard (str_in (c ''expectedState'') CANDIDATE_STATES)
        ''candidate evidence expected state is invalid'') (\<lambda>_.
      guard (c ''expectedSignature'' = JNull \<or> signature_test nt (c ''expectedSignature''))
        ''candidate evidence expected signature is invalid''))))))"

definition assert_hashes :: "(rat \<Rightarrow> string) \<Rightarrow> js \<Rightarrow> unit result" where
  "assert_hashes nt v =
     and_then (assertHash nt (get v ''stateSha256'') ''candidate evidence state hash'') (\<lambda>_.
     and_then (assertHash nt (get v ''binarySha256'') ''candidate evidence binary hash'') (\<lambda>_.
     assertHash nt (get v ''planFingerprint'') ''candidate evidence plan fingerprint''))"

text \<open>The loop over the candidates of a document; \<open>previousIndex\<close> is its variable.\<close>

fun validate_candidates :: "(rat \<Rightarrow> string) \<Rightarrow> rat \<Rightarrow> js list \<Rightarrow> unit result" where
  "validate_candidates nt previousIndex [] = Inr ()"
| "validate_candidates nt previousIndex (c # cs) =
     and_then (validateCandidate nt c) (\<lambda>_.
     let index = num_of (get c ''index'') in
     if index \<le> previousIndex
     then throw (if index = previousIndex then ''candidate evidence contains a duplicate index''
                 else ''candidate evidence candidates must be in ascending sorted order'')
     else validate_candidates nt index cs)"

definition validateEvidence :: "(rat \<Rightarrow> string) \<Rightarrow> js \<Rightarrow> unit result" where
  "validateEvidence nt evidence =
     (let e = get evidence in
      and_then (guard (exact_keys evidence TOP_LEVEL_KEYS \<and> e ''schema'' = JStr CANDIDATE_EVIDENCE_SCHEMA)
        ''candidate evidence schema mismatch'') (\<lambda>_.
      and_then (assert_hashes nt evidence) (\<lambda>_.
      and_then (guard (is_safe_integer (e ''candidateCount'') \<and> 1 \<le> num_of (e ''candidateCount'')
          \<and> (case e ''candidates'' of JArr vs \<Rightarrow> e ''candidateCount'' = JNat (length vs) | _ \<Rightarrow> False))
        ''candidate evidence count is invalid'') (\<lambda>_.
      validate_candidates nt (- 1) (elements (e ''candidates''))))))"

section \<open>Building\<close>

definition canonical_candidate :: "js \<Rightarrow> js" where
  "canonical_candidate c = JObj (map (\<lambda>k. (k, get c k)) CANDIDATE_KEYS)"

fun no_duplicate_index :: "js list \<Rightarrow> bool" where
  "no_duplicate_index (c # d # cs) \<longleftrightarrow> get c ''index'' \<noteq> get d ''index'' \<and> no_duplicate_index (d # cs)"
| "no_duplicate_index _ \<longleftrightarrow> True"

definition evidence_document :: "js \<Rightarrow> js list \<Rightarrow> js" where
  "evidence_document v candidates =
     JObj [(''schema'', JStr CANDIDATE_EVIDENCE_SCHEMA), (''stateSha256'', get v ''stateSha256''),
       (''binarySha256'', get v ''binarySha256''), (''planFingerprint'', get v ''planFingerprint''),
       (''candidateCount'', JNat (length candidates)), (''candidates'', JArr candidates)]"

definition buildCandidateEvidence :: "(rat \<Rightarrow> string) \<Rightarrow> js \<Rightarrow> js result" where
  "buildCandidateEvidence nt v =
     and_then (guard (exact_keys v BUILD_KEYS \<and> is_array (get v ''candidates''))
       ''candidate evidence build input schema mismatch'') (\<lambda>_.
     and_then (assert_hashes nt v) (\<lambda>_.
     and_then (map_result (\<lambda>c. and_then (validateCandidate nt c) (\<lambda>_. Inr (canonical_candidate c)))
         (elements (get v ''candidates''))) (\<lambda>cs.
     let candidates = sort_key (\<lambda>c. num_of (get c ''index'')) cs in
     and_then (guard (no_duplicate_index candidates) ''candidate evidence contains a duplicate index'') (\<lambda>_.
     Inr (evidence_document v candidates)))))"

record candidate_env =
  cd_number_text :: "rat \<Rightarrow> string"
  cd_sha_bytes :: "bytes \<Rightarrow> string"
  cd_sha_text :: "string \<Rightarrow> string"
  cd_parse :: "bytes \<Rightarrow> js result"
  cd_tx :: tx_env

definition upload_candidate :: "candidate_env \<Rightarrow> bytes \<Rightarrow> string \<Rightarrow> string \<Rightarrow> js list \<Rightarrow> js \<Rightarrow> js result" where
  "upload_candidate env binary buffer authority records index =
     (let record_at = nth_or_undefined records (nat \<lfloor>num_of index\<rfloor>); r = get record_at;
          offset = nat \<lfloor>num_of (r ''offset'')\<rfloor>; len = nat \<lfloor>num_of (r ''length'')\<rfloor> in
      and_then (guard (r ''index'' = index
          \<and> is_safe_integer (r ''offset'') \<and> 0 \<le> num_of (r ''offset'')
          \<and> is_safe_integer (r ''length'') \<and> 1 \<le> num_of (r ''length'')
          \<and> num_of (r ''offset'') + num_of (r ''length'') \<le> of_nat (length binary))
        ''candidate evidence state candidate is invalid'') (\<lambda>_.
      let payload = subarray binary offset (offset + len); payloadSha256 = cd_sha_bytes env payload in
      and_then (guard (JStr payloadSha256 = r ''sha256'') ''candidate evidence payload hash mismatch'') (\<lambda>_.
      and_then (serializedWriteTransactionSize (cd_tx env) buffer authority offset payload) (\<lambda>size.
      Inr (JObj [(''index'', r ''index''), (''offset'', r ''offset''), (''length'', r ''length''),
        (''payloadSha256'', JStr payloadSha256), (''serializedTransactionBytes'', JNat size),
        (''expectedState'', r ''status''), (''expectedSignature'', r ''signature'')])))))"

definition buildCandidateEvidenceFromUploadInputs ::
    "candidate_env \<Rightarrow> bytes \<Rightarrow> bytes \<Rightarrow> js \<Rightarrow> string \<Rightarrow> string \<Rightarrow> js result" where
  "buildCandidateEvidenceFromUploadInputs env stateBytes binary candidateIndexes buffer authority =
     (case cd_parse env stateBytes of
        Inl e \<Rightarrow> throw ''candidate evidence state JSON is invalid''
      | Inr state \<Rightarrow>
          (let b = get (buffer_of state) in
           and_then (guard (get state ''schemaVersion'' = JNum 3 \<and> is_array (b ''chunks'')
               \<and> regex_test (cd_number_text env) hex64 (b ''planFingerprint'')
               \<and> (case candidateIndexes of JArr vs \<Rightarrow> vs \<noteq> [] \<and> increasing_indexes None vs | _ \<Rightarrow> False))
             ''candidate evidence canonical upload inputs are invalid'') (\<lambda>_.
           and_then (map_result (upload_candidate env binary buffer authority (elements (b ''chunks'')))
               (elements candidateIndexes)) (\<lambda>candidates.
           buildCandidateEvidence (cd_number_text env)
             (JObj [(''stateSha256'', JStr (cd_sha_bytes env stateBytes)),
                (''binarySha256'', JStr (cd_sha_bytes env binary)),
                (''planFingerprint'', b ''planFingerprint''), (''candidates'', JArr candidates)])))))"

section \<open>Canonical bytes\<close>

text \<open>\<open>`${n}`\<close> of a safe integer that is not negative.\<close>

definition index_text :: "js \<Rightarrow> string" where
  "index_text v = show_nat (nat \<lfloor>num_of v\<rfloor>)"

definition field_text :: "string \<Rightarrow> string \<Rightarrow> string" where
  "field_text k t = CHR 0x22 # k @ CHR 0x22 # '':'' @ t"

definition candidate_text :: "(rat \<Rightarrow> string) \<Rightarrow> js \<Rightarrow> string" where
  "candidate_text nt candidate =
     (let c = get candidate in
      ''{'' @ field_text ''index'' (index_text (c ''index'')) @ '','' @ field_text ''offset'' (index_text (c ''offset''))
      @ '','' @ field_text ''length'' (index_text (c ''length''))
      @ '','' @ field_text ''payloadSha256'' (json_text nt (c ''payloadSha256''))
      @ '','' @ field_text ''serializedTransactionBytes'' (index_text (c ''serializedTransactionBytes''))
      @ '','' @ field_text ''expectedState'' (json_text nt (c ''expectedState''))
      @ '','' @ field_text ''expectedSignature'' (json_text nt (c ''expectedSignature'')) @ ''}'')"

definition evidence_text :: "(rat \<Rightarrow> string) \<Rightarrow> js \<Rightarrow> string" where
  "evidence_text nt evidence =
     (let e = get evidence in
      ''{'' @ field_text ''schema'' (json_text nt (e ''schema''))
      @ '','' @ field_text ''stateSha256'' (json_text nt (e ''stateSha256''))
      @ '','' @ field_text ''binarySha256'' (json_text nt (e ''binarySha256''))
      @ '','' @ field_text ''planFingerprint'' (json_text nt (e ''planFingerprint''))
      @ '','' @ field_text ''candidateCount'' (index_text (e ''candidateCount''))
      @ '','' @ field_text ''candidates''
          (''['' @ comma_joined (map (candidate_text nt) (elements (e ''candidates''))) @ '']'') @ ''}'')"

definition canonicalCandidateEvidenceBytes :: "(rat \<Rightarrow> string) \<Rightarrow> js \<Rightarrow> string result" where
  "canonicalCandidateEvidenceBytes nt evidence =
     and_then (validateEvidence nt evidence) (\<lambda>_.
       Inr (CANDIDATE_EVIDENCE_DOMAIN @ CHR 0x00 # evidence_text nt evidence))"

definition candidateEvidenceSha256 :: "candidate_env \<Rightarrow> js \<Rightarrow> string result" where
  "candidateEvidenceSha256 env evidence =
     and_then (canonicalCandidateEvidenceBytes (cd_number_text env) evidence) (\<lambda>text.
       Inr (cd_sha_text env text))"

definition verifyCandidateEvidenceDigest :: "candidate_env \<Rightarrow> js \<Rightarrow> js \<Rightarrow> bool result" where
  "verifyCandidateEvidenceDigest env evidence expectedSha256 =
     and_then (assertHash (cd_number_text env) expectedSha256 ''expected candidate evidence hash'') (\<lambda>_.
     and_then (candidateEvidenceSha256 env evidence) (\<lambda>digest.
       Inr (strict_equal (JStr digest) expectedSha256)))"

section \<open>The bytes determine the document\<close>

lemma quote_free_cancel:
  "x \<notin> set s \<Longrightarrow> x \<notin> set s' \<Longrightarrow> s @ x # t = s' @ x # t' \<longleftrightarrow> s = s' \<and> t = t'"
  by (induction s arbitrary: s') (case_tac s'; auto)+

lemma digit_value_char: "d < 10 \<Longrightarrow> digit_value (digit_char d) = d"
  by (simp add: digit_value_def digit_char_def)

lemma digits_value_snoc: "digits_value (ds @ [c]) = 10 * digits_value ds + digit_value c"
  by (simp add: digits_value_def)

lemma digits_value_show_nat: "digits_value (show_nat n) = n"
proof (induction n rule: show_nat.induct)
  case (1 n)
  show ?case
  proof (cases "n < 10")
    case True
    then show ?thesis by (simp add: show_nat.simps [of n] digits_value_def digit_value_char)
  next
    case False
    with 1 have "digits_value (show_nat n) = 10 * (n div 10) + n mod 10"
      by (subst show_nat.simps) (simp add: digits_value_snoc digit_value_char)
    then show ?thesis by simp
  qed
qed

lemma show_nat_inject: "show_nat m = show_nat n \<longleftrightarrow> m = n"
  by (metis digits_value_show_nat)

lemma number_cancel:
  assumes "\<not> (48 \<le> (of_char c :: nat) \<and> (of_char c :: nat) \<le> 57)"
  shows "show_nat m @ c # t = show_nat n @ c # t' \<longleftrightarrow> m = n \<and> t = t'"
proof -
  have "c \<notin> set (show_nat k)" for k using assms show_nat_chars by blast
  then show ?thesis by (simp add: quote_free_cancel show_nat_inject)
qed

text \<open>Texts that are quoted as they are.\<close>

definition plain_char :: "char \<Rightarrow> bool" where
  "plain_char c \<longleftrightarrow> c \<noteq> CHR 0x22 \<and> c \<noteq> CHR 0x5C \<and> 32 \<le> (of_char c :: nat)"

lemma json_quote_plain: "list_all plain_char s \<Longrightarrow> json_quote s = CHR 0x22 # s @ [CHR 0x22]"
proof -
  assume "list_all plain_char s"
  then have "concat (map json_char s) = s"
    by (induction s) (auto simp: json_char_def plain_char_def Let_def)
  then show ?thesis by (simp add: json_quote_def)
qed

lemma quoted_cancel:
  assumes "list_all plain_char s" and "list_all plain_char s'"
  shows "json_quote s @ t = json_quote s' @ t' \<longleftrightarrow> s = s' \<and> t = t'"
proof -
  have "CHR 0x22 \<notin> set s" "CHR 0x22 \<notin> set s'" using assms by (auto simp: list_all_iff plain_char_def)
  with assms show ?thesis by (simp add: json_quote_plain quote_free_cancel)
qed

lemma alnum_plain: "48 \<le> (of_char c :: nat) \<Longrightarrow> (of_char c :: nat) \<le> 57 \<or> 97 \<le> (of_char c :: nat) \<Longrightarrow> plain_char c"
  by (auto simp: plain_char_def)

lemma hex64_plain: "hex64 s \<Longrightarrow> list_all plain_char s"
  by (auto simp: hex64_def list_all_iff is_hex_char_def Let_def intro!: alnum_plain)

lemma signature_plain: "signature_text s \<Longrightarrow> list_all plain_char s"
  by (auto simp: signature_text_def list_all_iff is_base58_char_def Let_def plain_char_def)

lemma states_plain: "st \<in> set CANDIDATE_STATES \<Longrightarrow> list_all plain_char st"
  by (auto simp: CANDIDATE_STATES_def plain_char_def)

lemma comma_joined_cancel:
  assumes head: "\<And>x. x \<in> set xs \<union> set ys \<Longrightarrow> \<exists>r. f x = CHR ''{'' # r"
    and cancel: "\<And>x y t t'. x \<in> set xs \<Longrightarrow> y \<in> set ys \<Longrightarrow> f x @ t = f y @ t' \<Longrightarrow> x = y \<and> t = t'"
    and "comma_joined (map f xs) @ CHR '']'' # t = comma_joined (map f ys) @ CHR '']'' # t'"
  shows "xs = ys \<and> t = t'"
  using assms
proof (induction xs arbitrary: ys)
  case Nil
  show ?case
  proof (cases ys)
    case (Cons y zs)
    with Nil.prems(1) [of y] obtain r where "f y = CHR ''{'' # r" by auto
    with Nil.prems(3) Cons show ?thesis by (cases zs) auto
  qed (use Nil.prems in simp)
next
  case (Cons x xs)
  show ?case
  proof (cases ys)
    case Nil
    with Cons.prems(1) [of x] obtain r where "f x = CHR ''{'' # r" by auto
    with Cons.prems(3) Nil show ?thesis by (cases xs) auto
  next
    case ys: (Cons y zs)
    have split_join: "comma_joined (map f (a # as)) @ u = f a @ (if as = [] then u else CHR '','' # comma_joined (map f as) @ u)"
      for a as u by (cases as) auto
    have "f x @ (if xs = [] then CHR '']'' # t else CHR '','' # comma_joined (map f xs) @ CHR '']'' # t)
        = f y @ (if zs = [] then CHR '']'' # t' else CHR '','' # comma_joined (map f zs) @ CHR '']'' # t')"
      using Cons.prems(3) unfolding ys split_join .
    from Cons.prems(2) [OF _ _ this] ys have "x = y"
      "(if xs = [] then CHR '']'' # t else CHR '','' # comma_joined (map f xs) @ CHR '']'' # t)
        = (if zs = [] then CHR '']'' # t' else CHR '','' # comma_joined (map f zs) @ CHR '']'' # t')"
      by auto
    note tail = this
    show ?thesis
    proof (cases "xs = [] \<or> zs = []")
      case True
      with tail ys show ?thesis by (auto split: if_splits)
    next
      case False
      with tail(2) have "comma_joined (map f xs) @ CHR '']'' # t = comma_joined (map f zs) @ CHR '']'' # t'" by simp
      then have "xs = zs \<and> t = t'"
        using ys by (intro Cons.IH Cons.prems(1,2)) auto
      with tail(1) ys show ?thesis by simp
    qed
  qed
qed

text \<open>A candidate of a document that was built, with texts where texts are meant.\<close>

inductive plain_candidate :: "js \<Rightarrow> bool" where
  "hex64 p \<Longrightarrow> st \<in> set CANDIDATE_STATES \<Longrightarrow> sig = JNull \<or> (\<exists>s. sig = JStr s \<and> signature_text s) \<Longrightarrow>
   plain_candidate (JObj [(''index'', JNat i), (''offset'', JNat off), (''length'', JNat len),
     (''payloadSha256'', JStr p), (''serializedTransactionBytes'', JNat n),
     (''expectedState'', JStr st), (''expectedSignature'', sig)])"

inductive_cases plain_candidateE: "plain_candidate c"

lemma signature_cancel:
  assumes "sig = JNull \<or> (\<exists>s. sig = JStr s \<and> signature_text s)"
    and "sig' = JNull \<or> (\<exists>s. sig' = JStr s \<and> signature_text s)"
  shows "json_text nt sig @ t = json_text nt sig' @ t' \<longleftrightarrow> sig = sig' \<and> t = t'"
proof -
  have apart: "json_text nt JNull @ t \<noteq> json_text nt (JStr s) @ t'" "json_text nt (JStr s) @ t \<noteq> json_text nt JNull @ t'"
    for s by (simp_all add: json_quote_def)
  from assms show ?thesis
  proof (elim disjE exE conjE)
    fix s s' assume "sig = JStr s" "signature_text s" "sig' = JStr s'" "signature_text s'"
    then show ?thesis using quoted_cancel [OF signature_plain signature_plain, of s s' t t'] by simp
  qed (use apart in auto)
qed

lemma candidate_text_cancel:
  assumes "plain_candidate c" and "plain_candidate d" and "candidate_text nt c @ t = candidate_text nt d @ t'"
  shows "c = d \<and> t = t'"
  using assms(1,2)
proof (elim plain_candidateE)
  fix p st sig i off len n and p' st' sig' i' off' len' n'
  assume c: "c = JObj [(''index'', JNat i), (''offset'', JNat off), (''length'', JNat len),
     (''payloadSha256'', JStr p), (''serializedTransactionBytes'', JNat n),
     (''expectedState'', JStr st), (''expectedSignature'', sig)]"
    "hex64 p" "st \<in> set CANDIDATE_STATES" "sig = JNull \<or> (\<exists>s. sig = JStr s \<and> signature_text s)"
   and d: "d = JObj [(''index'', JNat i'), (''offset'', JNat off'), (''length'', JNat len'),
     (''payloadSha256'', JStr p'), (''serializedTransactionBytes'', JNat n'),
     (''expectedState'', JStr st'), (''expectedSignature'', sig')]"
    "hex64 p'" "st' \<in> set CANDIDATE_STATES" "sig' = JNull \<or> (\<exists>s. sig' = JStr s \<and> signature_text s)"
  note cancel = number_cancel quoted_cancel [OF hex64_plain [OF c(2)] hex64_plain [OF d(2)]]
    quoted_cancel [OF states_plain [OF c(3)] states_plain [OF d(3)]] signature_cancel [OF c(4) d(4)]
  show ?thesis
    using assms(3)
    by (simp add: c(1) d(1) candidate_text_def field_text_def index_text_def Let_def cancel)
qed

section \<open>Documents that were built\<close>

text \<open>The hashes and signatures of the input are texts, as the state and the caller give them; the
  checks of the code alone would take a number or an array of one text too.\<close>

definition text_fields :: "js \<Rightarrow> bool" where
  "text_fields v \<longleftrightarrow>
     list_all (\<lambda>k. is_text (get v k)) [''stateSha256'', ''binarySha256'', ''planFingerprint'']
     \<and> list_all (\<lambda>c. is_text (get c ''payloadSha256'')
          \<and> (get c ''expectedSignature'' = JNull \<or> is_text (get c ''expectedSignature'')))
        (elements (get v ''candidates''))"

lemma is_textE: "is_text v \<Longrightarrow> (\<And>s. v = JStr s \<Longrightarrow> thesis) \<Longrightarrow> thesis"
  by (cases v) (auto simp: is_text_def)

lemma safe_index: "is_safe_integer v \<Longrightarrow> 0 \<le> num_of v \<Longrightarrow> \<exists>n. v = JNat n"
proof -
  assume "is_safe_integer v" "0 \<le> num_of v"
  then have "is_integer v" "0 \<le> (case v of JNum r \<Rightarrow> r | _ \<Rightarrow> 0)"
    by (auto simp: is_safe_integer_def is_integer_def num_of_case split: js.splits)
  then show ?thesis by (metis is_integer_nonneg)
qed

lemma regex_test_text [simp]: "regex_test nt P (JStr s) \<longleftrightarrow> P s"
  by (simp add: regex_test_def coalesce_def nullish_def)

lemma canonical_fields [simp]: "k \<in> set CANDIDATE_KEYS \<Longrightarrow> get (canonical_candidate c) k = get c k"
  by (auto simp: canonical_candidate_def CANDIDATE_KEYS_def)

lemma canonical_keys: "exact_keys (canonical_candidate c) CANDIDATE_KEYS"
  by (simp add: exact_keys_def canonical_candidate_def comp_def)

lemma canonical_valid:
  "validateCandidate nt c = Inr () \<Longrightarrow> validateCandidate nt (canonical_candidate c) = Inr ()"
  by (auto simp: validateCandidate_def and_then_eq_Inr guard_eq_Inr canonical_keys [unfolded CANDIDATE_KEYS_def]
      Let_def for_each_eq_Inr CANDIDATE_KEYS_def)

lemma valid_candidate_plain:
  assumes "validateCandidate nt c = Inr ()" and "is_text (get c ''payloadSha256'')"
    and "get c ''expectedSignature'' = JNull \<or> is_text (get c ''expectedSignature'')"
  shows "plain_candidate (canonical_candidate c)"
proof -
  from assms(1) have ok: "\<forall>k\<in>{''index'', ''offset'', ''length'', ''serializedTransactionBytes''}.
        is_safe_integer (get c k) \<and> 0 \<le> num_of (get c k)"
      "regex_test nt hex64 (get c ''payloadSha256'')" "str_in (get c ''expectedState'') CANDIDATE_STATES"
      "get c ''expectedSignature'' = JNull \<or> signature_test nt (get c ''expectedSignature'')"
    by (auto simp: validateCandidate_def and_then_eq_Inr guard_eq_Inr for_each_eq_Inr assertHash_def Let_def)
  from ok(1) safe_index obtain i off len n where nums: "get c ''index'' = JNat i" "get c ''offset'' = JNat off"
      "get c ''length'' = JNat len" "get c ''serializedTransactionBytes'' = JNat n"
    by (metis insertCI)
  from assms(2) ok(2) obtain p where p: "get c ''payloadSha256'' = JStr p" "hex64 p"
    by (auto elim!: is_textE)
  from ok(3) obtain st where st: "get c ''expectedState'' = JStr st" "st \<in> set CANDIDATE_STATES"
    by (auto simp: str_in_def split: js.splits)
  from ok(4) assms(3) have sig: "get c ''expectedSignature'' = JNull
      \<or> (\<exists>s. get c ''expectedSignature'' = JStr s \<and> signature_text s)"
    by (auto elim!: is_textE simp: signature_test_def)
  have "canonical_candidate c = JObj [(''index'', JNat i), (''offset'', JNat off), (''length'', JNat len),
     (''payloadSha256'', JStr p), (''serializedTransactionBytes'', JNat n),
     (''expectedState'', JStr st), (''expectedSignature'', get c ''expectedSignature'')]"
    by (simp add: canonical_candidate_def CANDIDATE_KEYS_def nums p st)
  then show ?thesis using p(2) st(2) sig by (simp add: plain_candidate.intros)
qed

text \<open>In ascending order without duplicates.\<close>

lemma ascending_valid:
  assumes "\<forall>c\<in>set cs. validateCandidate nt c = Inr () \<and> previous < num_of (get c ''index'')"
    and "sorted_wrt (\<lambda>c d. num_of (get c ''index'') < num_of (get d ''index'')) cs"
  shows "validate_candidates nt previous cs = Inr ()"
  using assms by (induction cs arbitrary: previous) (auto simp: Let_def)

lemma no_duplicates_ascending:
  assumes "sorted (map (\<lambda>c. num_of (get c ''index'')) cs)" and "no_duplicate_index cs"
    and "\<forall>c\<in>set cs. \<exists>n. get c ''index'' = JNat n"
  shows "sorted_wrt (\<lambda>c d. num_of (get c ''index'') < num_of (get d ''index'')) cs"
  using assms
proof (induction cs rule: no_duplicate_index.induct)
  case (1 c d cs)
  then have IH: "sorted_wrt (\<lambda>c d. num_of (get c ''index'') < num_of (get d ''index'')) (d # cs)" by simp
  from "1.prems"(3) obtain m n where "get c ''index'' = JNat m" "get d ''index'' = JNat n" by auto
  with "1.prems"(1,2) have first: "num_of (get c ''index'') < num_of (get d ''index'')" by auto
  with IH show ?case by auto
qed auto

lemma list_all2_right: "list_all2 P xs ys \<Longrightarrow> \<forall>y\<in>set ys. \<exists>x\<in>set xs. P x y"
  by (induction rule: list_all2_induct) auto

lemma built_evidence:
  assumes "buildCandidateEvidence nt v = Inr e" and "text_fields v"
  obtains cs where "e = evidence_document v cs" "list_all plain_candidate cs"
    "\<exists>a b c. get v ''stateSha256'' = JStr a \<and> get v ''binarySha256'' = JStr b \<and> get v ''planFingerprint'' = JStr c
       \<and> hex64 a \<and> hex64 b \<and> hex64 c"
    "length cs = length (elements (get v ''candidates''))"
    "validate_candidates nt (- 1) cs = Inr ()"
proof -
  from assms(1) obtain us where us: "assert_hashes nt v = Inr ()"
      "map_result (\<lambda>c. and_then (validateCandidate nt c) (\<lambda>_. Inr (canonical_candidate c)))
         (elements (get v ''candidates'')) = Inr us"
      "no_duplicate_index (sort_key (\<lambda>c. num_of (get c ''index'')) us)"
      "e = evidence_document v (sort_key (\<lambda>c. num_of (get c ''index'')) us)"
    by (auto simp: buildCandidateEvidence_def and_then_eq_Inr guard_eq_Inr Let_def)
  from us(2) have valid: "list_all2 (\<lambda>c u. validateCandidate nt c = Inr () \<and> u = canonical_candidate c)
      (elements (get v ''candidates'')) us"
    by (auto simp: map_result_eq_Inr and_then_eq_Inr elim!: list_all2_mono)
  then have each: "\<forall>u\<in>set us. \<exists>c\<in>set (elements (get v ''candidates'')). validateCandidate nt c = Inr () \<and> u = canonical_candidate c"
    by (rule list_all2_right)
  let ?cs = "sort_key (\<lambda>c. num_of (get c ''index'')) us"
  have plain: "\<forall>u\<in>set us. plain_candidate u"
  proof
    fix u assume "u \<in> set us"
    with each obtain c where c: "c \<in> set (elements (get v ''candidates''))" "validateCandidate nt c = Inr ()" "u = canonical_candidate c"
      by blast
    with assms(2) show "plain_candidate u" by (auto simp: text_fields_def list_all_iff intro!: valid_candidate_plain)
  qed
  have index: "\<exists>n. get u ''index'' = JNat n" if "plain_candidate u" for u using that by (elim plain_candidateE) simp
  have "validate_candidates nt (- 1) ?cs = Inr ()"
  proof (rule ascending_valid)
    show "\<forall>c\<in>set ?cs. validateCandidate nt c = Inr () \<and> - 1 < num_of (get c ''index'')"
    proof
      fix c assume c: "c \<in> set ?cs"
      with each have "validateCandidate nt c = Inr ()" by (auto intro: canonical_valid)
      moreover from c plain index obtain n where "get c ''index'' = JNat n" by auto
      moreover have "(- 1 :: rat) < of_nat n" by (rule less_le_trans [of _ 0]) simp_all
      ultimately show "validateCandidate nt c = Inr () \<and> - 1 < num_of (get c ''index'')" by simp
    qed
    show "sorted_wrt (\<lambda>c d. num_of (get c ''index'') < num_of (get d ''index'')) ?cs"
      using us(3) plain index by (intro no_duplicates_ascending) auto
  qed
  moreover have "\<exists>a b c. get v ''stateSha256'' = JStr a \<and> get v ''binarySha256'' = JStr b
      \<and> get v ''planFingerprint'' = JStr c \<and> hex64 a \<and> hex64 b \<and> hex64 c"
    using us(1) assms(2)
    by (auto simp: assert_hashes_def and_then_eq_Inr assertHash_def guard_eq_Inr text_fields_def elim!: is_textE)
  moreover have "length ?cs = length (elements (get v ''candidates''))"
    using valid by (simp add: list_all2_lengthD)
  ultimately show thesis using that us(4) plain by (simp add: list_all_iff)
qed

lemma built_valid:
  assumes "buildCandidateEvidence nt v = Inr e" and "text_fields v" and "elements (get v ''candidates'') \<noteq> []"
    and "length (elements (get v ''candidates'')) \<le> 9007199254740991"
  shows "canonicalCandidateEvidenceBytes nt e = Inr (CANDIDATE_EVIDENCE_DOMAIN @ CHR 0x00 # evidence_text nt e)"
proof -
  obtain cs where cs: "e = evidence_document v cs" "list_all plain_candidate cs"
    "\<exists>a b c. get v ''stateSha256'' = JStr a \<and> get v ''binarySha256'' = JStr b \<and> get v ''planFingerprint'' = JStr c
       \<and> hex64 a \<and> hex64 b \<and> hex64 c"
    "length cs = length (elements (get v ''candidates''))" "validate_candidates nt (- 1) cs = Inr ()"
    by (rule built_evidence [OF assms(1,2)])
  have count: "is_safe_integer (JNat (length cs))" "1 \<le> (of_nat (length cs) :: rat)"
    using assms(3,4) cs(4) by (auto simp: is_safe_integer_def safe_int_def MAX_SAFE_INTEGER_def Suc_le_eq)
  have "validateEvidence nt e = Inr ()"
    using cs(3,5) count
    by (auto simp: validateEvidence_def cs(1) evidence_document_def exact_keys_def TOP_LEVEL_KEYS_def
        assert_hashes_def assertHash_def Let_def)
  then show ?thesis by (simp add: canonicalCandidateEvidenceBytes_def)
qed

lemma evidence_text_cancel:
  assumes "list_all plain_candidate cs" and "list_all plain_candidate ds"
    and "\<exists>a b c. get v ''stateSha256'' = JStr a \<and> get v ''binarySha256'' = JStr b \<and> get v ''planFingerprint'' = JStr c
       \<and> hex64 a \<and> hex64 b \<and> hex64 c"
    and "\<exists>a b c. get w ''stateSha256'' = JStr a \<and> get w ''binarySha256'' = JStr b \<and> get w ''planFingerprint'' = JStr c
       \<and> hex64 a \<and> hex64 b \<and> hex64 c"
    and "evidence_text nt (evidence_document v cs) = evidence_text nt (evidence_document w ds)"
  shows "evidence_document v cs = evidence_document w ds"
proof -
  from assms(3) obtain a b c where v: "get v ''stateSha256'' = JStr a" "get v ''binarySha256'' = JStr b"
    "get v ''planFingerprint'' = JStr c" "hex64 a" "hex64 b" "hex64 c" by blast
  from assms(4) obtain a' b' c' where w: "get w ''stateSha256'' = JStr a'" "get w ''binarySha256'' = JStr b'"
    "get w ''planFingerprint'' = JStr c'" "hex64 a'" "hex64 b'" "hex64 c'" by blast
  note cancel = quoted_cancel [OF hex64_plain [OF v(4)] hex64_plain [OF w(4)]]
    quoted_cancel [OF hex64_plain [OF v(5)] hex64_plain [OF w(5)]]
    quoted_cancel [OF hex64_plain [OF v(6)] hex64_plain [OF w(6)]] number_cancel
  have "a = a' \<and> b = b' \<and> c = c' \<and> length cs = length ds
      \<and> comma_joined (map (candidate_text nt) cs) @ CHR '']'' # ''}'' = comma_joined (map (candidate_text nt) ds) @ CHR '']'' # ''}''"
    using assms(5)
    by (simp add: evidence_text_def evidence_document_def field_text_def index_text_def Let_def v w cancel)
  moreover from this have "cs = ds \<and> ''}'' = ''}''"
  proof (intro comma_joined_cancel [where f = "candidate_text nt"])
    show "\<exists>r. candidate_text nt x = CHR ''{'' # r" for x
      by (simp add: candidate_text_def Let_def)
    show "x = y \<and> t = t'" if "x \<in> set cs" "y \<in> set ds" "candidate_text nt x @ t = candidate_text nt y @ t'" for x y t t'
      using assms(1,2) that by (intro candidate_text_cancel [of x y nt]) (auto simp: list_all_iff)
  qed auto
  ultimately show ?thesis by (simp add: evidence_document_def v w)
qed

text \<open>What a document built from the upload inputs says of every candidate.\<close>

definition binds_candidate :: "candidate_env \<Rightarrow> bytes \<Rightarrow> js list \<Rightarrow> js \<Rightarrow> bool" where
  "binds_candidate env binary records c \<longleftrightarrow>
     (\<exists>i off len. get c ''index'' = JNat i \<and> get c ''offset'' = JNat off \<and> get c ''length'' = JNat len
       \<and> i < length records \<and> 0 < len \<and> off + len \<le> length binary
       \<and> get c ''payloadSha256'' = JStr (cd_sha_bytes env (subarray binary off (off + len)))
       \<and> list_all (\<lambda>(k, k'). get c k = get (records ! i) k')
           [(''index'', ''index''), (''offset'', ''offset''), (''length'', ''length''), (''payloadSha256'', ''sha256''),
            (''expectedState'', ''status''), (''expectedSignature'', ''signature'')])"

lemma upload_candidate_binds:
  assumes "upload_candidate env binary buffer authority records index = Inr c"
    and "is_safe_integer index" and "0 \<le> num_of index"
  shows "binds_candidate env binary records c \<and> get c ''index'' = index"
proof -
  let ?r = "nth_or_undefined records (nat \<lfloor>num_of index\<rfloor>)"
  let ?off = "nat \<lfloor>num_of (get ?r ''offset'')\<rfloor>" and ?len = "nat \<lfloor>num_of (get ?r ''length'')\<rfloor>"
  from assms(1) obtain size where checks: "get ?r ''index'' = index"
      "is_safe_integer (get ?r ''offset'')" "0 \<le> num_of (get ?r ''offset'')"
      "is_safe_integer (get ?r ''length'')" "1 \<le> num_of (get ?r ''length'')"
      "num_of (get ?r ''offset'') + num_of (get ?r ''length'') \<le> of_nat (length binary)"
      "JStr (cd_sha_bytes env (subarray binary ?off (?off + ?len))) = get ?r ''sha256''"
      and c: "c = JObj [(''index'', get ?r ''index''), (''offset'', get ?r ''offset''), (''length'', get ?r ''length''),
        (''payloadSha256'', JStr (cd_sha_bytes env (subarray binary ?off (?off + ?len)))),
        (''serializedTransactionBytes'', JNat size),
        (''expectedState'', get ?r ''status''), (''expectedSignature'', get ?r ''signature'')]"
    by (auto simp: upload_candidate_def and_then_eq_Inr guard_eq_Inr Let_def)
  from assms(2,3) safe_index obtain i where i: "index = JNat i" by blast
  from checks(2,3) safe_index obtain off where off: "get ?r ''offset'' = JNat off" by blast
  have "0 \<le> num_of (get ?r ''length'')" using checks(5) by (rule order_trans [rotated]) simp
  with checks(4) safe_index obtain len where len: "get ?r ''length'' = JNat len" by blast
  have at: "nat \<lfloor>num_of index\<rfloor> = i" by (simp add: i)
  have present: "i < length records"
  proof (rule ccontr)
    assume "\<not> i < length records"
    with checks(1) at i show False by (simp add: nth_or_undefined_def)
  qed
  then have r: "?r = records ! i" by (simp add: nth_or_undefined_def at)
  have fits: "0 < len" "off + len \<le> length binary"
    using checks(5,6) by (simp_all add: off len flip: of_nat_add)
  show ?thesis
    unfolding binds_candidate_def
  proof (intro conjI exI)
    show "get c ''index'' = JNat i" "get c ''offset'' = JNat off" "get c ''length'' = JNat len" "get c ''index'' = index"
      using checks(1) i off len by (simp_all add: c)
    show "get c ''payloadSha256'' = JStr (cd_sha_bytes env (subarray binary off (off + len)))"
      by (simp add: c off len)
    show "list_all (\<lambda>(k, k'). get c k = get (records ! i) k')
           [(''index'', ''index''), (''offset'', ''offset''), (''length'', ''length''), (''payloadSha256'', ''sha256''),
            (''expectedState'', ''status''), (''expectedSignature'', ''signature'')]"
      using checks(7) by (simp add: c r [symmetric])
  qed (use present fits in auto)
qed

text \<open>The indexes asked for come out in their order: sorting them changes nothing.\<close>

lemma ascending_sorted:
  "increasing_indexes previous vs \<Longrightarrow> sorted (map num_of vs)
   \<and> (\<forall>u. previous = Some u \<longrightarrow> (\<forall>v\<in>set vs. num_of u < num_of v))
   \<and> (\<forall>v\<in>set vs. is_safe_integer v \<and> 0 \<le> num_of v)"
proof (induction previous vs rule: increasing_indexes.induct)
  case (2 previous v vs)
  then have "increasing_indexes (Some v) vs" by simp
  with "2.IH" have tail: "sorted (map num_of vs)" "\<forall>w\<in>set vs. num_of v < num_of w"
      "\<forall>w\<in>set vs. is_safe_integer w \<and> 0 \<le> num_of w" by auto
  with "2.prems" show ?case by (cases previous) (auto intro: less_imp_le dest: order.strict_trans)
qed simp

lemma canonical_candidate_id: "plain_candidate c \<Longrightarrow> canonical_candidate c = c"
  by (elim plain_candidateE) (simp add: canonical_candidate_def CANDIDATE_KEYS_def)

lemma canonical_upload_candidate:
  assumes "upload_candidate env binary buffer authority records index = Inr c"
  shows "canonical_candidate c = c"
  using assms
  by (auto simp: upload_candidate_def and_then_eq_Inr Let_def canonical_candidate_def CANDIDATE_KEYS_def)

lemma from_upload_inputs:
  assumes "buildCandidateEvidenceFromUploadInputs env stateBytes binary indexes buffer authority = Inr e"
    and "cd_parse env stateBytes = Inr state"
  obtains cs where
    "buildCandidateEvidence (cd_number_text env)
       (JObj [(''stateSha256'', JStr (cd_sha_bytes env stateBytes)), (''binarySha256'', JStr (cd_sha_bytes env binary)),
          (''planFingerprint'', get (buffer_of state) ''planFingerprint''), (''candidates'', JArr cs)]) = Inr e"
    "elements (get e ''candidates'') = cs" "map (\<lambda>c. get c ''index'') cs = elements indexes" "cs \<noteq> []"
    "list_all (binds_candidate env binary (elements (get (buffer_of state) ''chunks''))) cs"
proof -
  let ?records = "elements (get (buffer_of state) ''chunks'')"
  let ?v = "\<lambda>cs. JObj [(''stateSha256'', JStr (cd_sha_bytes env stateBytes)),
      (''binarySha256'', JStr (cd_sha_bytes env binary)),
      (''planFingerprint'', get (buffer_of state) ''planFingerprint''), (''candidates'', JArr cs)]"
  from assms obtain vs cs where indexes: "indexes = JArr vs" "vs \<noteq> []" "increasing_indexes None vs"
      and cs: "map_result (upload_candidate env binary buffer authority ?records) vs = Inr cs"
      and build: "buildCandidateEvidence (cd_number_text env) (?v cs) = Inr e"
    by (auto simp: buildCandidateEvidenceFromUploadInputs_def and_then_eq_Inr guard_eq_Inr Let_def split: js.splits)
  note ascending = ascending_sorted [OF indexes(3)]
  from cs have pairs: "list_all2 (\<lambda>i c. upload_candidate env binary buffer authority ?records i = Inr c) vs cs"
    by (simp add: map_result_eq_Inr)
  have each: "binds_candidate env binary ?records (cs ! k) \<and> get (cs ! k) ''index'' = vs ! k
      \<and> canonical_candidate (cs ! k) = cs ! k" if "k < length cs" for k
    using pairs that ascending upload_candidate_binds [of env binary buffer authority ?records "vs ! k" "cs ! k"]
      canonical_upload_candidate [of env binary buffer authority ?records "vs ! k" "cs ! k"]
    by (auto simp: list_all2_conv_all_nth)
  have len: "length cs = length vs" using pairs by (simp add: list_all2_lengthD)
  have index: "map (\<lambda>c. get c ''index'') cs = vs"
    by (rule nth_equalityI) (use len each in auto)
  then have "sorted (map (\<lambda>c. num_of (get c ''index'')) cs)"
    using ascending by (simp add: comp_def flip: index)
  then have sort: "sort_key (\<lambda>c. num_of (get c ''index'')) cs = cs" by (rule sort_key_id_if_sorted)
  have same: "map canonical_candidate cs = cs" by (rule nth_equalityI) (use each in auto)
  from build obtain us where us: "map_result (\<lambda>c. and_then (validateCandidate (cd_number_text env) c)
        (\<lambda>_. Inr (canonical_candidate c))) cs = Inr us"
      "e = evidence_document (?v cs) (sort_key (\<lambda>c. num_of (get c ''index'')) us)"
    by (auto simp: buildCandidateEvidence_def and_then_eq_Inr guard_eq_Inr Let_def)
  have "us = map canonical_candidate cs"
    using us(1) by (induction cs arbitrary: us) (auto simp: and_then_eq_Inr)
  with same sort us(2) have "elements (get e ''candidates'') = cs" by (simp add: evidence_document_def)
  moreover have "list_all (binds_candidate env binary ?records) cs"
    using each by (auto simp: list_all_iff in_set_conv_nth)
  ultimately show thesis using that build index indexes(1,2) len by fastforce
qed

end
