(* ===== verification/Process_Supervisor.thy ===== *)
theory Process_Supervisor imports Execution_Contract begin

text \<open>
  \<open>scripts/devnet/upload-process-supervisor.mjs\<close>: the process that starts the uploader, gives it a
  bounded time to run and a bounded time to be cleaned up, and says how it ended.

  The promise of \<open>runOwnedProcess\<close> is a state machine over the events it listens to: its three
  timers, the error and the end of the child.  A handler reads the monotonic clock at most once for a
  result; the reading is part of the event.  The uploader, the clock and the signals are outside.
\<close>

section \<open>Arguments\<close>

definition MAX_TIMER_DELAY_MS :: nat where
  "MAX_TIMER_DELAY_MS = 2147483647"

definition MIN_UPLOAD_PROCESS_TIMEOUT_MS :: nat where
  "MIN_UPLOAD_PROCESS_TIMEOUT_MS = 3000"

definition MIN_UPLOAD_PROCESS_CLEANUP_TIMEOUT_MS :: nat where
  "MIN_UPLOAD_PROCESS_CLEANUP_TIMEOUT_MS = 1"

text \<open>\<open>/^[1-9]\d*$/\<close>.\<close>

definition positive_digits :: "string \<Rightarrow> bool" where
  "positive_digits s \<longleftrightarrow> (case s of [] \<Rightarrow> False | c # cs \<Rightarrow> c \<noteq> CHR ''0'') \<and> list_all is_digit_char s"

definition bounded_ms :: "string \<Rightarrow> nat \<Rightarrow> string \<Rightarrow> nat result" where
  "bounded_ms name least v =
     and_then (guard (positive_digits v) (''explicit upload process '' @ name @ '' in milliseconds is required'')) (\<lambda>_.
     and_then (guard (least \<le> digits_value v \<and> digits_value v \<le> MAX_TIMER_DELAY_MS)
       (''upload process '' @ name @ '' must be '' @ show_nat least @ ''..'' @ show_nat MAX_TIMER_DELAY_MS
         @ '' milliseconds'')) (\<lambda>_. Inr (digits_value v)))"

definition parseTimeoutMs :: "string \<Rightarrow> nat result" where
  "parseTimeoutMs = bounded_ms ''timeout'' MIN_UPLOAD_PROCESS_TIMEOUT_MS"

definition parseCleanupTimeoutMs :: "string \<Rightarrow> nat result" where
  "parseCleanupTimeoutMs = bounded_ms ''cleanup timeout'' MIN_UPLOAD_PROCESS_CLEANUP_TIMEOUT_MS"

record supervisor_args =
  sa_timeoutMs :: nat
  sa_cleanupTimeoutMs :: nat
  sa_uploaderArgs :: "string list"
  sa_statePath :: string

definition parseUploadProcessSupervisorArgs ::
    "(js \<Rightarrow> url option) \<Rightarrow> string list \<Rightarrow> supervisor_args result" where
  "parseUploadProcessSupervisorArgs urls argv =
     (if length argv < 6 \<or> argv ! 0 \<noteq> ''--timeout-ms'' \<or> argv ! 2 \<noteq> ''--cleanup-timeout-ms'' \<or> argv ! 4 \<noteq> ''--''
      then throw ''usage: upload-process-supervisor --timeout-ms <milliseconds> --cleanup-timeout-ms <milliseconds> -- upload-buffer-throttled ...''
      else
        and_then (parseTimeoutMs (argv ! 1)) (\<lambda>timeoutMs.
        and_then (parseCleanupTimeoutMs (argv ! 3)) (\<lambda>cleanupTimeoutMs.
        let uploaderArgs = drop 5 argv in
        and_then (parseRuntimeCommand urls uploaderArgs) (\<lambda>parsed.
        case parsed of
          Upload_Buffer u \<Rightarrow>
            Inr \<lparr> sa_timeoutMs = timeoutMs, sa_cleanupTimeoutMs = cleanupTimeoutMs,
              sa_uploaderArgs = uploaderArgs, sa_statePath = uc_state u \<rparr>
        | _ \<Rightarrow> throw ''upload process supervisor accepts only upload-buffer-throttled''))))"

section \<open>An owned process\<close>

record owned_params =
  op_timeoutMs :: nat
  op_cleanupTimeoutMs :: nat
  op_windows :: bool

definition valid_owned_params :: "owned_params \<Rightarrow> bool" where
  "valid_owned_params p \<longleftrightarrow>
     1 \<le> op_timeoutMs p \<and> op_timeoutMs p \<le> MAX_TIMER_DELAY_MS
     \<and> MIN_UPLOAD_PROCESS_CLEANUP_TIMEOUT_MS \<le> op_cleanupTimeoutMs p \<and> op_cleanupTimeoutMs p \<le> MAX_TIMER_DELAY_MS"

text \<open>What is sent to the process tree: a request to end, or the end, with the time that the helper
  has on Windows.\<close>

datatype tree_signal = Ask_To_End nat | Force_End nat

record owned_result =
  or_timedOut :: bool
  or_exitCode :: "int option"
  or_signal :: "string option"
  or_cleanupCompleted :: bool
  or_runtimeElapsedMs :: rat
  or_cleanupElapsedMs :: rat

datatype owned_outcome = Resolved owned_result | Rejected string

text \<open>The variables of the promise: the timers that are armed, with their delays, the outcome once
  the promise is settled, and what was sent.  \<open>ow_crashed\<close> is an exception that left a timer
  callback.\<close>

record owned =
  ow_origin :: rat
  ow_timedOut :: bool
  ow_settled :: bool
  ow_timeout :: bool
  ow_force :: "nat option"
  ow_deadline :: "nat option"
  ow_cleanupStarted :: "rat option"
  ow_outcome :: "owned_outcome option"
  ow_signals :: "tree_signal list"
  ow_crashed :: bool

definition owned_start :: "rat \<Rightarrow> owned" where
  "owned_start t = \<lparr> ow_origin = t, ow_timedOut = False, ow_settled = False, ow_timeout = True,
     ow_force = None, ow_deadline = None, ow_cleanupStarted = None, ow_outcome = None, ow_signals = [],
     ow_crashed = False \<rparr>"

text \<open>The delay of the first timer: what is left of the time after the child was spawned.\<close>

definition runtime_delay :: "owned_params \<Rightarrow> rat \<Rightarrow> rat \<Rightarrow> rat" where
  "runtime_delay p t now = max 1 (of_nat (op_timeoutMs p) - max 0 (now - t))"

definition force_delay :: "owned_params \<Rightarrow> nat" where
  "force_delay p = max 1 (op_cleanupTimeoutMs p div 2)"

definition owned_result_of :: "owned \<Rightarrow> int option \<Rightarrow> string option \<Rightarrow> bool \<Rightarrow> rat \<Rightarrow> owned_result" where
  "owned_result_of s exitCode signal cleanupCompleted now =
     \<lparr> or_timedOut = ow_timedOut s, or_exitCode = exitCode, or_signal = signal,
        or_cleanupCompleted = cleanupCompleted,
        or_runtimeElapsedMs = max 0 ((case ow_cleanupStarted s of Some t \<Rightarrow> t | None \<Rightarrow> now) - ow_origin s),
        or_cleanupElapsedMs = (case ow_cleanupStarted s of None \<Rightarrow> 0 | Some t \<Rightarrow> max 0 (now - t)) \<rparr>"

text \<open>A promise keeps its first outcome.\<close>

definition settle_with :: "owned_outcome \<Rightarrow> owned \<Rightarrow> owned" where
  "settle_with x s = s\<lparr> ow_outcome := (case ow_outcome s of None \<Rightarrow> Some x | Some y \<Rightarrow> Some y) \<rparr>"

definition clear_timers :: "owned \<Rightarrow> owned" where
  "clear_timers s = s\<lparr> ow_timeout := False, ow_force := None, ow_deadline := None \<rparr>"

datatype owned_event =
    Runtime_Over rat bool
  | Force_Due bool
  | Deadline_Due rat
  | Child_Failed string
  | Child_Closed "int option" "string option" rat
  | Callback_Failed string

text \<open>The handlers.  A signal on POSIX throws, for any errno but \<open>ESRCH\<close>, out of the callback of its
  timer; on Windows a helper process sends it and its failure is ignored.\<close>

fun owned_handle :: "owned_params \<Rightarrow> owned_event \<Rightarrow> owned \<Rightarrow> owned" where
  "owned_handle p (Runtime_Over now throws) s =
     (let s1 = s\<lparr> ow_timeout := False, ow_timedOut := True, ow_cleanupStarted := Some now \<rparr> in
      if \<not> op_windows p \<and> throws then s1\<lparr> ow_crashed := True \<rparr>
      else s1\<lparr> ow_signals := ow_signals s @ [Ask_To_End (force_delay p)],
             ow_force := Some (force_delay p), ow_deadline := Some (op_cleanupTimeoutMs p) \<rparr>)"
| "owned_handle p (Force_Due throws) s =
     (let s1 = s\<lparr> ow_force := None \<rparr> in
      if \<not> op_windows p \<and> throws then s1\<lparr> ow_crashed := True \<rparr>
      else s1\<lparr> ow_signals := ow_signals s @ [Force_End (max 1 (op_cleanupTimeoutMs p - force_delay p))] \<rparr>)"
| "owned_handle p (Deadline_Due now) s =
     (let s1 = s\<lparr> ow_deadline := None \<rparr> in
      if ow_settled s then s1
      else settle_with (Resolved (owned_result_of s None None False now)) (s1\<lparr> ow_settled := True \<rparr>))"
| "owned_handle p (Child_Failed e) s =
     (if ow_settled s then s else settle_with (Rejected e) (clear_timers (s\<lparr> ow_settled := True \<rparr>)))"
| "owned_handle p (Child_Closed exitCode signal now) s =
     (if ow_settled s then s
      else settle_with (Resolved (owned_result_of s exitCode signal True now))
             (clear_timers (s\<lparr> ow_settled := True \<rparr>)))"
| "owned_handle p (Callback_Failed e) s =
     settle_with (Rejected e) (s\<lparr> ow_timeout := False,
       ow_signals := ow_signals s @ [Force_End (op_cleanupTimeoutMs p)] \<rparr>)"

text \<open>A timer fires only while it is armed, and not before another one that is due earlier or was
  armed before it with the same delay.  The callback of the caller runs right after the start.\<close>

fun owned_enabled :: "owned_event \<Rightarrow> owned \<Rightarrow> bool" where
  "owned_enabled (Runtime_Over now throws) s \<longleftrightarrow> ow_timeout s"
| "owned_enabled (Force_Due throws) s \<longleftrightarrow>
     (case ow_force s of None \<Rightarrow> False
      | Some f \<Rightarrow> (case ow_deadline s of None \<Rightarrow> True | Some d \<Rightarrow> f \<le> d))"
| "owned_enabled (Deadline_Due now) s \<longleftrightarrow>
     (case ow_deadline s of None \<Rightarrow> False
      | Some d \<Rightarrow> (case ow_force s of None \<Rightarrow> True | Some f \<Rightarrow> d < f))"
| "owned_enabled (Child_Failed e) s \<longleftrightarrow> True"
| "owned_enabled (Child_Closed exitCode signal now) s \<longleftrightarrow> True"
| "owned_enabled (Callback_Failed e) s \<longleftrightarrow>
     ow_timeout s \<and> \<not> ow_timedOut s \<and> \<not> ow_settled s \<and> ow_signals s = []"

text \<open>After a crash nothing runs any more.\<close>

inductive owned_step :: "owned_params \<Rightarrow> owned \<Rightarrow> owned \<Rightarrow> bool" for p where
  "\<not> ow_crashed s \<Longrightarrow> owned_enabled e s \<Longrightarrow> owned_step p s (owned_handle p e s)"

inductive_cases owned_stepE: "owned_step p s s'"

section \<open>The supervisor\<close>

definition owned_timing :: "supervisor_args \<Rightarrow> owned_result \<Rightarrow> (string \<times> js) list" where
  "owned_timing a r =
     [(''innerRuntimeTimeoutMs'', JNat (sa_timeoutMs a)), (''innerCleanupTimeoutMs'', JNat (sa_cleanupTimeoutMs a)),
      (''timerOrigin'', JStr ''IMMEDIATELY_BEFORE_CHILD_SPAWN''),
      (''runtimeElapsedMs'', JNum (or_runtimeElapsedMs r)), (''cleanupElapsedMs'', JNum (or_cleanupElapsedMs r)),
      (''cleanupCompleted'', JBool (or_cleanupCompleted r))]"

definition exit_js :: "owned_result \<Rightarrow> (string \<times> js) list" where
  "exit_js r =
     [(''childExitCode'', case or_exitCode r of Some n \<Rightarrow> JNum (of_int n) | None \<Rightarrow> JNull),
      (''childSignal'', case or_signal r of Some s \<Rightarrow> JStr s | None \<Rightarrow> JNull)]"

definition supervision_document :: "supervisor_args \<Rightarrow> owned_result \<Rightarrow> bool \<Rightarrow> js" where
  "supervision_document a r activeLease =
     (if \<not> or_timedOut r
      then JObj ([(''classification'', JStr ''UPLOAD_PROCESS_EXITED''), (''uploaderInvocationCount'', JNum 1)]
                 @ exit_js r @ owned_timing a r)
      else JObj ([(''classification'', JStr (if activeLease then ''UPLOAD_TIMEOUT_ACTIVE_LEASE_BLOCKED''
                     else ''UPLOAD_TIMEOUT_PRE_LEASE_NOOP_BLOCKED'')),
                  (''terminal'', JBool True), (''retryable'', JBool False), (''replayAllowed'', JBool False),
                  (''uploaderInvocationCount'', JNum 1), (''executionId'', JNull),
                  (''lease'', JStr (if activeLease then ''ACTIVE'' else ''ABSENT'')),
                  (''telemetry'', JStr (if activeLease then ''PRESERVE_EXISTING'' else ''UNAVAILABLE'')),
                  (''perChunkResults'', JArr [])]
                 @ exit_js r @ owned_timing a r))"

text \<open>The outcome of the promise is what \<open>runProcess\<close> gives for the parameters.\<close>

definition superviseUploadProcess ::
    "(js \<Rightarrow> url option) \<Rightarrow> (string \<Rightarrow> string \<Rightarrow> string) \<Rightarrow> string \<Rightarrow> (string \<Rightarrow> bool)
     \<Rightarrow> (owned_params \<Rightarrow> string list \<Rightarrow> owned_outcome) \<Rightarrow> bool \<Rightarrow> string list \<Rightarrow> js result" where
  "superviseUploadProcess urls resolve_path repoRoot leaseExists runProcess windows argv =
     and_then (parseUploadProcessSupervisorArgs urls argv) (\<lambda>a.
     let statePath = resolve_path repoRoot (sa_statePath a);
         p = \<lparr> op_timeoutMs = sa_timeoutMs a, op_cleanupTimeoutMs = sa_cleanupTimeoutMs a, op_windows = windows \<rparr> in
     case runProcess p (sa_uploaderArgs a) of
       Rejected e \<Rightarrow> throw e
     | Resolved r \<Rightarrow> Inr (supervision_document a r (leaseExists (statePath @ ''.upload-lease''))))"

text \<open>\<open>process.exitCode\<close> of the entry point.\<close>

definition supervisor_exit_code :: "js result \<Rightarrow> nat" where
  "supervisor_exit_code m =
     (case m of
        Inl e \<Rightarrow> 1
      | Inr v \<Rightarrow>
          if get v ''classification'' = JStr ''UPLOAD_PROCESS_EXITED'' \<and> get v ''childExitCode'' = JNum 0
          then 0 else 1)"

section \<open>Phases\<close>

text \<open>Where a run of an owned process can be.\<close>

definition owned_running :: "owned \<Rightarrow> bool" where
  "owned_running s \<longleftrightarrow> ow_timeout s \<and> \<not> ow_timedOut s \<and> \<not> ow_settled s \<and> ow_force s = None
     \<and> ow_deadline s = None \<and> ow_cleanupStarted s = None \<and> ow_outcome s = None \<and> ow_signals s = []
     \<and> \<not> ow_crashed s"

definition owned_asked :: "owned_params \<Rightarrow> owned \<Rightarrow> bool" where
  "owned_asked p s \<longleftrightarrow> \<not> ow_timeout s \<and> ow_timedOut s \<and> \<not> ow_settled s \<and> ow_force s = Some (force_delay p)
     \<and> ow_deadline s = Some (op_cleanupTimeoutMs p) \<and> ow_outcome s = None
     \<and> ow_signals s = [Ask_To_End (force_delay p)] \<and> \<not> ow_crashed s"

text \<open>Both signals, in their order.\<close>

definition both_signals :: "owned_params \<Rightarrow> tree_signal list" where
  "both_signals p = [Ask_To_End (force_delay p), Force_End (max 1 (op_cleanupTimeoutMs p - force_delay p))]"

definition owned_forced :: "owned_params \<Rightarrow> owned \<Rightarrow> bool" where
  "owned_forced p s \<longleftrightarrow> \<not> ow_timeout s \<and> ow_timedOut s \<and> \<not> ow_settled s \<and> ow_force s = None
     \<and> ow_deadline s = Some (op_cleanupTimeoutMs p) \<and> ow_outcome s = None
     \<and> ow_signals s = both_signals p \<and> \<not> ow_crashed s"

text \<open>Settled by the child, by the deadline or by the callback of the caller.\<close>

definition owned_ended :: "owned_params \<Rightarrow> owned \<Rightarrow> bool" where
  "owned_ended p s \<longleftrightarrow> \<not> ow_timeout s \<and> ow_force s = None \<and> ow_deadline s = None \<and> \<not> ow_crashed s
     \<and> (case ow_outcome s of
          None \<Rightarrow> False
        | Some (Rejected e) \<Rightarrow> True
        | Some (Resolved r) \<Rightarrow>
            ow_settled s
            \<and> (if \<not> or_timedOut r then or_cleanupCompleted r \<and> ow_signals s = []
               else if or_cleanupCompleted r then ow_signals s \<noteq> [] \<and> hd (ow_signals s) = Ask_To_End (force_delay p)
               else ow_signals s = both_signals p \<and> or_exitCode r = None \<and> or_signal r = None))"

definition owned_phase :: "owned_params \<Rightarrow> owned \<Rightarrow> bool" where
  "owned_phase p s \<longleftrightarrow>
     owned_running s \<or> owned_asked p s \<or> owned_forced p s \<or> owned_ended p s \<or> (ow_crashed s \<and> \<not> ow_timeout s \<and> ow_outcome s = None)"

lemma force_before_deadline: "valid_owned_params p \<Longrightarrow> force_delay p \<le> op_cleanupTimeoutMs p"
  by (auto simp: valid_owned_params_def force_delay_def MIN_UPLOAD_PROCESS_CLEANUP_TIMEOUT_MS_def)

lemma running_step:
  assumes "owned_running s" and "owned_enabled e s"
  shows "owned_phase p (owned_handle p e s)"
  using assms
  by (cases e) (auto simp: owned_running_def owned_phase_def owned_asked_def owned_ended_def Let_def settle_with_def
      clear_timers_def owned_result_of_def)

lemma asked_step:
  assumes "owned_asked p s" and "owned_enabled e s" and "valid_owned_params p"
  shows "owned_phase p (owned_handle p e s)"
  using assms force_before_deadline [OF assms(3)]
  by (cases e) (auto simp: owned_asked_def owned_phase_def owned_forced_def owned_ended_def both_signals_def Let_def
      settle_with_def clear_timers_def owned_result_of_def)

lemma forced_step:
  assumes "owned_forced p s" and "owned_enabled e s"
  shows "owned_phase p (owned_handle p e s)"
  using assms
  by (cases e) (auto simp: owned_forced_def owned_phase_def owned_ended_def both_signals_def Let_def
      settle_with_def clear_timers_def owned_result_of_def)

lemma ended_step:
  assumes "owned_ended p s" and "owned_enabled e s"
  shows "owned_ended p (owned_handle p e s) \<and> ow_outcome (owned_handle p e s) = ow_outcome s"
  using assms
  by (cases e) (auto simp: owned_ended_def settle_with_def clear_timers_def Let_def
      split: option.splits owned_outcome.splits if_splits)

lemma phase_step:
  assumes "owned_step p s s'" and "owned_phase p s" and "valid_owned_params p"
  shows "owned_phase p s'"
proof -
  from assms(1) obtain e where e: "\<not> ow_crashed s" "owned_enabled e s" "s' = owned_handle p e s"
    by (auto elim: owned_stepE)
  from assms(2) e(1) consider "owned_running s" | "owned_asked p s" | "owned_forced p s" | "owned_ended p s"
    by (auto simp: owned_phase_def)
  then show ?thesis
  proof cases
    case 4
    with ended_step [of p s e] e(2,3) show ?thesis by (simp add: owned_phase_def)
  qed (use e assms(3) running_step asked_step forced_step in auto)
qed

interpretation owned_runs: step_invariant "owned_step p" "\<lambda>s. valid_owned_params p \<longrightarrow> owned_phase p s" for p
  by unfold_locales (auto intro: phase_step)

lemma start_phase: "owned_phase p (owned_start t)"
  by (simp add: owned_phase_def owned_running_def owned_start_def)

lemma reachable_phase:
  "(owned_step p)\<^sup>*\<^sup>* (owned_start t) s \<Longrightarrow> valid_owned_params p \<Longrightarrow> owned_phase p s"
  using owned_runs.run [of p "owned_start t" s] start_phase by blast

text \<open>How many timers can still fire.\<close>

definition pending_timers :: "owned \<Rightarrow> nat" where
  "pending_timers s = (if ow_timeout s then 3 else 0) + (if ow_force s = None then 0 else 1)
     + (if ow_deadline s = None then 0 else 1)"

fun timer_event :: "owned_event \<Rightarrow> bool" where
  "timer_event (Runtime_Over now throws) = True"
| "timer_event (Force_Due throws) = True"
| "timer_event (Deadline_Due now) = True"
| "timer_event _ = False"

lemma open_has_timer:
  assumes "owned_phase p s" and "valid_owned_params p" and "ow_outcome s = None" and "\<not> ow_crashed s"
  shows "\<exists>e. timer_event e \<and> owned_enabled e s"
proof -
  from assms consider "owned_running s" | "owned_asked p s" | "owned_forced p s"
    by (auto simp: owned_phase_def owned_ended_def)
  then show ?thesis
  proof cases
    case 1
    then show ?thesis by (intro exI [of _ "Runtime_Over 0 False"]) (simp add: owned_running_def)
  next
    case 2
    then show ?thesis using force_before_deadline [OF assms(2)]
      by (intro exI [of _ "Force_Due False"]) (simp add: owned_asked_def)
  next
    case 3
    then show ?thesis by (intro exI [of _ "Deadline_Due 0"]) (simp add: owned_forced_def)
  qed
qed

lemma pending_bound:
  "owned_phase p s \<Longrightarrow> pending_timers s \<le> 3"
  by (auto simp: owned_phase_def owned_running_def owned_asked_def owned_forced_def owned_ended_def pending_timers_def)

lemma timer_decreases:
  assumes "owned_phase p s" and "timer_event e" and "owned_enabled e s"
  shows "pending_timers (owned_handle p e s) < pending_timers s"
  using assms
  by (cases e) (auto simp: owned_phase_def owned_running_def owned_asked_def owned_forced_def owned_ended_def
      pending_timers_def Let_def settle_with_def split: option.splits)

lemma outcome_is_final:
  assumes "(owned_step p)\<^sup>*\<^sup>* s s'" and "ow_outcome s = Some x"
  shows "ow_outcome s' = Some x"
  using assms
proof (induction rule: rtranclp_induct)
  case (step s1 s2)
  have "ow_outcome (owned_handle p e s1) = Some x" for e
    using step.IH [OF step.prems] by (cases e) (auto simp: settle_with_def clear_timers_def Let_def)
  with step.hyps(2) show ?case by (auto elim: owned_stepE)
qed simp

end
