(* ===== verification/Window_Properties.thy ===== *)
theory Window_Properties imports Recovery_Properties Candidate_Evidence Process_Supervisor begin

text \<open>
  What the evidence about the candidates of a window and the supervision of its process promise.
\<close>

section \<open>Candidates\<close>







section \<open>Supervision\<close>

text \<open>C40: The supervision of an upload always comes to an end, and says truthfully how.  At every
  moment of a run, whatever the child does and in whatever order, as long as no signal failed with an
  exception and the promise is open, a timer is armed that may fire, and each firing uses up one of at
  most three: without any help from the child the promise is settled.  A result that is not a timeout
  came from the child, and nothing was sent to it; a result that gives up on the child came after it was
  asked to end and then forced to; and the first outcome stays.\<close>

theorem supervision_is_bounded:
  assumes "valid_owned_params p" and "(owned_step p)\<^sup>*\<^sup>* (owned_start t) s"
  shows "(ow_outcome s = None \<longrightarrow> \<not> ow_crashed s \<longrightarrow> (\<exists>e. timer_event e \<and> owned_enabled e s))
    \<and> pending_timers s \<le> 3
    \<and> (\<forall>e. timer_event e \<longrightarrow> owned_enabled e s \<longrightarrow> pending_timers (owned_handle p e s) < pending_timers s)
    \<and> (\<forall>r. ow_outcome s = Some (Resolved r) \<longrightarrow>
          (\<not> or_timedOut r \<longrightarrow> or_cleanupCompleted r \<and> ow_signals s = [])
          \<and> (\<not> or_cleanupCompleted r \<longrightarrow> or_timedOut r \<and> ow_signals s = both_signals p))
    \<and> (\<forall>x s'. ow_outcome s = Some x \<longrightarrow> (owned_step p)\<^sup>*\<^sup>* s s' \<longrightarrow> ow_outcome s' = Some x)"
proof (intro conjI allI impI)
  note phase = reachable_phase [OF assms(2,1)]
  show "\<exists>e. timer_event e \<and> owned_enabled e s" if "ow_outcome s = None" "\<not> ow_crashed s"
    using open_has_timer [OF phase assms(1) that] .
  show "pending_timers (owned_handle p e s) < pending_timers s" if "timer_event e" "owned_enabled e s" for e
    using timer_decreases [OF phase that] .
  show "pending_timers s \<le> 3"
    using pending_bound [OF phase] .
  show "or_cleanupCompleted r" "ow_signals s = []" if "ow_outcome s = Some (Resolved r)" "\<not> or_timedOut r" for r
    using phase that by (auto simp: owned_phase_def owned_running_def owned_asked_def owned_forced_def owned_ended_def)
  show "or_timedOut r" "ow_signals s = both_signals p" if "ow_outcome s = Some (Resolved r)" "\<not> or_cleanupCompleted r" for r
    using phase that
    by (auto simp: owned_phase_def owned_running_def owned_asked_def owned_forced_def owned_ended_def split: if_splits)
  show "ow_outcome s' = Some x" if "ow_outcome s = Some x" "(owned_step p)\<^sup>*\<^sup>* s s'" for x s'
    by (rule outcome_is_final [OF that(2,1)])
qed

definition demo_owned :: owned_params where
  "demo_owned = \<lparr> op_timeoutMs = 3000, op_cleanupTimeoutMs = 1, op_windows = False \<rparr>"

text \<open>A child that ignores both signals.\<close>

definition demo_gave_up :: owned where
  "demo_gave_up = owned_handle demo_owned (Deadline_Due 3001) (owned_handle demo_owned (Force_Due False)
     (owned_handle demo_owned (Runtime_Over 3000 False) (owned_start 0)))"

theorem supervision_is_bounded_witness:
  "ow_signals demo_gave_up = [Ask_To_End 1, Force_End 1] \<and> pending_timers demo_gave_up = 0"
proof -
  let ?s1 = "owned_handle demo_owned (Runtime_Over 3000 False) (owned_start 0)"
  let ?s2 = "owned_handle demo_owned (Force_Due False) ?s1"
  have valid: "valid_owned_params demo_owned"
    by (simp add: valid_owned_params_def demo_owned_def MAX_TIMER_DELAY_MS_def MIN_UPLOAD_PROCESS_CLEANUP_TIMEOUT_MS_def)
  have steps: "owned_step demo_owned (owned_start 0) ?s1" "owned_step demo_owned ?s1 ?s2"
      "owned_step demo_owned ?s2 demo_gave_up"
    unfolding demo_gave_up_def
    by (rule owned_step.intros; simp add: owned_start_def demo_owned_def force_delay_def)+
  then have reached: "(owned_step demo_owned)\<^sup>*\<^sup>* (owned_start 0) demo_gave_up"
    by (meson converse_rtranclp_into_rtranclp rtranclp.rtrancl_refl)
  have outcome: "ow_outcome demo_gave_up = Some (Resolved (owned_result_of ?s2 None None False 3001))"
    by (simp add: demo_gave_up_def owned_start_def demo_owned_def settle_with_def owned_result_of_def)
  note results = supervision_is_bounded [OF valid reached, THEN conjunct2, THEN conjunct2, THEN conjunct2, THEN conjunct1,
      THEN spec, THEN mp, OF outcome, THEN conjunct2]
  have "ow_signals demo_gave_up = both_signals demo_owned"
    by (rule results [THEN mp, THEN conjunct2]) (simp add: owned_result_of_def)
  moreover have "pending_timers demo_gave_up = 0"
    by (simp add: pending_timers_def demo_gave_up_def owned_start_def demo_owned_def settle_with_def)
  ultimately show ?thesis by (simp add: both_signals_def demo_owned_def force_delay_def)
qed

end
