(* ===== verification/Spec2Isabelle.thy ===== *)
theory Spec2Isabelle imports Escrow_Properties Upload_Properties Rpc_Properties Deployment_Properties
  Execution_Properties Process_Properties Recovery_Properties Window_Properties begin

text \<open>
  A bounty escrow on Solana and the tooling that deploys and exercises it on devnet.

  \<^bold>\<open>The program.\<close>  The repository has three parts.  \<open>programs/oss-bounty-escrow\<close> is the on-chain
  program (Rust): a sponsor locks tokens in a vault, a maintainer releases them to a contributor
  before an expiry, the sponsor takes them back after it.  \<open>scripts/devnet/business-flow-*\<close>
  (JavaScript) plan, authorise and execute a matrix of transactions against the deployed program
  and record receipts.  The other files of \<open>scripts/devnet\<close> upload the program: they plan the
  chunks of a binary, write them to a loader buffer under rate limits, keep a state file that is
  written ahead of every send, schedule and count RPC requests, and classify what they observe.

  \<^bold>\<open>Theories and code.\<close>
  \<^item> \<open>Prelude\<close>, \<open>Js_Values\<close>: results, effects, invariants of step relations, bytes; the values of
    JavaScript and its operators.  \<open>Chunk_Tiling\<close> is the interface of everything that cuts a
    binary into chunks: a locale with the planner, the records of the state file and the
    snapshot as its interpretations.
  \<^item> \<open>Escrow_Program\<close>: \<open>rules.rs\<close> and \<open>lib.rs\<close>.  A chain is a record of accounts, escrows, clock
    and events; each instruction is a function that checks its accounts in the order of the
    code.  \<open>process\<close> dispatches; a step of the chain is an instruction that succeeds or time
    that passes.
  \<^item> \<open>Flow_Instructions\<close>, \<open>Flow_Runner\<close>, \<open>Flow_Execution\<close>: the client's builders and decoders
    (\<open>business-flow-instructions.mjs\<close>), the plan and its authorisation
    (\<open>business-flow-runner.mjs\<close>), and the driver (\<open>business-flow-execution.mjs\<close>) over an adapter
    whose calls have effects on an arbitrary state.
  \<^item> \<open>Durable_Json\<close>, \<open>Upload_State\<close>: \<open>durable-json.mjs\<close> and \<open>state.mjs\<close>, over a file system in
    which every call can fail.
  \<^item> \<open>Loader_Codec\<close>, \<open>Upload_Plan\<close>, \<open>Throttled_Uploader\<close>, \<open>Validation_Snapshot\<close>:
    \<open>loader-v3-codec.mjs\<close> and \<open>binary.mjs\<close>, \<open>upload-plan.mjs\<close>, \<open>throttled-uploader.mjs\<close>,
    \<open>upload-validation-snapshot.mjs\<close>.
  \<^item> \<open>Rpc_Ledger\<close>, \<open>Rpc_Scheduler\<close>: \<open>rpc-request-ledger.mjs\<close>, \<open>rpc-request-scheduler.mjs\<close>.  The
    scheduler is asynchronous: its state says which \<open>await\<close> the running item has reached, and a
    run is a sequence of events.
  \<^item> \<open>Safety\<close>, \<open>Cluster\<close>: \<open>safety.mjs\<close>, \<open>cluster.mjs\<close>.
  \<^item> \<open>Deployment\<close>, \<open>Live_Deployment\<close>, \<open>Plan_Command\<close>: \<open>deploy.mjs\<close>, \<open>live-deployment.mjs\<close>,
    \<open>plan-upload-command.mjs\<close>.
  \<^item> \<open>Execution_Contract\<close>: the command line of the upload and the sanitiser of its output
    (\<open>upload-execution-contract.mjs\<close>).  \<open>Iso_Time\<close>, \<open>Upload_Telemetry\<close>, \<open>Terminal_Evidence\<close>: the
    dates of \<open>Date\<close>, the telemetry of a run (\<open>upload-execution-telemetry.mjs\<close>) and the record of a
    run that failed (\<open>upload-terminal-evidence.mjs\<close>).
  \<^item> \<open>Lease_Files\<close>, \<open>Upload_Lease\<close>: the files and directories of a lease and its operations acquire,
    reconcile, apply and release (\<open>upload-execution-lease.mjs\<close>).  \<open>Lease_Recovery\<close>: the recovery of a
    lease whose run failed before it selected anything.  \<open>Lease_Refinement\<close> gives the abstract machine
    of all of them, with the simulation.
  \<^item> \<open>Command_Lines\<close>, \<open>Process_Classifier\<close>: how command lines are read, and which of the processes of
    the machine is an upload (\<open>upload-process-classifier.mjs\<close>).  \<open>Process_Supervisor\<close>: the process that
    runs the upload with a time limit, as a step relation on its timers and signals
    (\<open>upload-process-supervisor.mjs\<close>).  \<open>Candidate_Evidence\<close>: the document that lists the chunks of a
    window, with its canonical bytes (\<open>candidate-evidence.mjs\<close>).
  \<^item> \<open>Scenarios\<close>: concrete chains, plans and adapters.  \<open>Escrow_Properties\<close>, \<open>Upload_Properties\<close>,
    \<open>Rpc_Properties\<close>, \<open>Deployment_Properties\<close>, \<open>Execution_Properties\<close>, \<open>Process_Properties\<close>,
    \<open>Recovery_Properties\<close>, \<open>Window_Properties\<close>: the properties, numbered C1, C2 and so on, each with a
    witness that applies it to a concrete input where it has hypotheses.

  \<^bold>\<open>Conventions.\<close>  A function that may throw returns a sum, \<open>Inl\<close> the error; a call with effects
  maps a state to a result and the next state and keeps the effects before an exception.  Adapters,
  clocks and file systems are records of such calls, so that what a run did is in its final state
  or its trace.  Integers of the on-chain program are words; amounts in JavaScript are rationals,
  compared and added exactly.

  \<^bold>\<open>Bounds and fuel.\<close>  The wait for an expiry and the polling of the chain's clock may run for
  ever; the models take fuel, and the termination property shows that with a clock that a sleep advances, one poll more
  than the timeout has intervals is enough.  All other loops are structural or have a measure.
  Nothing bounds the number of events of the scheduler, of write windows or of steps of a chain.

  \<^bold>\<open>Parameters.\<close>  Code outside the repository is a parameter: web3.js and spl-token (base58,
  derivation of program addresses, serialised sizes, the instructions of other programs), SHA-256,
  the URL parser, the token program, timers, processes and the network.  Where a property relies
  on a law of such code, the law is a hypothesis and the witness gives a function that has it.

  \<^bold>\<open>Not modelled.\<close>  Rent, fees and sizes of accounts on the chain; the subscribers of the ledger; the
  receipts' constant fields; the command-line entry points, which parse arguments and print.  Not
  modelled either: the host of an upload window (\<open>upload-window-host.mjs\<close>), which runs the modelled
  supervisor under a time limit of its own and writes logs; the command behind the uploader
  (\<open>upload-execution-command.mjs\<close>, \<open>upload-buffer-cli.mjs\<close>), which connects the modelled uploader, lease,
  telemetry, scheduler and planner to the network; the adapter of the business flows over connections
  of web3.js; the identity and migration commands; the supervisor of the local validator, a test tool.
  What these parts give to the modelled ones is a parameter of the models.  Number-to-text conversion
  of fractions is a parameter, and the text of JSON documents is modelled for the candidate evidence
  only: elsewhere documents are values.
\<close>

end
